(* ===== verification/M2Prelude.thy ===== *)
theory M2Prelude
  imports Complex_Main "HOL-Library.Word"
begin

text \<open>
  What the theories of the M2 cell controller share: the exceptions of the C++ code as
  a datatype, \<open>std::to_string\<close> on integers, the one-bit update that every bitmap class of
  the program is built from, elapsed time in seconds, and the collections of simplification
  rules that the component theories add to.
\<close>

unbundle bit_operations_syntax

named_theorems bitmap_simps "reading and writing single bits of the port and fault bitmaps"
named_theorems power_simps "how the operations of a power subsystem change its state"
named_theorems world_frame "parts of the system state that an operation leaves alone"

section \<open>Exceptions\<close>

text \<open>
  Every exception the modelled code throws. An operation that may throw returns a value of
  \<open>cpp_error + 'a\<close>: \<open>Inl\<close> is the exception, \<open>Inr\<close> the normal result.
  \<open>JsonException\<close> is one of \<open>nlohmann::json\<close>; \<open>UndefinedBehaviour\<close> marks an access that C++
  leaves undefined, such as a vector element past the end.
\<close>

datatype cpp_error =
    RangeError string
  | Bug string
  | ConfigException string
  | NetCommandException string
  | RuntimeError string
  | TelemetryException string
  | JsonException string
  | UndefinedBehaviour string

type_synonym 'a result = "cpp_error + 'a"

fun bind_result :: "'a result \<Rightarrow> ('a \<Rightarrow> 'b result) \<Rightarrow> 'b result" where
  "bind_result (Inl e) f = Inl e"
| "bind_result (Inr x) f = f x"

lemma bind_result_Inr_iff:
  "bind_result r f = Inr y \<longleftrightarrow> (\<exists>x. r = Inr x \<and> f x = Inr y)"
  by (cases r) auto

section \<open>Integers as decimal strings\<close>

fun nat_digits :: "nat \<Rightarrow> string" where
  "nat_digits n =
     (if n < 10 then [char_of (48 + n)] else nat_digits (n div 10) @ [char_of (48 + n mod 10)])"

declare nat_digits.simps [simp del]

definition to_string :: "int \<Rightarrow> string" where
  "to_string i = (if i < 0 then CHR ''-'' # nat_digits (nat (- i)) else nat_digits (nat i))"

fun digits_value :: "nat \<Rightarrow> string \<Rightarrow> nat" where
  "digits_value acc [] = acc"
| "digits_value acc (c # cs) = digits_value (acc * 10 + (of_char c - 48)) cs"

lemma digits_value_append:
  "digits_value acc (xs @ ys) = digits_value (digits_value acc xs) ys"
  by (induction xs arbitrary: acc) auto

lemma of_char_digit: "d < 10 \<Longrightarrow> (of_char (char_of (48 + d) :: char) :: nat) = 48 + d"
  by (simp add: of_char_of)

lemma digits_value_nat_digits: "digits_value 0 (nat_digits n) = n"
proof (induction n rule: nat_digits.induct)
  case (1 n)
  show ?case
  proof (cases "n < 10")
    case True
    then show ?thesis by (subst nat_digits.simps) (simp add: of_char_digit)
  next
    case False
    with "1.IH" show ?thesis
      by (subst nat_digits.simps) (simp add: digits_value_append of_char_digit)
  qed
qed

lemma nat_digits_inj: "nat_digits m = nat_digits n \<Longrightarrow> m = n"
  by (metis digits_value_nat_digits)

lemma nat_digits_range: "c \<in> set (nat_digits n) \<Longrightarrow> 48 \<le> (of_char c :: nat) \<and> (of_char c :: nat) < 58"
proof (induction n rule: nat_digits.induct)
  case (1 n)
  show ?case
  proof (cases "n < 10")
    case True
    with "1.prems" show ?thesis by (subst (asm) nat_digits.simps) (simp add: of_char_digit)
  next
    case False
    with "1.prems" have "c \<in> set (nat_digits (n div 10)) \<or> c = char_of (48 + n mod 10)"
      by (subst (asm) nat_digits.simps) auto
    with "1.IH" False show ?thesis by (auto simp: of_char_digit)
  qed
qed

lemma nat_digits_no_minus: "CHR ''-'' \<notin> set (nat_digits n)"
proof
  assume "CHR ''-'' \<in> set (nat_digits n)"
  from nat_digits_range [OF this] show False by simp
qed

lemma nat_digits_no_space: "CHR '' '' \<notin> set (nat_digits n)"
proof
  assume "CHR '' '' \<in> set (nat_digits n)"
  from nat_digits_range [OF this] show False by simp
qed

lemma to_string_no_space: "CHR '' '' \<notin> set (to_string i)"
  by (simp add: to_string_def nat_digits_no_space)

lemma to_string_inj: "to_string i = to_string j \<Longrightarrow> i = j"
proof -
  assume eq: "to_string i = to_string j"
  have neg: "to_string k = CHR ''-'' # xs \<Longrightarrow> k < 0" for k xs
    using nat_digits_no_minus [of "nat k"] by (auto simp: to_string_def split: if_splits)
  show "i = j"
  proof (cases "i < 0")
    case True
    with eq have "j < 0" by (metis neg to_string_def)
    with True eq show ?thesis
      by (auto simp: to_string_def dest!: nat_digits_inj)
  next
    case False
    with eq have "\<not> j < 0" by (metis neg to_string_def)
    with False eq show ?thesis
      by (auto simp: to_string_def dest!: nat_digits_inj)
  qed
qed

text \<open>The part of a string after its last space, used to read the number off a bit's name.\<close>

definition last_word :: "string \<Rightarrow> string" where
  "last_word s = rev (takeWhile (\<lambda>c. c \<noteq> CHR '' '') (rev s))"

lemma last_word_append: "CHR '' '' \<notin> set t \<Longrightarrow> last_word (s @ CHR '' '' # t) = t"
proof -
  assume "CHR '' '' \<notin> set t"
  then have "takeWhile (\<lambda>c. c \<noteq> CHR '' '') (rev t @ CHR '' '' # rev s) = rev t"
    by (subst takeWhile_append2) auto
  then show ?thesis by (simp add: last_word_def)
qed

section \<open>One bit of a bitmap\<close>

text \<open>
  The common body of \<open>setBit64\<close>, \<open>setBit32\<close>, \<open>setBit8\<close> and \<open>FpgaBooleans::setBit\<close>: shift a
  one to the position, then \<open>bitmap |= bit\<close> or \<open>bitmap &= ~bit\<close>, in a word of the bitmap's own
  width.
\<close>

definition write_bit :: "'a::len word \<Rightarrow> nat \<Rightarrow> bool \<Rightarrow> 'a word" where
  "write_bit bm n v =
     (let b = push_bit n 1 in if v then bm OR b else bm AND NOT b)"

lemma bit_push_one: "bit (push_bit n (1 :: 'a::len word)) m \<longleftrightarrow> m = n \<and> m < LENGTH('a)"
  by (auto simp: bit_simps)

lemma bit_write_bit [bitmap_simps]:
  "bit (write_bit (bm :: 'a::len word) n v) m \<longleftrightarrow>
     (if m = n then v \<and> m < LENGTH('a) else bit bm m)"
  by (auto simp: write_bit_def Let_def bit_simps dest: bit_imp_le_length)

lemma write_bit_same: "write_bit (write_bit bm n v) n w = write_bit bm n w"
  by (rule bit_word_eqI) (simp add: bit_write_bit)

lemma write_bit_comm: "m \<noteq> n \<Longrightarrow> write_bit (write_bit bm n v) m w = write_bit (write_bit bm m w) n v"
  by (rule bit_word_eqI) (simp add: bit_write_bit)

lemma and_push_one_eq: "(bm AND push_bit n 1 \<noteq> 0) \<longleftrightarrow> bit (bm :: 'a::len word) n"
  by (simp add: push_bit_eq_mult and_exp_eq_0_iff_not_bit)

lemma and_two_power_eq [simp]: "(bm :: 'a::len word) AND 2 ^ n = 0 \<longleftrightarrow> \<not> bit bm n"
  using and_push_one_eq [of bm n, simplified] by blast

text \<open>
  What every bitmap class offers its clients: a read and a write of one position. The laws
  are what the clients use, a written position reads back and the others are unchanged; the
  locale is interpreted on each bitmap class in its own theory.
\<close>

locale bitmap_port =
  fixes getb :: "'b \<Rightarrow> int \<Rightarrow> bool"
    and setb :: "'b \<Rightarrow> int \<Rightarrow> bool \<Rightarrow> 'b result"
    and width :: int
  assumes set_in_range: "\<lbrakk> 0 \<le> p; p < width \<rbrakk> \<Longrightarrow> \<exists>b'. setb b p v = Inr b'"
    and set_out_of_range: "p < 0 \<or> width \<le> p \<Longrightarrow> \<exists>e. setb b p v = Inl e"
    and get_set: "setb b p v = Inr b' \<Longrightarrow> 0 \<le> q \<Longrightarrow> q < width \<Longrightarrow>
      getb b' q = (if q = p then v else getb b q)"
    and port_ext: "(\<And>p. 0 \<le> p \<Longrightarrow> p < width \<Longrightarrow> getb b p = getb c p) \<Longrightarrow> b = c"
begin

lemma set_defined_iff: "(\<exists>b'. setb b p v = Inr b') \<longleftrightarrow> 0 \<le> p \<and> p < width"
  by (metis Inl_Inr_False not_le set_in_range set_out_of_range)

lemma get_set_same: "setb b p v = Inr b' \<Longrightarrow> getb b' p = v"
  using get_set [of b p v b' p] set_defined_iff [of b p v] by auto

lemma set_get_id: "0 \<le> p \<Longrightarrow> p < width \<Longrightarrow> setb b p (getb b p) = Inr b"
proof -
  assume p: "0 \<le> p" "p < width"
  then obtain b' where b': "setb b p (getb b p) = Inr b'" using set_in_range by blast
  have "b' = b" by (rule port_ext) (use get_set [OF b'] in auto)
  with b' show ?thesis by simp
qed

lemma set_set: "setb b p v = Inr c \<Longrightarrow> setb c p w = setb b p w"
proof -
  assume c: "setb b p v = Inr c"
  then have p: "0 \<le> p" "p < width" using set_defined_iff by blast+
  obtain d where d: "setb c p w = Inr d" using set_in_range [OF p] by blast
  obtain e where e: "setb b p w = Inr e" using set_in_range [OF p] by blast
  have "d = e" by (rule port_ext) (use get_set [OF c] get_set [OF d] get_set [OF e] in auto)
  with d e show ?thesis by simp
qed

lemma set_commute:
  "setb b p v = Inr c \<Longrightarrow> setb c q w = Inr d \<Longrightarrow> p \<noteq> q \<Longrightarrow>
     \<exists>c'. setb b q w = Inr c' \<and> setb c' p v = Inr d"
proof -
  assume c: "setb b p v = Inr c" and d: "setb c q w = Inr d" and pq: "p \<noteq> q"
  have p: "0 \<le> p" "p < width" using c set_defined_iff by blast+
  have q: "0 \<le> q" "q < width" using d set_defined_iff by blast+
  obtain c' where c': "setb b q w = Inr c'" using set_in_range [OF q] by blast
  obtain d' where d': "setb c' p v = Inr d'" using set_in_range [OF p] by blast
  have "d' = d"
    by (rule port_ext) (use get_set [OF c] get_set [OF d] get_set [OF c'] get_set [OF d'] pq in auto)
  with c' d' show ?thesis by blast
qed

end

section \<open>Time\<close>

text \<open>
  \<open>TIMEPOINT\<close> is a point of \<open>std::chrono::steady_clock\<close>, a count of nanoseconds;
  \<open>timePassedSec\<close> is the difference of two of them in seconds. Volts, amps and seconds are
  \<open>double\<close> in the code and \<open>real\<close> here: no rounding, no NaN, no infinity.
\<close>

type_synonym timepoint = int

definition timePassedSec :: "timepoint \<Rightarrow> timepoint \<Rightarrow> real" where
  "timePassedSec start end_t = real_of_int (end_t - start) / 1000000000"

lemma timePassedSec_refl [simp]: "timePassedSec t t = 0"
  by (simp add: timePassedSec_def)

lemma timePassedSec_nonneg_iff: "0 \<le> timePassedSec s e \<longleftrightarrow> s \<le> e"
  by (simp add: timePassedSec_def)

lemma timePassedSec_mono: "e \<le> e' \<Longrightarrow> timePassedSec s e \<le> timePassedSec s e'"
  by (simp add: timePassedSec_def divide_right_mono)

end
