(* ===== verification/ControlDefs.thy ===== *)
theory ControlDefs
  imports M2Prelude
begin

text \<open>
  The enumerations of \<open>control/control_defs.h\<close> with their integer values, which are what
  the JSON messages carry, and the functions of \<open>control_defs.cpp\<close> that name them.
\<close>

section \<open>Status of a subsystem\<close>

datatype SysStatus = CRITICAL | FAULT | WARN | GOOD | WAITING

fun sysStatusVal :: "SysStatus \<Rightarrow> int" where
  "sysStatusVal CRITICAL = -3"
| "sysStatusVal FAULT = -2"
| "sysStatusVal WARN = -1"
| "sysStatusVal GOOD = 0"
| "sysStatusVal WAITING = 1"

lemma sysStatusVal_inj: "sysStatusVal a = sysStatusVal b \<longleftrightarrow> a = b"
  by (cases a; cases b) auto

text \<open>The code compares statuses as the integers of the enumeration; the lowest is the worst.\<close>

instantiation SysStatus :: linorder
begin

definition less_eq_SysStatus :: "SysStatus \<Rightarrow> SysStatus \<Rightarrow> bool" where
  "a \<le> b \<longleftrightarrow> sysStatusVal a \<le> sysStatusVal b"

definition less_SysStatus :: "SysStatus \<Rightarrow> SysStatus \<Rightarrow> bool" where
  "a < b \<longleftrightarrow> sysStatusVal a < sysStatusVal b"

instance
  by standard (auto simp: less_eq_SysStatus_def less_SysStatus_def sysStatusVal_inj)

end

lemmas SysStatus_less_defs = less_eq_SysStatus_def less_SysStatus_def

fun getSysStatusStr :: "SysStatus \<Rightarrow> string" where
  "getSysStatusStr GOOD = ''GOOD''"
| "getSysStatusStr WAITING = ''WATIING''"
| "getSysStatusStr WARN = ''WARN''"
| "getSysStatusStr FAULT = ''FAULT''"
| "getSysStatusStr CRITICAL = ''CRITICAL''"

section \<open>Power subsystems and their states\<close>

datatype PowerSystemType = MOTOR | COMM | UNKNOWNPOWERSYSTEM

fun powerSystemTypeVal :: "PowerSystemType \<Rightarrow> int" where
  "powerSystemTypeVal MOTOR = 1"
| "powerSystemTypeVal COMM = 2"
| "powerSystemTypeVal UNKNOWNPOWERSYSTEM = 3"

fun getPowerSystemTypeStr :: "PowerSystemType \<Rightarrow> string" where
  "getPowerSystemTypeStr MOTOR = ''MOTOR''"
| "getPowerSystemTypeStr COMM = ''COMM''"
| "getPowerSystemTypeStr UNKNOWNPOWERSYSTEM = ''UNKNOWNPOWERSYSTEM''"

definition intToPowerSystemType :: "int \<Rightarrow> PowerSystemType" where
  "intToPowerSystemType val =
     (if val = powerSystemTypeVal MOTOR then MOTOR
      else if val = powerSystemTypeVal COMM then COMM
      else UNKNOWNPOWERSYSTEM)"

datatype PowerState = UNKNOWN | OFF | TURNING_ON | RESET | ON | TURNING_OFF

fun powerStateVal :: "PowerState \<Rightarrow> int" where
  "powerStateVal UNKNOWN = 1"
| "powerStateVal OFF = 2"
| "powerStateVal TURNING_ON = 3"
| "powerStateVal RESET = 4"
| "powerStateVal ON = 5"
| "powerStateVal TURNING_OFF = 6"

fun getPowerStateOldStr :: "PowerState \<Rightarrow> string" where
  "getPowerStateOldStr UNKNOWN = ''Init''"
| "getPowerStateOldStr OFF = ''PoweredOff''"
| "getPowerStateOldStr TURNING_ON = ''PoweringOn''"
| "getPowerStateOldStr RESET = ''ResettingBreakers''"
| "getPowerStateOldStr ON = ''PoweredOn''"
| "getPowerStateOldStr TURNING_OFF = ''PoweringOff''"

definition getPowerStateStr :: "PowerState \<Rightarrow> string" where
  "getPowerStateStr powerState =
     (let valStr = '' '' @ to_string (powerStateVal powerState)
      in (case powerState of
            ON \<Rightarrow> ''ON''
          | TURNING_ON \<Rightarrow> ''TURNING_ON''
          | TURNING_OFF \<Rightarrow> ''TURNING_OFF''
          | OFF \<Rightarrow> ''OFF''
          | RESET \<Rightarrow> ''RESET''
          | UNKNOWN \<Rightarrow> ''UNKNOWN'') @ valStr)"

lemma powerStateVal_inj: "powerStateVal a = powerStateVal b \<longleftrightarrow> a = b"
  by (cases a; cases b) auto

lemma powerSystemTypeVal_inj: "powerSystemTypeVal a = powerSystemTypeVal b \<longleftrightarrow> a = b"
  by (cases a; cases b) auto

lemma last_word_getPowerStateStr: "last_word (getPowerStateStr s) = to_string (powerStateVal s)"
  by (simp add: getPowerStateStr_def Let_def last_word_append to_string_no_space)

lemma intToPowerSystemType_val: "t \<noteq> UNKNOWNPOWERSYSTEM \<Longrightarrow>
    intToPowerSystemType v = t \<longleftrightarrow> v = powerSystemTypeVal t"
  by (cases t) (auto simp: intToPowerSystemType_def)

end
