(* ===== verification/FaultStatusBits.thy ===== *)
theory FaultStatusBits
  imports ControlDefs
begin

text \<open>
  \<open>faultmgr/FaultStatusBits\<close>: the 64-bit map of faults, warnings and information bits, the
  range-checked single-bit writes that all bitmap classes use, and the masks of the fault
  managers. The masks are built once behind a static pointer and returned from then on; a
  model of the value they return needs no state.
\<close>

section \<open>The bits\<close>

datatype (plugins only: code) fault_bit =
    STALE_DATA_WARN | STALE_DATA_FAULT | BROADCAST_ERR | ACTUATOR_FAULT | EXCESSIVE_FORCE |
    ACTUATOR_LIMIT_OL | ACTUATOR_LIMIT_CL | INCLINOMETER_W_LUT | INCLINOMETER_WO_LUT |
    MOTOR_VOLTAGE_FAULT | MOTOR_VOLTAGE_WARN | COMM_VOLTAGE_FAULT | COMM_VOLTAGE_WARN |
    MOTOR_OVER_CURRENT | COMM_OVER_CURRENT | POWER_RELAY_OPEN_FAULT | POWER_HEALTH_FAULT |
    COMM_MULTI_BREAKER_FAULT | MOTOR_MULTI_BREAKER_FAULT | SINGLE_BREAKER_TRIP |
    POWER_SUPPLY_LOAD_SHARE_ERR | DISPLACEMENT_SENSOR_RANGE_ERR | INCLINOMETER_RANGE_ERR |
    MIRROR_TEMP_SENSOR_FAULT | MIRROR_TEMP_SENSOR_WARN | CELL_TEMP_WARN |
    AXIAL_ACTUATOR_ENCODER_RANGE_FAULT | TANGENT_ACTUATOR_ENCODER_RANGE_FAULT | MOTOR_RELAY |
    COMM_RELAY | HARDWARE_FAULT | INTERLOCK_FAULT | TANGENT_LOAD_CELL_FAULT |
    ELEVATION_ANGLE_DIFF_FAULT | MONITOR_ILC_READ_WARN | POWER_SYSTEM_TIMEOUT |
    PARAMETER_FILE_READ_FAULT | ILC_STATE_TRANSITION_FAULT | CRIO_COMM_FAULT |
    LOSS_OF_TMA_WARN | LOSS_OF_TMA_COMM_ON_ENABLE_FAULT | TEMP_DIFF_WARN | CRIO_TIMING_FAULT |
    CRIO_TIMING_WARN | USER_GENERATED_FAULT

fun fault_pos :: "fault_bit \<Rightarrow> int" where
  "fault_pos STALE_DATA_WARN = 0"
| "fault_pos STALE_DATA_FAULT = 1"
| "fault_pos BROADCAST_ERR = 2"
| "fault_pos ACTUATOR_FAULT = 3"
| "fault_pos EXCESSIVE_FORCE = 4"
| "fault_pos ACTUATOR_LIMIT_OL = 5"
| "fault_pos ACTUATOR_LIMIT_CL = 6"
| "fault_pos INCLINOMETER_W_LUT = 7"
| "fault_pos INCLINOMETER_WO_LUT = 8"
| "fault_pos MOTOR_VOLTAGE_FAULT = 9"
| "fault_pos MOTOR_VOLTAGE_WARN = 10"
| "fault_pos COMM_VOLTAGE_FAULT = 11"
| "fault_pos COMM_VOLTAGE_WARN = 12"
| "fault_pos MOTOR_OVER_CURRENT = 13"
| "fault_pos COMM_OVER_CURRENT = 14"
| "fault_pos POWER_RELAY_OPEN_FAULT = 15"
| "fault_pos POWER_HEALTH_FAULT = 16"
| "fault_pos COMM_MULTI_BREAKER_FAULT = 17"
| "fault_pos MOTOR_MULTI_BREAKER_FAULT = 18"
| "fault_pos SINGLE_BREAKER_TRIP = 19"
| "fault_pos POWER_SUPPLY_LOAD_SHARE_ERR = 20"
| "fault_pos DISPLACEMENT_SENSOR_RANGE_ERR = 21"
| "fault_pos INCLINOMETER_RANGE_ERR = 22"
| "fault_pos MIRROR_TEMP_SENSOR_FAULT = 23"
| "fault_pos MIRROR_TEMP_SENSOR_WARN = 24"
| "fault_pos CELL_TEMP_WARN = 25"
| "fault_pos AXIAL_ACTUATOR_ENCODER_RANGE_FAULT = 26"
| "fault_pos TANGENT_ACTUATOR_ENCODER_RANGE_FAULT = 27"
| "fault_pos MOTOR_RELAY = 28"
| "fault_pos COMM_RELAY = 29"
| "fault_pos HARDWARE_FAULT = 30"
| "fault_pos INTERLOCK_FAULT = 31"
| "fault_pos TANGENT_LOAD_CELL_FAULT = 32"
| "fault_pos ELEVATION_ANGLE_DIFF_FAULT = 33"
| "fault_pos MONITOR_ILC_READ_WARN = 34"
| "fault_pos POWER_SYSTEM_TIMEOUT = 35"
| "fault_pos PARAMETER_FILE_READ_FAULT = 55"
| "fault_pos ILC_STATE_TRANSITION_FAULT = 56"
| "fault_pos CRIO_COMM_FAULT = 57"
| "fault_pos LOSS_OF_TMA_WARN = 58"
| "fault_pos LOSS_OF_TMA_COMM_ON_ENABLE_FAULT = 59"
| "fault_pos TEMP_DIFF_WARN = 60"
| "fault_pos CRIO_TIMING_FAULT = 61"
| "fault_pos CRIO_TIMING_WARN = 62"
| "fault_pos USER_GENERATED_FAULT = 63"

fun fault_name :: "fault_bit \<Rightarrow> string" where
  "fault_name STALE_DATA_WARN = ''STALE_DATA_WARN''"
| "fault_name STALE_DATA_FAULT = ''STALE_DATA_FAULT''"
| "fault_name BROADCAST_ERR = ''BROADCAST_ERR''"
| "fault_name ACTUATOR_FAULT = ''ACTUATOR_FAULT''"
| "fault_name EXCESSIVE_FORCE = ''EXCESSIVE_FORCE''"
| "fault_name ACTUATOR_LIMIT_OL = ''ACTUATOR_LIMIT_OL''"
| "fault_name ACTUATOR_LIMIT_CL = ''ACTUATOR_LIMIT_CL''"
| "fault_name INCLINOMETER_W_LUT = ''INCLINOMETER_W_LUT''"
| "fault_name INCLINOMETER_WO_LUT = ''INCLINOMETER_WO_LUT''"
| "fault_name MOTOR_VOLTAGE_FAULT = ''MOTOR_VOLTAGE_FAULT''"
| "fault_name MOTOR_VOLTAGE_WARN = ''MOTOR_VOLTAGE_WARN''"
| "fault_name COMM_VOLTAGE_FAULT = ''COMM_VOLTAGE_FAULT''"
| "fault_name COMM_VOLTAGE_WARN = ''COMM_VOLTAGE_WARN''"
| "fault_name MOTOR_OVER_CURRENT = ''MOTOR_OVER_CURRENT''"
| "fault_name COMM_OVER_CURRENT = ''COMM_OVER_CURRENT''"
| "fault_name POWER_RELAY_OPEN_FAULT = ''POWER_RELAY_OPEN_FAULT''"
| "fault_name POWER_HEALTH_FAULT = ''POWER_HEALTH_FAULT''"
| "fault_name COMM_MULTI_BREAKER_FAULT = ''COMM_MULTI_BREAKER_FAULT''"
| "fault_name MOTOR_MULTI_BREAKER_FAULT = ''MOTOR_MULTI_BREAKER_FAULT''"
| "fault_name SINGLE_BREAKER_TRIP = ''SINGLE_BREAKER_TRIP''"
| "fault_name POWER_SUPPLY_LOAD_SHARE_ERR = ''POWER_SUPPLY_LOAD_SHARE_ERR''"
| "fault_name DISPLACEMENT_SENSOR_RANGE_ERR = ''DISPLACEMENT_SENSOR_RANGE_ERR''"
| "fault_name INCLINOMETER_RANGE_ERR = ''INCLINOMETER_RANGE_ERR''"
| "fault_name MIRROR_TEMP_SENSOR_FAULT = ''MIRROR_TEMP_SENSOR_FAULT''"
| "fault_name MIRROR_TEMP_SENSOR_WARN = ''MIRROR_TEMP_SENSOR_WARN''"
| "fault_name CELL_TEMP_WARN = ''CELL_TEMP_WARN''"
| "fault_name AXIAL_ACTUATOR_ENCODER_RANGE_FAULT = ''AXIAL_ACTUATOR_ENCODER_RANGE_FAULT''"
| "fault_name TANGENT_ACTUATOR_ENCODER_RANGE_FAULT = ''TANGENT_ACTUATOR_ENCODER_RANGE_FAULT''"
| "fault_name MOTOR_RELAY = ''MOTOR_RELAY''"
| "fault_name COMM_RELAY = ''COMM_RELAY''"
| "fault_name HARDWARE_FAULT = ''HARDWARE_FAULT''"
| "fault_name INTERLOCK_FAULT = ''INTERLOCK_FAULT''"
| "fault_name TANGENT_LOAD_CELL_FAULT = ''TANGENT_LOAD_CELL_FAULT''"
| "fault_name ELEVATION_ANGLE_DIFF_FAULT = ''ELEVATION_ANGLE_DIFF_FAULT''"
| "fault_name MONITOR_ILC_READ_WARN = ''MONITOR_ILC_READ_WARN''"
| "fault_name POWER_SYSTEM_TIMEOUT = ''POWER_SYSTEM_TIMEOUT''"
| "fault_name PARAMETER_FILE_READ_FAULT = ''PARAMETER_FILE_READ_FAULT''"
| "fault_name ILC_STATE_TRANSITION_FAULT = ''ILC_STATE_TRANSITION_FAULT''"
| "fault_name CRIO_COMM_FAULT = ''CRIO_COMM_FAULT''"
| "fault_name LOSS_OF_TMA_WARN = ''LOSS_OF_TMA_WARN''"
| "fault_name LOSS_OF_TMA_COMM_ON_ENABLE_FAULT = ''LOSS_OF_TMA_COMM_ON_ENABLE_FAULT''"
| "fault_name TEMP_DIFF_WARN = ''TEMP_DIFF_WARN''"
| "fault_name CRIO_TIMING_FAULT = ''CRIO_TIMING_FAULT''"
| "fault_name CRIO_TIMING_WARN = ''CRIO_TIMING_WARN''"
| "fault_name USER_GENERATED_FAULT = ''USER_GENERATED_FAULT''"

definition fault_bits :: "fault_bit list" where
  "fault_bits = [
    STALE_DATA_WARN, STALE_DATA_FAULT, BROADCAST_ERR, ACTUATOR_FAULT, EXCESSIVE_FORCE,
    ACTUATOR_LIMIT_OL, ACTUATOR_LIMIT_CL, INCLINOMETER_W_LUT, INCLINOMETER_WO_LUT,
    MOTOR_VOLTAGE_FAULT, MOTOR_VOLTAGE_WARN, COMM_VOLTAGE_FAULT, COMM_VOLTAGE_WARN,
    MOTOR_OVER_CURRENT, COMM_OVER_CURRENT, POWER_RELAY_OPEN_FAULT, POWER_HEALTH_FAULT,
    COMM_MULTI_BREAKER_FAULT, MOTOR_MULTI_BREAKER_FAULT, SINGLE_BREAKER_TRIP,
    POWER_SUPPLY_LOAD_SHARE_ERR, DISPLACEMENT_SENSOR_RANGE_ERR, INCLINOMETER_RANGE_ERR,
    MIRROR_TEMP_SENSOR_FAULT, MIRROR_TEMP_SENSOR_WARN, CELL_TEMP_WARN,
    AXIAL_ACTUATOR_ENCODER_RANGE_FAULT, TANGENT_ACTUATOR_ENCODER_RANGE_FAULT, MOTOR_RELAY,
    COMM_RELAY, HARDWARE_FAULT, INTERLOCK_FAULT, TANGENT_LOAD_CELL_FAULT,
    ELEVATION_ANGLE_DIFF_FAULT, MONITOR_ILC_READ_WARN, POWER_SYSTEM_TIMEOUT,
    PARAMETER_FILE_READ_FAULT, ILC_STATE_TRANSITION_FAULT, CRIO_COMM_FAULT, LOSS_OF_TMA_WARN,
    LOSS_OF_TMA_COMM_ON_ENABLE_FAULT, TEMP_DIFF_WARN, CRIO_TIMING_FAULT, CRIO_TIMING_WARN,
    USER_GENERATED_FAULT]"

definition fault_of_pos :: "int \<Rightarrow> fault_bit option" where
  "fault_of_pos v = find (\<lambda>b. fault_pos b = v) fault_bits"

lemma fault_pos_range: "0 \<le> fault_pos b \<and> fault_pos b < 64"
  by (cases b) simp_all

lemma fault_bits_UNIV: "b \<in> set fault_bits"
  by (cases b) (simp_all add: fault_bits_def)

lemma distinct_fault_positions: "distinct (map fault_pos fault_bits)"
  by (simp add: fault_bits_def)

lemma fault_pos_inj: "fault_pos a = fault_pos b \<longleftrightarrow> a = b"
  using distinct_fault_positions fault_bits_UNIV
  by (metis distinct_map inj_onD)

lemma fault_of_pos_iff: "fault_of_pos v = Some b \<longleftrightarrow> fault_pos b = v"
proof
  assume "fault_of_pos v = Some b"
  then show "fault_pos b = v" by (auto simp: fault_of_pos_def find_Some_iff)
next
  assume v: "fault_pos b = v"
  have "fault_of_pos v \<noteq> None"
    using v fault_bits_UNIV [of b] by (auto simp: fault_of_pos_def find_None_iff)
  then obtain c where c: "fault_of_pos v = Some c" by blast
  then have "fault_pos c = v" by (auto simp: fault_of_pos_def find_Some_iff)
  with v c show "fault_of_pos v = Some b" by (metis fault_pos_inj)
qed

section \<open>Writing and reading one bit\<close>

definition setBit64 :: "64 word \<Rightarrow> int \<Rightarrow> bool \<Rightarrow> 64 word result" where
  "setBit64 bitmap pos v =
     (if pos < 0 \<or> pos \<ge> 64 then Inl (RangeError (''setBit64 out of range pos='' @ to_string pos))
      else Inr (write_bit bitmap (nat pos) v))"

definition setBit32 :: "32 word \<Rightarrow> int \<Rightarrow> bool \<Rightarrow> 32 word result" where
  "setBit32 bitmap pos v =
     (if pos < 0 \<or> pos \<ge> 32 then Inl (RangeError (''setBit32 out of range pos='' @ to_string pos))
      else Inr (write_bit bitmap (nat pos) v))"

definition setBit8 :: "8 word \<Rightarrow> int \<Rightarrow> bool \<Rightarrow> 8 word result" where
  "setBit8 bitmap pos v =
     (if pos < 0 \<or> pos \<ge> 8 then Inl (RangeError (''setBit8 out of range pos='' @ to_string pos))
      else Inr (write_bit bitmap (nat pos) v))"

definition setBitAt :: "64 word \<Rightarrow> int \<Rightarrow> 64 word result" where
  "setBitAt bitmap pos = setBit64 bitmap pos True"

definition unsetBitAt :: "64 word \<Rightarrow> int \<Rightarrow> 64 word result" where
  "unsetBitAt bitmap pos = setBit64 bitmap pos False"

definition getBitsSetInMask :: "'a::len word \<Rightarrow> 'a word \<Rightarrow> 'a word" where
  "getBitsSetInMask bitmap msk = bitmap AND msk"

definition getBitsSetOutOfMask :: "'a::len word \<Rightarrow> 'a word \<Rightarrow> 'a word" where
  "getBitsSetOutOfMask bitmap msk = bitmap AND NOT msk"

definition getBit :: "64 word \<Rightarrow> int \<Rightarrow> 64 word" where
  "getBit bitmap pos =
     (if pos < 0 \<or> pos \<ge> 64 then 0 else getBitsSetInMask bitmap (push_bit (nat pos) 1))"

lemma getBit_nonzero: "getBit bm p \<noteq> 0 \<longleftrightarrow> 0 \<le> p \<and> p < 64 \<and> bit bm (nat p)"
  by (auto simp: getBit_def getBitsSetInMask_def and_push_one_eq)

lemma word_ext_int:
  assumes "\<And>p. 0 \<le> p \<Longrightarrow> p < int LENGTH('a) \<Longrightarrow> bit b (nat p) = bit c (nat p)"
  shows "b = (c :: 'a::len word)"
proof (rule bit_word_eqI)
  fix n assume "n < LENGTH('a)"
  with assms [of "int n"] show "bit b n = bit c n" by simp
qed

lemma write_bit_int:
  "\<lbrakk> 0 \<le> p; 0 \<le> q; q < int LENGTH('a) \<rbrakk> \<Longrightarrow>
     bit (write_bit (b :: 'a::len word) (nat p) v) (nat q) = (if q = p then v else bit b (nat q))"
  by (auto simp: bit_write_bit)

interpretation fsb: bitmap_port "\<lambda>bm p. getBit bm p \<noteq> 0" setBit64 64
  by unfold_locales
    (auto simp: setBit64_def getBit_nonzero write_bit_int split: if_splits intro!: word_ext_int)

text \<open>
  Setting or unsetting an enumerator's bit never throws, as every enumerator is in range
  (\<open>setFault_setBitAt\<close>), so the callers use the plain bitmap.
\<close>

definition setFault :: "64 word \<Rightarrow> fault_bit \<Rightarrow> 64 word" where
  "setFault bitmap b = (case setBitAt bitmap (fault_pos b) of Inr bm \<Rightarrow> bm | Inl _ \<Rightarrow> bitmap)"

definition unsetFault :: "64 word \<Rightarrow> fault_bit \<Rightarrow> 64 word" where
  "unsetFault bitmap b = (case unsetBitAt bitmap (fault_pos b) of Inr bm \<Rightarrow> bm | Inl _ \<Rightarrow> bitmap)"

lemma setFault_setBitAt: "setBitAt bm (fault_pos b) = Inr (setFault bm b)"
  and unsetFault_unsetBitAt: "unsetBitAt bm (fault_pos b) = Inr (unsetFault bm b)"
  using fault_pos_range [of b]
  by (auto simp: setFault_def unsetFault_def setBitAt_def unsetBitAt_def setBit64_def)

definition hasFault :: "64 word \<Rightarrow> fault_bit \<Rightarrow> bool" where
  "hasFault bm b = bit bm (nat (fault_pos b))"

lemma nat_fault_pos_inj: "nat (fault_pos a) = nat (fault_pos b) \<longleftrightarrow> a = b"
  using fault_pos_range [of a] fault_pos_range [of b] fault_pos_inj [of a b] by auto

lemma bit_setFault [bitmap_simps]: "bit (setFault bm b) n \<longleftrightarrow> n = nat (fault_pos b) \<or> bit bm n"
  and bit_unsetFault [bitmap_simps]: "bit (unsetFault bm b) n \<longleftrightarrow> n \<noteq> nat (fault_pos b) \<and> bit bm n"
  using fault_pos_range [of b]
  by (auto simp: setFault_def unsetFault_def setBitAt_def unsetBitAt_def setBit64_def bit_write_bit)

lemma hasFault_setFault [bitmap_simps]: "hasFault (setFault bm b) c \<longleftrightarrow> c = b \<or> hasFault bm c"
  and hasFault_unsetFault [bitmap_simps]: "hasFault (unsetFault bm b) c \<longleftrightarrow> c \<noteq> b \<and> hasFault bm c"
  by (auto simp: hasFault_def bitmap_simps nat_fault_pos_inj)

lemma hasFault_zero [simp]: "\<not> hasFault 0 b"
  by (simp add: hasFault_def)

lemma hasFault_word_simps [bitmap_simps]:
  "hasFault (a AND b) c \<longleftrightarrow> hasFault a c \<and> hasFault b c"
  "hasFault (a OR b) c \<longleftrightarrow> hasFault a c \<or> hasFault b c"
  "hasFault (a XOR b) c \<longleftrightarrow> hasFault a c \<noteq> hasFault b c"
  "hasFault (NOT a) c \<longleftrightarrow> \<not> hasFault a c"
  using fault_pos_range [of c] by (auto simp: hasFault_def bit_simps)

section \<open>The masks\<close>

text \<open>A mask starts from another mask or from zero and sets the listed bits in turn.\<close>

definition setFaults :: "64 word \<Rightarrow> fault_bit list \<Rightarrow> 64 word" where
  "setFaults bm bs = foldl setFault bm bs"

lemma hasFault_setFaults [bitmap_simps]: "hasFault (setFaults bm bs) c \<longleftrightarrow> c \<in> set bs \<or> hasFault bm c"
  unfolding setFaults_def by (induction bs arbitrary: bm) (auto simp: bitmap_simps)

lemma bit_setFaults: "bit (setFaults bm bs) n \<longleftrightarrow> n \<in> (\<lambda>b. nat (fault_pos b)) ` set bs \<or> bit bm n"
  unfolding setFaults_def by (induction bs arbitrary: bm) (auto simp: bitmap_simps)

definition getMaskClosedLoopControl :: "64 word" where
  "getMaskClosedLoopControl = 0"

definition getMaskOpenLoopControl :: "64 word" where
  "getMaskOpenLoopControl = setFaults getMaskClosedLoopControl [
     ACTUATOR_LIMIT_CL, INCLINOMETER_W_LUT, CRIO_TIMING_FAULT, INCLINOMETER_RANGE_ERR,
     MIRROR_TEMP_SENSOR_FAULT, ELEVATION_ANGLE_DIFF_FAULT]"

definition getMaskTelemetryOnlyControl :: "64 word" where
  "getMaskTelemetryOnlyControl = setFaults getMaskOpenLoopControl [
     ACTUATOR_FAULT, EXCESSIVE_FORCE, MOTOR_VOLTAGE_FAULT, MOTOR_OVER_CURRENT,
     MOTOR_MULTI_BREAKER_FAULT, AXIAL_ACTUATOR_ENCODER_RANGE_FAULT,
     TANGENT_ACTUATOR_ENCODER_RANGE_FAULT, ILC_STATE_TRANSITION_FAULT]"

definition getMaskFaults :: "64 word" where
  "getMaskFaults = setFaults getMaskTelemetryOnlyControl [
     COMM_VOLTAGE_FAULT, COMM_OVER_CURRENT, POWER_RELAY_OPEN_FAULT, POWER_HEALTH_FAULT,
     COMM_MULTI_BREAKER_FAULT, POWER_SUPPLY_LOAD_SHARE_ERR, INTERLOCK_FAULT,
     TANGENT_LOAD_CELL_FAULT, LOSS_OF_TMA_COMM_ON_ENABLE_FAULT, CRIO_COMM_FAULT,
     USER_GENERATED_FAULT, PARAMETER_FILE_READ_FAULT, POWER_SYSTEM_TIMEOUT]"

definition getMaskWarn :: "64 word" where
  "getMaskWarn = setFaults 0 [
     ACTUATOR_LIMIT_OL, INCLINOMETER_WO_LUT, MOTOR_VOLTAGE_WARN, COMM_VOLTAGE_WARN,
     SINGLE_BREAKER_TRIP, CRIO_TIMING_WARN, DISPLACEMENT_SENSOR_RANGE_ERR,
     MIRROR_TEMP_SENSOR_WARN, CELL_TEMP_WARN, TEMP_DIFF_WARN, LOSS_OF_TMA_WARN,
     MONITOR_ILC_READ_WARN]"

definition getMaskInfo :: "64 word" where
  "getMaskInfo = setFaults 0 [
     BROADCAST_ERR, MOTOR_RELAY, COMM_RELAY, HARDWARE_FAULT, STALE_DATA_WARN, STALE_DATA_FAULT]"

definition maskSubsystemCommFault :: "64 word" where
  "maskSubsystemCommFault = setFaults 0 [
     COMM_VOLTAGE_FAULT, COMM_OVER_CURRENT, POWER_RELAY_OPEN_FAULT, COMM_MULTI_BREAKER_FAULT]"

definition maskSubsystemMotorFault :: "64 word" where
  "maskSubsystemMotorFault = setFaults 0 [
     MOTOR_VOLTAGE_FAULT, MOTOR_OVER_CURRENT, POWER_RELAY_OPEN_FAULT, MOTOR_MULTI_BREAKER_FAULT]"

definition getTelemetryFaultManagerAffectedFaultMask :: "64 word" where
  "getTelemetryFaultManagerAffectedFaultMask = setFaults 0 [
     ACTUATOR_LIMIT_CL, INCLINOMETER_W_LUT, INCLINOMETER_RANGE_ERR, MIRROR_TEMP_SENSOR_FAULT,
     ELEVATION_ANGLE_DIFF_FAULT, ACTUATOR_FAULT, EXCESSIVE_FORCE,
     AXIAL_ACTUATOR_ENCODER_RANGE_FAULT, TANGENT_ACTUATOR_ENCODER_RANGE_FAULT,
     TANGENT_LOAD_CELL_FAULT]"

definition getTelemetryFaultManagerAffectedWarningMask :: "64 word" where
  "getTelemetryFaultManagerAffectedWarningMask = setFaults 0 [
     MONITOR_ILC_READ_WARN, ACTUATOR_LIMIT_OL, INCLINOMETER_WO_LUT,
     DISPLACEMENT_SENSOR_RANGE_ERR, MIRROR_TEMP_SENSOR_WARN, CELL_TEMP_WARN, BROADCAST_ERR,
     STALE_DATA_WARN, STALE_DATA_FAULT]"

definition getPowerSubsystemFaultManagerAffectedFaultMask :: "64 word" where
  "getPowerSubsystemFaultManagerAffectedFaultMask = setFaults 0 [
     MOTOR_VOLTAGE_FAULT, MOTOR_OVER_CURRENT, MOTOR_MULTI_BREAKER_FAULT, COMM_VOLTAGE_FAULT,
     COMM_OVER_CURRENT, POWER_RELAY_OPEN_FAULT, POWER_HEALTH_FAULT, COMM_MULTI_BREAKER_FAULT,
     POWER_SUPPLY_LOAD_SHARE_ERR, INTERLOCK_FAULT, POWER_SYSTEM_TIMEOUT]"

definition getPowerSubsystemFaultManagerAffectedWarningMask :: "64 word" where
  "getPowerSubsystemFaultManagerAffectedWarningMask = setFaults 0 [
     MOTOR_VOLTAGE_WARN, COMM_VOLTAGE_WARN, SINGLE_BREAKER_TRIP, MOTOR_RELAY, COMM_RELAY,
     HARDWARE_FAULT]"

definition getMaskHealthFaults :: "64 word" where
  "getMaskHealthFaults = setFaults 0 [
     POWER_HEALTH_FAULT, POWER_SUPPLY_LOAD_SHARE_ERR]"

definition getMaskPowerSubsystemFaults :: "PowerSystemType \<Rightarrow> 64 word result" where
  "getMaskPowerSubsystemFaults sysType =
     (case sysType of
        COMM \<Rightarrow> Inr maskSubsystemCommFault
      | MOTOR \<Rightarrow> Inr maskSubsystemMotorFault
      | _ \<Rightarrow> Inl (Bug (''FaultStatusBits::getMaskPowerSubsystemFaults '' @
                       getPowerSystemTypeStr sysType @ '' unexpected type'')))"

lemmas mask_defs = getMaskClosedLoopControl_def getMaskOpenLoopControl_def
  getMaskTelemetryOnlyControl_def getMaskFaults_def getMaskWarn_def getMaskInfo_def
  maskSubsystemCommFault_def maskSubsystemMotorFault_def
  getTelemetryFaultManagerAffectedFaultMask_def getTelemetryFaultManagerAffectedWarningMask_def
  getPowerSubsystemFaultManagerAffectedFaultMask_def
  getPowerSubsystemFaultManagerAffectedWarningMask_def getMaskHealthFaults_def

text \<open>The masks as numbers, for evaluation.\<close>

lemma setFault_or: "setFault w b = w OR push_bit (nat (fault_pos b)) 1"
  by (cases b; simp add: setFault_def setBitAt_def setBit64_def write_bit_def)

lemma mask_values [code]:
  "getMaskOpenLoopControl = 2305843017816211648"
  "getMaskTelemetryOnlyControl = 2377900612055737048"
  "getMaskFaults = 12357877427112241880"
  "getMaskWarn = 6052837916418774304"
  "getMaskInfo = 1879048199"
  "maskSubsystemCommFault = 182272"
  "maskSubsystemMotorFault = 303616"
  "getTelemetryFaultManagerAffectedFaultMask = 13098811608"
  "getTelemetryFaultManagerAffectedWarningMask = 17232298279"
  "getPowerSubsystemFaultManagerAffectedFaultMask = 36508789248"
  "getPowerSubsystemFaultManagerAffectedWarningMask = 1879577600"
  "getMaskHealthFaults = 1114112"
  by (simp_all add: mask_defs setFaults_def setFault_or)

text \<open>A word all of whose set bits are enumerators is determined by \<open>hasFault\<close>.\<close>

lemma setFaults_zero_eqI:
  "(\<And>c. hasFault w c \<longleftrightarrow> c \<in> set bs) \<Longrightarrow> (\<And>n. bit w n \<Longrightarrow> \<exists>c. n = nat (fault_pos c)) \<Longrightarrow>
     w = setFaults 0 bs"
  by (rule bit_word_eqI) (fastforce simp: bit_setFaults hasFault_def)

section \<open>Naming the bits\<close>

definition getEnumString :: "int \<Rightarrow> string" where
  "getEnumString enumVal =
     (case fault_of_pos enumVal of
        Some b \<Rightarrow> fault_name b @ '' '' @ to_string enumVal
      | None \<Rightarrow> ''unknown '' @ to_string enumVal)"

text \<open>
  The loop of \<open>getAllSetBitEnums\<close>, shared by the three bitmap classes: \<open>msk\<close> is shifted left
  once per position \<open>j\<close>, \<open>n\<close> positions are left. \<open>name\<close> is the class's \<open>getEnumString\<close>.
\<close>

fun setBitEnumsLoop :: "(int \<Rightarrow> string) \<Rightarrow> 'a::len word \<Rightarrow> 'a word \<Rightarrow> int \<Rightarrow> nat \<Rightarrow> string" where
  "setBitEnumsLoop name bm msk j 0 = []"
| "setBitEnumsLoop name bm msk j (Suc n) =
     (if getBitsSetInMask bm msk \<noteq> 0 then name j @ '','' else []) @
     setBitEnumsLoop name bm (push_bit 1 msk) (j + 1) n"

definition getAllSetBitEnums :: "64 word \<Rightarrow> string" where
  "getAllSetBitEnums bm = setBitEnumsLoop getEnumString bm 1 0 64"

lemma setBitEnumsLoop_concat:
  "setBitEnumsLoop name (bm :: 'a::len word) (2 ^ j) (int j) n =
     concat (map (\<lambda>k. if bit bm k then name (int k) @ '','' else []) [j..<j + n])"
proof (induction n arbitrary: j)
  case 0
  then show ?case by simp
next
  case (Suc n)
  have upt: "[j..<j + Suc n] = j # [Suc j..<Suc j + n]" by (simp add: upt_conv_Cons)
  have step: "setBitEnumsLoop name bm (2 ^ j) (int j) (Suc n) =
      (if bit bm j then name (int j) @ '','' else []) @
      setBitEnumsLoop name bm (2 ^ Suc j) (int (Suc j)) n"
    by (simp add: getBitsSetInMask_def add.commute push_bit_eq_mult mult.commute)
  show ?case unfolding step upt Suc.IH [of "Suc j"] by simp
qed

end
