(* ===== verification/PortBits.thy ===== *)
theory PortBits
  imports FaultStatusBits
begin

text \<open>
  \<open>control/InputPortBits\<close>, \<open>control/OutputPortBits\<close> and \<open>control/FpgaBooleans\<close>: the 32 bits
  read from the hardware, the 8 bits written to it, and single bits of a byte. Each class is
  an instance of the bitmap interface of the prelude.
\<close>

section \<open>The input port\<close>

datatype (plugins only: code) in_bit =
    REDUNDANCY_OK | LOAD_DISTRIBUTION_OK | POWER_SUPPLY_2_DC_OK | POWER_SUPPLY_1_DC_OK |
    POWER_SUPPLY_2_CURRENT_OK | POWER_SUPPLY_1_CURRENT_OK | J1_W9_1_MTR_PWR_BRKR_OK |
    J1_W9_2_MTR_PWR_BRKR_OK | J1_W9_3_MTR_PWR_BRKR_OK | J2_W10_1_MTR_PWR_BRKR_OK |
    J2_W10_2_MTR_PWR_BRKR_OK | J2_W10_3_MTR_PWR_BRKR_OK | J3_W11_1_MTR_PWR_BRKR_OK |
    J3_W11_2_MTR_PWR_BRKR_OK | J3_W11_3_MTR_PWR_BRKR_OK | J1_W12_1_COMM_PWR_BRKR_OK |
    SPARE_D16 | SPARE_D17 | SPARE_D18 | SPARE_D19 | SPARE_D20 | SPARE_D21 | SPARE_D22 |
    SPARE_D23 | J1_W12_2_COMM_PWR_BRKR_OK | J2_W13_1_COMM_PWR_BRKR_OK |
    J2_W13_2_COMM_PWR_BRKR_OK | J3_W14_1_COMM_PWR_BRKR_OK | J3_W14_2_COMM_PWR_BRKR_OK |
    SPARE_D29 | SPARE_D30 | INTERLOCK_POWER_RELAY | ALWAYS_HIGH | ALWAYS_LOW

fun in_pos :: "in_bit \<Rightarrow> int" where
  "in_pos REDUNDANCY_OK = 0"
| "in_pos LOAD_DISTRIBUTION_OK = 1"
| "in_pos POWER_SUPPLY_2_DC_OK = 2"
| "in_pos POWER_SUPPLY_1_DC_OK = 3"
| "in_pos POWER_SUPPLY_2_CURRENT_OK = 4"
| "in_pos POWER_SUPPLY_1_CURRENT_OK = 5"
| "in_pos J1_W9_1_MTR_PWR_BRKR_OK = 6"
| "in_pos J1_W9_2_MTR_PWR_BRKR_OK = 7"
| "in_pos J1_W9_3_MTR_PWR_BRKR_OK = 8"
| "in_pos J2_W10_1_MTR_PWR_BRKR_OK = 9"
| "in_pos J2_W10_2_MTR_PWR_BRKR_OK = 10"
| "in_pos J2_W10_3_MTR_PWR_BRKR_OK = 11"
| "in_pos J3_W11_1_MTR_PWR_BRKR_OK = 12"
| "in_pos J3_W11_2_MTR_PWR_BRKR_OK = 13"
| "in_pos J3_W11_3_MTR_PWR_BRKR_OK = 14"
| "in_pos J1_W12_1_COMM_PWR_BRKR_OK = 15"
| "in_pos SPARE_D16 = 16"
| "in_pos SPARE_D17 = 17"
| "in_pos SPARE_D18 = 18"
| "in_pos SPARE_D19 = 19"
| "in_pos SPARE_D20 = 20"
| "in_pos SPARE_D21 = 21"
| "in_pos SPARE_D22 = 22"
| "in_pos SPARE_D23 = 23"
| "in_pos J1_W12_2_COMM_PWR_BRKR_OK = 24"
| "in_pos J2_W13_1_COMM_PWR_BRKR_OK = 25"
| "in_pos J2_W13_2_COMM_PWR_BRKR_OK = 26"
| "in_pos J3_W14_1_COMM_PWR_BRKR_OK = 27"
| "in_pos J3_W14_2_COMM_PWR_BRKR_OK = 28"
| "in_pos SPARE_D29 = 29"
| "in_pos SPARE_D30 = 30"
| "in_pos INTERLOCK_POWER_RELAY = 31"
| "in_pos ALWAYS_HIGH = 100000"
| "in_pos ALWAYS_LOW = 100001"

fun in_name :: "in_bit \<Rightarrow> string" where
  "in_name REDUNDANCY_OK = ''REDUNDANCY_OK''"
| "in_name LOAD_DISTRIBUTION_OK = ''LOAD_DISTRIBUTION_OK''"
| "in_name POWER_SUPPLY_2_DC_OK = ''POWER_SUPPLY_2_DC_OK''"
| "in_name POWER_SUPPLY_1_DC_OK = ''POWER_SUPPLY_1_DC_OK''"
| "in_name POWER_SUPPLY_2_CURRENT_OK = ''POWER_SUPPLY_2_CURRENT_OK''"
| "in_name POWER_SUPPLY_1_CURRENT_OK = ''POWER_SUPPLY_1_CURRENT_OK''"
| "in_name J1_W9_1_MTR_PWR_BRKR_OK = ''J1_W9_1_MTR_PWR_BRKR_OK''"
| "in_name J1_W9_2_MTR_PWR_BRKR_OK = ''J1_W9_2_MTR_PWR_BRKR_OK''"
| "in_name J1_W9_3_MTR_PWR_BRKR_OK = ''J1_W9_3_MTR_PWR_BRKR_OK''"
| "in_name J2_W10_1_MTR_PWR_BRKR_OK = ''J2_W10_1_MTR_PWR_BRKR_OK''"
| "in_name J2_W10_2_MTR_PWR_BRKR_OK = ''J2_W10_2_MTR_PWR_BRKR_OK''"
| "in_name J2_W10_3_MTR_PWR_BRKR_OK = ''J2_W10_3_MTR_PWR_BRKR_OK''"
| "in_name J3_W11_1_MTR_PWR_BRKR_OK = ''J3_W11_1_MTR_PWR_BRKR_OK''"
| "in_name J3_W11_2_MTR_PWR_BRKR_OK = ''J3_W11_2_MTR_PWR_BRKR_OK''"
| "in_name J3_W11_3_MTR_PWR_BRKR_OK = ''J3_W11_3_MTR_PWR_BRKR_OK''"
| "in_name J1_W12_1_COMM_PWR_BRKR_OK = ''J1_W12_1_COMM_PWR_BRKR_OK''"
| "in_name SPARE_D16 = ''SPARE_D16''"
| "in_name SPARE_D17 = ''SPARE_D17''"
| "in_name SPARE_D18 = ''SPARE_D18''"
| "in_name SPARE_D19 = ''SPARE_D19''"
| "in_name SPARE_D20 = ''SPARE_D20''"
| "in_name SPARE_D21 = ''SPARE_D21''"
| "in_name SPARE_D22 = ''SPARE_D22''"
| "in_name SPARE_D23 = ''SPARE_D23''"
| "in_name J1_W12_2_COMM_PWR_BRKR_OK = ''J1_W12_2_COMM_PWR_BRKR_OK''"
| "in_name J2_W13_1_COMM_PWR_BRKR_OK = ''J2_W13_1_COMM_PWR_BRKR_OK''"
| "in_name J2_W13_2_COMM_PWR_BRKR_OK = ''J2_W13_2_COMM_PWR_BRKR_OK''"
| "in_name J3_W14_1_COMM_PWR_BRKR_OK = ''J3_W14_1_COMM_PWR_BRKR_OK''"
| "in_name J3_W14_2_COMM_PWR_BRKR_OK = ''J3_W14_2_COMM_PWR_BRKR_OK''"
| "in_name SPARE_D29 = ''SPARE_D29''"
| "in_name SPARE_D30 = ''SPARE_D30''"
| "in_name INTERLOCK_POWER_RELAY = ''INTERLOCK_POWER_RELAY''"
| "in_name ALWAYS_HIGH = ''ALWAYS_HIGH''"
| "in_name ALWAYS_LOW = ''ALWAYS_LOW''"

definition in_bits :: "in_bit list" where
  "in_bits = [
    REDUNDANCY_OK, LOAD_DISTRIBUTION_OK, POWER_SUPPLY_2_DC_OK, POWER_SUPPLY_1_DC_OK,
    POWER_SUPPLY_2_CURRENT_OK, POWER_SUPPLY_1_CURRENT_OK, J1_W9_1_MTR_PWR_BRKR_OK,
    J1_W9_2_MTR_PWR_BRKR_OK, J1_W9_3_MTR_PWR_BRKR_OK, J2_W10_1_MTR_PWR_BRKR_OK,
    J2_W10_2_MTR_PWR_BRKR_OK, J2_W10_3_MTR_PWR_BRKR_OK, J3_W11_1_MTR_PWR_BRKR_OK,
    J3_W11_2_MTR_PWR_BRKR_OK, J3_W11_3_MTR_PWR_BRKR_OK, J1_W12_1_COMM_PWR_BRKR_OK, SPARE_D16,
    SPARE_D17, SPARE_D18, SPARE_D19, SPARE_D20, SPARE_D21, SPARE_D22, SPARE_D23,
    J1_W12_2_COMM_PWR_BRKR_OK, J2_W13_1_COMM_PWR_BRKR_OK, J2_W13_2_COMM_PWR_BRKR_OK,
    J3_W14_1_COMM_PWR_BRKR_OK, J3_W14_2_COMM_PWR_BRKR_OK, SPARE_D29, SPARE_D30,
    INTERLOCK_POWER_RELAY, ALWAYS_HIGH, ALWAYS_LOW]"

definition inputGetBitAtPos :: "32 word \<Rightarrow> int \<Rightarrow> bool" where
  "inputGetBitAtPos bitmap pos =
     (if pos < 0 \<or> pos \<ge> 32
      then (if pos = in_pos ALWAYS_HIGH then True else False)
      else getBitsSetInMask bitmap (push_bit (nat pos) 1) \<noteq> 0)"

definition inputWriteBit :: "32 word \<Rightarrow> int \<Rightarrow> bool \<Rightarrow> 32 word result" where
  "inputWriteBit bitmap pos v = setBit32 bitmap pos v"

definition inputSetBitAtPos :: "32 word \<Rightarrow> int \<Rightarrow> bool \<Rightarrow> 32 word result" where
  "inputSetBitAtPos bitmap pos v =
     (if pos = in_pos ALWAYS_HIGH \<or> pos = in_pos ALWAYS_LOW then Inr bitmap
      else setBit32 bitmap pos v)"

definition getInputPortMask :: "32 word" where
  "getInputPortMask = NOT 0"

definition in_of_pos :: "int \<Rightarrow> in_bit option" where
  "in_of_pos v = find (\<lambda>b. in_pos b = v) in_bits"

definition inputGetEnumString :: "int \<Rightarrow> string" where
  "inputGetEnumString enumVal =
     (case in_of_pos enumVal of
        Some b \<Rightarrow> in_name b @ '' '' @ to_string enumVal
      | None \<Rightarrow> ''unknown '' @ to_string enumVal)"

definition inputGetAllSetBitEnums :: "32 word \<Rightarrow> string" where
  "inputGetAllSetBitEnums bm = setBitEnumsLoop inputGetEnumString bm 1 0 32"

definition in_bit_on :: "32 word \<Rightarrow> in_bit \<Rightarrow> bool" where
  "in_bit_on bm b = inputGetBitAtPos bm (in_pos b)"

lemma inputGetBitAtPos_iff:
  "inputGetBitAtPos bm p \<longleftrightarrow> p = in_pos ALWAYS_HIGH \<or> 0 \<le> p \<and> p < 32 \<and> bit bm (nat p)"
  by (auto simp: inputGetBitAtPos_def getBitsSetInMask_def)

lemma in_bit_on_always [simp]: "in_bit_on bm ALWAYS_HIGH" "\<not> in_bit_on bm ALWAYS_LOW"
  by (simp_all add: in_bit_on_def inputGetBitAtPos_iff)

lemma in_pos_range: "b \<noteq> ALWAYS_HIGH \<Longrightarrow> b \<noteq> ALWAYS_LOW \<Longrightarrow> 0 \<le> in_pos b \<and> in_pos b < 32"
  by (cases b) simp_all

interpretation ipb: bitmap_port inputGetBitAtPos inputWriteBit 32
  by unfold_locales
    (auto simp: inputWriteBit_def setBit32_def inputGetBitAtPos_iff write_bit_int
      split: if_splits intro!: word_ext_int)

section \<open>The output port\<close>

datatype out_bit =
    MOTOR_POWER_ON | ILC_COMM_POWER_ON | CRIO_INTERLOCK_ENABLE | RESET_MOTOR_BREAKERS |
    RESET_COMM_BREAKERS | SPARE_D05 | SPARE_D06 | SPARE_D07

fun out_pos :: "out_bit \<Rightarrow> int" where
  "out_pos MOTOR_POWER_ON = 0"
| "out_pos ILC_COMM_POWER_ON = 1"
| "out_pos CRIO_INTERLOCK_ENABLE = 2"
| "out_pos RESET_MOTOR_BREAKERS = 3"
| "out_pos RESET_COMM_BREAKERS = 4"
| "out_pos SPARE_D05 = 5"
| "out_pos SPARE_D06 = 6"
| "out_pos SPARE_D07 = 7"

fun out_name :: "out_bit \<Rightarrow> string" where
  "out_name MOTOR_POWER_ON = ''MOTOR_POWER_ON''"
| "out_name ILC_COMM_POWER_ON = ''ILC_COMM_POWER_ON''"
| "out_name CRIO_INTERLOCK_ENABLE = ''CRIO_INTERLOCK_ENABLE''"
| "out_name RESET_MOTOR_BREAKERS = ''RESET_MOTOR_BREAKERS''"
| "out_name RESET_COMM_BREAKERS = ''RESET_COMM_BREAKERS''"
| "out_name SPARE_D05 = ''SPARE_D05''"
| "out_name SPARE_D06 = ''SPARE_D06''"
| "out_name SPARE_D07 = ''SPARE_D07''"

definition out_bits :: "out_bit list" where
  "out_bits = [
    MOTOR_POWER_ON, ILC_COMM_POWER_ON, CRIO_INTERLOCK_ENABLE, RESET_MOTOR_BREAKERS,
    RESET_COMM_BREAKERS, SPARE_D05, SPARE_D06, SPARE_D07]"

definition outputGetBitAtPos :: "8 word \<Rightarrow> int \<Rightarrow> bool" where
  "outputGetBitAtPos bitmap pos =
     (if pos < 0 \<or> pos \<ge> 8 then False
      else getBitsSetInMask bitmap (push_bit (nat pos) 1) \<noteq> 0)"

definition outputWriteBit :: "8 word \<Rightarrow> int \<Rightarrow> bool \<Rightarrow> 8 word result" where
  "outputWriteBit bitmap pos v = setBit8 bitmap pos v"

definition getOuputPortMask :: "8 word" where
  "getOuputPortMask = NOT 0"

definition out_of_pos :: "int \<Rightarrow> out_bit option" where
  "out_of_pos v = find (\<lambda>b. out_pos b = v) out_bits"

definition outputGetEnumString :: "int \<Rightarrow> string" where
  "outputGetEnumString enumVal =
     (case out_of_pos enumVal of
        Some b \<Rightarrow> out_name b @ '' '' @ to_string enumVal
      | None \<Rightarrow> ''unknown '' @ to_string enumVal)"

definition outputGetAllSetBitEnums :: "8 word \<Rightarrow> string" where
  "outputGetAllSetBitEnums bm = setBitEnumsLoop outputGetEnumString bm 1 0 8"

lemma outputGetBitAtPos_iff: "outputGetBitAtPos bm p \<longleftrightarrow> 0 \<le> p \<and> p < 8 \<and> bit bm (nat p)"
  by (auto simp: outputGetBitAtPos_def getBitsSetInMask_def)

lemma out_pos_range: "0 \<le> out_pos b \<and> out_pos b < 8"
  by (cases b) simp_all

lemma out_pos_inj: "out_pos a = out_pos b \<longleftrightarrow> a = b"
  by (cases a; cases b) simp_all

interpretation opb: bitmap_port outputGetBitAtPos outputWriteBit 8
  by unfold_locales
    (auto simp: outputWriteBit_def setBit8_def outputGetBitAtPos_iff write_bit_int
      split: if_splits intro!: word_ext_int)

text \<open>The enumerators are in range, so writing one of them never throws.\<close>

definition out_bit_on :: "8 word \<Rightarrow> out_bit \<Rightarrow> bool" where
  "out_bit_on bm b = outputGetBitAtPos bm (out_pos b)"

definition write_out :: "8 word \<Rightarrow> out_bit \<Rightarrow> bool \<Rightarrow> 8 word" where
  "write_out bm b v = (case outputWriteBit bm (out_pos b) v of Inr bm' \<Rightarrow> bm' | Inl _ \<Rightarrow> bm)"

lemma write_out_outputWriteBit: "outputWriteBit bm (out_pos b) v = Inr (write_out bm b v)"
  using opb.set_in_range [of "out_pos b" bm v] out_pos_range [of b]
  by (auto simp: write_out_def)

lemma out_bit_on_write_out [bitmap_simps]:
  "out_bit_on (write_out bm b v) c \<longleftrightarrow> (if c = b then v else out_bit_on bm c)"
  using opb.get_set [OF write_out_outputWriteBit [of bm b v], of "out_pos c"] out_pos_range [of c]
  by (simp add: out_bit_on_def out_pos_inj)

lemma write_out_write_out [bitmap_simps]: "write_out (write_out bm b v) b w = write_out bm b w"
  using opb.set_set [OF write_out_outputWriteBit [of bm b v], of w]
  by (simp add: write_out_outputWriteBit)

lemma out_bit_on_zero [simp]: "\<not> out_bit_on 0 b"
  by (simp add: out_bit_on_def outputGetBitAtPos_iff)

section \<open>Bits of a byte\<close>

definition fpgaGetBit :: "8 word \<Rightarrow> int \<Rightarrow> bool result" where
  "fpgaGetBit byt pos =
     (if pos < 0 \<or> pos > 7 then Inl (RangeError (''getBit out of range pos='' @ to_string pos))
      else Inr (byt AND push_bit (nat pos) 1 \<noteq> 0))"

definition fpgaSetBit :: "8 word \<Rightarrow> int \<Rightarrow> bool \<Rightarrow> 8 word result" where
  "fpgaSetBit byt pos v =
     (if pos < 0 \<or> pos > 7 then Inl (RangeError (''setBit out of range pos='' @ to_string pos))
      else let b = push_bit (nat pos) 1 in
        if v then Inr (byt OR b) else Inr (byt AND NOT b))"

lemma fpgaSetBit_write_bit:
  "0 \<le> pos \<Longrightarrow> pos \<le> 7 \<Longrightarrow> fpgaSetBit byt pos v = Inr (write_bit byt (nat pos) v)"
  by (simp add: fpgaSetBit_def write_bit_def Let_def)

lemma fpgaGetBit_iff: "fpgaGetBit byt pos = Inr True \<longleftrightarrow> 0 \<le> pos \<and> pos < 8 \<and> bit byt (nat pos)"
  by (auto simp: fpgaGetBit_def)

interpretation fpb: bitmap_port "\<lambda>b p. fpgaGetBit b p = Inr True" fpgaSetBit 8
proof
  fix p b v assume "0 \<le> (p :: int)" "p < 8"
  then show "\<exists>b'. fpgaSetBit b p v = Inr b'" by (simp add: fpgaSetBit_write_bit)
next
  fix p :: int and b v assume "p < 0 \<or> 8 \<le> p"
  then show "\<exists>e. fpgaSetBit b p v = Inl e" by (auto simp: fpgaSetBit_def)
next
  fix b p v b' q
  assume set_eq: "fpgaSetBit b p v = Inr b'" and q: "0 \<le> q" "q < (8 :: int)"
  from set_eq have p: "0 \<le> p" "p \<le> 7" by (auto simp: fpgaSetBit_def split: if_splits)
  with set_eq have "b' = write_bit b (nat p) v" by (simp add: fpgaSetBit_write_bit)
  with p q show "(fpgaGetBit b' q = Inr True) = (if q = p then v else fpgaGetBit b q = Inr True)"
    by (simp add: fpgaGetBit_iff write_bit_int)
next
  fix b c
  assume "\<And>p. 0 \<le> p \<Longrightarrow> p < 8 \<Longrightarrow> (fpgaGetBit b p = Inr True) = (fpgaGetBit c p = Inr True)"
  then show "b = c" by (intro word_ext_int) (simp add: fpgaGetBit_iff)
qed

end
