(* ===== verification/PowerConfig.thy ===== *)
theory PowerConfig
  imports PortBits
begin

text \<open>
  \<open>control/SysInfo\<close> and the first half of \<open>control/PowerSubsystem\<close>: the breaker feeds and
  the configuration values of the MOTOR and COMM power subsystems.
\<close>

section \<open>Hardware information\<close>

record sys_info =
  si_outputPort :: "8 word"
  si_inputPort :: "32 word"
  si_motorVoltage :: real
  si_motorCurrent :: real
  si_motorBreakerClosed :: bool
  si_commVoltage :: real
  si_commCurrent :: real
  si_commBreakerClosed :: bool
  si_iterations :: "64 word"
  si_timestamp :: timepoint

section \<open>Breaker feeds\<close>

text \<open>
  A feed reads three input bits, all of which should be high. \<open>_feedBitmap\<close> keeps the last
  three bits read; the code uses it to log changes, and so the model keeps it as well.
\<close>

record feed =
  bit0Pos :: in_bit
  bit1Pos :: in_bit
  bit2Pos :: in_bit
  feedBitmap :: "8 word"

definition mk_feed :: "in_bit \<Rightarrow> in_bit \<Rightarrow> in_bit \<Rightarrow> feed" where
  "mk_feed b0 b1 b2 = \<lparr> bit0Pos = b0, bit1Pos = b1, bit2Pos = b2, feedBitmap = 0 \<rparr>"

definition feedCheckBreakers :: "feed \<Rightarrow> 32 word \<Rightarrow> (SysStatus \<times> string) \<times> feed" where
  "feedCheckBreakers f input =
     (let bit0 = inputGetBitAtPos input (in_pos (bit0Pos f));
          bit1 = inputGetBitAtPos input (in_pos (bit1Pos f));
          bit2 = inputGetBitAtPos input (in_pos (bit2Pos f));
          count = (if bit0 then 1 else 0) + (if bit1 then 1 else 0) + (if bit2 then 1 else (0 :: int));
          bitmap = (if bit0 then 1 else 0) OR (if bit1 then 2 else 0) OR (if bit2 then 4 else 0);
          inactiveStr =
            (if bit0 then [] else inputGetEnumString (in_pos (bit0Pos f)) @ '','') @
            (if bit1 then [] else inputGetEnumString (in_pos (bit1Pos f)) @ '','') @
            (if bit2 then [] else inputGetEnumString (in_pos (bit2Pos f)));
          breakerStatus = (if count = 3 then GOOD else if count = 2 then WARN else FAULT)
      in ((breakerStatus, inactiveStr), f \<lparr> feedBitmap := bitmap \<rparr>))"

fun groupCheckLoop :: "SysStatus \<Rightarrow> string \<Rightarrow> feed list \<Rightarrow> 32 word \<Rightarrow> (SysStatus \<times> string) \<times> feed list" where
  "groupCheckLoop result inactive [] input = ((result, inactive), [])"
| "groupCheckLoop result inactive (f # fs) input =
     (let ((status, str), f') = feedCheckBreakers f input;
          ((r, s), fs') =
            groupCheckLoop (if status < result then status else result) (inactive @ str) fs input
      in ((r, s), f' # fs'))"

definition groupCheckBreakers :: "feed list \<Rightarrow> sys_info \<Rightarrow> (SysStatus \<times> string) \<times> feed list" where
  "groupCheckBreakers feeds info = groupCheckLoop GOOD [] feeds (si_inputPort info)"

text \<open>The inputs a feed watches that are high.\<close>

definition feed_high :: "feed \<Rightarrow> 32 word \<Rightarrow> nat" where
  "feed_high f input =
     length (filter (in_bit_on input) [bit0Pos f, bit1Pos f, bit2Pos f])"

lemma feed_status:
  "fst (fst (feedCheckBreakers f input)) =
     (if feed_high f input = 3 then GOOD else if feed_high f input = 2 then WARN else FAULT)"
  by (simp add: feedCheckBreakers_def feed_high_def in_bit_on_def Let_def)

lemma feed_high_le: "feed_high f input \<le> 3"
  by (simp add: feed_high_def)

lemma feed_positions:
  "bit0Pos (snd (feedCheckBreakers f i)) = bit0Pos f"
  "bit1Pos (snd (feedCheckBreakers f i)) = bit1Pos f"
  "bit2Pos (snd (feedCheckBreakers f i)) = bit2Pos f"
  by (simp_all add: feedCheckBreakers_def Let_def)

lemma feed_high_feedCheckBreakers [simp]:
  "feed_high (snd (feedCheckBreakers f i)) input = feed_high f input"
  by (simp add: feed_high_def feed_positions)

lemma groupCheckLoop_status:
  "fst (fst (groupCheckLoop r s fs input)) =
     foldl min r (map (\<lambda>f. fst (fst (feedCheckBreakers f input))) fs)"
proof (induction fs arbitrary: r s)
  case Nil
  then show ?case by simp
next
  case (Cons f fs)
  have "(if a < r then a else r) = min r (a :: SysStatus)" for a by (auto simp: min_def)
  with Cons.IH show ?case by (simp add: Let_def case_prod_beta)
qed

lemma groupCheckLoop_feeds:
  "snd (groupCheckLoop r s fs input) = map (\<lambda>f. snd (feedCheckBreakers f input)) fs"
  by (induction fs arbitrary: r s) (simp_all add: Let_def case_prod_beta)

lemma foldl_min_le_iff:
  "foldl min r xs \<le> (b :: 'a :: linorder) \<longleftrightarrow> r \<le> b \<or> (\<exists>x \<in> set xs. x \<le> b)"
  by (induction xs arbitrary: r) (auto simp: min_le_iff_disj)

lemma SysStatus_le_simps [simp]:
  "FAULT \<le> FAULT" "\<not> WARN \<le> FAULT" "\<not> GOOD \<le> FAULT" "\<not> GOOD \<le> WARN" "FAULT \<le> WARN" "WARN \<le> WARN"
  "FAULT \<le> GOOD" "WARN \<le> GOOD"
  by (simp_all add: SysStatus_less_defs)

lemma groupCheck_fault_iff:
  "fst (fst (groupCheckBreakers fs info)) \<le> FAULT \<longleftrightarrow> (\<exists>f \<in> set fs. feed_high f (si_inputPort info) < 2)"
proof -
  have "fst (fst (feedCheckBreakers f i)) \<le> FAULT \<longleftrightarrow> feed_high f i < 2" for f i
    using feed_high_le [of f i] by (auto simp: feed_status)
  then show ?thesis
    by (simp add: groupCheckBreakers_def groupCheckLoop_status foldl_min_le_iff)
qed

lemma groupCheck_bad_iff:
  "fst (fst (groupCheckBreakers fs info)) \<le> WARN \<longleftrightarrow> (\<exists>f \<in> set fs. feed_high f (si_inputPort info) < 3)"
proof -
  have "fst (fst (feedCheckBreakers f i)) \<le> WARN \<longleftrightarrow> feed_high f i < 3" for f i
    using feed_high_le [of f i] by (auto simp: feed_status)
  then show ?thesis
    by (simp add: groupCheckBreakers_def groupCheckLoop_status foldl_min_le_iff)
qed

lemma groupCheck_range: "fst (fst (groupCheckBreakers fs info)) \<in> {GOOD, WARN, FAULT}"
proof -
  have "r \<in> {GOOD, WARN, FAULT} \<Longrightarrow> set xs \<subseteq> {GOOD, WARN, FAULT} \<Longrightarrow>
      foldl min r xs \<in> {GOOD, WARN, FAULT}" for r and xs :: "SysStatus list"
    by (induction xs arbitrary: r) (auto simp: min_def)
  moreover have "fst (fst (feedCheckBreakers f i)) \<in> {GOOD, WARN, FAULT}" for f i
    by (simp add: feed_status)
  ultimately show ?thesis
    by (auto simp: groupCheckBreakers_def groupCheckLoop_status image_subset_iff)
qed

lemma groupCheck_good_iff:
  "fst (fst (groupCheckBreakers fs info)) = GOOD \<longleftrightarrow> (\<forall>f \<in> set fs. feed_high f (si_inputPort info) = 3)"
proof -
  have "fst (fst (groupCheckBreakers fs info)) = GOOD \<longleftrightarrow>
      \<not> fst (fst (groupCheckBreakers fs info)) \<le> WARN"
    using groupCheck_range [of fs info] by auto
  then show ?thesis
    unfolding groupCheck_bad_iff using feed_high_le by (metis le_neq_implies_less less_irrefl)
qed

lemma groupCheck_same_high:
  "map (\<lambda>f. feed_high f (si_inputPort info)) (snd (groupCheckBreakers fs i)) =
     map (\<lambda>f. feed_high f (si_inputPort info)) fs"
  by (simp add: groupCheckBreakers_def groupCheckLoop_feeds)

section \<open>Configuration values\<close>

text \<open>Delays in seconds, voltages in volts, currents in amps, as exact fractions.\<close>

record psub_config =
  cfg_systemType :: PowerSystemType
  relayCloseDelay :: real
  breakerOnTime :: real
  interlockOutputOnDelay :: real
  relayOpenDelay :: real
  interlockOutputOffDelay :: real
  resetBreakerPulseWidth :: real
  breakerOperatingVoltage :: real
  nominalVoltage :: real
  minVoltageWarn :: real
  maxVoltageWarn :: real
  minVoltageFault :: real
  maxVoltageFault :: real
  breakerOperatingVoltageRiseTime :: real
  voltageSettlingTime :: real
  voltageFallTime :: real
  voltageOffLevel :: real
  maxCurrent :: real
  breakerFeedGroup :: "feed list option"
  outputPowerOnBit :: out_bit
  outputBreakerBit :: out_bit
  subsystemFaultMask :: "64 word"
  subsytemName :: string
  voltageFault :: fault_bit
  voltageWarn :: fault_bit
  excessiveCurrent :: fault_bit
  relayFault :: fault_bit
  breakerFault :: fault_bit
  breakerWarn :: fault_bit
  relayInUse :: fault_bit

text \<open>\<open>_setupMotor\<close>; the four voltage limits are set by \<open>_setupCalculated\<close> right after.\<close>

definition setupMotor :: "64 word \<Rightarrow> psub_config" where
  "setupMotor mask0 = \<lparr>
     cfg_systemType = MOTOR,
     relayCloseDelay = 50 / 1000,
     breakerOnTime = 5 / 10,
     interlockOutputOnDelay = 50 / 1000,
     relayOpenDelay = 30 / 1000,
     interlockOutputOffDelay = 50 / 1000,
     resetBreakerPulseWidth = 400 / 1000,
     breakerOperatingVoltage = 19,
     nominalVoltage = 24,
     minVoltageWarn = 0,
     maxVoltageWarn = 0,
     minVoltageFault = 0,
     maxVoltageFault = 0,
     breakerOperatingVoltageRiseTime = 85 / 1000,
     voltageSettlingTime = 20 / 1000,
     voltageFallTime = 3 / 10,
     voltageOffLevel = 12,
     maxCurrent = 20,
     breakerFeedGroup = Some
       [mk_feed J1_W9_1_MTR_PWR_BRKR_OK J1_W9_2_MTR_PWR_BRKR_OK J1_W9_3_MTR_PWR_BRKR_OK,
        mk_feed J2_W10_1_MTR_PWR_BRKR_OK J2_W10_2_MTR_PWR_BRKR_OK J2_W10_3_MTR_PWR_BRKR_OK,
        mk_feed J3_W11_1_MTR_PWR_BRKR_OK J3_W11_2_MTR_PWR_BRKR_OK J3_W11_3_MTR_PWR_BRKR_OK],
     outputPowerOnBit = MOTOR_POWER_ON,
     outputBreakerBit = RESET_MOTOR_BREAKERS,
     subsystemFaultMask = mask0,
     subsytemName = ''motor'',
     voltageFault = MOTOR_VOLTAGE_FAULT,
     voltageWarn = MOTOR_VOLTAGE_WARN,
     excessiveCurrent = MOTOR_OVER_CURRENT,
     relayFault = POWER_RELAY_OPEN_FAULT,
     breakerFault = MOTOR_MULTI_BREAKER_FAULT,
     breakerWarn = SINGLE_BREAKER_TRIP,
     relayInUse = MOTOR_RELAY \<rparr>"

definition setupComm :: "64 word \<Rightarrow> psub_config" where
  "setupComm mask0 = \<lparr>
     cfg_systemType = COMM,
     relayCloseDelay = 50 / 1000,
     breakerOnTime = 5 / 10,
     interlockOutputOnDelay = 0,
     relayOpenDelay = 30 / 1000,
     interlockOutputOffDelay = 0,
     resetBreakerPulseWidth = 400 / 1000,
     breakerOperatingVoltage = 19,
     nominalVoltage = 24,
     minVoltageWarn = 0,
     maxVoltageWarn = 0,
     minVoltageFault = 0,
     maxVoltageFault = 0,
     breakerOperatingVoltageRiseTime = 30 / 1000,
     voltageSettlingTime = 20 / 1000,
     voltageFallTime = 50 / 1000,
     voltageOffLevel = 12,
     maxCurrent = 10,
     breakerFeedGroup = Some
       [mk_feed J1_W12_1_COMM_PWR_BRKR_OK J1_W12_2_COMM_PWR_BRKR_OK ALWAYS_HIGH,
        mk_feed J2_W13_1_COMM_PWR_BRKR_OK J2_W13_2_COMM_PWR_BRKR_OK ALWAYS_HIGH,
        mk_feed J3_W14_1_COMM_PWR_BRKR_OK J3_W14_2_COMM_PWR_BRKR_OK ALWAYS_HIGH],
     outputPowerOnBit = ILC_COMM_POWER_ON,
     outputBreakerBit = RESET_COMM_BREAKERS,
     subsystemFaultMask = mask0,
     subsytemName = ''comm'',
     voltageFault = COMM_VOLTAGE_FAULT,
     voltageWarn = COMM_VOLTAGE_WARN,
     excessiveCurrent = COMM_OVER_CURRENT,
     relayFault = POWER_RELAY_OPEN_FAULT,
     breakerFault = COMM_MULTI_BREAKER_FAULT,
     breakerWarn = SINGLE_BREAKER_TRIP,
     relayInUse = COMM_RELAY \<rparr>"

definition setupCalculated :: "psub_config \<Rightarrow> psub_config" where
  "setupCalculated c = c \<lparr>
     minVoltageWarn := nominalVoltage c * (95 / 100),
     maxVoltageWarn := nominalVoltage c * (105 / 100),
     minVoltageFault := nominalVoltage c * (90 / 100),
     maxVoltageFault := nominalVoltage c * (110 / 100) \<rparr>"

definition mkPowerSubsystemConfig :: "PowerSystemType \<Rightarrow> psub_config result" where
  "mkPowerSubsystemConfig systemType =
     bind_result (getMaskPowerSubsystemFaults systemType) (\<lambda>msk.
       case systemType of
         MOTOR \<Rightarrow> Inr (setupCalculated (setupMotor msk))
       | COMM \<Rightarrow> Inr (setupCalculated (setupComm msk))
       | _ \<Rightarrow> Inl (Bug (''unexpected systemType='' @ to_string (powerSystemTypeVal systemType))))"

definition outputOnMaxDelay :: "psub_config \<Rightarrow> real result" where
  "outputOnMaxDelay c =
     (if cfg_systemType c = MOTOR then Inr (relayCloseDelay c + breakerOnTime c + interlockOutputOnDelay c)
      else if cfg_systemType c = COMM then Inr (relayCloseDelay c + breakerOnTime c)
      else Inl (Bug (''PowerSubsystemConfig unexpected _systemType='' @
                     to_string (powerSystemTypeVal (cfg_systemType c)))))"

definition outputOffMaxDelay :: "psub_config \<Rightarrow> real result" where
  "outputOffMaxDelay c =
     (if cfg_systemType c = MOTOR then Inr (relayOpenDelay c + interlockOutputOffDelay c)
      else if cfg_systemType c = COMM then Inr (relayOpenDelay c)
      else Inl (Bug (''PowerSubsystemConfig unexpected _systemType='' @
                     to_string (powerSystemTypeVal (cfg_systemType c)))))"

definition configCheckBreakers :: "psub_config \<Rightarrow> sys_info \<Rightarrow> (SysStatus \<times> string) \<times> psub_config" where
  "configCheckBreakers c info =
     (case breakerFeedGroup c of
        None \<Rightarrow> ((FAULT, ''nullptr''), c)
      | Some feeds \<Rightarrow>
          (let (r, feeds') = groupCheckBreakers feeds info
           in (r, c \<lparr> breakerFeedGroup := Some feeds' \<rparr>)))"

text \<open>The two configurations of the program.\<close>

definition motorConfig :: psub_config where
  "motorConfig = setupCalculated (setupMotor maskSubsystemMotorFault)"

definition commConfig :: psub_config where
  "commConfig = setupCalculated (setupComm maskSubsystemCommFault)"

lemma mkPowerSubsystemConfig_eq:
  "mkPowerSubsystemConfig t =
     (case t of MOTOR \<Rightarrow> Inr motorConfig | COMM \<Rightarrow> Inr commConfig
      | UNKNOWNPOWERSYSTEM \<Rightarrow> Inl (Bug ''FaultStatusBits::getMaskPowerSubsystemFaults UNKNOWNPOWERSYSTEM unexpected type''))"
  by (cases t)
    (simp_all add: mkPowerSubsystemConfig_def getMaskPowerSubsystemFaults_def motorConfig_def commConfig_def)

lemmas motorConfig_unfold = motorConfig_def setupMotor_def setupCalculated_def
lemmas commConfig_unfold = commConfig_def setupComm_def setupCalculated_def

definition limits_ordered :: "psub_config \<Rightarrow> bool" where
  "limits_ordered c \<longleftrightarrow>
     0 < voltageOffLevel c \<and> voltageOffLevel c < breakerOperatingVoltage c \<and>
     breakerOperatingVoltage c < minVoltageFault c \<and> minVoltageFault c < minVoltageWarn c \<and>
     minVoltageWarn c < nominalVoltage c \<and> nominalVoltage c < maxVoltageWarn c \<and>
     maxVoltageWarn c < maxVoltageFault c \<and> 0 < maxCurrent c \<and> 0 < resetBreakerPulseWidth c \<and>
     (case outputOnMaxDelay c of Inr d \<Rightarrow> 0 < d | Inl _ \<Rightarrow> False) \<and>
     (case outputOffMaxDelay c of Inr d \<Rightarrow> 0 < d | Inl _ \<Rightarrow> False)"

lemma limits_ordered_motor: "limits_ordered motorConfig"
  by (simp add: limits_ordered_def motorConfig_unfold outputOnMaxDelay_def outputOffMaxDelay_def)

lemma limits_ordered_comm: "limits_ordered commConfig"
  by (simp add: limits_ordered_def commConfig_unfold outputOnMaxDelay_def outputOffMaxDelay_def)

text \<open>
  Checking the breakers changes nothing of a configuration but the bitmaps kept for the log,
  and its answer does not depend on them.
\<close>

definition cfg_core :: "psub_config \<Rightarrow> psub_config" where
  "cfg_core c = c \<lparr> breakerFeedGroup := map_option (map (\<lambda>f. f \<lparr> feedBitmap := 0 \<rparr>)) (breakerFeedGroup c) \<rparr>"

definition breakerStatus :: "psub_config \<Rightarrow> sys_info \<Rightarrow> SysStatus" where
  "breakerStatus c info = fst (fst (configCheckBreakers c info))"

lemma feedCheckBreakers_core:
  "(snd (feedCheckBreakers f i)) \<lparr> feedBitmap := 0 \<rparr> = f \<lparr> feedBitmap := 0 \<rparr>"
  by (simp add: feedCheckBreakers_def Let_def)

lemma cfg_core_configCheckBreakers [simp]: "cfg_core (snd (configCheckBreakers c info)) = cfg_core c"
  by (simp add: configCheckBreakers_def cfg_core_def groupCheckBreakers_def groupCheckLoop_feeds
      case_prod_beta feedCheckBreakers_core split: option.splits)

definition feeds_after :: "psub_config \<Rightarrow> sys_info \<Rightarrow> feed list option" where
  "feeds_after c info = breakerFeedGroup (snd (configCheckBreakers c info))"

lemma configCheckBreakers_eq:
  "snd (configCheckBreakers c info) = c \<lparr> breakerFeedGroup := feeds_after c info \<rparr>"
  by (cases c) (simp add: feeds_after_def configCheckBreakers_def case_prod_beta split: option.splits)

text \<open>The fields that two configurations with the same core share.\<close>

lemma cfg_core_fields:
  assumes "cfg_core c = cfg_core d"
  shows "cfg_systemType c = cfg_systemType d" "outputPowerOnBit c = outputPowerOnBit d"
    "outputBreakerBit c = outputBreakerBit d" "subsystemFaultMask c = subsystemFaultMask d"
    "voltageFault c = voltageFault d" "voltageWarn c = voltageWarn d"
    "excessiveCurrent c = excessiveCurrent d" "relayFault c = relayFault d"
    "breakerFault c = breakerFault d" "breakerWarn c = breakerWarn d" "relayInUse c = relayInUse d"
    "breakerOperatingVoltage c = breakerOperatingVoltage d"
    "maxVoltageFault c = maxVoltageFault d" "maxVoltageWarn c = maxVoltageWarn d"
    "minVoltageFault c = minVoltageFault d" "minVoltageWarn c = minVoltageWarn d"
    "maxCurrent c = maxCurrent d" "voltageOffLevel c = voltageOffLevel d"
    "resetBreakerPulseWidth c = resetBreakerPulseWidth d"
    "voltageSettlingTime c = voltageSettlingTime d"
    "breakerOperatingVoltageRiseTime c = breakerOperatingVoltageRiseTime d"
    "outputOnMaxDelay c = outputOnMaxDelay d" "outputOffMaxDelay c = outputOffMaxDelay d"
  using assms
  by (cases c; cases d; simp add: cfg_core_def outputOnMaxDelay_def outputOffMaxDelay_def)+

lemma feed_status_core:
  "fst (fst (feedCheckBreakers (f \<lparr> feedBitmap := 0 \<rparr>) i)) = fst (fst (feedCheckBreakers f i))"
  unfolding feed_status by (simp add: feed_high_def)

lemma breakerStatus_core: "breakerStatus (cfg_core c) info = breakerStatus c info"
  by (simp add: breakerStatus_def configCheckBreakers_def cfg_core_def groupCheckBreakers_def
      groupCheckLoop_status case_prod_beta feed_status_core comp_def split: option.splits)

lemma breakerStatus_cong: "cfg_core c = cfg_core d \<Longrightarrow> breakerStatus c info = breakerStatus d info"
  by (metis breakerStatus_core)

fun configOf :: "PowerSystemType \<Rightarrow> psub_config" where
  "configOf MOTOR = motorConfig"
| "configOf COMM = commConfig"
| "configOf UNKNOWNPOWERSYSTEM = commConfig"

lemma configOf_values:
  "outputPowerOnBit motorConfig = MOTOR_POWER_ON" "outputBreakerBit motorConfig = RESET_MOTOR_BREAKERS"
  "outputPowerOnBit commConfig = ILC_COMM_POWER_ON" "outputBreakerBit commConfig = RESET_COMM_BREAKERS"
  "cfg_systemType motorConfig = MOTOR" "cfg_systemType commConfig = COMM"
  by (simp_all add: motorConfig_unfold commConfig_unfold)

lemma config_real_values:
  "breakerOperatingVoltage motorConfig = 19" "breakerOperatingVoltage commConfig = 19"
  "maxVoltageFault motorConfig = 132 / 5" "maxVoltageFault commConfig = 132 / 5"
  "maxVoltageWarn motorConfig = 126 / 5" "maxVoltageWarn commConfig = 126 / 5"
  "minVoltageFault motorConfig = 108 / 5" "minVoltageFault commConfig = 108 / 5"
  "minVoltageWarn motorConfig = 114 / 5" "minVoltageWarn commConfig = 114 / 5"
  "maxCurrent motorConfig = 20" "maxCurrent commConfig = 10"
  "voltageOffLevel motorConfig = 12" "voltageOffLevel commConfig = 12"
  "resetBreakerPulseWidth motorConfig = 2 / 5" "resetBreakerPulseWidth commConfig = 2 / 5"
  "outputOnMaxDelay motorConfig = Inr (3 / 5)" "outputOnMaxDelay commConfig = Inr (11 / 20)"
  "outputOffMaxDelay motorConfig = Inr (2 / 25)" "outputOffMaxDelay commConfig = Inr (3 / 100)"
  by (simp_all add: motorConfig_unfold commConfig_unfold outputOnMaxDelay_def outputOffMaxDelay_def)

end
