(* ===== verification/FaultMgr.thy ===== *)
theory FaultMgr
  imports PortBits
begin

text \<open>
  \<open>faultmgr/BasicFaultMgr\<close> and \<open>faultmgr/FaultMgr\<close>: the fault records of the system as a
  whole, of the power system and of the telemetry, and how reported faults are latched in
  them. Two functions of \<open>FaultMgr\<close> also call the model (\<open>updatePowerFaults\<close> and
  \<open>reportComConnectionCount\<close>); their parts that only concern the fault records are here and
  they are put together in \<open>M2System\<close>.
\<close>

section \<open>One fault record\<close>

record basic_fault_mgr =
  summaryFaults :: "64 word"
  prevFaults :: "64 word"
  currentFaults :: "64 word"
  faultEnableMask :: "64 word"
  defaultFaultMask :: "64 word"
  affectedFaultsMask :: "64 word"
  affectedWarnInfoMask :: "64 word"
  bfm_timeStamp :: timepoint

datatype CrioSubsystem =
    SYSTEM_CONTROLLER | FAULT_MANAGER | POWER_SUBSYSTEM | CELL_CONTROLLER | TELEMETRY_LOGGER
  | NETWORK_INTERFACE | MOTION_ENGINE

fun getCrioSubsystemStr :: "CrioSubsystem \<Rightarrow> string" where
  "getCrioSubsystemStr SYSTEM_CONTROLLER = ''SYSTEM_CONTROLLER''"
| "getCrioSubsystemStr FAULT_MANAGER = ''FAULT_MANAGER''"
| "getCrioSubsystemStr POWER_SUBSYSTEM = ''POWER_SUBSYSTEM''"
| "getCrioSubsystemStr CELL_CONTROLLER = ''CELL_CONTROLLER''"
| "getCrioSubsystemStr TELEMETRY_LOGGER = ''TELEMETRY_LOGGER''"
| "getCrioSubsystemStr NETWORK_INTERFACE = ''NETWORK_INTERFACE''"
| "getCrioSubsystemStr MOTION_ENGINE = ''MOTION_ENGINE''"

definition mkBasicFaultMgr :: "timepoint \<Rightarrow> basic_fault_mgr" where
  "mkBasicFaultMgr now = \<lparr>
     summaryFaults = 0, prevFaults = 0, currentFaults = 0,
     faultEnableMask = getMaskFaults, defaultFaultMask = getMaskFaults,
     affectedFaultsMask = 0, affectedWarnInfoMask = 0, bfm_timeStamp = now \<rparr>"

text \<open>The constructor of \<open>PowerFaultMgr\<close> calls \<open>setAffectedFaultsMask\<close> for both masks.\<close>

definition mkPowerFaultMgr :: "timepoint \<Rightarrow> basic_fault_mgr" where
  "mkPowerFaultMgr now =
     (let b = mkBasicFaultMgr now;
          b = b \<lparr> affectedFaultsMask := getPowerSubsystemFaultManagerAffectedFaultMask \<rparr>
      in b \<lparr> affectedFaultsMask := getPowerSubsystemFaultManagerAffectedWarningMask \<rparr>)"

definition bfm_updateFaults :: "timepoint \<Rightarrow> basic_fault_mgr \<Rightarrow> bool \<times> basic_fault_mgr" where
  "bfm_updateFaults now b =
     (let diff = (prevFaults b XOR currentFaults b) AND faultEnableMask b
      in if diff = 0 then (False, b)
         else
           let summaryAndDefault = summaryFaults b AND defaultFaultMask b;
               combined = summaryAndDefault OR currentFaults b
           in (True, b \<lparr> prevFaults := currentFaults b, summaryFaults := combined, bfm_timeStamp := now \<rparr>))"

definition bfm_resetFaults :: "timepoint \<Rightarrow> 64 word \<Rightarrow> basic_fault_mgr \<Rightarrow> basic_fault_mgr" where
  "bfm_resetFaults now msk b =
     (let notMask = NOT msk
      in b \<lparr> summaryFaults := summaryFaults b AND notMask,
             currentFaults := currentFaults b AND notMask,
             prevFaults := prevFaults b AND notMask, bfm_timeStamp := now \<rparr>)"

text \<open>
  \<open>updateFaultStatus\<close> is declared to return a pair of \<open>uint16_t\<close>, so the two 64-bit results
  are cut to their low 16 bits on return.
\<close>

definition updateFaultStatus ::
  "64 word \<Rightarrow> 64 word \<Rightarrow> 64 word \<Rightarrow> 64 word \<Rightarrow> 64 word \<Rightarrow> 16 word \<times> 16 word" where
  "updateFaultStatus summaryFaultStatus enableMask newFaultStatus affectedWarnInfo affectedFault =
     (let affectedAll = affectedFault OR affectedWarnInfo;
          cf = summaryFaultStatus;
          cfPrime = cf AND NOT affectedWarnInfo;
          newMasked = newFaultStatus AND affectedAll;
          updatedSummaryFaults = cf XOR (newMasked OR cfPrime);
          changedBits = enableMask AND affectedAll AND updatedSummaryFaults
      in (ucast updatedSummaryFaults, ucast changedBits))"

definition bfm_mergeFaults :: "64 word \<Rightarrow> basic_fault_mgr \<Rightarrow> 64 word \<times> basic_fault_mgr" where
  "bfm_mergeFaults bits b =
     (let bitsMask = faultEnableMask b AND bits
      in if bitsMask = 0 then (bitsMask, b)
         else
           let previous = summaryFaults b;
               b = b \<lparr> summaryFaults := summaryFaults b OR bitsMask \<rparr>;
               b = b \<lparr> currentFaults := currentFaults b OR bitsMask \<rparr>;
               changed = summaryFaults b XOR previous
           in (changed, b \<lparr> prevFaults := previous \<rparr>))"

definition bfm_updateSummary :: "64 word \<Rightarrow> basic_fault_mgr \<Rightarrow> basic_fault_mgr" where
  "bfm_updateSummary newSummary b =
     b \<lparr> prevFaults := currentFaults b, summaryFaults := newSummary, currentFaults := newSummary \<rparr>"

definition bfm_setMaskComm :: "timepoint \<Rightarrow> 64 word \<Rightarrow> basic_fault_mgr \<Rightarrow> basic_fault_mgr" where
  "bfm_setMaskComm now newFaultMask b =
     (let b = b \<lparr> faultEnableMask := faultEnableMask b OR newFaultMask,
                  affectedFaultsMask := affectedFaultsMask b OR newFaultMask,
                  prevFaults := currentFaults b \<rparr>;
          b = b \<lparr> currentFaults := newFaultMask \<rparr>;
          b = b \<lparr> summaryFaults := (summaryFaults b AND defaultFaultMask b) OR currentFaults b \<rparr>
      in b \<lparr> currentFaults := summaryFaults b, bfm_timeStamp := now \<rparr>)"

definition bfm_enableFaultsInMask :: "64 word \<Rightarrow> basic_fault_mgr \<Rightarrow> 64 word \<times> basic_fault_mgr" where
  "bfm_enableFaultsInMask msk b =
     (let enabled = faultEnableMask b OR msk
      in (enabled XOR faultEnableMask b, b \<lparr> faultEnableMask := enabled \<rparr>))"

section \<open>Latching\<close>

text \<open>
  The contract of a fault record towards its users: reported faults are latched, and only a
  reset of the bit takes one out again. \<open>accepted\<close> are the bits that are latched at all.
\<close>

locale fault_latch =
  fixes latched :: "'m \<Rightarrow> fault_bit set"
    and report :: "'m \<Rightarrow> 64 word \<Rightarrow> 'm"
    and reset :: "'m \<Rightarrow> 64 word \<Rightarrow> 'm"
    and ok :: "'m \<Rightarrow> bool"
    and accepted :: "fault_bit set"
  assumes latched_report: "ok m \<Longrightarrow> latched (report m w) = latched m \<union> {b \<in> accepted. hasFault w b}"
    and latched_reset: "ok m \<Longrightarrow> latched (reset m w) = latched m - {b. hasFault w b}"
    and ok_report: "ok m \<Longrightarrow> ok (report m w)"
    and ok_reset: "ok m \<Longrightarrow> ok (reset m w)"
begin

text \<open>A history of reports (\<open>Inl\<close>) and resets (\<open>Inr\<close>).\<close>

abbreviation act :: "64 word + 64 word \<Rightarrow> 'm \<Rightarrow> 'm" where
  "act e m \<equiv> (case e of Inl w \<Rightarrow> report m w | Inr w \<Rightarrow> reset m w)"

lemma ok_run: "ok m \<Longrightarrow> ok (fold act es m)"
proof (induction es arbitrary: m)
  case Nil
  then show ?case by simp
next
  case (Cons e es)
  then have "ok (act e m)" by (auto simp: ok_report ok_reset split: sum.splits)
  with Cons.IH show ?case by simp
qed

lemma latched_until_reset:
  assumes "ok m" and "b \<in> latched m" and "\<forall>w. Inr w \<in> set es \<longrightarrow> \<not> hasFault w b"
  shows "b \<in> latched (fold act es m)"
  using assms
proof (induction es arbitrary: m)
  case Nil
  then show ?case by simp
next
  case (Cons e es)
  from Cons.prems have "ok (act e m)" "b \<in> latched (act e m)"
    by (auto simp: ok_report ok_reset latched_report latched_reset split: sum.splits)
  with Cons show ?case by simp
qed

lemma reported_until_reset:
  assumes "ok m" and "b \<in> accepted" and "hasFault w b"
    and "\<forall>w'. Inr w' \<in> set es \<longrightarrow> \<not> hasFault w' b"
  shows "b \<in> latched (fold act (Inl w # es) m)"
  using assms latched_until_reset [of "report m w" b es] by (simp add: ok_report latched_report)

lemma latched_history:
  assumes "ok m" and "b \<in> latched (fold act es m)" and "b \<notin> latched m"
  shows "\<exists>w. Inl w \<in> set es \<and> hasFault w b"
  using assms
proof (induction es arbitrary: m)
  case Nil
  then show ?case by simp
next
  case (Cons e es)
  have "ok (act e m)" using Cons.prems(1) by (auto simp: ok_report ok_reset split: sum.splits)
  then have "b \<notin> latched (act e m) \<Longrightarrow> \<exists>w. Inl w \<in> set es \<and> hasFault w b"
    using Cons.IH Cons.prems by simp
  moreover have "b \<in> latched (act e m) \<Longrightarrow> \<exists>w. e = Inl w \<and> hasFault w b"
    using Cons.prems by (auto simp: latched_report latched_reset split: sum.splits)
  ultimately show ?case by auto
qed

end

definition fault_set :: "64 word \<Rightarrow> fault_bit set" where
  "fault_set w = {b. hasFault w b}"

definition bfm_latched :: "basic_fault_mgr \<Rightarrow> fault_bit set" where
  "bfm_latched b = fault_set (summaryFaults b) \<inter> fault_set getMaskFaults"

text \<open>
  What every operation keeps: the default mask is the mask of all faults, all of them are
  enabled, and a fault already seen by the last update is in the summary.
\<close>

definition bfm_ok :: "basic_fault_mgr \<Rightarrow> bool" where
  "bfm_ok b \<longleftrightarrow>
     defaultFaultMask b = getMaskFaults \<and>
     (\<forall>f. hasFault getMaskFaults f \<longrightarrow> hasFault (faultEnableMask b) f) \<and>
     (\<forall>f. hasFault getMaskFaults f \<longrightarrow> hasFault (prevFaults b) f \<longrightarrow> hasFault (summaryFaults b) f)"

definition bfm_report :: "timepoint \<Rightarrow> basic_fault_mgr \<Rightarrow> 64 word \<Rightarrow> basic_fault_mgr" where
  "bfm_report now b w = snd (bfm_updateFaults now (b \<lparr> currentFaults := w \<rparr>))"

lemma bfm_ok_initial: "bfm_ok (mkBasicFaultMgr now)" "bfm_ok (mkPowerFaultMgr now)"
  by (simp_all add: bfm_ok_def mkBasicFaultMgr_def mkPowerFaultMgr_def Let_def)

lemma no_fault_in_zero: "w = 0 \<Longrightarrow> \<not> hasFault w f"
  by simp

lemma bfm_ok_resetFaults: "bfm_ok b \<Longrightarrow> bfm_ok (bfm_resetFaults now msk b)"
  by (auto simp: bfm_ok_def bfm_resetFaults_def Let_def bitmap_simps)

lemma bfm_ok_mergeFaults: "bfm_ok b \<Longrightarrow> bfm_ok (snd (bfm_mergeFaults bits b))"
  by (auto simp: bfm_ok_def bfm_mergeFaults_def Let_def bitmap_simps)

lemma bfm_ok_enable: "bfm_ok b \<Longrightarrow> bfm_ok (snd (bfm_enableFaultsInMask msk b))"
  by (auto simp: bfm_ok_def bfm_enableFaultsInMask_def Let_def bitmap_simps)

lemma bfm_report_diff_zero:
  assumes "bfm_ok b" and "(prevFaults b XOR w) AND faultEnableMask b = 0" and "hasFault getMaskFaults f"
  shows "hasFault w f \<longleftrightarrow> hasFault (prevFaults b) f"
  using no_fault_in_zero [OF assms(2), of f] assms(1,3) by (auto simp: bitmap_simps bfm_ok_def)

lemma bfm_ok_report: "bfm_ok b \<Longrightarrow> bfm_ok (bfm_report now b w)"
  by (auto simp: bfm_ok_def bfm_report_def bfm_updateFaults_def Let_def bitmap_simps)

lemma bfm_latched_report:
  assumes ok: "bfm_ok b"
  shows "bfm_latched (bfm_report now b w) = bfm_latched b \<union> {f \<in> fault_set getMaskFaults. hasFault w f}"
proof (cases "(prevFaults b XOR w) AND faultEnableMask b = 0")
  case True
  then have "summaryFaults (bfm_report now b w) = summaryFaults b"
    by (simp add: bfm_report_def bfm_updateFaults_def Let_def)
  then show ?thesis
    using bfm_report_diff_zero [OF ok True] ok
    by (auto simp: bfm_latched_def fault_set_def bfm_ok_def)
next
  case False
  then have "summaryFaults (bfm_report now b w) = (summaryFaults b AND getMaskFaults) OR w"
    using ok by (simp add: bfm_report_def bfm_updateFaults_def Let_def bfm_ok_def)
  then show ?thesis by (auto simp: bfm_latched_def fault_set_def bitmap_simps)
qed

lemma bfm_latched_reset: "bfm_latched (bfm_resetFaults now w b) = bfm_latched b - {f. hasFault w f}"
  by (auto simp: bfm_latched_def fault_set_def bfm_resetFaults_def Let_def bitmap_simps)

interpretation bfl: fault_latch bfm_latched "bfm_report now" "\<lambda>b w. bfm_resetFaults now w b" bfm_ok
    "fault_set getMaskFaults"
  for now
  by unfold_locales (simp_all add: bfm_latched_report bfm_latched_reset bfm_ok_report bfm_ok_resetFaults)

section \<open>The fault manager\<close>

record fault_mgr =
  summarySystem :: basic_fault_mgr
  powerFaultMgr :: basic_fault_mgr
  telemetryFaultMgr :: basic_fault_mgr
  commConnectionFault :: bool
  healthFaultMask :: "64 word"

definition mkFaultMgr :: "timepoint \<Rightarrow> fault_mgr" where
  "mkFaultMgr now = \<lparr>
     summarySystem = mkBasicFaultMgr now, powerFaultMgr = mkPowerFaultMgr now,
     telemetryFaultMgr = mkBasicFaultMgr now, commConnectionFault = True,
     healthFaultMask = getMaskHealthFaults \<rparr>"

definition fm_resetFaults :: "timepoint \<Rightarrow> 64 word \<Rightarrow> fault_mgr \<Rightarrow> fault_mgr" where
  "fm_resetFaults now resetMask fm = fm \<lparr>
     powerFaultMgr := bfm_resetFaults now resetMask (powerFaultMgr fm),
     telemetryFaultMgr := bfm_resetFaults now resetMask (telemetryFaultMgr fm),
     summarySystem := bfm_resetFaults now resetMask (summarySystem fm) \<rparr>"

definition commMask :: "64 word" where
  "commMask = setFault 0 CRIO_COMM_FAULT"

text \<open>The part of \<open>reportComConnectionCount\<close> on the fault records; \<open>True\<close>: go to safe mode.\<close>

definition fm_connectionCount :: "timepoint \<Rightarrow> nat \<Rightarrow> fault_mgr \<Rightarrow> bool \<times> fault_mgr" where
  "fm_connectionCount now count fm =
     (let fm = fm \<lparr> commConnectionFault := count < 1 \<rparr>
      in if commConnectionFault fm
         then (True, fm \<lparr> summarySystem := bfm_setMaskComm now commMask (summarySystem fm) \<rparr>)
         else (False, fm_resetFaults now commMask fm))"

definition fm_reportMotionEngineTimeout :: "bool \<Rightarrow> fault_mgr \<Rightarrow> fault_mgr" where
  "fm_reportMotionEngineTimeout errorLvl fm =
     (let timeoutMask = setFault 0 (if errorLvl then STALE_DATA_FAULT else STALE_DATA_WARN);
          (changed, b) = bfm_mergeFaults timeoutMask (summarySystem fm)
      in fm \<lparr> summarySystem := b \<rparr>)"

text \<open>
  \<open>updatePowerFaults\<close> in three parts: the merge into the power record, which may end the call;
  whether health faults ask for safe mode; the update of the system summary.
\<close>

definition fm_powerMerge :: "timepoint \<Rightarrow> 64 word \<Rightarrow> fault_mgr \<Rightarrow> bool \<times> fault_mgr" where
  "fm_powerMerge now cf fm =
     (let b = (powerFaultMgr fm) \<lparr> currentFaults := cf \<rparr>;
          (changed, b') = bfm_updateFaults now b
      in (changed, fm \<lparr> powerFaultMgr := b' \<rparr>))"

definition fm_needsSafeMode :: "64 word \<Rightarrow> CrioSubsystem \<Rightarrow> fault_mgr \<Rightarrow> bool" where
  "fm_needsSafeMode cf subsystem fm \<longleftrightarrow>
     subsystem = POWER_SUBSYSTEM \<and> cf AND healthFaultMask fm \<noteq> 0"

definition fm_summaryUpdate :: "fault_mgr \<Rightarrow> fault_mgr" where
  "fm_summaryUpdate fm =
     (let bfm = powerFaultMgr fm;
          (nSummary, changedBits) =
            updateFaultStatus (summaryFaults (summarySystem fm)) (faultEnableMask bfm)
              (currentFaults bfm) (affectedWarnInfoMask bfm) (affectedFaultsMask bfm);
          nSummary64 = ucast nSummary
      in if nSummary64 \<noteq> summaryFaults (summarySystem fm)
         then fm \<lparr> summarySystem := bfm_updateSummary nSummary64 (summarySystem fm) \<rparr>
         else fm)"

definition checkForPowerSubsystemFaults :: "64 word \<Rightarrow> fault_mgr \<Rightarrow> bool" where
  "checkForPowerSubsystemFaults subsystemMask fm =
     (let faultFound = commConnectionFault fm;
          pfm = powerFaultMgr fm;
          faultBitmap = subsystemMask AND faultEnableMask pfm AND
                        (currentFaults pfm OR summaryFaults pfm)
      in if \<not> faultFound then faultBitmap \<noteq> 0 else faultFound)"

definition fm_enableFaultsInMask :: "64 word \<Rightarrow> fault_mgr \<Rightarrow> 64 word \<times> fault_mgr" where
  "fm_enableFaultsInMask msk fm =
     (let (changed, s) = bfm_enableFaultsInMask msk (summarySystem fm)
      in (changed, fm \<lparr>
            summarySystem := s,
            powerFaultMgr := snd (bfm_enableFaultsInMask msk (powerFaultMgr fm)),
            telemetryFaultMgr := snd (bfm_enableFaultsInMask msk (telemetryFaultMgr fm)) \<rparr>))"

definition fm_getSummaryFaults :: "fault_mgr \<Rightarrow> 64 word" where
  "fm_getSummaryFaults fm = summaryFaults (summarySystem fm)"

definition fm_getFaultEnableMask :: "fault_mgr \<Rightarrow> 64 word" where
  "fm_getFaultEnableMask fm = faultEnableMask (summarySystem fm)"

lemma fm_powerMerge_report:
  "powerFaultMgr (snd (fm_powerMerge now cf fm)) = bfm_report now (powerFaultMgr fm) cf"
  by (simp add: fm_powerMerge_def bfm_report_def Let_def case_prod_beta)

lemma fm_powerMerge_frame [world_frame]:
  "commConnectionFault (snd (fm_powerMerge now cf fm)) = commConnectionFault fm"
  "healthFaultMask (snd (fm_powerMerge now cf fm)) = healthFaultMask fm"
  "summarySystem (snd (fm_powerMerge now cf fm)) = summarySystem fm"
  by (simp_all add: fm_powerMerge_def Let_def case_prod_beta)

lemma fm_summaryUpdate_frame [world_frame]:
  "commConnectionFault (fm_summaryUpdate fm) = commConnectionFault fm"
  "powerFaultMgr (fm_summaryUpdate fm) = powerFaultMgr fm"
  "healthFaultMask (fm_summaryUpdate fm) = healthFaultMask fm"
  by (simp_all add: fm_summaryUpdate_def Let_def case_prod_beta)

lemma fm_reportMotionEngineTimeout_frame [world_frame]:
  "commConnectionFault (fm_reportMotionEngineTimeout e fm) = commConnectionFault fm"
  "powerFaultMgr (fm_reportMotionEngineTimeout e fm) = powerFaultMgr fm"
  "healthFaultMask (fm_reportMotionEngineTimeout e fm) = healthFaultMask fm"
  by (simp_all add: fm_reportMotionEngineTimeout_def Let_def case_prod_beta)

lemma fm_connectionCount_fault [world_frame]:
  "commConnectionFault (snd (fm_connectionCount now n fm)) \<longleftrightarrow> n = 0"
  "fst (fm_connectionCount now n fm) \<longleftrightarrow> n = 0"
  by (auto simp: fm_connectionCount_def fm_resetFaults_def Let_def)

lemma checkForPowerSubsystemFaults_iff:
  "checkForPowerSubsystemFaults msk fm \<longleftrightarrow>
     commConnectionFault fm \<or>
     msk AND faultEnableMask (powerFaultMgr fm) AND
       (currentFaults (powerFaultMgr fm) OR summaryFaults (powerFaultMgr fm)) \<noteq> 0"
  by (simp add: checkForPowerSubsystemFaults_def Let_def)

lemma checkForPowerSubsystemFaults_latched:
  assumes "bfm_ok (powerFaultMgr fm)" and "f \<in> bfm_latched (powerFaultMgr fm)" and "hasFault msk f"
  shows "checkForPowerSubsystemFaults msk fm"
proof -
  have "hasFault (msk AND faultEnableMask (powerFaultMgr fm) AND
      (currentFaults (powerFaultMgr fm) OR summaryFaults (powerFaultMgr fm))) f"
    using assms by (auto simp: bitmap_simps bfm_ok_def bfm_latched_def fault_set_def)
  then show ?thesis
    unfolding checkForPowerSubsystemFaults_iff using no_fault_in_zero by blast
qed

end
