(* ===== verification/PowerSubsystem.thy ===== *)
theory PowerSubsystem
  imports PowerConfig FaultMgr
begin

text \<open>
  The class \<open>PowerSubsystem\<close> of \<open>control/PowerSubsystem\<close>: the state machine that turns the
  MOTOR or COMM power on and off. Its methods run under the lock \<open>_powerStateMtx\<close>, write the
  output port of \<open>FpgaIo\<close> and collect faults in a bitmap of the caller; a method is a function
  on these three parts, \<open>pctx\<close>. The clock is read once per call of a public method: \<open>now\<close>.
  Log lines are not modelled.
\<close>

section \<open>State\<close>

record psub =
  ps_type :: PowerSystemType
  psCfg :: psub_config
  sysInfo :: sys_info
  powerOnStart :: timepoint
  powerOffStart :: timepoint
  phase :: int
  phaseStartTime :: timepoint
  telemCounter :: int
  targ :: PowerState
  actual :: PowerState
  targPrev :: PowerState
  actualPrev :: PowerState

record pctx =
  sub :: psub
  port :: "8 word"
  faults :: "64 word"

definition writeOutputPort :: "out_bit \<Rightarrow> bool \<Rightarrow> pctx \<Rightarrow> pctx" where
  "writeOutputPort b v c = c \<lparr> port := write_out (port c) b v \<rparr>"

definition reportFault :: "fault_bit \<Rightarrow> pctx \<Rightarrow> pctx" where
  "reportFault b c = c \<lparr> faults := setFault (faults c) b \<rparr>"

text \<open>
  The accessors that throw for a type that is neither MOTOR nor COMM return a result. The
  constructor refuses such a type, so inside the class the exception cannot occur (shown
  below as \<open>psub_wf\<close>) and the callers take the value.
\<close>

definition val_or :: "'a \<Rightarrow> 'a result \<Rightarrow> 'a" where
  "val_or d r = (case r of Inr v \<Rightarrow> v | Inl _ \<Rightarrow> d)"

lemma val_or_Inr [simp]: "val_or d (Inr v) = v"
  by (simp add: val_or_def)

definition getVoltage :: "psub \<Rightarrow> real" where
  "getVoltage ps =
     (case ps_type ps of MOTOR \<Rightarrow> si_motorVoltage (sysInfo ps) | COMM \<Rightarrow> si_commVoltage (sysInfo ps) | _ \<Rightarrow> 0)"

definition getCurrent :: "psub \<Rightarrow> real" where
  "getCurrent ps =
     (case ps_type ps of MOTOR \<Rightarrow> si_motorCurrent (sysInfo ps) | COMM \<Rightarrow> si_commCurrent (sysInfo ps) | _ \<Rightarrow> 0)"

definition getRelayControlOutputOn :: "psub \<Rightarrow> bool" where
  "getRelayControlOutputOn ps = out_bit_on (si_outputPort (sysInfo ps)) (outputPowerOnBit (psCfg ps))"

definition getCrioReadyOutputOn :: "psub \<Rightarrow> bool result" where
  "getCrioReadyOutputOn ps =
     (case ps_type ps of
        MOTOR \<Rightarrow> Inr (out_bit_on (si_outputPort (sysInfo ps)) CRIO_INTERLOCK_ENABLE)
      | COMM \<Rightarrow> Inr True
      | _ \<Rightarrow> Inl (Bug ''_getCrioReadyOutputOn unexpected systemType''))"

definition getInterlockRelayControlOutputOn :: "psub \<Rightarrow> bool result" where
  "getInterlockRelayControlOutputOn ps =
     (case ps_type ps of
        MOTOR \<Rightarrow> Inr (\<not> in_bit_on (si_inputPort (sysInfo ps)) INTERLOCK_POWER_RELAY)
      | COMM \<Rightarrow> Inr True
      | _ \<Rightarrow> Inl (Bug ''_getInterlockRelayControlOutputOn unexpected systemType''))"

definition powerShouldBeOn :: "pctx \<Rightarrow> bool \<times> pctx" where
  "powerShouldBeOn c =
     (if getRelayControlOutputOn (sub c) \<and> val_or False (getCrioReadyOutputOn (sub c))
      then (if val_or False (getInterlockRelayControlOutputOn (sub c)) then (True, c)
            else (False, reportFault INTERLOCK_FAULT c))
      else (False, c))"

section \<open>Turning off and on\<close>

definition setPowerOff :: "timepoint \<Rightarrow> pctx \<Rightarrow> pctx" where
  "setPowerOff now c =
     (let c = writeOutputPort (outputBreakerBit (psCfg (sub c))) True c;
          c = writeOutputPort (outputPowerOnBit (psCfg (sub c))) False c
      in if targ (sub c) \<noteq> OFF
         then c \<lparr> sub := (sub c) \<lparr> targ := OFF, phase := 1, powerOffStart := now, phaseStartTime := now \<rparr> \<rparr>
         else c)"

definition checkForFaults :: "fault_mgr \<Rightarrow> psub \<Rightarrow> bool" where
  "checkForFaults fm ps =
     checkForPowerSubsystemFaults
       (unsetFault (subsystemFaultMask (psCfg ps)) (breakerFault (psCfg ps))) fm"

definition setPowerOn :: "timepoint \<Rightarrow> fault_mgr \<Rightarrow> pctx \<Rightarrow> bool \<times> pctx" where
  "setPowerOn now fm c =
     (if checkForFaults fm (sub c) then (False, setPowerOff now c)
      else if \<not> val_or False (getCrioReadyOutputOn (sub c)) then (False, setPowerOff now c)
      else
        let c = writeOutputPort (outputBreakerBit (psCfg (sub c))) True c;
            c = writeOutputPort (outputPowerOnBit (psCfg (sub c))) True c
        in (True, c \<lparr> sub := (sub c) \<lparr> targ := ON, phase := 1, powerOnStart := now,
                                      phaseStartTime := now, telemCounter := 0 \<rparr> \<rparr>))"

text \<open>
  The constructor. \<open>si0\<close> is the \<open>_sysInfo\<close> member before the first reading, whose numbers are
  uninitialised in the code; its two ports are zero. \<open>_targPowerState\<close> starts as OFF.
\<close>

definition mkPowerSubsystem ::
  "timepoint \<Rightarrow> sys_info \<Rightarrow> PowerSystemType \<Rightarrow> 8 word \<Rightarrow> (psub \<times> 8 word) result" where
  "mkPowerSubsystem now si0 sysType outPort =
     bind_result (mkPowerSubsystemConfig sysType) (\<lambda>cfg.
       let c = setPowerOff now
             \<lparr> sub = \<lparr> ps_type = sysType, psCfg = cfg,
                       sysInfo = si0 \<lparr> si_outputPort := 0, si_inputPort := 0 \<rparr>,
                       powerOnStart = 0, powerOffStart = 0, phase = 1, phaseStartTime = 0,
                       telemCounter = 0, targ = OFF, actual = UNKNOWN,
                       targPrev = UNKNOWN, actualPrev = UNKNOWN \<rparr>,
               port = outPort, faults = 0 \<rparr>
       in Inr (sub c, port c))"

section \<open>Processing a reading while the target is ON\<close>

definition updateFaults :: "timepoint \<Rightarrow> pctx \<Rightarrow> pctx" where
  "updateFaults now c =
     (let c = reportFault (voltageFault (psCfg (sub c))) c;
          c = reportFault HARDWARE_FAULT c
      in setPowerOff now c)"

definition checkBreakersCtx :: "pctx \<Rightarrow> SysStatus \<times> pctx" where
  "checkBreakersCtx c =
     (let ((status, inactive), cfg) = configCheckBreakers (psCfg (sub c)) (sysInfo (sub c))
      in (status, c \<lparr> sub := (sub c) \<lparr> psCfg := cfg \<rparr> \<rparr>))"

definition checkForPowerOnBreakerFault :: "timepoint \<Rightarrow> real \<Rightarrow> pctx \<Rightarrow> bool \<times> pctx" where
  "checkForPowerOnBreakerFault now voltage c =
     (if voltage \<ge> breakerOperatingVoltage (psCfg (sub c))
      then
        let (status, c) = checkBreakersCtx c
        in if status = GOOD then (False, c)
           else if status \<le> FAULT
           then (True, setPowerOff now (reportFault (breakerFault (psCfg (sub c))) c))
           else (False, reportFault (breakerWarn (psCfg (sub c))) c)
      else (True, updateFaults now c))"

definition processOnCase :: "timepoint \<Rightarrow> bool \<Rightarrow> real \<Rightarrow> pctx \<Rightarrow> pctx" where
  "processOnCase now outputIsOn voltage c =
     (if \<not> outputIsOn then setPowerOff now c
      else
        let (breakerBad, c) = checkForPowerOnBreakerFault now voltage c
        in if breakerBad then setPowerOff now c
           else if phase (sub c) \<le> 1
           then
             (let timeSincePhaseStart = timePassedSec (phaseStartTime (sub c)) now;
                  minTimeToStablize =
                    voltageSettlingTime (psCfg (sub c)) - breakerOperatingVoltageRiseTime (psCfg (sub c))
              in if timeSincePhaseStart > minTimeToStablize
                 then c \<lparr> sub := (sub c) \<lparr> phase := 2, phaseStartTime := now \<rparr> \<rparr>
                 else c)
           else if phase (sub c) = 2
           then
             (let c = (if voltage < minVoltageWarn (psCfg (sub c))
                       then reportFault (voltageWarn (psCfg (sub c))) c else c)
              in if voltage < minVoltageFault (psCfg (sub c))
                 then setPowerOff now (reportFault (voltageFault (psCfg (sub c))) c)
                 else c)
           else c)"

definition processTurningOnCase :: "timepoint \<Rightarrow> bool \<Rightarrow> real \<Rightarrow> pctx \<Rightarrow> pctx" where
  "processTurningOnCase now outputIsOn voltage c =
     (let timeSincePhaseStart = timePassedSec (phaseStartTime (sub c)) now;
          c = (if phase (sub c) = 1
               then
                 (let n = telemCounter (sub c) + 1;
                      c = c \<lparr> sub := (sub c) \<lparr> telemCounter := n \<rparr> \<rparr>
                  in if n \<ge> 10 then c \<lparr> sub := (sub c) \<lparr> phase := 2, phaseStartTime := now \<rparr> \<rparr> else c)
               else c)
      in if phase (sub c) > 1 \<and> \<not> outputIsOn then setPowerOff now c
         else if phase (sub c) = 2 \<and> \<not> timeSincePhaseStart > val_or 0 (outputOnMaxDelay (psCfg (sub c)))
         then c
         else
           let c = (if phase (sub c) = 2
                    then c \<lparr> sub := (sub c) \<lparr> phase := 3, phaseStartTime := now \<rparr> \<rparr> else c)
           in if phase (sub c) \<ge> 3
              then
                (if voltage < breakerOperatingVoltage (psCfg (sub c)) then updateFaults now c
                 else
                   let (status, c) = checkBreakersCtx c
                   in if status = GOOD
                      then c \<lparr> sub := (sub c) \<lparr> actual := ON, phase := 1, phaseStartTime := now \<rparr> \<rparr>
                      else writeOutputPort (outputBreakerBit (psCfg (sub c))) False
                             (c \<lparr> sub := (sub c) \<lparr> actual := RESET, phaseStartTime := now, phase := 1 \<rparr> \<rparr>))
              else c)"

definition processResetCase :: "timepoint \<Rightarrow> bool \<Rightarrow> real \<Rightarrow> pctx \<Rightarrow> pctx" where
  "processResetCase now outputIsOn voltage c =
     (if \<not> outputIsOn
      then setPowerOff now (writeOutputPort (outputBreakerBit (psCfg (sub c))) True c)
      else if voltage < breakerOperatingVoltage (psCfg (sub c)) then updateFaults now c
      else
        let timeSincePhaseStart = timePassedSec (phaseStartTime (sub c)) now
        in if timeSincePhaseStart > resetBreakerPulseWidth (psCfg (sub c))
           then
             (let c = writeOutputPort (outputBreakerBit (psCfg (sub c))) True c
              in if timeSincePhaseStart > resetBreakerPulseWidth (psCfg (sub c)) * 2
                 then
                   (let (breakerBad, c) = checkForPowerOnBreakerFault now voltage c
                    in if breakerBad then c
                       else c \<lparr> sub := (sub c) \<lparr> actual := ON, phaseStartTime := now \<rparr> \<rparr>)
                 else c)
           else c)"

definition processPowerOn :: "timepoint \<Rightarrow> pctx \<Rightarrow> pctx" where
  "processPowerOn now c =
     (let (outputIsOn, c) = powerShouldBeOn c;
          voltage = getVoltage (sub c)
      in if voltage > maxVoltageFault (psCfg (sub c))
         then setPowerOff now (reportFault (voltageFault (psCfg (sub c))) c)
         else
           let c = (if voltage > maxVoltageWarn (psCfg (sub c))
                    then reportFault (voltageWarn (psCfg (sub c))) c else c);
               currentA = getCurrent (sub c)
           in if currentA > maxCurrent (psCfg (sub c))
              then setPowerOff now (reportFault (excessiveCurrent (psCfg (sub c))) c)
              else
                (case actual (sub c) of
                   ON \<Rightarrow> processOnCase now outputIsOn voltage c
                 | OFF \<Rightarrow> processTurningOnCase now outputIsOn voltage
                     (c \<lparr> sub := (sub c) \<lparr> actual := TURNING_ON, phase := 1, phaseStartTime := now \<rparr> \<rparr>)
                 | TURNING_OFF \<Rightarrow> processTurningOnCase now outputIsOn voltage
                     (c \<lparr> sub := (sub c) \<lparr> actual := TURNING_ON, phase := 1, phaseStartTime := now \<rparr> \<rparr>)
                 | TURNING_ON \<Rightarrow> processTurningOnCase now outputIsOn voltage c
                 | RESET \<Rightarrow> processResetCase now outputIsOn voltage c
                 | UNKNOWN \<Rightarrow> setPowerOff now c))"

section \<open>Processing a reading while the target is OFF\<close>

definition processTurningOffCase :: "timepoint \<Rightarrow> real \<Rightarrow> pctx \<Rightarrow> pctx" where
  "processTurningOffCase now voltage c =
     (if voltage < voltageOffLevel (psCfg (sub c))
      then c \<lparr> sub := (sub c) \<lparr> actual := OFF, phaseStartTime := now \<rparr> \<rparr>
      else
        let timeInPhase = timePassedSec (phaseStartTime (sub c)) now
        in if timeInPhase > val_or 0 (outputOffMaxDelay (psCfg (sub c)))
           then setPowerOff now (reportFault (relayInUse (psCfg (sub c)))
                                  (reportFault (relayFault (psCfg (sub c))) c))
           else c)"

definition processPowerOff :: "timepoint \<Rightarrow> pctx \<Rightarrow> pctx" where
  "processPowerOff now c =
     (if getRelayControlOutputOn (sub c) then setPowerOff now c
      else
        let voltage = getVoltage (sub c)
        in case actual (sub c) of
             TURNING_OFF \<Rightarrow> processTurningOffCase now voltage c
           | OFF \<Rightarrow> c
           | _ \<Rightarrow>
               let c = setPowerOff now c
               in processTurningOffCase now voltage (c \<lparr> sub := (sub c) \<lparr> phaseStartTime := now \<rparr> \<rparr>))"

text \<open>
  \<open>processDaq\<close> first stores the reading and turns power off on system faults, then reports a
  changed state to the model, and last advances the state machine under the lock. The report
  leaves this class, so \<open>processDaq\<close> is put together in \<open>M2System\<close> from its first and last part.
  It returns FAULT on every path.
\<close>

definition processDaqFaultCheck :: "timepoint \<Rightarrow> fault_mgr \<Rightarrow> sys_info \<Rightarrow> pctx \<Rightarrow> pctx" where
  "processDaqFaultCheck now fm info c =
     (let c = c \<lparr> sub := (sub c) \<lparr> sysInfo := info \<rparr> \<rparr>
      in if checkForFaults fm (sub c) then setPowerOff now c else c)"

definition stateChanged :: "psub \<Rightarrow> bool" where
  "stateChanged ps \<longleftrightarrow> targPrev ps \<noteq> targ ps \<or> actualPrev ps \<noteq> actual ps"

definition rememberState :: "psub \<Rightarrow> psub" where
  "rememberState ps = ps \<lparr> targPrev := targ ps, actualPrev := actual ps \<rparr>"

definition processDaqSwitch :: "timepoint \<Rightarrow> pctx \<Rightarrow> pctx" where
  "processDaqSwitch now c =
     (case targ (sub c) of
        ON \<Rightarrow> processPowerOn now c
      | OFF \<Rightarrow> processPowerOff now c
      | _ \<Rightarrow> processPowerOff now (setPowerOff now c))"

definition processDaqResult :: SysStatus where
  "processDaqResult = FAULT"

end
