(* ===== verification/PowerSubsystemSafety.thy ===== *)
theory PowerSubsystemSafety
  imports PowerSubsystem
begin

text \<open>
  What the state machine of one power subsystem guarantees: which output bits it writes, the
  invariant between its target state and those bits, its transition relation, the conditions
  under which it reaches ON, when it shuts power off, and that it does get ON and OFF.
\<close>

section \<open>Well-formed subsystems\<close>

definition pbit :: "PowerSystemType \<Rightarrow> out_bit" where
  "pbit t = outputPowerOnBit (configOf t)"

definition bbit :: "PowerSystemType \<Rightarrow> out_bit" where
  "bbit t = outputBreakerBit (configOf t)"

lemma pbit_bbit_simps [simp]:
  "pbit MOTOR = MOTOR_POWER_ON" "bbit MOTOR = RESET_MOTOR_BREAKERS"
  "pbit COMM = ILC_COMM_POWER_ON" "bbit COMM = RESET_COMM_BREAKERS"
  by (simp_all add: pbit_def bbit_def configOf_values)

lemma pbit_neq_bbit [simp]: "pbit t \<noteq> bbit t" "bbit t \<noteq> pbit t"
  by (cases t; simp add: pbit_def bbit_def configOf_values)+

definition psub_wf :: "PowerSystemType \<Rightarrow> psub \<Rightarrow> bool" where
  "psub_wf t ps \<longleftrightarrow>
     t \<noteq> UNKNOWNPOWERSYSTEM \<and> ps_type ps = t \<and> cfg_core (psCfg ps) = cfg_core (configOf t) \<and>
     actual ps \<noteq> TURNING_OFF"

text \<open>Equal configurations up to the logged bitmaps have equal limits.\<close>

lemma psub_wf_cfg:
  assumes "psub_wf t ps"
  shows "outputPowerOnBit (psCfg ps) = pbit t" "outputBreakerBit (psCfg ps) = bbit t"
    "breakerOperatingVoltage (psCfg ps) = 19" "maxVoltageFault (psCfg ps) = 132 / 5"
    "minVoltageFault (psCfg ps) = 108 / 5" "voltageOffLevel (psCfg ps) = 12"
    "resetBreakerPulseWidth (psCfg ps) = 2 / 5"
    "maxCurrent (psCfg ps) = maxCurrent (configOf t)"
    "outputOnMaxDelay (psCfg ps) = outputOnMaxDelay (configOf t)"
    "outputOffMaxDelay (psCfg ps) = outputOffMaxDelay (configOf t)"
    "voltageFault (psCfg ps) = voltageFault (configOf t)"
    "excessiveCurrent (psCfg ps) = excessiveCurrent (configOf t)"
    "breakerFault (psCfg ps) = breakerFault (configOf t)"
    "breakerStatus (psCfg ps) info = breakerStatus (configOf t) info"
proof -
  have core: "cfg_core (psCfg ps) = cfg_core (configOf t)" using assms by (simp add: psub_wf_def)
  show "breakerStatus (psCfg ps) info = breakerStatus (configOf t) info"
    by (rule breakerStatus_cong [OF core])
  show "outputPowerOnBit (psCfg ps) = pbit t" "outputBreakerBit (psCfg ps) = bbit t"
    "breakerOperatingVoltage (psCfg ps) = 19" "maxVoltageFault (psCfg ps) = 132 / 5"
    "minVoltageFault (psCfg ps) = 108 / 5" "voltageOffLevel (psCfg ps) = 12"
    "resetBreakerPulseWidth (psCfg ps) = 2 / 5"
    "maxCurrent (psCfg ps) = maxCurrent (configOf t)"
    "outputOnMaxDelay (psCfg ps) = outputOnMaxDelay (configOf t)"
    "outputOffMaxDelay (psCfg ps) = outputOffMaxDelay (configOf t)"
    "voltageFault (psCfg ps) = voltageFault (configOf t)"
    "excessiveCurrent (psCfg ps) = excessiveCurrent (configOf t)"
    "breakerFault (psCfg ps) = breakerFault (configOf t)"
    using cfg_core_fields [OF core]
    by (cases t; simp add: pbit_def bbit_def config_real_values)+
qed

text \<open>What is read from a subsystem depends on its type and the last reading only.\<close>

lemma sensor_cong:
  assumes "ps_type ps = ps_type ps'" and "sysInfo ps = sysInfo ps'"
  shows "getVoltage ps = getVoltage ps'" "getCurrent ps = getCurrent ps'"
  unfolding getVoltage_def getCurrent_def assms by (rule refl)+

section \<open>The primitives\<close>

text \<open>
  The effect of each primitive on the three parts of the context. \<open>setPowerOff\<close> and
  \<open>writeOutputPort\<close> are kept folded in the proofs below.
\<close>

lemma writeOutputPort_parts [power_simps]:
  "sub (writeOutputPort b v c) = sub c" "faults (writeOutputPort b v c) = faults c"
  "port (writeOutputPort b v c) = write_out (port c) b v"
  by (simp_all add: writeOutputPort_def)

lemma reportFault_parts [power_simps]:
  "sub (reportFault b c) = sub c" "port (reportFault b c) = port c"
  "faults (reportFault b c) = setFault (faults c) b"
  by (simp_all add: reportFault_def)

lemma setPowerOff_parts [power_simps]:
  "ps_type (sub (setPowerOff now c)) = ps_type (sub c)"
  "psCfg (sub (setPowerOff now c)) = psCfg (sub c)"
  "sysInfo (sub (setPowerOff now c)) = sysInfo (sub c)"
  "actual (sub (setPowerOff now c)) = actual (sub c)"
  "targ (sub (setPowerOff now c)) = OFF"
  "targPrev (sub (setPowerOff now c)) = targPrev (sub c)"
  "actualPrev (sub (setPowerOff now c)) = actualPrev (sub c)"
  "faults (setPowerOff now c) = faults c"
  "port (setPowerOff now c) =
     write_out (write_out (port c) (outputBreakerBit (psCfg (sub c))) True)
       (outputPowerOnBit (psCfg (sub c))) False"
  by (simp_all add: setPowerOff_def writeOutputPort_def Let_def)

lemma updateFaults_parts [power_simps]:
  "sub (updateFaults now c) = sub (setPowerOff now c)" "port (updateFaults now c) = port (setPowerOff now c)"
  by (simp_all add: updateFaults_def setPowerOff_def reportFault_def writeOutputPort_def Let_def)

lemma powerShouldBeOn_parts [power_simps]:
  "sub (snd (powerShouldBeOn c)) = sub c" "port (snd (powerShouldBeOn c)) = port c"
  by (simp_all add: powerShouldBeOn_def reportFault_def)

lemma checkBreakersCtx_eq [power_simps]:
  "checkBreakersCtx c =
     (breakerStatus (psCfg (sub c)) (sysInfo (sub c)),
      c \<lparr> sub := (sub c) \<lparr> psCfg := snd (configCheckBreakers (psCfg (sub c)) (sysInfo (sub c))) \<rparr> \<rparr>)"
  by (simp add: checkBreakersCtx_def breakerStatus_def case_prod_beta split: prod.split)

section \<open>The invariant\<close>

text \<open>
  The target is ON or OFF; the power-on output is set only while the target is ON; the
  breakers' reset line is pulled low only while they are being reset.
\<close>

definition psub_inv :: "PowerSystemType \<Rightarrow> pctx \<Rightarrow> bool" where
  "psub_inv t c \<longleftrightarrow>
     psub_wf t (sub c) \<and> targ (sub c) \<in> {ON, OFF} \<and>
     (out_bit_on (port c) (pbit t) \<longrightarrow> targ (sub c) = ON) \<and>
     (\<not> out_bit_on (port c) (bbit t) \<longrightarrow> targ (sub c) = ON \<and> actual (sub c) = RESET)"

lemma psub_inv_setPowerOff [power_simps]: "psub_wf t (sub c) \<Longrightarrow> psub_inv t (setPowerOff now c)"
  by (simp add: psub_inv_def psub_wf_cfg power_simps bitmap_simps)
    (simp add: psub_wf_def power_simps)

lemma psub_inv_reportFault [power_simps]: "psub_inv t (reportFault b c) = psub_inv t c"
  by (simp add: psub_inv_def power_simps)

lemma psub_inv_updateFaults [power_simps]: "psub_wf t (sub c) \<Longrightarrow> psub_inv t (updateFaults now c)"
  by (simp add: updateFaults_def Let_def power_simps)

text \<open>An update of the fields that the invariant does not mention keeps it.\<close>

lemma psub_inv_upd:
  assumes "psub_inv t c" and "ps_type ps' = ps_type (sub c)"
    and "cfg_core (psCfg ps') = cfg_core (psCfg (sub c))"
    and "targ ps' = targ (sub c)" and "actual ps' = actual (sub c)"
  shows "psub_inv t (c \<lparr> sub := ps' \<rparr>)"
  using assms by (simp add: psub_inv_def psub_wf_def)

text \<open>With the reset line high the actual state may change as well.\<close>

lemma psub_inv_set_actual:
  assumes "psub_inv t c" and "actual (sub c) \<noteq> RESET \<or> out_bit_on (port c) (bbit t)"
    and "ps_type ps' = ps_type (sub c)" and "cfg_core (psCfg ps') = cfg_core (psCfg (sub c))"
    and "targ ps' = targ (sub c)" and "actual ps' \<noteq> TURNING_OFF"
  shows "psub_inv t (c \<lparr> sub := ps' \<rparr>)"
  using assms by (auto simp: psub_inv_def psub_wf_def)

lemma psub_wf_upd [power_simps]:
  "psub_wf t (ps \<lparr> phase := p \<rparr>) = psub_wf t ps"
  "psub_wf t (ps \<lparr> phaseStartTime := s \<rparr>) = psub_wf t ps"
  "psub_wf t (ps \<lparr> telemCounter := n \<rparr>) = psub_wf t ps"
  "psub_wf t (ps \<lparr> sysInfo := i \<rparr>) = psub_wf t ps"
  "psub_wf t (ps \<lparr> actualPrev := a \<rparr>) = psub_wf t ps"
  "psub_wf t (ps \<lparr> targPrev := a \<rparr>) = psub_wf t ps"
  "psub_wf t (ps \<lparr> psCfg := snd (configCheckBreakers (psCfg ps) i) \<rparr>) = psub_wf t ps"
  by (simp_all add: psub_wf_def)

lemma psub_inv_wf: "psub_inv t c \<Longrightarrow> psub_wf t (sub c)"
  by (simp add: psub_inv_def)

lemma psub_inv_setPowerOn:
  assumes "psub_wf t (sub c)"
  shows "psub_inv t (snd (setPowerOn now fm c))"
proof -
  have "psub_inv t (snd (setPowerOn now fm c))"
    if "\<not> (checkForFaults fm (sub c) \<or> \<not> val_or False (getCrioReadyOutputOn (sub c)))"
    using that assms
    by (simp add: setPowerOn_def Let_def psub_inv_def power_simps bitmap_simps psub_wf_cfg [OF assms])
      (simp add: psub_wf_def)
  then show ?thesis using assms by (auto simp: setPowerOn_def power_simps)
qed

lemma checkForPowerOnBreakerFault_inv:
  assumes "psub_inv t c" and "checkForPowerOnBreakerFault now v c = (bad, c')"
  shows "psub_inv t c'" and "actual (sub c') = actual (sub c)" and "phase (sub c') = phase (sub c) \<or> targ (sub c') = OFF"
    and "bad \<longleftrightarrow> v < 19 \<or> breakerStatus (configOf t) (sysInfo (sub c)) \<le> FAULT"
    and "bad \<longrightarrow> targ (sub c') = OFF" and "\<not> bad \<longrightarrow> targ (sub c') = targ (sub c) \<and> port c' = port c"
proof -
  note wf = psub_inv_wf [OF assms(1)]
  have wf2: "psub_wf t (sub c \<lparr> psCfg := snd (configCheckBreakers (psCfg (sub c)) (sysInfo (sub c))) \<rparr>)"
    using wf by (simp add: psub_wf_def)
  show "psub_inv t c'" "actual (sub c') = actual (sub c)" "phase (sub c') = phase (sub c) \<or> targ (sub c') = OFF"
    "bad \<longleftrightarrow> v < 19 \<or> breakerStatus (configOf t) (sysInfo (sub c)) \<le> FAULT"
    "bad \<longrightarrow> targ (sub c') = OFF" "\<not> bad \<longrightarrow> targ (sub c') = targ (sub c) \<and> port c' = port c"
    using assms wf wf2
    by (auto simp: checkForPowerOnBreakerFault_def power_simps psub_wf_cfg [OF wf]
        SysStatus_less_defs intro!: psub_inv_upd split: if_splits)
qed


lemma processOnCase_inv:
  assumes "psub_inv t c"
  shows "psub_inv t (processOnCase now outputIsOn v c)"
proof (cases outputIsOn)
  case False
  then show ?thesis using psub_inv_wf [OF assms] by (simp add: processOnCase_def power_simps)
next
  case True
  obtain bad c' where chk: "checkForPowerOnBreakerFault now v c = (bad, c')" by (cases "checkForPowerOnBreakerFault now v c")
  note inv' = checkForPowerOnBreakerFault_inv(1) [OF assms chk]
  show ?thesis using True chk inv' psub_inv_wf [OF inv']
    by (auto simp: processOnCase_def Let_def power_simps intro!: psub_inv_upd split del: if_split split: if_split)
qed

lemma turningOn_count:
  assumes "psub_inv t c"
  shows "psub_inv t (c \<lparr> sub := (sub c) \<lparr> telemCounter := n \<rparr> \<rparr>)"
    "psub_inv t (c \<lparr> sub := (sub c) \<lparr> telemCounter := n, phase := p, phaseStartTime := s \<rparr> \<rparr>)"
    "psub_inv t (c \<lparr> sub := (sub c) \<lparr> phase := p, phaseStartTime := s \<rparr> \<rparr>)"
  using assms by (auto intro: psub_inv_upd)

lemma psub_inv_breaker_low:
  assumes "psub_inv t c" and "targ (sub c) = ON" and "ps_type ps' = ps_type (sub c)"
    and "cfg_core (psCfg ps') = cfg_core (psCfg (sub c))" and "targ ps' = ON" and "actual ps' = RESET"
    and b: "b = outputBreakerBit (psCfg ps')"
  shows "psub_inv t (writeOutputPort b False (c \<lparr> sub := ps' \<rparr>))"
proof -
  have wf: "psub_wf t ps'" using assms by (simp add: psub_inv_def psub_wf_def)
  show ?thesis using assms(1,2,5,6) wf unfolding b
    by (simp add: psub_inv_def psub_wf_cfg [OF wf] power_simps bitmap_simps)
qed

lemma psub_inv_breaker_high:
  assumes "psub_inv t c"
  shows "psub_inv t (writeOutputPort (outputBreakerBit (psCfg (sub c))) True c)"
  using assms psub_wf_cfg [OF psub_inv_wf [OF assms]]
  by (simp add: psub_inv_def power_simps bitmap_simps)

text \<open>
  While power is being turned on the phase is 1 until ten readings have been counted and 2
  from then on.
\<close>

definition turn_inv :: "psub \<Rightarrow> bool" where
  "turn_inv ps \<longleftrightarrow>
     (targ ps = ON \<and> actual ps \<in> {OFF, TURNING_ON} \<longrightarrow>
        (if phase ps = 1 then telemCounter ps < 10 else phase ps = 2 \<and> 10 \<le> telemCounter ps))"

lemma turn_inv_off [power_simps]: "targ ps = OFF \<Longrightarrow> turn_inv ps"
  by (simp add: turn_inv_def)

lemma turn_inv_upd:
  "turn_inv (ps \<lparr> actual := ON, phase := p, phaseStartTime := s \<rparr>)"
  "turn_inv (ps \<lparr> actual := RESET, phaseStartTime := s, phase := p \<rparr>)"
  "turn_inv (ps \<lparr> actual := ON, phaseStartTime := s \<rparr>)"
  by (simp_all add: turn_inv_def)

text \<open>The counting step at the head of the TURNING\_ON case.\<close>

definition countReading :: "timepoint \<Rightarrow> pctx \<Rightarrow> pctx" where
  "countReading now c =
     (if phase (sub c) = 1
      then
        (let n = telemCounter (sub c) + 1;
             c = c \<lparr> sub := (sub c) \<lparr> telemCounter := n \<rparr> \<rparr>
         in if n \<ge> 10 then c \<lparr> sub := (sub c) \<lparr> phase := 2, phaseStartTime := now \<rparr> \<rparr> else c)
      else c)"

lemma countReading_parts:
  assumes "psub_inv t c" and "turn_inv (sub c)" and "targ (sub c) = ON" and "actual (sub c) = TURNING_ON"
  shows "psub_inv t (countReading now c)" "turn_inv (sub (countReading now c))"
    "targ (sub (countReading now c)) = ON" "actual (sub (countReading now c)) = TURNING_ON"
    "phase (sub (countReading now c)) = (if 10 \<le> telemCounter (sub (countReading now c)) then 2 else 1)"
    "sysInfo (sub (countReading now c)) = sysInfo (sub c)"
    "psCfg (sub (countReading now c)) = psCfg (sub c)" "port (countReading now c) = port c"
    "faults (countReading now c) = faults c"
    "telemCounter (sub (countReading now c)) = telemCounter (sub c) + (if phase (sub c) = 1 then 1 else 0)"
  using assms by (auto simp: countReading_def Let_def turn_inv_def intro!: psub_inv_upd split: if_splits)

text \<open>The case after the counting step, for the phases that can occur.\<close>

lemma processTurningOnCase_eq:
  fixes now :: timepoint
  assumes inv: "psub_inv t c" and ti: "turn_inv (sub c)" and st: "targ (sub c) = ON" "actual (sub c) = TURNING_ON"
  defines "d \<equiv> countReading now c"
  defines "d' \<equiv> d \<lparr> sub := (sub d) \<lparr> phase := 3, phaseStartTime := now,
                   psCfg := snd (configCheckBreakers (psCfg (sub d)) (sysInfo (sub d))) \<rparr> \<rparr>"
  shows "processTurningOnCase now outputIsOn v c =
    (if telemCounter (sub d) < 10 then d
     else if \<not> outputIsOn then setPowerOff now d
     else if \<not> timePassedSec (phaseStartTime (sub c)) now > val_or 0 (outputOnMaxDelay (configOf t)) then d
     else if v < 19 then updateFaults now (d \<lparr> sub := (sub d) \<lparr> phase := 3, phaseStartTime := now \<rparr> \<rparr>)
     else if breakerStatus (configOf t) (sysInfo (sub c)) = GOOD
     then d' \<lparr> sub := (sub d') \<lparr> actual := ON, phase := 1, phaseStartTime := now \<rparr> \<rparr>
     else writeOutputPort (outputBreakerBit (psCfg (sub d'))) False
            (d' \<lparr> sub := (sub d') \<lparr> actual := RESET, phaseStartTime := now, phase := 1 \<rparr> \<rparr>))"
proof -
  have ph: "phase (sub d) = (if 10 \<le> telemCounter (sub d) then 2 else 1)"
    "psCfg (sub d) = psCfg (sub c)" "sysInfo (sub d) = sysInfo (sub c)"
    using countReading_parts [OF inv ti st] by (simp_all add: d_def)
  show ?thesis
    using ph psub_wf_cfg [OF psub_inv_wf [OF inv]]
    unfolding processTurningOnCase_def countReading_def [symmetric] d_def [symmetric] d'_def
    by (simp add: Let_def power_simps)
qed

lemma processTurningOnCase_spec:
  fixes now :: timepoint and outputIsOn :: bool and v :: real
  assumes inv: "psub_inv t c" and ti: "turn_inv (sub c)" and st: "targ (sub c) = ON" "actual (sub c) = TURNING_ON"
  defines "c' \<equiv> processTurningOnCase now outputIsOn v c"
  shows "psub_inv t c'" "turn_inv (sub c')" "actual (sub c') \<in> {TURNING_ON, ON, RESET}"
    "actual (sub c') \<noteq> TURNING_ON \<Longrightarrow>
       targ (sub c') = ON \<and> outputIsOn \<and> 19 \<le> v \<and> 9 \<le> telemCounter (sub c) \<and>
       val_or 0 (outputOnMaxDelay (configOf t)) < timePassedSec (phaseStartTime (sub c)) now"
    "actual (sub c') = ON \<Longrightarrow> breakerStatus (configOf t) (sysInfo (sub c)) = GOOD"
    "actual (sub c') = RESET \<Longrightarrow> breakerStatus (configOf t) (sysInfo (sub c)) \<noteq> GOOD"
proof -
  note d = countReading_parts [OF inv ti st, of now]
  note wf = psub_inv_wf [OF d(1)]
  have tc: "telemCounter (sub (countReading now c)) \<le> telemCounter (sub c) + 1" using d(10) by simp
  have "psub_inv t c'" if "actual (sub c') = ON"
    using that d(4) unfolding c'_def processTurningOnCase_eq [OF inv ti st]
    by (auto simp: power_simps intro!: psub_inv_set_actual [OF d(1)] split: if_splits)
  moreover have "psub_inv t c'" if "actual (sub c') = RESET"
    using that d(1,3,4) unfolding c'_def processTurningOnCase_eq [OF inv ti st]
    by (auto simp: power_simps split: if_splits
        intro!: psub_inv_breaker_low)
  moreover have "psub_inv t c'" if "actual (sub c') = TURNING_ON"
    using that d(1,4) wf unfolding c'_def processTurningOnCase_eq [OF inv ti st]
    by (auto simp: power_simps split: if_splits)
  moreover show "actual (sub c') \<in> {TURNING_ON, ON, RESET}"
    unfolding c'_def processTurningOnCase_eq [OF inv ti st] using d(4) by (simp add: power_simps)
  ultimately show "psub_inv t c'" by auto
  show "turn_inv (sub c')"
    unfolding c'_def processTurningOnCase_eq [OF inv ti st] using d(2)
    by (simp add: power_simps turn_inv_upd)
  show "targ (sub c') = ON \<and> outputIsOn \<and> 19 \<le> v \<and> 9 \<le> telemCounter (sub c) \<and>
       val_or 0 (outputOnMaxDelay (configOf t)) < timePassedSec (phaseStartTime (sub c)) now"
    if "actual (sub c') \<noteq> TURNING_ON"
    using that tc d(3,4) unfolding c'_def processTurningOnCase_eq [OF inv ti st]
    by (simp add: power_simps split: if_splits)
  show "breakerStatus (configOf t) (sysInfo (sub c)) = GOOD" if "actual (sub c') = ON"
    using that d(4) unfolding c'_def processTurningOnCase_eq [OF inv ti st]
    by (simp add: power_simps split: if_splits)
  show "breakerStatus (configOf t) (sysInfo (sub c)) \<noteq> GOOD" if "actual (sub c') = RESET"
    using that d(4) unfolding c'_def processTurningOnCase_eq [OF inv ti st]
    by (simp add: power_simps split: if_splits)
qed

lemma processOnCase_spec:
  fixes now :: timepoint and outputIsOn :: bool and v :: real
  assumes inv: "psub_inv t c"
  defines "c' \<equiv> processOnCase now outputIsOn v c"
  shows "actual (sub c') = actual (sub c)"
    "targ (sub c') = ON \<Longrightarrow> outputIsOn \<and> 19 \<le> v \<and> \<not> breakerStatus (configOf t) (sysInfo (sub c)) \<le> FAULT"
    "targ (sub c') \<in> {targ (sub c), OFF}"
proof -
  obtain bad d where chk: "checkForPowerOnBreakerFault now v c = (bad, d)" by (cases "checkForPowerOnBreakerFault now v c")
  note d = checkForPowerOnBreakerFault_inv [OF inv chk]
  show "actual (sub c') = actual (sub c)" using d(2) chk
    by (auto simp: c'_def processOnCase_def Let_def power_simps)
  show "outputIsOn \<and> 19 \<le> v \<and> \<not> breakerStatus (configOf t) (sysInfo (sub c)) \<le> FAULT"
    if "targ (sub c') = ON"
    using that chk d(4) by (auto simp: c'_def processOnCase_def Let_def power_simps split: if_splits)
  show "targ (sub c') \<in> {targ (sub c), OFF}"
    using chk d(5,6) by (auto simp: c'_def processOnCase_def Let_def power_simps)
qed

lemma processResetCase_spec:
  fixes now :: timepoint and outputIsOn :: bool and v :: real
  assumes inv: "psub_inv t c" and st: "actual (sub c) = RESET"
  defines "c' \<equiv> processResetCase now outputIsOn v c"
  shows "psub_inv t c'" "actual (sub c') \<in> {RESET, ON}" "targ (sub c') \<in> {targ (sub c), OFF}"
    "actual (sub c') = ON \<Longrightarrow> outputIsOn \<and> 19 \<le> v \<and> \<not> breakerStatus (configOf t) (sysInfo (sub c)) \<le> FAULT \<and>
       4 / 5 < timePassedSec (phaseStartTime (sub c)) now"
    "targ (sub c') = ON \<Longrightarrow> outputIsOn \<and> 19 \<le> v"
proof -
  define h where "h = writeOutputPort (outputBreakerBit (psCfg (sub c))) True c"
  note wf = psub_wf_cfg [OF psub_inv_wf [OF inv]]
  have h: "psub_inv t h" "out_bit_on (port h) (bbit t)" "sub h = sub c"
    using psub_inv_breaker_high [OF inv] wf by (simp_all add: h_def power_simps bitmap_simps)
  obtain bad d where chk: "checkForPowerOnBreakerFault now v h = (bad, d)" by (cases "checkForPowerOnBreakerFault now v h")
  note d = checkForPowerOnBreakerFault_inv [OF h(1) chk]
  have eq: "c' = (if \<not> outputIsOn then setPowerOff now h else if v < 19 then updateFaults now c
      else if timePassedSec (phaseStartTime (sub c)) now > 2 / 5
      then if timePassedSec (phaseStartTime (sub c)) now > 4 / 5
           then if bad then d else d \<lparr> sub := (sub d) \<lparr> actual := ON, phaseStartTime := now \<rparr> \<rparr>
           else h
      else c)"
    unfolding c'_def processResetCase_def h_def [symmetric] Let_def using chk h(3) wf(3,7) by simp
  have on: "psub_inv t (d \<lparr> sub := (sub d) \<lparr> actual := ON, phaseStartTime := now \<rparr> \<rparr>)" if "\<not> bad"
    using that d(1,6) h(2) by (intro psub_inv_set_actual) auto
  show "psub_inv t c'" using psub_inv_wf [OF inv] psub_inv_wf [OF h(1)] inv h d(1) on
    by (auto simp: eq power_simps)
  show "actual (sub c') \<in> {RESET, ON}" using st d(2) h(3) by (auto simp: eq power_simps)
  show "targ (sub c') \<in> {targ (sub c), OFF}" using d(5,6) h(3) by (auto simp: eq power_simps)
  show "outputIsOn \<and> 19 \<le> v \<and> \<not> breakerStatus (configOf t) (sysInfo (sub c)) \<le> FAULT \<and>
       4 / 5 < timePassedSec (phaseStartTime (sub c)) now" if "actual (sub c') = ON"
    using that st d(2,4) h(3) by (auto simp: eq power_simps split: if_splits)
  show "outputIsOn \<and> 19 \<le> v" if "targ (sub c') = ON"
    using that by (auto simp: eq power_simps split: if_splits)
qed

section \<open>One reading\<close>

text \<open>\<open>_processPowerOn\<close> after the output and range checks, as one switch over the actual state.\<close>

definition onSwitch :: "timepoint \<Rightarrow> bool \<Rightarrow> pctx \<Rightarrow> pctx" where
  "onSwitch now outputIsOn c =
     (let v = getVoltage (sub c) in
      case actual (sub c) of
        ON \<Rightarrow> processOnCase now outputIsOn v c
      | TURNING_ON \<Rightarrow> processTurningOnCase now outputIsOn v c
      | RESET \<Rightarrow> processResetCase now outputIsOn v c
      | UNKNOWN \<Rightarrow> setPowerOff now c
      | _ \<Rightarrow> processTurningOnCase now outputIsOn v
              (c \<lparr> sub := (sub c) \<lparr> actual := TURNING_ON, phase := 1, phaseStartTime := now \<rparr> \<rparr>))"

lemma processPowerOn_cases:
  assumes "psub_wf t (sub c)"
  obtains (overVoltage) d where "getVoltage (sub c) > 132 / 5" "sub d = sub c" "port d = port c"
      "faults d = setFault (faults (snd (powerShouldBeOn c))) (voltageFault (psCfg (sub c)))"
      "processPowerOn now c = setPowerOff now d"
    | (overCurrent) d where "getVoltage (sub c) \<le> 132 / 5" "getCurrent (sub c) > maxCurrent (configOf t)"
      "sub d = sub c" "port d = port c" "hasFault (faults d) (excessiveCurrent (psCfg (sub c)))"
      "processPowerOn now c = setPowerOff now d"
    | (inRange) d where "getVoltage (sub c) \<le> 132 / 5" "getCurrent (sub c) \<le> maxCurrent (configOf t)"
      "sub d = sub c" "port d = port c"
      "processPowerOn now c = onSwitch now (fst (powerShouldBeOn c)) d"
proof -
  obtain o1 c1 where psb: "powerShouldBeOn c = (o1, c1)" by (cases "powerShouldBeOn c")
  have c1: "sub c1 = sub c" "port c1 = port c" using powerShouldBeOn_parts [of c] psb by simp_all
  note wf = psub_wf_cfg [OF assms]
  define d where "d = (if getVoltage (sub c1) > maxVoltageWarn (psCfg (sub c1))
                       then reportFault (voltageWarn (psCfg (sub c1))) c1 else c1)"
  have d: "sub d = sub c" "port d = port c" using c1 by (simp_all add: d_def power_simps)
  have "processPowerOn now c =
      (if getVoltage (sub c) > 132 / 5 then setPowerOff now (reportFault (voltageFault (psCfg (sub c))) c1)
       else if getCurrent (sub c) > maxCurrent (configOf t)
       then setPowerOff now (reportFault (excessiveCurrent (psCfg (sub c))) d)
       else onSwitch now o1 d)"
    unfolding processPowerOn_def psb Let_def prod.case d_def [symmetric]
    unfolding c1 d onSwitch_def Let_def using wf(4,8) by simp
  then show thesis
    using overVoltage [of "reportFault (voltageFault (psCfg (sub c))) c1"]
      overCurrent [of "reportFault (excessiveCurrent (psCfg (sub c))) d"] inRange [of d] c1 d psb
    by (auto simp: power_simps bitmap_simps not_less split: if_splits)
qed

text \<open>The checks on the electrical quantities that every reading with the target ON passes.\<close>

definition in_range :: "PowerSystemType \<Rightarrow> psub \<Rightarrow> bool" where
  "in_range t ps \<longleftrightarrow> getVoltage ps \<le> 132 / 5 \<and> getCurrent ps \<le> maxCurrent (configOf t)"

definition outputs_on :: "psub \<Rightarrow> bool" where
  "outputs_on ps \<longleftrightarrow> getRelayControlOutputOn ps \<and> val_or False (getCrioReadyOutputOn ps) \<and>
     val_or False (getInterlockRelayControlOutputOn ps)"

lemma fst_powerShouldBeOn [power_simps]: "fst (powerShouldBeOn c) = outputs_on (sub c)"
  by (auto simp: powerShouldBeOn_def outputs_on_def)

text \<open>
  \<open>turnOnReady\<close>: what a reading must show, and how long the turn-on must have taken, before the
  subsystem leaves TURNING\_ON towards ON or RESET.
\<close>

definition turnOnReady :: "PowerSystemType \<Rightarrow> timepoint \<Rightarrow> psub \<Rightarrow> bool" where
  "turnOnReady t now ps \<longleftrightarrow>
     outputs_on ps \<and> in_range t ps \<and> 19 \<le> getVoltage ps \<and> 9 \<le> telemCounter ps \<and>
     val_or 0 (outputOnMaxDelay (configOf t)) < timePassedSec (phaseStartTime ps) now"

text \<open>The transitions of the actual state in one reading with the target ON.\<close>

definition onTransition :: "PowerSystemType \<Rightarrow> timepoint \<Rightarrow> psub \<Rightarrow> psub \<Rightarrow> bool" where
  "onTransition t now ps ps' \<longleftrightarrow>
     (case actual ps of
        OFF \<Rightarrow> actual ps' \<in> {OFF, TURNING_ON}
      | TURNING_ON \<Rightarrow>
          actual ps' = TURNING_ON \<or>
          turnOnReady t now ps \<and> targ ps' = ON \<and>
          actual ps' = (if breakerStatus (configOf t) (sysInfo ps) = GOOD then ON else RESET)
      | ON \<Rightarrow> actual ps' = ON
      | RESET \<Rightarrow>
          actual ps' = RESET \<or>
          actual ps' = ON \<and> outputs_on ps \<and> in_range t ps \<and> 19 \<le> getVoltage ps \<and>
          breakerStatus (configOf t) (sysInfo ps) > FAULT \<and> 4 / 5 < timePassedSec (phaseStartTime ps) now
      | UNKNOWN \<Rightarrow> actual ps' = UNKNOWN \<and> targ ps' = OFF
      | TURNING_OFF \<Rightarrow> False)"

text \<open>The three steps of a reading with the target ON, for a subsystem in the invariant.\<close>

lemma turnOn_start:
  assumes "psub_inv t c" and "actual (sub c) = OFF" and "turn_inv (sub c)" and "targ (sub c) = ON"
    and "phase (sub c) = 1"
  shows "psub_inv t (c \<lparr> sub := (sub c) \<lparr> actual := TURNING_ON, phase := 1, phaseStartTime := s \<rparr> \<rparr>)"
    "turn_inv (sub (c \<lparr> sub := (sub c) \<lparr> actual := TURNING_ON, phase := 1, phaseStartTime := s \<rparr> \<rparr>))"
  using assms by (auto simp: turn_inv_def intro!: psub_inv_set_actual)

text \<open>With the target ON and the actual state OFF the turn-on has not begun to count.\<close>

definition start_inv :: "psub \<Rightarrow> bool" where
  "start_inv ps \<longleftrightarrow> (targ ps = ON \<and> actual ps = OFF \<longrightarrow> phase ps = 1 \<and> telemCounter ps = 0)"

lemma start_inv_trivial [power_simps]:
  "targ ps = OFF \<Longrightarrow> start_inv ps" "actual ps \<noteq> OFF \<Longrightarrow> start_inv ps"
  by (simp_all add: start_inv_def)

definition full_inv :: "PowerSystemType \<Rightarrow> pctx \<Rightarrow> bool" where
  "full_inv t c \<longleftrightarrow> psub_inv t c \<and> turn_inv (sub c) \<and> start_inv (sub c)"

lemma full_inv_setPowerOff [power_simps]: "psub_wf t (sub c) \<Longrightarrow> full_inv t (setPowerOff now c)"
  by (simp add: full_inv_def power_simps)

lemma full_inv_reportFault [power_simps]: "full_inv t (reportFault b c) = full_inv t c"
  by (simp add: full_inv_def power_simps)

lemma full_inv_cong:
  assumes "full_inv t c" "sub d = sub c" "port d = port c"
  shows "full_inv t d"
  using assms by (simp add: full_inv_def psub_inv_def)

lemma turn_inv_not_turning: "actual ps \<notin> {OFF, TURNING_ON} \<Longrightarrow> turn_inv ps"
  by (simp add: turn_inv_def)

lemma onSwitch_spec:
  fixes now :: timepoint and outputIsOn :: bool
  assumes inv: "full_inv t c" and on: "targ (sub c) = ON"
  defines "c' \<equiv> onSwitch now outputIsOn c"
  shows "full_inv t c'" "targ (sub c') \<in> {ON, OFF}"
    "outputIsOn = outputs_on (sub c) \<Longrightarrow> in_range t (sub c) \<Longrightarrow> onTransition t now (sub c) (sub c')"
proof -
  have i: "psub_inv t c" "turn_inv (sub c)" "start_inv (sub c)" using inv by (simp_all add: full_inv_def)
  note wf = psub_inv_wf [OF i(1)]
  define s where "s = c \<lparr> sub := (sub c) \<lparr> actual := TURNING_ON, phase := 1, phaseStartTime := now \<rparr> \<rparr>"
  have s: "psub_inv t s \<and> turn_inv (sub s)" if "actual (sub c) = OFF"
    unfolding s_def using turnOn_start [OF i(1) that i(2) on] i(3) on that by (simp add: start_inv_def)
  have s_simps: "targ (sub s) = ON" "actual (sub s) = TURNING_ON" "getVoltage (sub s) = getVoltage (sub c)"
    using on by (simp_all add: s_def) (rule sensor_cong; simp)
  have "full_inv t c' \<and> targ (sub c') \<in> {ON, OFF} \<and>
    (outputIsOn = outputs_on (sub c) \<longrightarrow> in_range t (sub c) \<longrightarrow> onTransition t now (sub c) (sub c'))"
  proof (cases "actual (sub c)")
    case ON
    then have c': "c' = processOnCase now outputIsOn (getVoltage (sub c)) c" by (simp add: c'_def onSwitch_def Let_def)
    note sp = processOnCase_spec [OF i(1), of now outputIsOn "getVoltage (sub c)"]
    from sp processOnCase_inv [OF i(1)] ON on show ?thesis
      unfolding c' by (auto simp: full_inv_def start_inv_def onTransition_def intro: turn_inv_not_turning)
  next
    case OFF
    then have c': "c' = processTurningOnCase now outputIsOn (getVoltage (sub c)) s"
      by (simp add: c'_def onSwitch_def Let_def s_def)
    note sp = processTurningOnCase_spec [OF conjunct1 [OF s [OF OFF]] conjunct2 [OF s [OF OFF]] s_simps(1,2), of now outputIsOn "getVoltage (sub c)"]
    have "telemCounter (sub s) = 0" using i(3) on OFF by (simp add: s_def start_inv_def)
    with sp(4) have "actual (sub c') = TURNING_ON" unfolding c' by fastforce
    with sp(1,2) OFF show ?thesis
      unfolding c' by (auto simp: full_inv_def start_inv_def onTransition_def psub_inv_def)
  next
    case TURNING_ON
    then have c': "c' = processTurningOnCase now outputIsOn (getVoltage (sub c)) c" by (simp add: c'_def onSwitch_def Let_def)
    note sp = processTurningOnCase_spec [OF i(1,2) on TURNING_ON, of now outputIsOn "getVoltage (sub c)"]
    from sp TURNING_ON show ?thesis
      unfolding c' by (auto simp: full_inv_def start_inv_def onTransition_def turnOnReady_def psub_inv_def)
  next
    case RESET
    then have c': "c' = processResetCase now outputIsOn (getVoltage (sub c)) c" by (simp add: c'_def onSwitch_def Let_def)
    note sp = processResetCase_spec [OF i(1) RESET, of now outputIsOn "getVoltage (sub c)"]
    from sp RESET on show ?thesis
      unfolding c' by (auto simp: full_inv_def start_inv_def onTransition_def not_le intro: turn_inv_not_turning)
  next
    case UNKNOWN
    then show ?thesis using wf by (simp add: c'_def onSwitch_def Let_def power_simps onTransition_def)
  next
    case TURNING_OFF
    then show ?thesis using wf by (simp add: psub_wf_def)
  qed
  then show "full_inv t c'" "targ (sub c') \<in> {ON, OFF}"
    "outputIsOn = outputs_on (sub c) \<Longrightarrow> in_range t (sub c) \<Longrightarrow> onTransition t now (sub c) (sub c')"
    by auto
qed

lemma processPowerOn_spec:
  fixes now :: timepoint
  assumes inv: "full_inv t c" and on: "targ (sub c) = ON"
  defines "c' \<equiv> processPowerOn now c"
  shows "full_inv t c'" "targ (sub c') = ON \<Longrightarrow> in_range t (sub c)"
    "targ (sub c') = ON \<Longrightarrow> onTransition t now (sub c) (sub c')"
    "actual (sub c') = actual (sub c) \<or> in_range t (sub c) \<and> onTransition t now (sub c) (sub c')"
    "getVoltage (sub c) > 132 / 5 \<Longrightarrow> hasFault (faults c') (voltageFault (configOf t))"
    "getVoltage (sub c) \<le> 132 / 5 \<Longrightarrow> getCurrent (sub c) > maxCurrent (configOf t) \<Longrightarrow>
       hasFault (faults c') (excessiveCurrent (configOf t))"
proof -
  have wf: "psub_wf t (sub c)" using inv by (simp add: full_inv_def psub_inv_def)
  show "full_inv t c'" "targ (sub c') = ON \<Longrightarrow> in_range t (sub c)"
    "targ (sub c') = ON \<Longrightarrow> onTransition t now (sub c) (sub c')"
    "actual (sub c') = actual (sub c) \<or> in_range t (sub c) \<and> onTransition t now (sub c) (sub c')"
    "getVoltage (sub c) > 132 / 5 \<Longrightarrow> hasFault (faults c') (voltageFault (configOf t))"
    "getVoltage (sub c) \<le> 132 / 5 \<Longrightarrow> getCurrent (sub c) > maxCurrent (configOf t) \<Longrightarrow>
       hasFault (faults c') (excessiveCurrent (configOf t))"
    unfolding c'_def
    using onSwitch_spec [OF full_inv_cong [OF inv]] on wf psub_wf_cfg [OF wf]
    by (cases rule: processPowerOn_cases [OF wf, of now];
        simp add: power_simps bitmap_simps in_range_def)+
qed

lemma full_inv_off_upd:
  assumes "full_inv t c" and "targ (sub c) = OFF" and "ps_type ps' = ps_type (sub c)"
    and "cfg_core (psCfg ps') = cfg_core (psCfg (sub c))" and "targ ps' = OFF" and "actual ps' \<noteq> TURNING_OFF"
  shows "full_inv t (c \<lparr> sub := ps' \<rparr>)"
  using assms by (auto simp: full_inv_def psub_inv_def psub_wf_def power_simps)

text \<open>
  With the target OFF: the state becomes OFF once the relay output reads low and the voltage
  is below 12 V; until then it keeps its old value, and no fault is reported.
\<close>

lemma processPowerOff_spec:
  fixes now :: timepoint
  assumes inv: "full_inv t c"
  defines "c' \<equiv> processPowerOff now c"
  shows "targ (sub c) = OFF \<Longrightarrow> full_inv t c' \<and> targ (sub c') = OFF"
    "actual (sub c') =
       (if getRelayControlOutputOn (sub c) then actual (sub c)
        else if getVoltage (sub c) < 12 then OFF else actual (sub c))"
    "faults c' = faults c"
proof -
  have wf: "psub_wf t (sub c)" using inv by (simp add: full_inv_def psub_inv_def)
  note cfg = psub_wf_cfg [OF wf]
  have act: "actual (sub c) \<noteq> TURNING_OFF" using wf by (simp add: psub_wf_def)
  have delay: "0 \<le> val_or 0 (outputOffMaxDelay (configOf t))"
    by (cases t) (simp_all add: config_real_values)
  define s where "s = (let c = setPowerOff now c in c \<lparr> sub := (sub c) \<lparr> phaseStartTime := now \<rparr> \<rparr>)"
  have s: "full_inv t s" "targ (sub s) = OFF" "actual (sub s) = actual (sub c)" "faults s = faults c"
      "psCfg (sub s) = psCfg (sub c)" "phaseStartTime (sub s) = now"
    using wf full_inv_setPowerOff [OF wf] act
    by (auto simp: s_def Let_def power_simps intro!: full_inv_off_upd)
  have eq: "c' = (if getRelayControlOutputOn (sub c) then setPowerOff now c
     else if actual (sub c) = OFF then c
     else if getVoltage (sub c) < 12 then s \<lparr> sub := (sub s) \<lparr> actual := OFF, phaseStartTime := now \<rparr> \<rparr> else s)"
    unfolding c'_def processPowerOff_def Let_def s_def [unfolded Let_def, symmetric]
    using act delay s(5,6) cfg(6,10)
    by (simp add: processTurningOffCase_def split: PowerState.splits)
  show "actual (sub c') = (if getRelayControlOutputOn (sub c) then actual (sub c)
        else if getVoltage (sub c) < 12 then OFF else actual (sub c))"
    using s by (simp add: eq power_simps)
  show "faults c' = faults c" using s by (simp add: eq power_simps)
  show "full_inv t c' \<and> targ (sub c') = OFF" if "targ (sub c) = OFF"
    using that inv wf s by (auto simp: eq power_simps intro!: full_inv_off_upd)
qed

text \<open>One reading from start to end, without the report to the model in between.\<close>

definition psubStep :: "timepoint \<Rightarrow> fault_mgr \<Rightarrow> sys_info \<Rightarrow> pctx \<Rightarrow> pctx" where
  "psubStep now fm info c =
     (let d = processDaqFaultCheck now fm info c
      in processDaqSwitch now (d \<lparr> sub := rememberState (sub d) \<rparr>))"

lemma sysInfo_upd_inv [power_simps]: "full_inv t (c \<lparr> sub := (sub c) \<lparr> sysInfo := i \<rparr> \<rparr>) = full_inv t c"
  by (simp add: full_inv_def psub_inv_def psub_wf_def turn_inv_def start_inv_def)

lemma processDaqFaultCheck_spec:
  assumes "full_inv t c"
  shows "full_inv t (processDaqFaultCheck now fm info c)"
    "sysInfo (sub (processDaqFaultCheck now fm info c)) = info"
    "actual (sub (processDaqFaultCheck now fm info c)) = actual (sub c)"
    "faults (processDaqFaultCheck now fm info c) = faults c"
    "targ (sub (processDaqFaultCheck now fm info c)) = (if checkForFaults fm (sub c) then OFF else targ (sub c))"
    "ps_type (sub (processDaqFaultCheck now fm info c)) = t"
    "phaseStartTime (sub (processDaqFaultCheck now fm info c)) = phaseStartTime (sub c) \<or> checkForFaults fm (sub c)"
proof -
  have wf: "psub_wf t (sub c)" using assms by (simp add: full_inv_def psub_inv_def)
  have chk: "checkForFaults fm (sub c \<lparr> sysInfo := info \<rparr>) = checkForFaults fm (sub c)"
    by (simp add: checkForFaults_def)
  show "full_inv t (processDaqFaultCheck now fm info c)"
    "sysInfo (sub (processDaqFaultCheck now fm info c)) = info"
    "actual (sub (processDaqFaultCheck now fm info c)) = actual (sub c)"
    "faults (processDaqFaultCheck now fm info c) = faults c"
    "targ (sub (processDaqFaultCheck now fm info c)) = (if checkForFaults fm (sub c) then OFF else targ (sub c))"
    "ps_type (sub (processDaqFaultCheck now fm info c)) = t"
    "phaseStartTime (sub (processDaqFaultCheck now fm info c)) = phaseStartTime (sub c) \<or> checkForFaults fm (sub c)"
    using assms wf by (simp_all add: processDaqFaultCheck_def Let_def power_simps chk)
      (simp_all add: psub_wf_def)
qed

lemma rememberState_parts [power_simps]:
  "full_inv t (c \<lparr> sub := rememberState (sub c) \<rparr>) = full_inv t c"
  "targ (rememberState ps) = targ ps" "actual (rememberState ps) = actual ps"
  "sysInfo (rememberState ps) = sysInfo ps" "ps_type (rememberState ps) = ps_type ps"
  "psCfg (rememberState ps) = psCfg ps" "phase (rememberState ps) = phase ps"
  "phaseStartTime (rememberState ps) = phaseStartTime ps" "telemCounter (rememberState ps) = telemCounter ps"
  by (simp_all add: rememberState_def full_inv_def psub_inv_def psub_wf_def turn_inv_def start_inv_def)

lemma processDaqSwitch_inv:
  assumes "full_inv t c"
  shows "full_inv t (processDaqSwitch now c)"
proof -
  have "targ (sub c) \<in> {ON, OFF}" using assms by (simp add: full_inv_def psub_inv_def)
  then show ?thesis
    using processPowerOn_spec(1) [OF assms, of now] processPowerOff_spec(1) [OF assms, of now]
    by (auto simp: processDaqSwitch_def)
qed

lemma psubStep_inv: "full_inv t c \<Longrightarrow> full_inv t (psubStep now fm info c)"
  by (simp add: psubStep_def Let_def processDaqSwitch_inv power_simps processDaqFaultCheck_spec)

end
