(* ===== verification/PowerSubsystemLive.thy ===== *)
theory PowerSubsystemLive
  imports PowerSubsystemSafety
begin

text \<open>
  That power does come on: a turn-on command that is accepted, followed by good readings,
  ends with the subsystem ON, and good readings keep it ON.
\<close>

section \<open>Good readings\<close>

definition voltageOf :: "PowerSystemType \<Rightarrow> sys_info \<Rightarrow> real" where
  "voltageOf t i = (if t = MOTOR then si_motorVoltage i else si_commVoltage i)"

definition currentOf :: "PowerSystemType \<Rightarrow> sys_info \<Rightarrow> real" where
  "currentOf t i = (if t = MOTOR then si_motorCurrent i else si_commCurrent i)"

definition outputsOnIn :: "PowerSystemType \<Rightarrow> sys_info \<Rightarrow> bool" where
  "outputsOnIn t i \<longleftrightarrow>
     out_bit_on (si_outputPort i) (pbit t) \<and>
     (t = MOTOR \<longrightarrow> out_bit_on (si_outputPort i) CRIO_INTERLOCK_ENABLE \<and>
                   \<not> in_bit_on (si_inputPort i) INTERLOCK_POWER_RELAY)"

text \<open>Enough while power is coming on, and what must hold when the voltage is checked.\<close>

definition runningReading :: "PowerSystemType \<Rightarrow> sys_info \<Rightarrow> bool" where
  "runningReading t i \<longleftrightarrow>
     outputsOnIn t i \<and> voltageOf t i \<le> 132 / 5 \<and> currentOf t i \<le> maxCurrent (configOf t)"

definition goodReading :: "PowerSystemType \<Rightarrow> sys_info \<Rightarrow> bool" where
  "goodReading t i \<longleftrightarrow>
     runningReading t i \<and> 108 / 5 \<le> voltageOf t i \<and> breakerStatus (configOf t) i = GOOD"

lemma goodReading_running: "goodReading t i \<Longrightarrow> runningReading t i"
  by (simp add: goodReading_def)

definition subsystemFaults :: "PowerSystemType \<Rightarrow> fault_mgr \<Rightarrow> bool" where
  "subsystemFaults t fm = checkForPowerSubsystemFaults
     (unsetFault (subsystemFaultMask (configOf t)) (breakerFault (configOf t))) fm"

lemma psub_wf_reads:
  assumes "psub_wf t ps"
  shows "getVoltage ps = voltageOf t (sysInfo ps)" "getCurrent ps = currentOf t (sysInfo ps)"
    "outputs_on ps = outputsOnIn t (sysInfo ps)" "checkForFaults fm ps = subsystemFaults t fm"
    "getRelayControlOutputOn ps = out_bit_on (si_outputPort (sysInfo ps)) (pbit t)"
proof -
  have t: "ps_type ps = t" "t = MOTOR \<or> t = COMM" using assms by (cases t; auto simp: psub_wf_def)+
  have core: "cfg_core (psCfg ps) = cfg_core (configOf t)" using assms by (simp add: psub_wf_def)
  show "getVoltage ps = voltageOf t (sysInfo ps)" "getCurrent ps = currentOf t (sysInfo ps)"
    using t by (auto simp: getVoltage_def getCurrent_def voltageOf_def currentOf_def)
  show "checkForFaults fm ps = subsystemFaults t fm"
    using cfg_core_fields [OF core] by (simp add: checkForFaults_def subsystemFaults_def)
  show relay: "getRelayControlOutputOn ps = out_bit_on (si_outputPort (sysInfo ps)) (pbit t)"
    using psub_wf_cfg(1) [OF assms] by (simp add: getRelayControlOutputOn_def)
  show "outputs_on ps = outputsOnIn t (sysInfo ps)"
    using t relay
    by (auto simp: outputs_on_def outputsOnIn_def getCrioReadyOutputOn_def getInterlockRelayControlOutputOn_def)
qed

section \<open>A good reading with the target ON\<close>

definition reads :: "sys_info \<Rightarrow> pctx \<Rightarrow> pctx" where
  "reads info c = c \<lparr> sub := rememberState ((sub c) \<lparr> sysInfo := info \<rparr>) \<rparr>"

lemma reads_inv [power_simps]:
  "full_inv t (reads i c) = full_inv t c"
  "targ (sub (reads i c)) = targ (sub c)" "actual (sub (reads i c)) = actual (sub c)"
  "sysInfo (sub (reads i c)) = i" "phase (sub (reads i c)) = phase (sub c)"
  "phaseStartTime (sub (reads i c)) = phaseStartTime (sub c)"
  "telemCounter (sub (reads i c)) = telemCounter (sub c)"
  by (simp_all add: reads_def rememberState_def full_inv_def psub_inv_def psub_wf_def turn_inv_def start_inv_def)

lemma psubStep_running:
  assumes inv: "full_inv t c" and on: "targ (sub c) = ON" and nofault: "\<not> subsystemFaults t fm"
    and good: "runningReading t info"
  obtains d where "psubStep now fm info c = onSwitch now True d" "sub d = sub (reads info c)" "full_inv t d"
    "port d = port c"
proof -
  have wf: "psub_wf t (sub c)" using inv by (simp add: full_inv_def psub_inv_def)
  have "checkForFaults fm ((sub c) \<lparr> sysInfo := info \<rparr>) = subsystemFaults t fm"
    using wf by (intro psub_wf_reads(4)) (simp add: power_simps)
  then have step: "psubStep now fm info c = processPowerOn now (reads info c)"
    using nofault on
    by (simp add: psubStep_def processDaqFaultCheck_def reads_def Let_def processDaqSwitch_def power_simps)
  have inv': "full_inv t (reads info c)" using inv by (simp add: power_simps)
  then have wf': "psub_wf t (sub (reads info c))" by (simp add: full_inv_def psub_inv_def)
  have si: "sysInfo (sub (reads info c)) = info" by (simp add: power_simps)
  note r = psub_wf_reads [OF wf', unfolded si]
  show thesis
  proof (cases rule: processPowerOn_cases
      [OF wf', of now, case_names overVoltage overCurrent inRange])
    case (overVoltage d)
    then show ?thesis using good r by (simp add: runningReading_def)
  next
    case (overCurrent d)
    then show ?thesis using good r by (simp add: runningReading_def)
  next
    case (inRange d)
    have "fst (powerShouldBeOn (reads info c))" using good r by (simp add: runningReading_def power_simps)
    with inRange step have "psubStep now fm info c = onSwitch now True d" by simp
    then show ?thesis using that [OF _ inRange(3)] full_inv_cong [OF inv' inRange(3,4)] inRange(4) by (simp add: reads_def)
  qed
qed

definition turning :: "PowerSystemType \<Rightarrow> int \<Rightarrow> timepoint \<Rightarrow> pctx \<Rightarrow> bool" where
  "turning t n s c \<longleftrightarrow> full_inv t c \<and> targ (sub c) = ON \<and> actual (sub c) = TURNING_ON \<and>
     telemCounter (sub c) = n \<and> phaseStartTime (sub c) = s"

definition poweredOn :: "PowerSystemType \<Rightarrow> pctx \<Rightarrow> bool" where
  "poweredOn t c \<longleftrightarrow> full_inv t c \<and> targ (sub c) = ON \<and> actual (sub c) = ON"

lemma psubStep_good_on:
  assumes "poweredOn t c" and "\<not> subsystemFaults t fm" and good: "goodReading t info"
  shows "poweredOn t (psubStep now fm info c)" "port (psubStep now fm info c) = port c"
proof -
  have c: "full_inv t c" "targ (sub c) = ON" "actual (sub c) = ON"
    using assms(1) by (simp_all add: poweredOn_def)
  obtain d where step: "psubStep now fm info c = onSwitch now True d" and d: "sub d = sub (reads info c)"
    and inv: "full_inv t d" and p: "port d = port c"
    using psubStep_running [OF c(1,2) assms(2) goodReading_running [OF good]] .
  have i: "psub_inv t d" using inv by (simp add: full_inv_def)
  note wf = psub_inv_wf [OF i]
  have r: "getVoltage (sub d) = voltageOf t info" "sysInfo (sub d) = info"
    using psub_wf_reads(1) [OF wf] d by (simp_all add: power_simps)
  have v: "\<not> voltageOf t info < 19" "\<not> voltageOf t info < 108 / 5" using good by (auto simp: goodReading_def)
  have b: "breakerStatus (configOf t) info = GOOD" using good by (simp add: goodReading_def)
  obtain bad e where chk: "checkForPowerOnBreakerFault now (voltageOf t info) d = (bad, e)"
    by (cases "checkForPowerOnBreakerFault now (voltageOf t info) d")
  have e: "\<not> bad" "psub_wf t (sub e)" "targ (sub e) = ON" "actual (sub e) = ON" "port e = port c"
    using checkForPowerOnBreakerFault_inv [OF i chk] c r(2) v b d p
    by (auto simp: psub_wf_cfg(14) [OF wf] SysStatus_less_defs power_simps intro: psub_inv_wf)
  have step': "psubStep now fm info c = processOnCase now True (voltageOf t info) d"
    unfolding step onSwitch_def Let_def using c d r by (simp add: power_simps)
  have "targ (sub (psubStep now fm info c)) = ON"
    unfolding step' processOnCase_def using chk e psub_wf_cfg(5) [OF e(2)] v
    by (simp add: Let_def power_simps)
  moreover have "actual (sub (psubStep now fm info c)) = ON"
    unfolding step' processOnCase_spec(1) [OF i] using c d by (simp add: power_simps)
  ultimately show "poweredOn t (psubStep now fm info c)" using psubStep_inv [OF c(1)] by (simp add: poweredOn_def)
  show "port (psubStep now fm info c) = port c"
    unfolding step' processOnCase_def using chk e psub_wf_cfg(5) [OF e(2)] v
    by (simp add: Let_def power_simps)
qed

text \<open>A good reading during the turn-on, as one step of the counter and the delay.\<close>

definition delayOf :: "PowerSystemType \<Rightarrow> real" where
  "delayOf t = val_or 0 (outputOnMaxDelay (configOf t))"

lemma psubStep_turning:
  assumes tu: "turning t n s c" and nofault: "\<not> subsystemFaults t fm" and run: "runningReading t info" and n10: "n \<le> 10"
  shows "n < 9 \<Longrightarrow> turning t (n + 1) s (psubStep now fm info c) \<and> port (psubStep now fm info c) = port c"
    "\<lbrakk> 9 \<le> n; \<not> timePassedSec s now > delayOf t \<rbrakk> \<Longrightarrow>
      turning t 10 (if n = 9 then now else s) (psubStep now fm info c) \<and> port (psubStep now fm info c) = port c"
    "\<lbrakk> 9 \<le> n; timePassedSec s now > delayOf t; goodReading t info \<rbrakk> \<Longrightarrow>
      poweredOn t (psubStep now fm info c) \<and> port (psubStep now fm info c) = port c"
proof -
  have c: "full_inv t c" "targ (sub c) = ON" "actual (sub c) = TURNING_ON" "telemCounter (sub c) = n"
      "phaseStartTime (sub c) = s"
    using tu by (simp_all add: turning_def)
  obtain d where step: "psubStep now fm info c = onSwitch now True d" and d: "sub d = sub (reads info c)"
    and inv: "full_inv t d" and p: "port d = port c" using psubStep_running [OF c(1,2) nofault run] .
  have i: "psub_inv t d" "turn_inv (sub d)" using inv by (simp_all add: full_inv_def)
  have dd: "targ (sub d) = ON" "actual (sub d) = TURNING_ON" "telemCounter (sub d) = n"
      "phaseStartTime (sub d) = s" "sysInfo (sub d) = info"
    using c d by (simp_all add: power_simps)
  have v: "getVoltage (sub d) = voltageOf t info"
    using psub_wf_reads(1) [OF psub_inv_wf [OF i(1)]] dd by simp
  let ?e = "countReading now d"
  note e = countReading_parts [OF i dd(1,2), of now]
  have ph: "phase (sub d) = (if n < 10 then 1 else 2)" using i(2) dd by (auto simp: turn_inv_def split: if_splits)
  have es: "phaseStartTime (sub ?e) = (if n = 9 then now else s)" "telemCounter (sub ?e) = (if n < 10 then n + 1 else n)"
    using ph n10 dd by (auto simp: countReading_def Let_def)
  have eq: "psubStep now fm info c = processTurningOnCase now True (voltageOf t info) d"
    unfolding step onSwitch_def Let_def using dd v by simp
  have inv': "full_inv t (psubStep now fm info c)" by (rule psubStep_inv [OF c(1)])
  note eqs = eq [unfolded processTurningOnCase_eq [OF i dd(1,2)]]
  show "turning t (n + 1) s (psubStep now fm info c) \<and> port (psubStep now fm info c) = port c" if "n < 9"
    using inv' that es e(3,4,8) p unfolding eqs by (simp add: turning_def)
  show "turning t 10 (if n = 9 then now else s) (psubStep now fm info c) \<and> port (psubStep now fm info c) = port c"
    if "9 \<le> n" "\<not> timePassedSec s now > delayOf t"
    using inv' that n10 es e(3,4,8) dd p unfolding eqs by (auto simp: delayOf_def turning_def)
  show "poweredOn t (psubStep now fm info c) \<and> port (psubStep now fm info c) = port c"
    if "9 \<le> n" "timePassedSec s now > delayOf t" and good: "goodReading t info"
  proof -
    have "\<not> voltageOf t info < 19" "breakerStatus (configOf t) info = GOOD" using good by (auto simp: goodReading_def)
    then show ?thesis
      using inv' that(1,2) n10 es e(3,4,8) dd p unfolding eqs by (auto simp: delayOf_def poweredOn_def)
  qed
qed

lemma psubStep_good_turning:
  assumes "turning t n s c" and "\<not> subsystemFaults t fm" and "goodReading t info"
  shows "n < 9 \<Longrightarrow> turning t (n + 1) s (psubStep now fm info c)"
    "n = 9 \<Longrightarrow> poweredOn t (psubStep now fm info c) \<or> turning t 10 now (psubStep now fm info c)"
    "n = 10 \<Longrightarrow> timePassedSec s now > delayOf t \<Longrightarrow> poweredOn t (psubStep now fm info c)"
    "n = 10 \<Longrightarrow> \<not> timePassedSec s now > delayOf t \<Longrightarrow> turning t 10 s (psubStep now fm info c)"
  using psubStep_turning [OF assms(1,2) goodReading_running [OF assms(3)], of now] assms(3)
  by (cases "timePassedSec s now > delayOf t"; simp)+

lemma psubStep_off:
  assumes inv: "full_inv t c" and st: "targ (sub c) = ON" "actual (sub c) = OFF"
    and nofault: "\<not> subsystemFaults t fm" and run: "runningReading t info"
  shows "turning t 1 now (psubStep now fm info c)" "port (psubStep now fm info c) = port c"
proof -
  obtain d where step: "psubStep now fm info c = onSwitch now True d" and d: "sub d = sub (reads info c)"
    and invd: "full_inv t d" and p: "port d = port c" using psubStep_running [OF inv st(1) nofault run] .
  have i: "psub_inv t d" "turn_inv (sub d)" "start_inv (sub d)" using invd by (simp_all add: full_inv_def)
  have dd: "targ (sub d) = ON" "actual (sub d) = OFF" using st d by (simp_all add: power_simps)
  have n0: "phase (sub d) = 1" "telemCounter (sub d) = 0" using i(3) dd by (simp_all add: start_inv_def)
  let ?s = "d \<lparr> sub := (sub d) \<lparr> actual := TURNING_ON, phase := 1, phaseStartTime := now \<rparr> \<rparr>"
  note s = turnOn_start [OF i(1) dd(2) i(2) dd(1) n0(1), of now]
  have ss: "targ (sub ?s) = ON" "actual (sub ?s) = TURNING_ON" using dd by simp_all
  have eq: "psubStep now fm info c = processTurningOnCase now True (getVoltage (sub d)) ?s"
    unfolding step onSwitch_def Let_def using dd by simp
  have inv': "full_inv t (psubStep now fm info c)" by (rule psubStep_inv [OF inv])
  show "turning t 1 now (psubStep now fm info c)" "port (psubStep now fm info c) = port c"
    using inv' n0 dd p unfolding eq processTurningOnCase_eq [OF s ss]
    by (simp_all add: turning_def countReading_def)
qed

lemmas psubStep_good_off = psubStep_off(1) [OF _ _ _ _ goodReading_running]

section \<open>Runs of good readings\<close>

definition psubRun :: "fault_mgr \<Rightarrow> (timepoint \<times> sys_info) list \<Rightarrow> pctx \<Rightarrow> pctx" where
  "psubRun fm rs c = fold (\<lambda>(now, info) c. psubStep now fm info c) rs c"

lemma psubRun_simps [simp]:
  "psubRun fm [] c = c"
  "psubRun fm ((now, info) # rs) c = psubRun fm rs (psubStep now fm info c)"
  "psubRun fm (rs @ rs') c = psubRun fm rs' (psubRun fm rs c)"
  by (simp_all add: psubRun_def)

lemma psubRun_on:
  assumes "poweredOn t c" and "\<not> subsystemFaults t fm" and "\<forall>(now, info) \<in> set rs. goodReading t info"
  shows "poweredOn t (psubRun fm rs c)"
  using assms
proof (induction rs arbitrary: c)
  case Nil
  then show ?case by simp
next
  case (Cons r rs)
  then show ?case by (cases r) (auto intro!: Cons.IH psubStep_good_on)
qed

lemma psubRun_counting:
  assumes "turning t n s c" and "\<not> subsystemFaults t fm" and "\<forall>(now, info) \<in> set rs. goodReading t info"
    and "n + int (length rs) \<le> 9"
  shows "turning t (n + int (length rs)) s (psubRun fm rs c)"
  using assms
proof (induction rs arbitrary: c n)
  case Nil
  then show ?case by simp
next
  case (Cons r rs)
  obtain now info where r: "r = (now, info)" by (cases r)
  have "turning t (n + 1) s (psubStep now fm info c)"
    using Cons.prems r by (intro psubStep_good_turning(1)) auto
  from Cons.IH [OF this] Cons.prems r show ?case by (simp add: algebra_simps)
qed

lemma psubRun_delay:
  assumes "turning t 10 s c" and "\<not> subsystemFaults t fm" and "\<forall>(now, info) \<in> set rs. goodReading t info"
    and "\<exists>(now, info) \<in> set rs. timePassedSec s now > delayOf t"
  shows "poweredOn t (psubRun fm rs c)"
  using assms
proof (induction rs arbitrary: c)
  case Nil
  then show ?case by simp
next
  case (Cons r rs)
  obtain now info where r: "r = (now, info)" by (cases r)
  show ?case
  proof (cases "timePassedSec s now > delayOf t")
    case True
    then have "poweredOn t (psubStep now fm info c)"
      using Cons.prems r by (intro psubStep_good_turning(3) [OF Cons.prems(1)]) auto
    then show ?thesis using Cons.prems r by (auto intro: psubRun_on)
  next
    case False
    then have "turning t 10 s (psubStep now fm info c)"
      using Cons.prems r by (intro psubStep_good_turning(4) [OF Cons.prems(1)]) auto
    from Cons.IH [OF this] Cons.prems r False show ?thesis by auto
  qed
qed

end
