(* ===== verification/SimPower.thy ===== *)
theory SimPower
  imports PowerSubsystemLive
begin

text \<open>
  \<open>simulator/SimPowerSubsystem\<close> and \<open>simulator/SimCore\<close>: the hardware the program runs
  against. Voltage and current of the two subsystems, their breakers, and one pass of the
  simulation loop from the output port to a reading.
\<close>

section \<open>One simulated subsystem\<close>

record sim_sub =
  st_type :: PowerSystemType
  simVoltage :: real
  simCurrent :: real
  voltageNominal :: real
  voltageChangeRateOn :: real
  voltageChangeRateOff :: real
  currentMax :: real
  currentGain :: real
  breakerClosed :: bool
  breakerClosedPrev :: bool
  breakerClosedTarg :: bool
  breakerClosedTargTs :: timepoint
  breakerCloseTimeSec :: real
  powerOnBitPos :: out_bit
  breakerResetPos :: out_bit
  breakerBitPositions :: "in_bit list"
  overVoltage :: bool
  overCurrent :: bool

text \<open>The constructor with \<open>_setup\<close>. \<open>_breakerClosedTargTs\<close> starts as the clock's epoch.\<close>

definition mkSimPowerSubsystem ::
  "PowerSystemType \<Rightarrow> out_bit \<Rightarrow> out_bit \<Rightarrow> in_bit list \<Rightarrow> sim_sub result" where
  "mkSimPowerSubsystem systemType onPos resetPos bits =
     bind_result (mkPowerSubsystemConfig systemType) (\<lambda>psc.
     bind_result (outputOnMaxDelay psc) (\<lambda>onDelay.
     bind_result (outputOffMaxDelay psc) (\<lambda>offDelay.
       let nominal = nominalVoltage psc;
           rateIncrease = 13 / 10;
           curMax = maxCurrent psc
       in Inr \<lparr> st_type = systemType, simVoltage = 0, simCurrent = 0, voltageNominal = nominal,
                voltageChangeRateOn = (nominal / onDelay) * rateIncrease,
                voltageChangeRateOff = (nominal / offDelay) * rateIncrease,
                currentMax = curMax, currentGain = 75 / 100 * (curMax / nominal),
                breakerClosed = True, breakerClosedPrev = False, breakerClosedTarg = True,
                breakerClosedTargTs = 0, breakerCloseTimeSec = breakerOnTime psc * (5 / 10),
                powerOnBitPos = onPos, breakerResetPos = resetPos, breakerBitPositions = bits,
                overVoltage = False, overCurrent = False \<rparr>)))"

text \<open>Writing one of the breaker inputs; none of them is out of range, so this never throws.\<close>

definition write_in :: "32 word \<Rightarrow> in_bit \<Rightarrow> bool \<Rightarrow> 32 word" where
  "write_in bm b v = (case inputWriteBit bm (in_pos b) v of Inr bm' \<Rightarrow> bm' | Inl _ \<Rightarrow> bm)"

definition calcBreakers :: "timepoint \<Rightarrow> 8 word \<Rightarrow> 32 word \<Rightarrow> sim_sub \<Rightarrow> 32 word \<times> sim_sub" where
  "calcBreakers ts outputPort inputPort s =
     (let newTarg = out_bit_on outputPort (breakerResetPos s);
          s = (if newTarg \<noteq> breakerClosedTarg s
               then s \<lparr> breakerClosedTargTs := ts, breakerClosedTarg := newTarg \<rparr> else s);
          s = (if \<not> breakerClosed s
               then
                 (if breakerClosedTarg s \<and>
                     timePassedSec (breakerClosedTargTs s) ts > breakerCloseTimeSec s
                  then s \<lparr> breakerClosed := True \<rparr> else s)
               else if \<not> breakerClosedTarg s then s \<lparr> breakerClosed := False \<rparr> else s)
      in if breakerClosed s \<noteq> breakerClosedPrev s
         then (foldl (\<lambda>bm b. write_in bm b (breakerClosed s)) inputPort (breakerBitPositions s),
               s \<lparr> breakerClosedPrev := breakerClosed s \<rparr>)
         else (inputPort, s))"

definition calcVoltage :: "real \<Rightarrow> bool \<Rightarrow> sim_sub \<Rightarrow> real" where
  "calcVoltage timeDiff powerOn s =
     (if powerOn
      then
        let voltNom = (if overVoltage s then voltageNominal s * 10 else voltageNominal s);
            v = (if simVoltage s < voltNom
                 then
                   (let v = simVoltage s + voltageChangeRateOn s * timeDiff
                    in if v > voltNom then voltNom else v)
                 else simVoltage s)
        in if v > voltNom then voltNom else v
      else
        let v = (if simVoltage s > 0 then simVoltage s - voltageChangeRateOff s * timeDiff else simVoltage s)
        in if v < 0 then 0 else v)"

definition calcVoltageCurrent :: "real \<Rightarrow> 8 word \<Rightarrow> sim_sub \<Rightarrow> sim_sub" where
  "calcVoltageCurrent timeDiff outputPort s =
     (let v = calcVoltage timeDiff (out_bit_on outputPort (powerOnBitPos s)) s;
          c = (if breakerClosed s
               then (if overCurrent s then v * currentGain s * 10 else v * currentGain s)
               else 0)
      in s \<lparr> simVoltage := v, simCurrent := c \<rparr>)"

definition forceOverVoltage :: "bool \<Rightarrow> sim_sub \<Rightarrow> sim_sub" where
  "forceOverVoltage b s = s \<lparr> overVoltage := b \<rparr>"

definition forceOverCurrent :: "bool \<Rightarrow> sim_sub \<Rightarrow> sim_sub" where
  "forceOverCurrent b s = s \<lparr> overCurrent := b \<rparr>"

section \<open>The simulation\<close>

record sim_core =
  simOutput :: "8 word"
  simInput :: "32 word"
  motorSub :: sim_sub
  commSub :: sim_sub
  newOutput :: "8 word"
  simInfo :: sys_info
  simIterations :: "64 word"
  prevTimeStamp :: timepoint

definition motorBreakerInBits :: "in_bit list" where
  "motorBreakerInBits = [
     J1_W9_1_MTR_PWR_BRKR_OK, J1_W9_2_MTR_PWR_BRKR_OK, J1_W9_3_MTR_PWR_BRKR_OK,
     J2_W10_1_MTR_PWR_BRKR_OK, J2_W10_2_MTR_PWR_BRKR_OK, J2_W10_3_MTR_PWR_BRKR_OK,
     J3_W11_1_MTR_PWR_BRKR_OK, J3_W11_2_MTR_PWR_BRKR_OK, J3_W11_3_MTR_PWR_BRKR_OK]"

definition commBreakerInBits :: "in_bit list" where
  "commBreakerInBits = [
     J1_W12_1_COMM_PWR_BRKR_OK, J1_W12_2_COMM_PWR_BRKR_OK, J2_W13_1_COMM_PWR_BRKR_OK,
     J2_W13_2_COMM_PWR_BRKR_OK, J3_W14_1_COMM_PWR_BRKR_OK, J3_W14_2_COMM_PWR_BRKR_OK]"

definition healthBits :: "in_bit list" where
  "healthBits = [
     REDUNDANCY_OK, LOAD_DISTRIBUTION_OK, POWER_SUPPLY_1_DC_OK, POWER_SUPPLY_2_DC_OK,
     POWER_SUPPLY_1_CURRENT_OK, POWER_SUPPLY_2_CURRENT_OK]"

text \<open>
  The constructor of \<open>SimCore\<close> and \<open>start\<close>, which sets the first time stamp. \<open>si0\<close> is
  \<open>_simInfo\<close> before the first pass, whose numbers are uninitialised in the code.
\<close>

definition mkSimCore :: "timepoint \<Rightarrow> sys_info \<Rightarrow> sim_core result" where
  "mkSimCore now si0 =
     bind_result (mkSimPowerSubsystem MOTOR MOTOR_POWER_ON RESET_MOTOR_BREAKERS motorBreakerInBits) (\<lambda>m.
     bind_result (mkSimPowerSubsystem COMM ILC_COMM_POWER_ON RESET_COMM_BREAKERS commBreakerInBits) (\<lambda>c.
       Inr \<lparr> simOutput = 0, simInput = foldl (\<lambda>bm b. write_in bm b True) 0 healthBits,
             motorSub = m, commSub = c, newOutput = 0,
             simInfo = si0 \<lparr> si_outputPort := 0, si_inputPort := 0 \<rparr>,
             simIterations = 0, prevTimeStamp = now \<rparr>))"

definition setNewOutputPort :: "8 word \<Rightarrow> sim_core \<Rightarrow> sim_core" where
  "setNewOutputPort p s = s \<lparr> newOutput := p \<rparr>"

definition writeNewOutputPortBit :: "int \<Rightarrow> bool \<Rightarrow> sim_core \<Rightarrow> sim_core result" where
  "writeNewOutputPortBit pos v s =
     bind_result (outputWriteBit (newOutput s) pos v) (\<lambda>p. Inr (s \<lparr> newOutput := p \<rparr>))"

definition writeInputPortBit :: "int \<Rightarrow> bool \<Rightarrow> sim_core \<Rightarrow> sim_core result" where
  "writeInputPortBit pos v s =
     bind_result (inputWriteBit (simInput s) pos v) (\<lambda>p. Inr (s \<lparr> simInput := p \<rparr>))"

text \<open>One pass of the loop of \<open>_simRun\<close> at time \<open>timestamp\<close>.\<close>

definition simStep :: "timepoint \<Rightarrow> sim_core \<Rightarrow> sim_core" where
  "simStep timestamp s =
     (let out = newOutput s;
          timeDiff = timePassedSec (prevTimeStamp s) timestamp;
          (inp, m) = calcBreakers timestamp out (simInput s) (motorSub s);
          m = calcVoltageCurrent timeDiff out m;
          (inp, c) = calcBreakers timestamp out inp (commSub s);
          c = calcVoltageCurrent timeDiff out c;
          info = \<lparr> si_outputPort = out, si_inputPort = inp,
                   si_motorVoltage = simVoltage m, si_motorCurrent = simCurrent m,
                   si_motorBreakerClosed = breakerClosed m,
                   si_commVoltage = simVoltage c, si_commCurrent = simCurrent c,
                   si_commBreakerClosed = breakerClosed c,
                   si_iterations = simIterations s, si_timestamp = timestamp \<rparr>
      in s \<lparr> simOutput := out, simInput := inp, motorSub := m, commSub := c, simInfo := info,
             simIterations := simIterations s + 1, prevTimeStamp := timestamp \<rparr>)"

section \<open>Ports\<close>

lemma inputWriteBit_write_in:
  "\<lbrakk> b \<noteq> ALWAYS_HIGH; b \<noteq> ALWAYS_LOW \<rbrakk> \<Longrightarrow> inputWriteBit bm (in_pos b) v = Inr (write_in bm b v)"
  using ipb.set_in_range [of "in_pos b" bm v] in_pos_range [of b] by (auto simp: write_in_def)

lemma in_pos_inj: "in_pos a = in_pos b \<longleftrightarrow> a = b"
  by (cases a; cases b) simp_all

lemma in_bit_on_write_in [bitmap_simps]:
  assumes "b \<noteq> ALWAYS_HIGH" and "b \<noteq> ALWAYS_LOW"
  shows "in_bit_on (write_in bm b v) c \<longleftrightarrow> (if c = b then v else in_bit_on bm c)"
proof (cases "c = ALWAYS_HIGH \<or> c = ALWAYS_LOW")
  case True
  then show ?thesis using assms by auto
next
  case False
  then show ?thesis
    using ipb.get_set [OF inputWriteBit_write_in [OF assms], of "in_pos c"] in_pos_range [of c]
    by (simp add: in_bit_on_def in_pos_inj)
qed

definition real_bits :: "in_bit list \<Rightarrow> bool" where
  "real_bits bs \<longleftrightarrow> ALWAYS_HIGH \<notin> set bs \<and> ALWAYS_LOW \<notin> set bs"

lemma write_in_list:
  "real_bits bs \<Longrightarrow> in_bit_on (foldl (\<lambda>bm b. write_in bm b v) bm bs) c \<longleftrightarrow> (if c \<in> set bs then v else in_bit_on bm c)"
  by (induction bs arbitrary: bm) (auto simp: real_bits_def in_bit_on_write_in)

section \<open>Voltage and current\<close>

definition simBits :: "PowerSystemType \<Rightarrow> in_bit list" where
  "simBits t = (if t = MOTOR then motorBreakerInBits else commBreakerInBits)"

definition offDelayOf :: "PowerSystemType \<Rightarrow> real" where
  "offDelayOf t = val_or 0 (outputOffMaxDelay (configOf t))"

text \<open>The values the constructor computes: 24 V nominal, reached within the turn-on delay.\<close>

definition sim_wf :: "PowerSystemType \<Rightarrow> sim_sub \<Rightarrow> bool" where
  "sim_wf t s \<longleftrightarrow>
     (t = MOTOR \<or> t = COMM) \<and> voltageNominal s = 24 \<and>
     voltageChangeRateOn s = 24 / delayOf t * (13 / 10) \<and>
     voltageChangeRateOff s = 24 / offDelayOf t * (13 / 10) \<and>
     currentGain s = 75 / 100 * (maxCurrent (configOf t) / 24) \<and> breakerCloseTimeSec s = 1 / 4 \<and>
     powerOnBitPos s = pbit t \<and> breakerResetPos s = bbit t \<and> breakerBitPositions s = simBits t"

lemma delayOf_values: "delayOf MOTOR = 3 / 5" "delayOf COMM = 11 / 20"
  "offDelayOf MOTOR = 2 / 25" "offDelayOf COMM = 3 / 100"
  by (simp_all add: delayOf_def offDelayOf_def config_real_values)

lemma simBits_real: "real_bits (simBits t)"
  by (simp add: simBits_def real_bits_def motorBreakerInBits_def commBreakerInBits_def)

lemma mkSimPowerSubsystem_wf:
  assumes "t = MOTOR \<or> t = COMM"
  obtains s where "mkSimPowerSubsystem t (pbit t) (bbit t) (simBits t) = Inr s" "sim_wf t s"
    "simVoltage s = 0" "simCurrent s = 0" "breakerClosed s" "\<not> breakerClosedPrev s" "\<not> overVoltage s" "\<not> overCurrent s"
    "breakerClosedTarg s"
  using assms
  by (auto simp: mkSimPowerSubsystem_def mkPowerSubsystemConfig_eq config_real_values Let_def sim_wf_def delayOf_values
      motorConfig_unfold commConfig_unfold outputOnMaxDelay_def outputOffMaxDelay_def)

lemma sim_wf_rates: "sim_wf t s \<Longrightarrow> 0 < voltageChangeRateOn s \<and> 0 < voltageChangeRateOff s \<and> 0 < currentGain s"
  by (auto simp: sim_wf_def delayOf_values config_real_values)

lemma calcVoltage_on:
  assumes "sim_wf t s" and "0 \<le> dt" and "simVoltage s \<le> 24" and "\<not> overVoltage s"
  shows "calcVoltage dt True s = min 24 (simVoltage s + voltageChangeRateOn s * dt)"
proof -
  have "0 \<le> voltageChangeRateOn s * dt" using sim_wf_rates [OF assms(1)] assms(2) by simp
  then show ?thesis using assms by (auto simp: calcVoltage_def Let_def sim_wf_def min_def)
qed

lemma calcVoltage_off:
  assumes "sim_wf t s" and "0 \<le> dt" and "0 \<le> simVoltage s"
  shows "calcVoltage dt False s = max 0 (simVoltage s - voltageChangeRateOff s * dt)"
proof -
  have "0 \<le> voltageChangeRateOff s * dt" using sim_wf_rates [OF assms(1)] assms(2) by simp
  then show ?thesis using assms by (auto simp: calcVoltage_def Let_def max_def)
qed

lemma calcVoltage_bounds:
  assumes "sim_wf t s" and "0 \<le> dt" and "0 \<le> simVoltage s"
  shows "0 \<le> calcVoltage dt p s" "simVoltage s \<le> 240 \<Longrightarrow> calcVoltage dt p s \<le> 240"
    "\<not> overVoltage s \<Longrightarrow> simVoltage s \<le> 24 \<Longrightarrow> calcVoltage dt p s \<le> 24"
proof -
  have up: "0 \<le> voltageChangeRateOn s * dt" "0 \<le> voltageChangeRateOff s * dt"
    using sim_wf_rates [OF assms(1)] assms(2) by simp_all
  have n: "voltageNominal s = 24" using assms(1) by (simp add: sim_wf_def)
  show "0 \<le> calcVoltage dt p s"
    using assms(3) up n by (auto simp: calcVoltage_def Let_def)
  show "calcVoltage dt p s \<le> 240" if "simVoltage s \<le> 240"
    using that up n by (auto simp: calcVoltage_def Let_def)
  show "calcVoltage dt p s \<le> 24" if "\<not> overVoltage s" "simVoltage s \<le> 24"
    using that up n by (auto simp: calcVoltage_def Let_def)
qed

section \<open>Breakers\<close>

text \<open>
  The invariant of one simulated subsystem: its constants, the range of voltage and current,
  and that its breaker inputs show the breaker as it was at the end of the last pass.
\<close>

definition sim_inv :: "PowerSystemType \<Rightarrow> 32 word \<Rightarrow> sim_sub \<Rightarrow> bool" where
  "sim_inv t inp s \<longleftrightarrow>
     sim_wf t s \<and> 0 \<le> simVoltage s \<and> simVoltage s \<le> 240 \<and>
     (\<forall>b \<in> set (simBits t). in_bit_on inp b \<longleftrightarrow> breakerClosedPrev s)"

text \<open>The whole update at once: the target follows the reset output, and the breaker opens at
  once and closes after its delay.\<close>

lemma calcBreakers_eq:
  fixes ts :: timepoint
  defines "tg out s \<equiv> out_bit_on out (breakerResetPos s)"
  defines "ts0 out s \<equiv> (if tg out s = breakerClosedTarg s then breakerClosedTargTs s else ts)"
  defines "cl out s \<equiv> tg out s \<and> (breakerClosed s \<or> timePassedSec (ts0 out s) ts > breakerCloseTimeSec s)"
  shows "calcBreakers ts out inp s =
     (if cl out s \<noteq> breakerClosedPrev s
      then foldl (\<lambda>bm b. write_in bm b (cl out s)) inp (breakerBitPositions s) else inp,
      s \<lparr> breakerClosedTargTs := ts0 out s, breakerClosedTarg := tg out s, breakerClosed := cl out s,
          breakerClosedPrev := cl out s \<rparr>)"
  unfolding calcBreakers_def Let_def tg_def [symmetric]
  by (cases "tg out s"; cases "breakerClosedTarg s"; cases "breakerClosed s"; cases "breakerClosedPrev s";
      simp add: ts0_def cl_def)

lemma calcBreakers_parts:
  assumes "sim_inv t inp s" and c: "calcBreakers ts out inp s = (inp', s')"
  shows "sim_inv t inp' s'" "breakerClosedPrev s' = breakerClosed s'" "simVoltage s' = simVoltage s"
    "overVoltage s' = overVoltage s" "overCurrent s' = overCurrent s"
    "b \<notin> set (simBits t) \<Longrightarrow> in_bit_on inp' b = in_bit_on inp b"
    "breakerClosedTarg s' = out_bit_on out (bbit t)"
    "breakerClosed s' \<longleftrightarrow> out_bit_on out (bbit t) \<and>
       (breakerClosed s \<or> breakerClosedTarg s \<and> timePassedSec (breakerClosedTargTs s) ts > 1 / 4)"
proof -
  have bits: "breakerBitPositions s = simBits t" "breakerResetPos s = bbit t" "breakerCloseTimeSec s = 1 / 4"
    using assms(1) by (simp_all add: sim_inv_def sim_wf_def)
  have w: "in_bit_on (foldl (\<lambda>bm b. write_in bm b v) inp (simBits t)) x = (if x \<in> set (simBits t) then v else in_bit_on inp x)"
    for v x by (rule write_in_list [OF simBits_real])
  note eq = c [unfolded calcBreakers_eq bits prod.inject, THEN conjunct1, symmetric]
    c [unfolded calcBreakers_eq bits prod.inject, THEN conjunct2, symmetric]
  have cl: "breakerClosed s' \<longleftrightarrow> out_bit_on out (bbit t) \<and>
      (breakerClosed s \<or> timePassedSec (if out_bit_on out (bbit t) = breakerClosedTarg s then breakerClosedTargTs s else ts) ts > 1 / 4)"
    by (simp add: eq)
  then show "breakerClosed s' \<longleftrightarrow> out_bit_on out (bbit t) \<and>
       (breakerClosed s \<or> breakerClosedTarg s \<and> timePassedSec (breakerClosedTargTs s) ts > 1 / 4)"
    by auto
  show prev: "breakerClosedPrev s' = breakerClosed s'" by (simp add: eq)
  show v: "simVoltage s' = simVoltage s" "overVoltage s' = overVoltage s" "overCurrent s' = overCurrent s"
    "breakerClosedTarg s' = out_bit_on out (bbit t)"
    by (simp_all add: eq)
  have wf: "sim_wf t s'" using assms(1) by (simp add: eq sim_inv_def sim_wf_def)
  have inp': "inp' = (if breakerClosed s' \<noteq> breakerClosedPrev s
      then foldl (\<lambda>bm b. write_in bm b (breakerClosed s')) inp (simBits t) else inp)"
    by (simp add: eq)
  show "sim_inv t inp' s'" using assms(1) wf v(1) by (auto simp: sim_inv_def prev inp' w)
  show "in_bit_on inp' b = in_bit_on inp b" if "b \<notin> set (simBits t)" using that by (simp add: inp' w)
qed

lemma sim_inv_voltage:
  assumes "sim_inv t inp s" and "0 \<le> dt"
  shows "sim_inv t inp (calcVoltageCurrent dt out s)"
    "simVoltage (calcVoltageCurrent dt out s) = calcVoltage dt (out_bit_on out (pbit t)) s"
    "breakerClosed (calcVoltageCurrent dt out s) = breakerClosed s"
    "breakerClosedTarg (calcVoltageCurrent dt out s) = breakerClosedTarg s"
    "breakerClosedPrev (calcVoltageCurrent dt out s) = breakerClosedPrev s"
    "overVoltage (calcVoltageCurrent dt out s) = overVoltage s"
    "overCurrent (calcVoltageCurrent dt out s) = overCurrent s"
  using assms calcVoltage_bounds [of t s dt "out_bit_on out (pbit t)"]
  by (auto simp: sim_inv_def calcVoltageCurrent_def Let_def sim_wf_def)

lemma sim_inv_other: "sim_inv t inp s \<Longrightarrow> (\<And>b. b \<in> set (simBits t) \<Longrightarrow> in_bit_on inp' b = in_bit_on inp b) \<Longrightarrow> sim_inv t inp' s"
  by (simp add: sim_inv_def)

lemma simBits_disjoint: "set (simBits MOTOR) \<inter> set (simBits COMM) = {}"
  "set healthBits \<inter> set (simBits t) = {}" "INTERLOCK_POWER_RELAY \<notin> set (simBits t)"
  by (auto simp: simBits_def motorBreakerInBits_def commBreakerInBits_def healthBits_def)

text \<open>What the breaker inputs mean to the program: all closed is good, all open is a fault.\<close>

lemma breakerStatus_sim:
  assumes "t = MOTOR \<or> t = COMM" and "\<forall>b \<in> set (simBits t). in_bit_on (si_inputPort i) b \<longleftrightarrow> v"
  shows "breakerStatus (configOf t) i = (if v then GOOD else FAULT)"
proof -
  obtain feeds where f: "breakerFeedGroup (configOf t) = Some feeds"
    and high: "\<forall>f \<in> set feeds. feed_high f (si_inputPort i) = (if v then 3 else if t = MOTOR then 0 else 1)"
    "feeds \<noteq> []"
    using assms
    by (cases t) (auto simp: motorConfig_unfold commConfig_unfold feed_high_def mk_feed_def simBits_def
        motorBreakerInBits_def commBreakerInBits_def)
  have st: "breakerStatus (configOf t) i = fst (fst (groupCheckBreakers feeds i))"
    by (simp add: breakerStatus_def configCheckBreakers_def f case_prod_beta)
  show ?thesis
    using groupCheck_fault_iff [of feeds i] groupCheck_bad_iff [of feeds i] groupCheck_range [of feeds i] high
    unfolding st by (cases feeds) (auto split: if_splits)
qed

section \<open>One pass\<close>

definition simSubOf :: "PowerSystemType \<Rightarrow> sim_core \<Rightarrow> sim_sub" where
  "simSubOf t s = (if t = MOTOR then motorSub s else commSub s)"

text \<open>Both subsystems keep their invariant, and the supply inputs that are normally high stay high.\<close>

definition core_inv :: "sim_core \<Rightarrow> bool" where
  "core_inv s \<longleftrightarrow>
     sim_inv MOTOR (simInput s) (motorSub s) \<and> sim_inv COMM (simInput s) (commSub s) \<and>
     (\<forall>b \<in> set healthBits. in_bit_on (simInput s) b)"

lemma calcVoltage_breakers:
  "calcVoltage dt p (s \<lparr> breakerClosedTargTs := a, breakerClosedTarg := b, breakerClosed := c, breakerClosedPrev := d \<rparr>)
     = calcVoltage dt p s"
  by (simp add: calcVoltage_def Let_def)

lemma calcBreakers_voltage:
  assumes "calcBreakers ts out inp s = (inp', s')"
  shows "calcVoltage dt p s' = calcVoltage dt p s"
  unfolding assms [unfolded calcBreakers_eq prod.inject, THEN conjunct2, symmetric] by (rule calcVoltage_breakers)

text \<open>What one subsystem is after a pass, in terms of the state before it.\<close>

definition subPass :: "timepoint \<Rightarrow> 8 word \<Rightarrow> real \<Rightarrow> PowerSystemType \<Rightarrow> sim_sub \<Rightarrow> sim_sub \<Rightarrow> bool" where
  "subPass ts out dt t s s' \<longleftrightarrow>
     simVoltage s' = calcVoltage dt (out_bit_on out (pbit t)) s \<and>
     (\<not> breakerClosed s' \<longrightarrow> simCurrent s' = 0) \<and>
     (breakerClosed s' \<longrightarrow> simCurrent s' = simVoltage s' * currentGain s' * (if overCurrent s then 10 else 1)) \<and>
     overVoltage s' = overVoltage s \<and> overCurrent s' = overCurrent s \<and>
     breakerClosedPrev s' = breakerClosed s' \<and> breakerClosedTarg s' = out_bit_on out (bbit t) \<and>
     (breakerClosed s' \<longleftrightarrow> out_bit_on out (bbit t) \<and>
       (breakerClosed s \<or> breakerClosedTarg s \<and> timePassedSec (breakerClosedTargTs s) ts > 1 / 4))"

lemma subPass_intro:
  assumes "sim_inv t inp s" and c: "calcBreakers ts out inp s = (inp', s1)" and "0 \<le> dt"
  shows "subPass ts out dt t s (calcVoltageCurrent dt out s1)" "sim_inv t inp' (calcVoltageCurrent dt out s1)"
proof -
  note p = calcBreakers_parts [OF assms(1) c] and v = sim_inv_voltage [OF calcBreakers_parts(1) [OF assms(1) c] assms(3), of out]
  show "sim_inv t inp' (calcVoltageCurrent dt out s1)" by (rule v(1))
  have cur: "simCurrent (calcVoltageCurrent dt out s1) =
      (if breakerClosed s1 then simVoltage (calcVoltageCurrent dt out s1) * currentGain (calcVoltageCurrent dt out s1)
         * (if overCurrent s1 then 10 else 1) else 0)"
    by (simp add: calcVoltageCurrent_def Let_def)
  show "subPass ts out dt t s (calcVoltageCurrent dt out s1)"
    unfolding subPass_def
  proof (intro conjI)
    show "breakerClosed (calcVoltageCurrent dt out s1) \<longleftrightarrow> out_bit_on out (bbit t) \<and>
       (breakerClosed s \<or> breakerClosedTarg s \<and> timePassedSec (breakerClosedTargTs s) ts > 1 / 4)"
      using p(8) v(3) by simp
  qed (use p(2,4,5,7) v(2-7) cur calcBreakers_voltage [OF c] in simp_all)
qed

lemma simStep_parts:
  assumes inv: "core_inv s" and mono: "prevTimeStamp s \<le> now" and t: "t = MOTOR \<or> t = COMM"
  defines "s' \<equiv> simStep now s"
  shows "core_inv s'" "subPass now (newOutput s) (timePassedSec (prevTimeStamp s) now) t (simSubOf t s) (simSubOf t s')"
    "newOutput s' = newOutput s" "prevTimeStamp s' = now" "si_outputPort (simInfo s') = newOutput s"
    "si_inputPort (simInfo s') = simInput s'" "si_timestamp (simInfo s') = now"
    "voltageOf t (simInfo s') = simVoltage (simSubOf t s')" "currentOf t (simInfo s') = simCurrent (simSubOf t s')"
    "b \<notin> set (simBits MOTOR) \<union> set (simBits COMM) \<Longrightarrow> in_bit_on (simInput s') b = in_bit_on (simInput s) b"
proof -
  let ?dt = "timePassedSec (prevTimeStamp s) now"
  have dt: "0 \<le> ?dt" using mono by (simp add: timePassedSec_nonneg_iff)
  obtain i1 m1 where m: "calcBreakers now (newOutput s) (simInput s) (motorSub s) = (i1, m1)"
    by (cases "calcBreakers now (newOutput s) (simInput s) (motorSub s)")
  obtain i2 c1 where c: "calcBreakers now (newOutput s) i1 (commSub s) = (i2, c1)"
    by (cases "calcBreakers now (newOutput s) i1 (commSub s)")
  have im: "sim_inv MOTOR (simInput s) (motorSub s)" using inv by (simp add: core_inv_def)
  have ic: "sim_inv COMM i1 (commSub s)"
    by (rule sim_inv_other [of _ "simInput s"])
       (use inv calcBreakers_parts(6) [OF im m] simBits_disjoint(1) in \<open>auto simp: core_inv_def\<close>)
  note pm = subPass_intro [OF im m dt] and pc = subPass_intro [OF ic c dt]
  have s': "s' = s \<lparr> simOutput := newOutput s, simInput := i2, motorSub := calcVoltageCurrent ?dt (newOutput s) m1,
      commSub := calcVoltageCurrent ?dt (newOutput s) c1, simInfo := simInfo s',
      simIterations := simIterations s + 1, prevTimeStamp := now \<rparr>"
    by (simp add: s'_def simStep_def m c Let_def)
  have mi: "sim_inv MOTOR i2 (calcVoltageCurrent ?dt (newOutput s) m1)"
    by (rule sim_inv_other [OF pm(2)])
       (use calcBreakers_parts(6) [OF ic c] simBits_disjoint(1) in \<open>auto\<close>)
  show bits: "b \<notin> set (simBits MOTOR) \<union> set (simBits COMM) \<Longrightarrow> in_bit_on (simInput s') b = in_bit_on (simInput s) b" for b
    using calcBreakers_parts(6) [OF im m, of b] calcBreakers_parts(6) [OF ic c, of b] by (subst s') simp
  have "\<forall>b \<in> set healthBits. in_bit_on (simInput s') b"
    using bits inv simBits_disjoint(2) by (fastforce simp: core_inv_def)
  moreover have "simInput s' = i2" "motorSub s' = calcVoltageCurrent ?dt (newOutput s) m1"
    "commSub s' = calcVoltageCurrent ?dt (newOutput s) c1"
    by (subst s', simp)+
  ultimately show "core_inv s'"
    using mi pc(2) by (simp add: core_inv_def)
  show "subPass now (newOutput s) ?dt t (simSubOf t s) (simSubOf t s')"
    using t pm(1) pc(1) by (subst s') (auto simp: simSubOf_def)
  show "newOutput s' = newOutput s" "prevTimeStamp s' = now" by (subst s', simp)+
  show "si_outputPort (simInfo s') = newOutput s" "si_inputPort (simInfo s') = simInput s'" "si_timestamp (simInfo s') = now"
    by (simp_all add: s'_def simStep_def Let_def case_prod_beta)
  show "voltageOf t (simInfo s') = simVoltage (simSubOf t s')" "currentOf t (simInfo s') = simCurrent (simSubOf t s')"
    using t by (auto simp: s'_def simStep_def Let_def case_prod_beta voltageOf_def currentOf_def simSubOf_def)
qed

lemma core_inv_sub: "core_inv s \<Longrightarrow> t = MOTOR \<or> t = COMM \<Longrightarrow> sim_inv t (simInput s) (simSubOf t s)"
  by (auto simp: core_inv_def simSubOf_def)

lemma simStep_breakers:
  assumes "core_inv s" and "prevTimeStamp s \<le> now" and t: "t = MOTOR \<or> t = COMM"
  shows "breakerStatus (configOf t) (simInfo (simStep now s)) = (if breakerClosed (simSubOf t (simStep now s)) then GOOD else FAULT)"
proof -
  note p = simStep_parts [OF assms]
  have "breakerClosedPrev (simSubOf t (simStep now s)) = breakerClosed (simSubOf t (simStep now s))"
    using p(2) by (simp add: subPass_def)
  then have "\<forall>b \<in> set (simBits t). in_bit_on (simInput (simStep now s)) b \<longleftrightarrow> breakerClosed (simSubOf t (simStep now s))"
    using core_inv_sub [OF p(1) t] by (simp add: sim_inv_def)
  then show ?thesis using breakerStatus_sim [OF t, of "simInfo (simStep now s)"] p(6) by simp
qed

lemma core_inv_init:
  assumes "mkSimCore now si0 = Inr s"
  shows "core_inv s" "prevTimeStamp s = now" "simVoltage (simSubOf t s) = 0"
    "\<not> overVoltage (simSubOf t s)" "\<not> overCurrent (simSubOf t s)" "newOutput s = 0"
    "breakerClosed (simSubOf t s)" "breakerClosedTarg (simSubOf t s)" "simCurrent (simSubOf t s) = 0"
    "\<not> in_bit_on (simInput s) INTERLOCK_POWER_RELAY"
proof -
  obtain m where m: "mkSimPowerSubsystem MOTOR (pbit MOTOR) (bbit MOTOR) (simBits MOTOR) = Inr m" "sim_wf MOTOR m"
    "simVoltage m = 0" "simCurrent m = 0" "breakerClosed m" "\<not> breakerClosedPrev m" "\<not> overVoltage m" "\<not> overCurrent m"
    "breakerClosedTarg m"
    using mkSimPowerSubsystem_wf [of MOTOR] by blast
  obtain c where c: "mkSimPowerSubsystem COMM (pbit COMM) (bbit COMM) (simBits COMM) = Inr c" "sim_wf COMM c"
    "simVoltage c = 0" "simCurrent c = 0" "breakerClosed c" "\<not> breakerClosedPrev c" "\<not> overVoltage c" "\<not> overCurrent c"
    "breakerClosedTarg c"
    using mkSimPowerSubsystem_wf [of COMM] by blast
  have bits: "in_bit_on (foldl (\<lambda>bm b. write_in bm b True) 0 healthBits) b \<longleftrightarrow> b \<in> set healthBits \<or> b = ALWAYS_HIGH" for b
    using write_in_list [of healthBits True 0 b]
    by (cases b) (auto simp: real_bits_def healthBits_def in_bit_on_def inputGetBitAtPos_iff)
  have s: "motorSub s = m" "commSub s = c" "simInput s = foldl (\<lambda>bm b. write_in bm b True) 0 healthBits"
    "prevTimeStamp s = now" "newOutput s = 0"
    using assms m(1) c(1) by (auto simp: mkSimCore_def simBits_def)
  have "b \<in> set (simBits t) \<Longrightarrow> \<not> in_bit_on (simInput s) b" for b t
    using simBits_disjoint(2) [of t] simBits_real [of t] by (auto simp: s bits real_bits_def)
  then show "core_inv s" using m c by (auto simp: core_inv_def sim_inv_def s bits)
  show "prevTimeStamp s = now" "newOutput s = 0" by (simp_all add: s)
  show "simVoltage (simSubOf t s) = 0" "\<not> overVoltage (simSubOf t s)" "\<not> overCurrent (simSubOf t s)"
    "breakerClosed (simSubOf t s)" "breakerClosedTarg (simSubOf t s)" "simCurrent (simSubOf t s) = 0"
    using m c by (auto simp: simSubOf_def s)
  have "INTERLOCK_POWER_RELAY \<notin> set healthBits" by (simp add: healthBits_def)
  then show "\<not> in_bit_on (simInput s) INTERLOCK_POWER_RELAY" by (simp add: s bits)
qed

lemma mkSimCore_ok: "\<exists>s. mkSimCore now si0 = Inr s"
proof -
  obtain m where "mkSimPowerSubsystem MOTOR (pbit MOTOR) (bbit MOTOR) (simBits MOTOR) = Inr m"
    using mkSimPowerSubsystem_wf [of MOTOR] by blast
  moreover obtain c where "mkSimPowerSubsystem COMM (pbit COMM) (bbit COMM) (simBits COMM) = Inr c"
    using mkSimPowerSubsystem_wf [of COMM] by blast
  ultimately show ?thesis by (simp add: mkSimCore_def simBits_def)
qed

end
