(* ===== verification/PowerSubsystemFrame.thy ===== *)
theory PowerSubsystemFrame
  imports PowerSubsystemSafety
begin

text \<open>
  Two subsystems share one output port. What makes that safe is shown here: an operation of a
  subsystem writes no output but the two of its own, and its invariant looks at no other, so
  that the two can be interleaved in any order.
\<close>

definition own_bits :: "PowerSystemType \<Rightarrow> out_bit set" where
  "own_bits t = {pbit t, bbit t}"

definition port_agree :: "out_bit set \<Rightarrow> 8 word \<Rightarrow> 8 word \<Rightarrow> bool" where
  "port_agree B p q \<longleftrightarrow> (\<forall>b \<in> B. out_bit_on p b = out_bit_on q b)"

lemma port_agree_refl [simp]: "port_agree B p p"
  by (simp add: port_agree_def)

lemma port_agree_trans: "port_agree B p q \<Longrightarrow> port_agree B q r \<Longrightarrow> port_agree B p r"
  by (simp add: port_agree_def)

lemma port_agree_write: "port_agree B p (write_out q b v) \<longleftrightarrow> port_agree (B - {b}) p q \<and> (b \<in> B \<longrightarrow> out_bit_on p b = v)"
  by (auto simp: port_agree_def bitmap_simps)

lemma own_bits_disjoint: "own_bits MOTOR \<inter> own_bits COMM = {}"
  by (simp add: own_bits_def)

text \<open>A context leads to another one of the same subsystem with the foreign outputs unchanged.\<close>

definition keeps_foreign :: "PowerSystemType \<Rightarrow> pctx \<Rightarrow> pctx \<Rightarrow> bool" where
  "keeps_foreign t c c' \<longleftrightarrow>
     (psub_wf t (sub c) \<longrightarrow> psub_wf t (sub c') \<and> port_agree (- own_bits t) (port c) (port c'))"

lemma kf_refl [simp]: "keeps_foreign t c c"
  by (simp add: keeps_foreign_def)

lemma kf_trans: "keeps_foreign t c d \<Longrightarrow> keeps_foreign t d e \<Longrightarrow> keeps_foreign t c e"
  using port_agree_trans by (auto simp: keeps_foreign_def)

lemma kf_port_write:
  assumes "b \<in> own_bits t" and "keeps_foreign t c d"
  shows "keeps_foreign t c (writeOutputPort b v d)"
  using assms by (auto simp: keeps_foreign_def power_simps port_agree_def bitmap_simps)

lemma kf_breaker_write:
  assumes "keeps_foreign t c d" and "b = outputBreakerBit (psCfg (sub d))"
  shows "keeps_foreign t c (writeOutputPort b v d)"
  using assms psub_wf_cfg(2) [of t "sub d"]
  by (auto simp: keeps_foreign_def power_simps port_agree_def bitmap_simps own_bits_def)

lemma kf_fault: "keeps_foreign t c d \<Longrightarrow> keeps_foreign t c (reportFault b d)"
  by (simp add: keeps_foreign_def power_simps)

lemma kf_upd:
  assumes "keeps_foreign t c d" and "ps_type ps' = ps_type (sub d)"
    and "cfg_core (psCfg ps') = cfg_core (psCfg (sub d))"
    and "actual (sub d) \<noteq> TURNING_OFF \<Longrightarrow> actual ps' \<noteq> TURNING_OFF"
  shows "keeps_foreign t c (d \<lparr> sub := ps' \<rparr>)"
  using assms by (auto simp: keeps_foreign_def psub_wf_def)

lemma kf_setPowerOff: "keeps_foreign t c d \<Longrightarrow> keeps_foreign t c (setPowerOff now d)"
  using psub_wf_cfg(1,2) [of t "sub d"]
  by (auto simp: keeps_foreign_def power_simps port_agree_def bitmap_simps own_bits_def)
     (auto simp: psub_wf_def power_simps)

lemma kf_updateFaults: "keeps_foreign t c d \<Longrightarrow> keeps_foreign t c (updateFaults now d)"
  by (simp add: updateFaults_def Let_def kf_setPowerOff kf_fault)

lemma kf_powerShouldBeOn: "keeps_foreign t c d \<Longrightarrow> keeps_foreign t c (snd (powerShouldBeOn d))"
  by (simp add: powerShouldBeOn_def kf_fault)

lemmas kf_intros = kf_refl kf_setPowerOff kf_updateFaults kf_fault kf_upd kf_breaker_write kf_powerShouldBeOn

lemma kf_breakers: "keeps_foreign t c d \<Longrightarrow> keeps_foreign t c (snd (checkForPowerOnBreakerFault now v d))"
  unfolding checkForPowerOnBreakerFault_def checkBreakersCtx_eq
  by (auto intro!: kf_intros)

lemma kf_processOnCase: "keeps_foreign t c d \<Longrightarrow> keeps_foreign t c (processOnCase now o1 v d)"
  using kf_breakers [of t c d now v]
  by (auto simp: processOnCase_def Let_def split: prod.split intro!: kf_intros)

lemma kf_processTurningOnCase: "keeps_foreign t c d \<Longrightarrow> keeps_foreign t c (processTurningOnCase now o1 v d)"
  unfolding processTurningOnCase_def checkBreakersCtx_eq Let_def
  by (auto intro!: kf_intros)

lemma kf_processResetCase: "keeps_foreign t c d \<Longrightarrow> keeps_foreign t c (processResetCase now o1 v d)"
  unfolding processResetCase_def Let_def
  using kf_breakers [OF kf_breaker_write [of t c d "outputBreakerBit (psCfg (sub d))" True], of now v]
  by (auto split: prod.split intro!: kf_intros)

lemma kf_onSwitch: "keeps_foreign t c d \<Longrightarrow> keeps_foreign t c (onSwitch now o1 d)"
  unfolding onSwitch_def Let_def
  by (auto split: PowerState.split
      intro!: kf_processOnCase kf_processTurningOnCase kf_processResetCase kf_intros)

lemma kf_processPowerOn: "keeps_foreign t c (processPowerOn now c)"
proof (cases "psub_wf t (sub c)")
  case True
  have "keeps_foreign t c d" if "sub d = sub c" "port d = port c" for d
    using that by (simp add: keeps_foreign_def)
  then show ?thesis
    by (cases rule: processPowerOn_cases [OF True, of now]) (auto intro: kf_setPowerOff kf_onSwitch)
next
  case False
  then show ?thesis by (simp add: keeps_foreign_def)
qed

lemma kf_processPowerOff: "keeps_foreign t c (processPowerOff now c)"
  unfolding processPowerOff_def processTurningOffCase_def Let_def
  by (auto split: PowerState.split intro!: kf_intros)

lemma kf_processDaqSwitch: "keeps_foreign t c (processDaqSwitch now c)"
  unfolding processDaqSwitch_def
  by (auto split: PowerState.split
      intro: kf_processPowerOn kf_processPowerOff kf_trans [OF kf_setPowerOff [OF kf_refl] kf_processPowerOff])

lemma kf_processDaqFaultCheck: "keeps_foreign t c (processDaqFaultCheck now fm info c)"
  by (auto simp: processDaqFaultCheck_def Let_def intro!: kf_intros)

lemma kf_setPowerOn: "keeps_foreign t c (snd (setPowerOn now fm c))"
proof (cases "psub_wf t (sub c)")
  case True
  show ?thesis
    using psub_wf_cfg(1,2) [OF True]
    by (auto simp: setPowerOn_def Let_def own_bits_def power_simps intro!: kf_intros kf_port_write)
next
  case False
  then show ?thesis by (simp add: keeps_foreign_def)
qed

lemma kf_psubStep: "keeps_foreign t c (psubStep now fm info c)"
proof -
  have "keeps_foreign t c (processDaqFaultCheck now fm info c \<lparr> sub :=
      rememberState (sub (processDaqFaultCheck now fm info c)) \<rparr>)"
    by (rule kf_upd [OF kf_processDaqFaultCheck]) (simp_all add: power_simps)
  then show ?thesis
    unfolding psubStep_def Let_def by (rule kf_trans [OF _ kf_processDaqSwitch])
qed

section \<open>Two users of one port\<close>

text \<open>
  The contract behind the interleaving: two users of the port, each with an invariant that
  reads its own outputs only, and the sets of outputs are disjoint. An operation that keeps
  its user's invariant and the foreign outputs keeps both invariants.
\<close>

locale shared_port =
  fixes inv1 :: "'a \<Rightarrow> 8 word \<Rightarrow> bool" and inv2 :: "'b \<Rightarrow> 8 word \<Rightarrow> bool"
    and own1 own2 :: "out_bit set"
  assumes disjoint: "own1 \<inter> own2 = {}"
    and local1: "port_agree own1 p q \<Longrightarrow> inv1 s p \<Longrightarrow> inv1 s q"
    and local2: "port_agree own2 p q \<Longrightarrow> inv2 r p \<Longrightarrow> inv2 r q"
begin

lemma foreign_op2: "port_agree (- own2) p q \<Longrightarrow> inv1 s p \<Longrightarrow> inv1 s q"
  by (rule local1 [of p q]) (use disjoint in \<open>auto simp: port_agree_def\<close>)

lemma foreign_op1: "port_agree (- own1) p q \<Longrightarrow> inv2 r p \<Longrightarrow> inv2 r q"
  by (rule local2 [of p q]) (use disjoint in \<open>auto simp: port_agree_def\<close>)

lemma interleave:
  assumes "inv1 s p \<and> inv2 r p"
    and "inv1 s' q" and "port_agree (- own1) p q"
    and "inv2 r' q'" and "port_agree (- own2) q q'"
  shows "inv1 s' q' \<and> inv2 r' q'"
  using assms foreign_op2 by blast

lemma third_party:
  assumes "inv1 s p \<and> inv2 r p" and "port_agree (own1 \<union> own2) p q"
  shows "inv1 s q \<and> inv2 r q"
  using assms local1 local2 by (meson Un_iff port_agree_def)

end

text \<open>The invariant of a subsystem as a predicate on its state and the port.\<close>

definition sub_inv :: "PowerSystemType \<Rightarrow> psub \<Rightarrow> 8 word \<Rightarrow> bool" where
  "sub_inv t s p \<longleftrightarrow> full_inv t \<lparr> sub = s, port = p, faults = 0 \<rparr>"

lemma full_inv_sub_inv: "full_inv t c \<longleftrightarrow> sub_inv t (sub c) (port c)"
  by (simp add: sub_inv_def full_inv_def psub_inv_def)

interpretation motor_comm: shared_port "sub_inv MOTOR" "sub_inv COMM" "own_bits MOTOR" "own_bits COMM"
  by unfold_locales
    (auto simp: own_bits_disjoint sub_inv_def full_inv_def psub_inv_def port_agree_def own_bits_def)

end
