(* ===== verification/PowerProps.thy ===== *)
theory PowerProps
  imports PowerSubsystemLive PowerSubsystemFrame
begin

text \<open>
  The properties of one power subsystem, with witnesses on concrete readings.
\<close>

section \<open>Concrete readings\<close>

definition si_zero :: sys_info where
  "si_zero = \<lparr> si_outputPort = 0, si_inputPort = 0, si_motorVoltage = 0, si_motorCurrent = 0,
     si_motorBreakerClosed = False, si_commVoltage = 0, si_commCurrent = 0, si_commBreakerClosed = False,
     si_iterations = 0, si_timestamp = 0 \<rparr>"

text \<open>COMM power on at 24 V and 5 A, all COMM breakers closed.\<close>

definition si_comm :: sys_info where
  "si_comm = si_zero \<lparr>
     si_outputPort := write_out 0 ILC_COMM_POWER_ON True,
     si_inputPort := 0xFFFFFFFF,
     si_commVoltage := 24, si_commCurrent := 5 \<rparr>"

definition fm_connected :: fault_mgr where
  "fm_connected = (mkFaultMgr 0) \<lparr> commConnectionFault := False \<rparr>"

definition comm0 :: pctx where
  "comm0 = (case mkPowerSubsystem 0 si_zero COMM 0 of
              Inr (ps, p) \<Rightarrow> \<lparr> sub = ps, port = p, faults = 0 \<rparr> | Inl _ \<Rightarrow> undefined)"

text \<open>COMM after its first reading (voltage 0, so OFF) and an accepted command to turn on.\<close>

definition comm_off :: pctx where
  "comm_off = psubStep 1 fm_connected si_zero comm0"

definition comm_on :: pctx where
  "comm_on = snd (setPowerOn 2 fm_connected comm_off)"

text \<open>One good reading per second after the command: the tenth counted one is past the delay already.\<close>

definition comm_readings :: "nat \<Rightarrow> (timepoint \<times> sys_info) list" where
  "comm_readings n = map (\<lambda>k. (1000000000 * int k, si_comm)) [1..<n + 1]"

lemma goodReading_si_comm: "goodReading COMM si_comm"
  by code_simp

lemma no_faults_connected: "\<not> subsystemFaults COMM fm_connected" "\<not> subsystemFaults MOTOR fm_connected"
  by code_simp+

lemma comm0_inv: "full_inv COMM comm0"
  unfolding full_inv_sub_inv
  by (simp add: comm0_def mkPowerSubsystem_def mkPowerSubsystemConfig_eq Let_def sub_inv_def full_inv_def
      psub_inv_def psub_wf_def turn_inv_def start_inv_def power_simps bitmap_simps configOf_values)

lemma comm_off_inv: "full_inv COMM comm_off"
  unfolding comm_off_def by (rule psubStep_inv [OF comm0_inv])

lemma comm_on_inv: "full_inv COMM comm_on"
  unfolding comm_on_def
  using psub_inv_setPowerOn [OF psub_inv_wf, of COMM comm_off 2 fm_connected] comm_off_inv
  by (auto simp: full_inv_def setPowerOn_def Let_def power_simps turn_inv_def start_inv_def)

section \<open>Properties\<close>

lemma psubRun_inv: "full_inv t c \<Longrightarrow> full_inv t (psubRun fm rs c)"
  by (induction rs arbitrary: c) (auto simp: psubStep_inv)

text \<open>The state in which the switch of a reading starts.\<close>

lemma psubStep_switch:
  assumes inv: "full_inv t c"
  obtains d where "psubStep now fm info c = processDaqSwitch now d" "full_inv t d" "sysInfo (sub d) = info"
    "actual (sub d) = actual (sub c)" "faults d = faults c"
    "targ (sub d) = (if subsystemFaults t fm then OFF else targ (sub c))"
    "\<not> subsystemFaults t fm \<Longrightarrow> phase (sub d) = phase (sub c) \<and> telemCounter (sub d) = telemCounter (sub c)
        \<and> phaseStartTime (sub d) = phaseStartTime (sub c)"
proof -
  define e where "e = processDaqFaultCheck now fm info c"
  have wf: "psub_wf t (sub c)" using inv by (simp add: full_inv_def psub_inv_def)
  have chk: "checkForFaults fm (sub c) = subsystemFaults t fm"
    "checkForFaults fm (sub c \<lparr> sysInfo := info \<rparr>) = subsystemFaults t fm"
    using psub_wf_reads(4) [OF wf] psub_wf_reads(4) [of t "sub c \<lparr> sysInfo := info \<rparr>"] wf
    by (simp_all add: power_simps)
  note e = processDaqFaultCheck_spec [OF inv, of now fm info, folded e_def]
  have same: "phase (sub e) = phase (sub c) \<and> telemCounter (sub e) = telemCounter (sub c)
      \<and> phaseStartTime (sub e) = phaseStartTime (sub c)" if "\<not> subsystemFaults t fm"
    using that chk(2) by (simp add: e_def processDaqFaultCheck_def Let_def)
  show thesis
    by (rule that [of "e \<lparr> sub := rememberState (sub e) \<rparr>"])
      (use e same chk in \<open>simp_all add: psubStep_def e_def [symmetric] Let_def power_simps\<close>)
qed

text \<open>C9: A power subsystem reaches ON in a reading only if the fault manager has no fault
  against it, its outputs read on, its voltage is between 19 V and 26.4 V, its current within
  its limit and its breakers not in fault, and either it was TURNING_ON with ten readings
  counted, longer than the turn-on delay and all breakers good, or it was resetting its
  breakers for longer than twice the reset pulse.\<close>

theorem on_only_when_ready:
  assumes "full_inv t c" and "actual (sub c) \<noteq> ON" and "actual (sub (psubStep now fm info c)) = ON"
  shows "\<not> subsystemFaults t fm \<and> outputsOnIn t info \<and> 19 \<le> voltageOf t info \<and> voltageOf t info \<le> 132 / 5 \<and>
    currentOf t info \<le> maxCurrent (configOf t) \<and> breakerStatus (configOf t) info > FAULT \<and>
    (actual (sub c) = TURNING_ON \<and> 9 \<le> telemCounter (sub c) \<and>
       delayOf t < timePassedSec (phaseStartTime (sub c)) now \<and> breakerStatus (configOf t) info = GOOD \<or>
     actual (sub c) = RESET \<and> 4 / 5 < timePassedSec (phaseStartTime (sub c)) now)"
proof -
  obtain d where d: "psubStep now fm info c = processDaqSwitch now d" "full_inv t d" "sysInfo (sub d) = info"
    "actual (sub d) = actual (sub c)" "faults d = faults c"
    "targ (sub d) = (if subsystemFaults t fm then OFF else targ (sub c))"
    "\<not> subsystemFaults t fm \<Longrightarrow> phase (sub d) = phase (sub c) \<and> telemCounter (sub d) = telemCounter (sub c)
        \<and> phaseStartTime (sub d) = phaseStartTime (sub c)"
    by (rule psubStep_switch [OF assms(1), of now fm info]) blast
  have wf: "psub_wf t (sub d)" using d(2) by (simp add: full_inv_def psub_inv_def)
  have on: "targ (sub d) = ON"
  proof (rule ccontr)
    assume "targ (sub d) \<noteq> ON"
    then have "targ (sub d) = OFF" using d(2) by (auto simp: full_inv_def psub_inv_def)
    then have "psubStep now fm info c = processPowerOff now d" by (simp add: d(1) processDaqSwitch_def)
    then show False using processPowerOff_spec(2) [OF d(2), of now] assms(2,3) d(4) by (auto split: if_splits)
  qed
  then have nf: "\<not> subsystemFaults t fm" using d(6) by (auto split: if_splits)
  have "psubStep now fm info c = processPowerOn now d" by (simp add: d(1) processDaqSwitch_def on)
  then have tr: "in_range t (sub d)" "onTransition t now (sub d) (sub (psubStep now fm info c))"
    using processPowerOn_spec(4) [OF d(2) on, of now] assms(2,3) d(4) by auto
  show ?thesis
    using tr nf assms(2,3) d(3,4) d(7) [OF nf] psub_wf_reads [OF wf]
    by (auto simp: onTransition_def in_range_def turnOnReady_def delayOf_def SysStatus_less_defs
        split: PowerState.splits if_splits)
qed

definition comm_nine :: pctx where
  "comm_nine = psubRun fm_connected (comm_readings 9) comm_on"

lemma comm_nine_inv: "full_inv COMM comm_nine"
  unfolding comm_nine_def by (rule psubRun_inv [OF comm_on_inv])

lemma comm_nine_state: "actual (sub comm_nine) = TURNING_ON"
  by code_simp

theorem on_only_when_ready_witness:
  "actual (sub (psubStep 10000000000 fm_connected si_comm comm_nine)) = ON \<and>
   outputsOnIn COMM si_comm \<and> breakerStatus (configOf COMM) si_comm > FAULT"
proof -
  have on: "actual (sub (psubStep 10000000000 fm_connected si_comm comm_nine)) = ON" by code_simp
  have "actual (sub comm_nine) \<noteq> ON" using comm_nine_state by simp
  from on_only_when_ready [OF comm_nine_inv this on] on show ?thesis by simp
qed


lemma processOnCase_phase2:
  assumes inv: "psub_inv t c" and ph: "phase (sub c) = 2" and on: "targ (sub (processOnCase now outputIsOn v c)) = ON"
  shows "108 / 5 \<le> v"
proof -
  obtain bad d where chk: "checkForPowerOnBreakerFault now v c = (bad, d)" by (cases "checkForPowerOnBreakerFault now v c")
  note d = checkForPowerOnBreakerFault_inv [OF inv chk]
  have "phase (sub d) = 2 \<or> targ (sub d) = OFF" using d(3) ph by simp
  then show ?thesis
    using on chk d(5) psub_wf_cfg(5) [OF psub_inv_wf [OF d(1)]]
    by (auto simp: processOnCase_def Let_def power_simps split: if_splits)
qed

text \<open>Power stays on through a reading only if it was on, no fault stands against the
  subsystem, its voltage is at most 26.4 V and its current within the limit. A subsystem that
  is ON also needs its outputs reading on, at least 19 V, breakers not in fault, and at least
  21.6 V once the voltage has settled. In every other case the reading turns it off: the
  power-on output is low afterwards.\<close>

theorem stays_on_only_if:
  assumes "full_inv t c" and "out_bit_on (port (psubStep now fm info c)) (pbit t)"
  shows "targ (sub c) = ON \<and> \<not> subsystemFaults t fm \<and> voltageOf t info \<le> 132 / 5 \<and>
    currentOf t info \<le> maxCurrent (configOf t) \<and>
    (actual (sub c) = ON \<longrightarrow> outputsOnIn t info \<and> 19 \<le> voltageOf t info \<and>
       breakerStatus (configOf t) info > FAULT \<and> (phase (sub c) = 2 \<longrightarrow> 108 / 5 \<le> voltageOf t info))"
proof -
  have on': "targ (sub (psubStep now fm info c)) = ON"
    using psubStep_inv [OF assms(1)] assms(2) by (auto simp: full_inv_def psub_inv_def)
  obtain d where d: "psubStep now fm info c = processDaqSwitch now d" "full_inv t d" "sysInfo (sub d) = info"
    "actual (sub d) = actual (sub c)" "targ (sub d) = (if subsystemFaults t fm then OFF else targ (sub c))"
    "\<not> subsystemFaults t fm \<Longrightarrow> phase (sub d) = phase (sub c)"
    by (rule psubStep_switch [OF assms(1), of now fm info]) blast
  have wf: "psub_wf t (sub d)" using d(2) by (simp add: full_inv_def psub_inv_def)
  have on: "targ (sub d) = ON"
  proof (rule ccontr)
    assume "targ (sub d) \<noteq> ON"
    then have "targ (sub d) = OFF" using d(2) by (auto simp: full_inv_def psub_inv_def)
    then show False using processPowerOff_spec(1) [OF d(2), of now] on' by (simp add: d(1) processDaqSwitch_def)
  qed
  then have nf: "\<not> subsystemFaults t fm" "targ (sub c) = ON" using d(5) by (auto split: if_splits)
  have eq: "psubStep now fm info c = processPowerOn now d" by (simp add: d(1) processDaqSwitch_def on)
  have r: "in_range t (sub d)" using processPowerOn_spec(2) [OF d(2) on, of now] on' eq by simp
  note rd = psub_wf_reads [OF wf]
  have "outputsOnIn t info \<and> 19 \<le> voltageOf t info \<and> breakerStatus (configOf t) info > FAULT \<and>
      (phase (sub c) = 2 \<longrightarrow> 108 / 5 \<le> voltageOf t info)" if act: "actual (sub c) = ON"
  proof (cases rule: processPowerOn_cases [OF wf, of now, case_names over1 over2 ok])
    case (ok e)
    have e: "psub_inv t e" using full_inv_cong [OF d(2) ok(3,4)] by (simp add: full_inv_def)
    have st: "psubStep now fm info c = processOnCase now (outputs_on (sub d)) (voltageOf t info) e"
      using ok(3,5) eq act d(3,4) rd(1) by (simp add: onSwitch_def Let_def power_simps)
    show ?thesis
      using processOnCase_spec(2) [OF e, of now "outputs_on (sub d)" "voltageOf t info"]
        processOnCase_phase2 [OF e, of now "outputs_on (sub d)" "voltageOf t info"] on' ok(3) d(3) d(6) [OF nf(1)] rd(3)
      by (auto simp: st not_le)
  qed (use on' eq in \<open>auto simp: power_simps\<close>)
  then show ?thesis using nf r rd(1,2) d(3) by (simp add: in_range_def)
qed

definition comm_poweredOn :: pctx where
  "comm_poweredOn = psubRun fm_connected (comm_readings 12) comm_on"

lemma comm_poweredOn_inv: "full_inv COMM comm_poweredOn"
  unfolding comm_poweredOn_def by (rule psubRun_inv [OF comm_on_inv])

theorem stays_on_only_if_witness:
  "out_bit_on (port (psubStep 20000000000 fm_connected si_comm comm_poweredOn)) ILC_COMM_POWER_ON \<and>
   targ (sub comm_poweredOn) = ON"
proof -
  have on: "out_bit_on (port (psubStep 20000000000 fm_connected si_comm comm_poweredOn)) (pbit COMM)"
    by code_simp
  from stays_on_only_if [OF comm_poweredOn_inv on] on show ?thesis by simp
qed

text \<open>A reading above 26.4 V, or above the current limit, while power is on and no fault
  stands turns power off and reports the voltage fault or the over-current fault.\<close>

theorem overload_shuts_down:
  assumes "full_inv t c" and "targ (sub c) = ON" and "\<not> subsystemFaults t fm"
    and "voltageOf t info > 132 / 5 \<or> currentOf t info > maxCurrent (configOf t)"
  shows "\<not> out_bit_on (port (psubStep now fm info c)) (pbit t) \<and> targ (sub (psubStep now fm info c)) = OFF \<and>
    hasFault (faults (psubStep now fm info c))
      (if voltageOf t info > 132 / 5 then voltageFault (configOf t) else excessiveCurrent (configOf t))"
proof -
  have inv': "full_inv t (psubStep now fm info c)" by (rule psubStep_inv [OF assms(1)])
  obtain d where d: "psubStep now fm info c = processDaqSwitch now d" "full_inv t d" "sysInfo (sub d) = info"
    "targ (sub d) = (if subsystemFaults t fm then OFF else targ (sub c))"
    by (rule psubStep_switch [OF assms(1), of now fm info]) blast
  have wf: "psub_wf t (sub d)" using d(2) by (simp add: full_inv_def psub_inv_def)
  have on: "targ (sub d) = ON" using d(4) assms(2,3) by simp
  have eq: "psubStep now fm info c = processPowerOn now d" by (simp add: d(1) processDaqSwitch_def on)
  have "targ (sub (psubStep now fm info c)) \<noteq> ON"
    using processPowerOn_spec(2) [OF d(2) on, of now] assms(4) psub_wf_reads(1,2) [OF wf] d(3)
    by (auto simp: eq in_range_def)
  then show ?thesis
    using inv' processPowerOn_spec(5,6) [OF d(2) on, of now] assms(4) psub_wf_reads(1,2) [OF wf] d(3)
    by (auto simp: eq full_inv_def psub_inv_def)
qed

theorem overload_shuts_down_witness:
  "\<not> out_bit_on (port (psubStep 20000000000 fm_connected (si_comm \<lparr> si_commVoltage := 27 \<rparr>) comm_poweredOn)) ILC_COMM_POWER_ON"
proof -
  have "targ (sub comm_poweredOn) = ON" by code_simp
  moreover have "voltageOf COMM (si_comm \<lparr> si_commVoltage := 27 \<rparr>) > 132 / 5" by code_simp
  ultimately show ?thesis
    using overload_shuts_down [OF comm_poweredOn_inv _ no_faults_connected(1)] by (metis pbit_bbit_simps(3))
qed

text \<open>Turning off completes: with the target OFF, a reading that shows the power-on output
  low and less than 12 V makes the actual state OFF. Until then the actual state keeps its
  value, the target stays OFF, and no fault is ever reported while the target is OFF, so the
  relay fault of a subsystem that does not lose its voltage is never raised.\<close>

theorem turn_off_completes:
  assumes "full_inv t c" and "targ (sub c) = OFF"
  shows "targ (sub (psubStep now fm info c)) = OFF \<and> faults (psubStep now fm info c) = faults c \<and>
    actual (sub (psubStep now fm info c)) =
      (if \<not> out_bit_on (si_outputPort info) (pbit t) \<and> voltageOf t info < 12 then OFF else actual (sub c))"
proof -
  obtain d where d: "psubStep now fm info c = processDaqSwitch now d" "full_inv t d" "sysInfo (sub d) = info"
    "actual (sub d) = actual (sub c)" "faults d = faults c"
    "targ (sub d) = (if subsystemFaults t fm then OFF else targ (sub c))"
    by (rule psubStep_switch [OF assms(1), of now fm info]) blast
  have wf: "psub_wf t (sub d)" using d(2) by (simp add: full_inv_def psub_inv_def)
  have off: "targ (sub d) = OFF" using d(6) assms(2) by simp
  have "psubStep now fm info c = processPowerOff now d" by (simp add: d(1) processDaqSwitch_def off)
  then show ?thesis
    using processPowerOff_spec [OF d(2), of now] off d(3,4,5) psub_wf_reads(1,5) [OF wf] by simp
qed

theorem turn_off_completes_witness:
  "actual (sub comm0) = UNKNOWN \<and> actual (sub (psubStep 1 fm_connected si_zero comm0)) = OFF"
proof -
  have off: "targ (sub comm0) = OFF" "actual (sub comm0) = UNKNOWN"
      "\<not> out_bit_on (si_outputPort si_zero) (pbit COMM) \<and> voltageOf COMM si_zero < 12"
    by code_simp+
  then show ?thesis using turn_off_completes [OF comm0_inv off(1), of 1 fm_connected si_zero] by simp
qed

text \<open>C8: Turning on completes: a command to turn on that finds no fault, given to a subsystem
  whose target and actual state are OFF, is accepted when the crio interlock reads enabled
  (MOTOR only), and then ten good readings followed by one good reading later than the turn-on
  delay after the tenth leave the subsystem ON.\<close>

theorem turn_on_completes:
  assumes "full_inv t c" and "targ (sub c) = OFF" and "actual (sub c) = OFF" and "\<not> subsystemFaults t fm"
    and "val_or False (getCrioReadyOutputOn (sub c))"
    and "\<forall>(now, info) \<in> set (rs @ [(t10, i10)] @ rs'). goodReading t info" and "length rs = 9"
    and "\<exists>(now, info) \<in> set rs'. timePassedSec t10 now > delayOf t"
  shows "fst (setPowerOn t0 fm c) \<and>
    targ (sub (psubRun fm (rs @ [(t10, i10)] @ rs') (snd (setPowerOn t0 fm c)))) = ON \<and>
    actual (sub (psubRun fm (rs @ [(t10, i10)] @ rs') (snd (setPowerOn t0 fm c)))) = ON"
proof -
  have wf: "psub_wf t (sub c)" using assms(1) by (simp add: full_inv_def psub_inv_def)
  define d where "d = snd (setPowerOn t0 fm c)"
  have ok: "fst (setPowerOn t0 fm c)" and d: "targ (sub d) = ON" "actual (sub d) = OFF"
    using assms(3,4,5) psub_wf_reads(4) [OF wf] by (simp_all add: d_def setPowerOn_def Let_def power_simps)
  have dinv: "full_inv t d"
    using psub_inv_setPowerOn [OF wf, of t0 fm] assms(3,4,5) psub_wf_reads(4) [OF wf]
    by (auto simp: d_def full_inv_def setPowerOn_def Let_def power_simps turn_inv_def start_inv_def)
  obtain t1 i1 rs1 where rs: "rs = (t1, i1) # rs1" "length rs1 = 8" using assms(7) by (cases rs) auto
  have g: "goodReading t i1" "\<forall>(now, info) \<in> set rs1. goodReading t info" "goodReading t i10"
      "\<forall>(now, info) \<in> set rs'. goodReading t info"
    using assms(6) rs by auto
  have s1: "turning t 1 t1 (psubStep t1 fm i1 d)" by (rule psubStep_good_off [OF dinv d assms(4) g(1)])
  have s9: "turning t 9 t1 (psubRun fm rs d)"
    using psubRun_counting [OF s1 assms(4) g(2)] rs by simp
  have "poweredOn t (psubStep t10 fm i10 (psubRun fm rs d)) \<or> turning t 10 t10 (psubStep t10 fm i10 (psubRun fm rs d))"
    using psubStep_good_turning(2) [OF s9 assms(4) g(3)] by simp
  then have "poweredOn t (psubRun fm (rs @ [(t10, i10)] @ rs') d)"
    using psubRun_on [OF _ assms(4) g(4)] psubRun_delay [OF _ assms(4) g(4) assms(8)] by auto
  then show ?thesis using ok by (simp add: poweredOn_def d_def)
qed

theorem turn_on_completes_witness:
  "fst (setPowerOn 2 fm_connected comm_off) \<and>
   actual (sub (psubRun fm_connected (replicate 9 (3, si_comm) @ [(4, si_comm)] @ [(2000000000, si_comm)]) comm_on)) = ON"
proof -
  have st: "targ (sub comm_off) = OFF" "actual (sub comm_off) = OFF" "val_or False (getCrioReadyOutputOn (sub comm_off))"
      "timePassedSec 4 2000000000 > delayOf COMM"
    by code_simp+
  have "\<forall>(now, info) \<in> set (replicate 9 (3, si_comm) @ [(4, si_comm)] @ [(2000000000, si_comm)]). goodReading COMM info"
    using goodReading_si_comm by auto
  from turn_on_completes [OF comm_off_inv st(1,2) no_faults_connected(1) st(3) this, of 2] st(4)
  show ?thesis by (simp add: comm_on_def)
qed

text \<open>A reading or a command of one subsystem writes no output but its own two, the
  power-on output and the breaker reset, so MOTOR and COMM never disturb each other's power.\<close>

theorem foreign_outputs_untouched:
  assumes "full_inv t c" and "b \<noteq> pbit t" and "b \<noteq> bbit t"
  shows "out_bit_on (port (psubStep now fm info c)) b = out_bit_on (port c) b \<and>
    out_bit_on (port (snd (setPowerOn now fm c))) b = out_bit_on (port c) b \<and>
    out_bit_on (port (setPowerOff now c)) b = out_bit_on (port c) b"
proof -
  have wf: "psub_wf t (sub c)" using assms(1) by (simp add: full_inv_def psub_inv_def)
  have "out_bit_on (port d) b = out_bit_on (port c) b" if "keeps_foreign t c d" for d
    using that wf assms(2,3) by (simp add: keeps_foreign_def port_agree_def own_bits_def)
  then show ?thesis
    using kf_psubStep kf_setPowerOn kf_setPowerOff [OF kf_refl] by blast
qed

theorem foreign_outputs_untouched_witness:
  "out_bit_on (port (psubStep 20000000000 fm_connected si_comm comm_poweredOn)) MOTOR_POWER_ON =
     out_bit_on (port comm_poweredOn) MOTOR_POWER_ON"
  using foreign_outputs_untouched [OF comm_poweredOn_inv, of MOTOR_POWER_ON] by simp

end
