(* ===== verification/StateMachine.thy ===== *)
theory StateMachine
  imports ControlDefs
begin

text \<open>
  \<open>state/State\<close>, its six subclasses and \<open>state/StateMap\<close>: the system states, which of them may
  follow which, what entering one does, and which commands it accepts. One object of each
  state exists, so a pointer to a state is its identifier and \<open>nullptr\<close> is None. Entering a
  state may turn power off, which is an action of the model: \<open>changeState\<close> says whether the
  enter action of the new state is to run, and \<open>M2System\<close> runs it.
\<close>

datatype StateEnum =
    OFFLINESTATE | STARTUPSTATE | STANDBYSTATE | IDLESTATE | PAUSESTATE | INMOTIONSTATE

fun stateEnumVal :: "StateEnum \<Rightarrow> int" where
  "stateEnumVal OFFLINESTATE = 0"
| "stateEnumVal STARTUPSTATE = 1"
| "stateEnumVal STANDBYSTATE = 2"
| "stateEnumVal IDLESTATE = 3"
| "stateEnumVal PAUSESTATE = 4"
| "stateEnumVal INMOTIONSTATE = 5"

fun getStateEnumStr :: "StateEnum \<Rightarrow> string" where
  "getStateEnumStr OFFLINESTATE = ''OfflineState''"
| "getStateEnumStr STARTUPSTATE = ''StartupState''"
| "getStateEnumStr STANDBYSTATE = ''StandbyState''"
| "getStateEnumStr IDLESTATE = ''IdleState''"
| "getStateEnumStr PAUSESTATE = ''PauseState''"
| "getStateEnumStr INMOTIONSTATE = ''InMotionState''"

lemma getStateEnumStr_inj: "getStateEnumStr a = getStateEnumStr b \<longleftrightarrow> a = b"
  by (cases a; cases b) simp_all

section \<open>The map of states\<close>

text \<open>\<open>_stateMap\<close> maps an identifier to the object of that state, here its identifier again.\<close>

record state_map =
  sm_map :: "StateEnum \<Rightarrow> StateEnum option"
  currentState :: StateEnum
  safeStates :: "StateEnum list"

definition insertIntoMap :: "StateEnum \<Rightarrow> state_map \<Rightarrow> state_map result" where
  "insertIntoMap st sm =
     (case sm_map sm st of
        Some _ \<Rightarrow> Inl (Bug (getStateEnumStr st @ '' was already in stateMap!''))
      | None \<Rightarrow> Inr (sm \<lparr> sm_map := (sm_map sm)(st := Some st) \<rparr>))"

definition mkStateMap :: "state_map result" where
  "mkStateMap =
     (let sm = \<lparr> sm_map = (\<lambda>_. None), currentState = STARTUPSTATE, safeStates = [] \<rparr> in
      bind_result (insertIntoMap STARTUPSTATE sm) (\<lambda>sm.
      bind_result (insertIntoMap STANDBYSTATE sm) (\<lambda>sm.
      bind_result (insertIntoMap IDLESTATE sm) (\<lambda>sm.
      bind_result (insertIntoMap INMOTIONSTATE sm) (\<lambda>sm.
      bind_result (insertIntoMap OFFLINESTATE sm) (\<lambda>sm.
      bind_result (insertIntoMap PAUSESTATE sm) (\<lambda>sm.
        Inr (sm \<lparr> currentState := STARTUPSTATE,
                  safeStates := [STANDBYSTATE, OFFLINESTATE] \<rparr>))))))))"

definition getState :: "StateEnum \<Rightarrow> state_map \<Rightarrow> StateEnum option" where
  "getState stateId sm = sm_map sm stateId"

definition isASafeState :: "StateEnum \<Rightarrow> state_map \<Rightarrow> bool" where
  "isASafeState stateId sm = list_ex (\<lambda>safe. stateId = safe) (safeStates sm)"

section \<open>Changing the state\<close>

text \<open>\<open>acceptable\<close>, the table of transitions in the body of \<open>_changeState\<close>.\<close>

definition acceptable :: "StateEnum \<Rightarrow> state_map \<Rightarrow> bool" where
  "acceptable newState sm =
     (let cur = currentState sm in
      if isASafeState newState sm then True
      else if cur = IDLESTATE then newState = INMOTIONSTATE \<or> newState = PAUSESTATE
      else if cur = INMOTIONSTATE then newState = INMOTIONSTATE \<or> newState = PAUSESTATE \<or> newState = IDLESTATE
      else if cur = PAUSESTATE then newState = INMOTIONSTATE \<or> newState = IDLESTATE
      else if isASafeState cur sm \<or> cur = STARTUPSTATE then newState = IDLESTATE
      else False)"

text \<open>
  The results: whether the change was made, the map, and whether \<open>onEnterState\<close> of the new
  state runs. Changing to the current state runs it again. \<open>setupFinished\<close> is
  \<open>StartupState::isStartupFinished\<close>.
\<close>

definition changeStateBody :: "bool \<Rightarrow> StateEnum option \<Rightarrow> state_map \<Rightarrow> bool \<times> state_map \<times> bool" where
  "changeStateBody setupFinished newPtr sm =
     (case newPtr of
        None \<Rightarrow> (False, sm, False)
      | Some newState \<Rightarrow>
          if newState = currentState sm then (True, sm, True)
          else if currentState sm = STARTUPSTATE \<and> \<not> setupFinished then (False, sm, False)
          else if acceptable newState sm then (True, sm \<lparr> currentState := newState \<rparr>, True)
          else (False, sm, False))"

definition changeStateEnum :: "bool \<Rightarrow> StateEnum \<Rightarrow> state_map \<Rightarrow> bool \<times> state_map \<times> bool" where
  "changeStateEnum setupFinished newState sm =
     (case sm_map sm newState of
        None \<Rightarrow> (False, sm, False)
      | Some p \<Rightarrow> changeStateBody setupFinished (Some p) sm)"

definition changeStatePtr :: "bool \<Rightarrow> StateEnum option \<Rightarrow> state_map \<Rightarrow> bool \<times> state_map \<times> bool" where
  "changeStatePtr setupFinished newPtr sm =
     (case newPtr of
        None \<Rightarrow> (False, sm, False)
      | Some p \<Rightarrow>
          (case sm_map sm p of
             None \<Rightarrow> (False, sm, False)
           | Some q \<Rightarrow> if q \<noteq> p then (False, sm, False)
                       else changeStateBody setupFinished newPtr sm))"

text \<open>\<open>goToASafeState\<close>: the last component is again the enter action to run.\<close>

definition goToASafeState :: "bool \<Rightarrow> StateEnum \<Rightarrow> state_map \<Rightarrow> bool \<times> state_map \<times> bool" where
  "goToASafeState setupFinished desiredState sm =
     (if currentState sm = OFFLINESTATE \<or> desiredState = OFFLINESTATE
      then (desiredState = OFFLINESTATE, snd (changeStatePtr setupFinished (Some OFFLINESTATE) sm))
      else if isASafeState desiredState sm
      then (True, snd (changeStateEnum setupFinished desiredState sm))
      else (False, snd (changeStatePtr setupFinished (Some STANDBYSTATE) sm)))"

text \<open>
  \<open>enterState\<close>: the base class turns everything off, and StandbyState, IdleState,
  InMotionState and PauseState override it by one that only logs.
\<close>

fun enterTurnsOff :: "StateEnum \<Rightarrow> bool" where
  "enterTurnsOff STANDBYSTATE = False"
| "enterTurnsOff IDLESTATE = False"
| "enterTurnsOff PAUSESTATE = False"
| "enterTurnsOff INMOTIONSTATE = False"
| "enterTurnsOff OFFLINESTATE = True"
| "enterTurnsOff STARTUPSTATE = True"

text \<open>\<open>cmdPower\<close> is overridden by StandbyState and IdleState; elsewhere it logs and returns false.\<close>

fun acceptsCmdPower :: "StateEnum \<Rightarrow> bool" where
  "acceptsCmdPower STANDBYSTATE = True"
| "acceptsCmdPower IDLESTATE = True"
| "acceptsCmdPower _ = False"

text \<open>
  The transition functions of the base class throw; InMotionState and PauseState override two
  of them, by placeholders that throw as well.
\<close>

datatype stateVI = GoToIdleReadyVI | GoToInMotionVI | GoToPauseVI | GoToStandbyVI | GoToFaultVI | GoToOfflineVI

definition callStateVI :: "StateEnum \<Rightarrow> stateVI \<Rightarrow> unit result" where
  "callStateVI st vi =
     (case (st, vi) of
        (INMOTIONSTATE, GoToIdleReadyVI) \<Rightarrow> Inl (Bug ''goToInMotion PLACEHOLDER'')
      | (INMOTIONSTATE, GoToPauseVI) \<Rightarrow> Inl (Bug ''goToPauseVI PLACEHOLDER'')
      | (PAUSESTATE, GoToIdleReadyVI) \<Rightarrow> Inl (Bug ''goToIdleReady PLACEHOLDER'')
      | (PAUSESTATE, GoToInMotionVI) \<Rightarrow> Inl (Bug ''goToInMotion PLACEHOLDER'')
      | (_, _) \<Rightarrow> Inl (Bug (getStateEnumStr st @ '' unexpected goToOfflineVI call'')))"

section \<open>What the table allows\<close>

text \<open>What every operation keeps: all six states are in the map and the safe states are fixed.\<close>

definition sm_ok :: "state_map \<Rightarrow> bool" where
  "sm_ok sm \<longleftrightarrow> (\<forall>s. sm_map sm s = Some s) \<and> safeStates sm = [STANDBYSTATE, OFFLINESTATE]"

lemma mkStateMap_ok: "\<exists>sm. mkStateMap = Inr sm \<and> sm_ok sm \<and> currentState sm = STARTUPSTATE"
proof -
  have "mkStateMap = Inr \<lparr> sm_map = (\<lambda>s. Some s), currentState = STARTUPSTATE,
                           safeStates = [STANDBYSTATE, OFFLINESTATE] \<rparr>"
    by (auto simp: mkStateMap_def insertIntoMap_def intro!: ext split: StateEnum.split)
       (metis StateEnum.exhaust)
  then show ?thesis by (intro exI) (auto simp: sm_ok_def)
qed

lemma isASafeState_iff: "sm_ok sm \<Longrightarrow> isASafeState s sm \<longleftrightarrow> s = STANDBYSTATE \<or> s = OFFLINESTATE"
  by (auto simp: sm_ok_def isASafeState_def)

text \<open>The three entry points coincide on the identifiers of states.\<close>

lemma changeState_entry:
  assumes "sm_ok sm"
  shows "changeStateEnum f s sm = changeStateBody f (Some s) sm"
    "changeStatePtr f (Some s) sm = changeStateBody f (Some s) sm"
    "changeStatePtr f (getState s sm) sm = changeStateBody f (Some s) sm"
  using assms by (simp_all add: sm_ok_def changeStateEnum_def changeStatePtr_def getState_def)

definition allowed :: "bool \<Rightarrow> StateEnum \<Rightarrow> StateEnum \<Rightarrow> bool" where
  "allowed setupFinished cur new \<longleftrightarrow>
     new = cur \<or>
     (cur \<noteq> STARTUPSTATE \<or> setupFinished) \<and>
     (new \<in> {STANDBYSTATE, OFFLINESTATE} \<or>
      new = IDLESTATE \<or>
      new = INMOTIONSTATE \<and> cur \<in> {IDLESTATE, PAUSESTATE} \<or>
      new = PAUSESTATE \<and> cur \<in> {IDLESTATE, INMOTIONSTATE})"

lemma changeStateBody_allowed:
  assumes "sm_ok sm"
  shows "changeStateBody f (Some s) sm =
    (if allowed f (currentState sm) s then (True, sm \<lparr> currentState := s \<rparr>, True) else (False, sm, False))"
  by (cases s; cases "currentState sm")
    (simp_all add: changeStateBody_def acceptable_def Let_def isASafeState_iff [OF assms] allowed_def)

lemma goToASafeState_standby:
  assumes "sm_ok sm"
  shows "goToASafeState f STANDBYSTATE sm =
    (if currentState sm = OFFLINESTATE then (False, sm, True)
     else (True, if allowed f (currentState sm) STANDBYSTATE
                 then (sm \<lparr> currentState := STANDBYSTATE \<rparr>, True) else (sm, False)))"
  using assms
  by (simp add: goToASafeState_def changeState_entry changeStateBody_allowed isASafeState_iff)
     (simp add: allowed_def)

end
