(* ===== verification/M2System.thy ===== *)
theory M2System
  imports PowerSubsystemFrame StateMachine
begin

text \<open>
  The parts put together: \<open>state/Model\<close>, \<open>control/PowerSystem\<close>, the fault manager's calls of
  the model, \<open>control/FpgaIo\<close>, the connection counts of \<open>system/Globals\<close> and
  \<open>system/ComServer\<close>, and \<open>control/MotionEngine\<close>. The state of all of them is one record,
  \<open>world\<close>; an operation takes it and returns it changed. Each operation takes the clock as
  \<open>now\<close>, read once.
\<close>

section \<open>State\<close>

datatype com_state = CREATED | RUNNING | STOPPED

text \<open>
  The message of \<open>reportPowerSystemStateChange\<close>, field by field as it is put into the json
  object, and the identifiers of the connections it is written to.
\<close>

record ps_msg =
  msg_id :: string
  msg_powerType :: int
  msg_state :: int
  msg_status :: bool
  msg_user_info :: "string option"
  msg_to :: "nat list"

record motion_engine =
  eStarted :: bool
  eStopCalled :: bool
  eJoinCalled :: bool
  comReadTime :: timepoint
  engTimeoutLoop :: bool

record world =
  outPort :: "8 word"
  fpgaInfo :: sys_info
  fpgaLoop :: bool
  motor :: psub
  comm :: psub
  motorStatusPrev :: SysStatus
  commStatusPrev :: SysStatus
  daqReadTime :: timepoint
  boostCurrentFaultEnabled :: bool
  wfm :: fault_mgr
  smap :: state_map
  setupFinished :: bool
  tcpCount :: int
  connections :: "nat list"
  srvState :: com_state
  srvShutdown :: bool
  engine :: motion_engine
  serverAlive :: bool
  outbox :: "ps_msg list"

definition getSub :: "PowerSystemType \<Rightarrow> world \<Rightarrow> psub" where
  "getSub t w = (if t = MOTOR then motor w else comm w)"

definition putSub :: "PowerSystemType \<Rightarrow> psub \<Rightarrow> world \<Rightarrow> world" where
  "putSub t ps w = (if t = MOTOR then w \<lparr> motor := ps \<rparr> else w \<lparr> comm := ps \<rparr>)"

text \<open>A method of a subsystem runs on its members, the output port and the caller's faults.\<close>

definition ctxOf :: "PowerSystemType \<Rightarrow> 64 word \<Rightarrow> world \<Rightarrow> pctx" where
  "ctxOf t flts w = \<lparr> sub = getSub t w, port = outPort w, faults = flts \<rparr>"

definition putCtx :: "PowerSystemType \<Rightarrow> pctx \<Rightarrow> world \<Rightarrow> world" where
  "putCtx t c w = (putSub t (sub c) w) \<lparr> outPort := port c \<rparr>"

definition subOff :: "timepoint \<Rightarrow> PowerSystemType \<Rightarrow> world \<Rightarrow> world" where
  "subOff now t w = putCtx t (setPowerOff now (ctxOf t 0 w)) w"

definition subOn :: "timepoint \<Rightarrow> PowerSystemType \<Rightarrow> world \<Rightarrow> bool \<times> world" where
  "subOn now t w = (let (ok, c) = setPowerOn now (wfm w) (ctxOf t 0 w) in (ok, putCtx t c w))"

section \<open>The model: state changes\<close>

definition turnOffAll :: "timepoint \<Rightarrow> world \<Rightarrow> world" where
  "turnOffAll now w = subOff now COMM (subOff now MOTOR w)"

text \<open>Run the enter action of the current state when \<open>changeState\<close> asks for it.\<close>

definition enterCurrent :: "timepoint \<Rightarrow> bool \<Rightarrow> world \<Rightarrow> world" where
  "enterCurrent now run w =
     (if run \<and> enterTurnsOff (currentState (smap w)) then turnOffAll now w else w)"

definition applyChange :: "timepoint \<Rightarrow> bool \<times> state_map \<times> bool \<Rightarrow> world \<Rightarrow> bool \<times> world" where
  "applyChange now r w =
     (let (ok, sm, run) = r in (ok, enterCurrent now run (w \<lparr> smap := sm \<rparr>)))"

definition modelChangeStateEnum :: "timepoint \<Rightarrow> StateEnum \<Rightarrow> world \<Rightarrow> bool \<times> world" where
  "modelChangeStateEnum now s w = applyChange now (changeStateEnum (setupFinished w) s (smap w)) w"

definition modelChangeState :: "timepoint \<Rightarrow> StateEnum option \<Rightarrow> world \<Rightarrow> bool \<times> world" where
  "modelChangeState now p w = applyChange now (changeStatePtr (setupFinished w) p (smap w)) w"

definition goToSafeMode :: "timepoint \<Rightarrow> world \<Rightarrow> bool \<times> world" where
  "goToSafeMode now w =
     (let w = turnOffAll now w
      in applyChange now (goToASafeState (setupFinished w) STANDBYSTATE (smap w)) w)"

text \<open>\<open>asyncWriteToAllComConn\<close> writes to every connection of the map.\<close>

definition broadcast :: "ps_msg \<Rightarrow> world \<Rightarrow> world" where
  "broadcast m w = (if serverAlive w then w \<lparr> outbox := outbox w @ [m \<lparr> msg_to := connections w \<rparr>] \<rparr> else w)"

definition powerSystemStateMsg :: "PowerSystemType \<Rightarrow> PowerState \<Rightarrow> PowerState \<Rightarrow> ps_msg" where
  "powerSystemStateMsg t tp ap = \<lparr>
     msg_id = ''powerSystemState'',
     msg_powerType = powerSystemTypeVal t,
     msg_state = powerStateVal ap,
     msg_status = (tp = ON),
     msg_user_info = Some (getPowerSystemTypeStr t @ '' is '' @ getPowerStateOldStr ap @
                           '' turning '' @ getPowerStateStr tp),
     msg_to = [] \<rparr>"

definition allPowerOn :: "world \<Rightarrow> bool" where
  "allPowerOn w \<longleftrightarrow> targ (comm w) = ON \<and> actual (comm w) = ON \<and> targ (motor w) = ON \<and> actual (motor w) = ON"

definition reportSwitch :: "timepoint \<Rightarrow> world \<Rightarrow> world" where
  "reportSwitch now w =
     (let cur = currentState (smap w) in
      if cur = STARTUPSTATE \<or> cur = OFFLINESTATE
      then (if targ (comm w) \<noteq> OFF \<or> targ (motor w) \<noteq> OFF then turnOffAll now w else w)
      else if cur = IDLESTATE \<or> cur = INMOTIONSTATE \<or> cur = PAUSESTATE
      then (if \<not> allPowerOn w then snd (modelChangeStateEnum now STANDBYSTATE w) else w)
      else if allPowerOn w then snd (modelChangeStateEnum now IDLESTATE w) else w)"

definition reportPowerSystemStateChange ::
  "timepoint \<Rightarrow> PowerSystemType \<Rightarrow> PowerState \<Rightarrow> PowerState \<Rightarrow> world \<Rightarrow> world" where
  "reportPowerSystemStateChange now t tp ap w =
     broadcast (powerSystemStateMsg t tp ap) (reportSwitch now w)"

section \<open>Faults that reach the model\<close>

definition updatePowerFaults :: "timepoint \<Rightarrow> 64 word \<Rightarrow> CrioSubsystem \<Rightarrow> world \<Rightarrow> world" where
  "updatePowerFaults now cf subsystem w =
     (let (changed, f) = fm_powerMerge now cf (wfm w);
          w = w \<lparr> wfm := f \<rparr>
      in if \<not> changed then w
         else
           let w = (if fm_needsSafeMode cf subsystem (wfm w) then snd (goToSafeMode now w) else w)
           in w \<lparr> wfm := fm_summaryUpdate (wfm w) \<rparr>)"

definition reportComConnectionCount :: "timepoint \<Rightarrow> nat \<Rightarrow> world \<Rightarrow> world" where
  "reportComConnectionCount now count w =
     (let (safe, f) = fm_connectionCount now count (wfm w);
          w = w \<lparr> wfm := f \<rparr>
      in if safe then snd (goToSafeMode now w) else w)"

section \<open>The power system\<close>

definition powerMotor :: "timepoint \<Rightarrow> bool \<Rightarrow> world \<Rightarrow> bool \<times> world" where
  "powerMotor now on w =
     (if on \<and> actual (comm w) \<noteq> ON then (False, w)
      else if on then subOn now MOTOR w
      else (True, subOff now MOTOR w))"

definition powerComm :: "timepoint \<Rightarrow> bool \<Rightarrow> world \<Rightarrow> bool \<times> world" where
  "powerComm now on w =
     (let w = (if \<not> on \<and> actual (motor w) \<noteq> OFF then subOff now MOTOR w else w)
      in if on then subOn now COMM w else (True, subOff now COMM w))"

definition cmdPowerBase :: "timepoint \<Rightarrow> PowerSystemType \<Rightarrow> bool \<Rightarrow> world \<Rightarrow> bool \<times> world" where
  "cmdPowerBase now t on w =
     (case t of
        MOTOR \<Rightarrow> powerMotor now on w
      | COMM \<Rightarrow> powerComm now on w
      | _ \<Rightarrow> (False, w))"

definition cmdPower :: "timepoint \<Rightarrow> PowerSystemType \<Rightarrow> bool \<Rightarrow> world \<Rightarrow> bool \<times> world" where
  "cmdPower now t on w =
     (if acceptsCmdPower (currentState (smap w)) then cmdPowerBase now t on w else (False, w))"

definition writeCrioInterlockEnable :: "bool \<Rightarrow> world \<Rightarrow> world" where
  "writeCrioInterlockEnable b w = w \<lparr> outPort := write_out (outPort w) CRIO_INTERLOCK_ENABLE b \<rparr>"

definition processDaqHealthTelemetry :: "bool \<Rightarrow> sys_info \<Rightarrow> 64 word \<Rightarrow> 64 word" where
  "processDaqHealthTelemetry boostEnabled info flts =
     (let inp = si_inputPort info;
          redundancyOk = in_bit_on inp REDUNDANCY_OK;
          loadDistributionOk = in_bit_on inp LOAD_DISTRIBUTION_OK;
          powerSupply1DcOk = in_bit_on inp POWER_SUPPLY_1_DC_OK;
          powerSupply2DcOk = in_bit_on inp POWER_SUPPLY_2_DC_OK;
          boost1 = (\<not> in_bit_on inp POWER_SUPPLY_1_CURRENT_OK);
          boost2 = (\<not> in_bit_on inp POWER_SUPPLY_2_CURRENT_OK);
          powerLoadOk = (redundancyOk \<and> loadDistributionOk);
          flts = (if \<not> powerLoadOk then setFault flts POWER_SUPPLY_LOAD_SHARE_ERR else flts);
          anyBoost = (boostEnabled \<and> (boost1 \<or> boost2));
          powerSupplyOk = ((powerSupply1DcOk \<and> powerSupply2DcOk) \<and> \<not> anyBoost)
      in if \<not> powerSupplyOk then setFault flts POWER_HEALTH_FAULT else flts)"

text \<open>\<open>PowerSubsystem::processDaq\<close> with its report to the model in the middle.\<close>

definition subProcessDaq ::
  "timepoint \<Rightarrow> PowerSystemType \<Rightarrow> sys_info \<Rightarrow> 64 word \<Rightarrow> world \<Rightarrow> SysStatus \<times> 64 word \<times> world" where
  "subProcessDaq now t info flts w =
     (let w = putCtx t (processDaqFaultCheck now (wfm w) info (ctxOf t flts w)) w;
          w = (if stateChanged (getSub t w)
               then reportPowerSystemStateChange now t (targ (getSub t w)) (actual (getSub t w)) w
               else w);
          w = putSub t (rememberState (getSub t w)) w;
          c = processDaqSwitch now (ctxOf t flts w)
      in (processDaqResult, faults c, putCtx t c w))"

definition processDaq :: "timepoint \<Rightarrow> sys_info \<Rightarrow> world \<Rightarrow> world" where
  "processDaq now info w =
     (let flts = processDaqHealthTelemetry (boostCurrentFaultEnabled w) info 0;
          w = (if flts \<noteq> 0 then updatePowerFaults now flts POWER_SUBSYSTEM w else w);
          w = (if out_bit_on (si_outputPort info) MOTOR_POWER_ON \<and>
                  \<not> out_bit_on (si_outputPort info) ILC_COMM_POWER_ON
               then subOff now MOTOR w else w);
          (motorStat, flts, w) = subProcessDaq now MOTOR info flts w;
          (commStat, flts, w) = subProcessDaq now COMM info flts w;
          w = updatePowerFaults now flts POWER_SUBSYSTEM w
      in if motorStatusPrev w \<noteq> motorStat \<or> commStatusPrev w \<noteq> commStat
         then w \<lparr> motorStatusPrev := motorStat, commStatusPrev := commStat \<rparr> else w)"

text \<open>\<open>_sysInfoTimeoutSecs\<close> is 1.5 seconds.\<close>

definition sysInfoTimeoutSecs :: real where
  "sysInfoTimeoutSecs = 15 / 10"

definition checkTimeout :: "timepoint \<Rightarrow> real \<Rightarrow> world \<Rightarrow> bool \<times> world" where
  "checkTimeout now diffInSeconds w =
     (if diffInSeconds > sysInfoTimeoutSecs
      then
        let w = subOff now COMM (subOff now MOTOR w);
            cFaults = setFault 0 POWER_SYSTEM_TIMEOUT
        in (True, updatePowerFaults now cFaults POWER_SUBSYSTEM w)
      else (False, w))"

definition daqInfoRead :: "timepoint \<Rightarrow> world \<Rightarrow> world" where
  "daqInfoRead now w =
     (let w = w \<lparr> daqReadTime := now \<rparr>;
          sInfo = fpgaInfo w;
          (timedOut, w) = checkTimeout now (timePassedSec (si_timestamp sInfo) now) w
      in processDaq now sInfo w)"

definition daqTimeoutCheck :: "timepoint \<Rightarrow> world \<Rightarrow> world" where
  "daqTimeoutCheck now w =
     (let (timedOut, w) = checkTimeout now (timePassedSec (daqReadTime w) now) w
      in if timedOut then processDaq now (fpgaInfo w) w else w)"

section \<open>FPGA access\<close>

definition writeOutputPortBitPos :: "int \<Rightarrow> bool \<Rightarrow> world \<Rightarrow> world result" where
  "writeOutputPortBitPos pos b w =
     bind_result (outputWriteBit (outPort w) pos b) (\<lambda>p. Inr (w \<lparr> outPort := p \<rparr>))"

definition emergencyTurnOffAllPower :: "world \<Rightarrow> world" where
  "emergencyTurnOffAllPower w =
     w \<lparr> outPort := write_out (write_out (outPort w) MOTOR_POWER_ON False) ILC_COMM_POWER_ON False \<rparr>"

text \<open>
  One pass of \<open>_readWriteFpga\<close>. The hardware (in this program the simulator) takes the output
  port and answers with a reading: \<open>hw\<close>. Without a power system everything is turned off;
  with one, \<open>_daqInfoRead\<close> is queued, which is an event of its own. \<open>None\<close> stands for
  hardware mode, which throws.
\<close>

definition readWriteFpga :: "bool \<Rightarrow> (8 word \<Rightarrow> sys_info) option \<Rightarrow> world \<Rightarrow> (bool \<times> world) result" where
  "readWriteFpga powerSysRegistered hw w =
     (if \<not> fpgaLoop w then Inr (False, w)
      else
        let w = (if \<not> powerSysRegistered then emergencyTurnOffAllPower w else w)
        in case hw of
             None \<Rightarrow> Inl (Bug ''FpgaIo::getSysInfo() hardware mode unavailable'')
           | Some h \<Rightarrow> Inr (powerSysRegistered, w \<lparr> fpgaInfo := h (outPort w) \<rparr>))"

section \<open>Connections\<close>

text \<open>\<open>Globals::setTcpIpConnected\<close>: the number of active connections, and the state change it causes.\<close>

definition setTcpIpConnected :: "timepoint \<Rightarrow> bool \<Rightarrow> world \<Rightarrow> world" where
  "setTcpIpConnected now connecting w =
     (let originalCount = tcpCount w;
          count = (if connecting then originalCount + 1 else originalCount - 1);
          w = w \<lparr> tcpCount := count \<rparr>
      in if count \<le> 0 then snd (modelChangeState now (getState OFFLINESTATE (smap w)) w)
         else if originalCount \<le> 0 \<and> count > 0
         then snd (modelChangeState now (getState STANDBYSTATE (smap w)) w)
         else w)"

text \<open>
  \<open>_handleAccept\<close> enters the connection into the map (\<open>emplace\<close> keeps an existing entry) and
  begins the protocol when the accept succeeded.
\<close>

definition handleAccept :: "timepoint \<Rightarrow> nat \<Rightarrow> bool \<Rightarrow> world \<Rightarrow> world" where
  "handleAccept now connId acceptOk w =
     (if srvState w = STOPPED \<or> srvShutdown w then w
      else
        let w = (if connId \<in> set (connections w) then w
                 else w \<lparr> connections := connections w @ [connId] \<rparr>);
            w = reportComConnectionCount now (length (connections w)) w
        in if acceptOk then setTcpIpConnected now True w else w)"

definition eraseFromMap :: "nat \<Rightarrow> world \<Rightarrow> nat option \<times> world" where
  "eraseFromMap connId w =
     (if connId \<notin> set (connections w) then (None, w)
      else
        let w = w \<lparr> connections := removeAll connId (connections w) \<rparr>
        in (Some (length (connections w)), w))"

definition eraseConnection :: "timepoint \<Rightarrow> nat \<Rightarrow> world \<Rightarrow> world" where
  "eraseConnection now connId w =
     (case eraseFromMap connId w of
        (None, w) \<Rightarrow> w
      | (Some n, w) \<Rightarrow> reportComConnectionCount now n w)"

text \<open>\<open>ComConnection::shutdown\<close>, the first time it is called for a connection.\<close>

definition connectionShutdown :: "timepoint \<Rightarrow> nat \<Rightarrow> bool \<Rightarrow> world \<Rightarrow> world" where
  "connectionShutdown now connId active w =
     (let w = (if active then setTcpIpConnected now False w else w)
      in eraseConnection now connId w)"

section \<open>Motion engine\<close>

definition comTimeoutErrorSecs :: real where
  "comTimeoutErrorSecs = 25 / 10"

definition comTimeoutWarnSecs :: real where
  "comTimeoutWarnSecs = 15 / 10"

text \<open>\<open>engineStart\<close> marks the engine as started also where it throws.\<close>

definition engineStart :: "timepoint \<Rightarrow> motion_engine \<Rightarrow> unit result \<times> motion_engine" where
  "engineStart now e =
     (let e' = e \<lparr> eStarted := True \<rparr>
      in if eStarted e \<or> eStopCalled e
         then (Inl (Bug ''MotionEngine::engineStart() can only be called once''), e')
         else (Inr (), e' \<lparr> comReadTime := now \<rparr>))"

definition engineStop :: "motion_engine \<Rightarrow> bool \<times> motion_engine" where
  "engineStop e =
     (if eStopCalled e then (False, e)
      else (True, e \<lparr> eStopCalled := True, engTimeoutLoop := False \<rparr>))"

definition engineJoin :: "motion_engine \<Rightarrow> motion_engine" where
  "engineJoin e = (if eJoinCalled e then e else e \<lparr> eJoinCalled := True \<rparr>)"

definition engineCheckTimeout :: "real \<Rightarrow> world \<Rightarrow> bool \<times> world" where
  "engineCheckTimeout diffInSeconds w =
     (if diffInSeconds > comTimeoutErrorSecs
      then (True, w \<lparr> wfm := fm_reportMotionEngineTimeout True (wfm w) \<rparr>)
      else if diffInSeconds > comTimeoutWarnSecs
      then (False, w \<lparr> wfm := fm_reportMotionEngineTimeout False (wfm w) \<rparr>)
      else (False, w))"

definition comTimeoutCheck :: "timepoint \<Rightarrow> world \<Rightarrow> world" where
  "comTimeoutCheck now w = snd (engineCheckTimeout (timePassedSec (comReadTime (engine w)) now) w)"

section \<open>Start and end\<close>

text \<open>Of the body of \<open>ctrlSetup\<close> only its last statement is code; the rest are comments.\<close>

definition ctrlSetup :: "world \<Rightarrow> world" where
  "ctrlSetup w = w \<lparr> setupFinished := True \<rparr>"

definition ctrlStart :: "timepoint \<Rightarrow> world \<Rightarrow> unit result \<times> world" where
  "ctrlStart now w =
     (let (r, e) = engineStart now (engine w);
          w = w \<lparr> engine := e \<rparr>
      in case r of
           Inl err \<Rightarrow> (Inl err, w)
         | Inr _ \<Rightarrow> (Inr (), snd (modelChangeState now (getState STANDBYSTATE (smap w)) w)))"

definition ctrlStop :: "world \<Rightarrow> world" where
  "ctrlStop w = w \<lparr> engine := snd (engineStop (engine w)) \<rparr>"

definition ctrlJoin :: "world \<Rightarrow> world" where
  "ctrlJoin w = w \<lparr> engine := engineJoin (engine w) \<rparr>"

definition systemShutdown :: "timepoint \<Rightarrow> world \<Rightarrow> world" where
  "systemShutdown now w =
     (let w = snd (modelChangeState now (getState OFFLINESTATE (smap w)) w);
          w = turnOffAll now w;
          w = w \<lparr> fpgaLoop := False \<rparr>;
          w = w \<lparr> engine := snd (engineStop (engine w)) \<rparr>
      in w \<lparr> srvShutdown := True \<rparr>)"

text \<open>The construction of the global objects in \<open>ControlMain\<close>, up to \<open>Context::setup\<close>.\<close>

definition mkWorld :: "timepoint \<Rightarrow> sys_info \<Rightarrow> world result" where
  "mkWorld now si0 =
     bind_result mkStateMap (\<lambda>sm.
     bind_result (mkPowerSubsystem now si0 MOTOR 0) (\<lambda>(m, p).
     bind_result (mkPowerSubsystem now si0 COMM p) (\<lambda>(c, p).
       Inr \<lparr> outPort = p, fpgaInfo = si0 \<lparr> si_outputPort := 0, si_inputPort := 0 \<rparr>, fpgaLoop = True,
             motor = m, comm = c, motorStatusPrev = WAITING, commStatusPrev = WAITING,
             daqReadTime = now, boostCurrentFaultEnabled = True, wfm = mkFaultMgr now, smap = sm,
             setupFinished = False, tcpCount = 0, connections = [], srvState = CREATED,
             srvShutdown = False,
             engine = \<lparr> eStarted = False, eStopCalled = False, eJoinCalled = False,
                        comReadTime = now, engTimeoutLoop = True \<rparr>,
             serverAlive = False, outbox = [] \<rparr>)))"

section \<open>Events\<close>

text \<open>
  What the threads of the program do to this state, one call at a time. An event that throws
  leaves the state as it is, but for \<open>ctrlStart\<close>, which has marked the engine as started.
\<close>

datatype event =
    ReadFpga bool "8 word \<Rightarrow> sys_info"
  | DaqInfoRead timepoint
  | DaqTimeoutCheck timepoint
  | CmdPower timepoint PowerSystemType bool
  | ChangeState timepoint StateEnum
  | Accept timepoint nat bool
  | CloseConnection timepoint nat bool
  | ComTimeoutCheck timepoint
  | WriteInterlock bool
  | ResetFaults timepoint "64 word"
  | EnableFaults "64 word"
  | CtrlSetup
  | CtrlStart timepoint
  | CtrlStop
  | CtrlJoin
  | SystemShutdown timepoint
  | ServerRun
  | ServerStopped

definition or_else :: "world \<Rightarrow> world result \<Rightarrow> world" where
  "or_else w r = (case r of Inr w' \<Rightarrow> w' | Inl _ \<Rightarrow> w)"

fun exec :: "event \<Rightarrow> world \<Rightarrow> world" where
  "exec (ReadFpga reg hw) w = or_else w (bind_result (readWriteFpga reg (Some hw) w) (\<lambda>(q, w). Inr w))"
| "exec (DaqInfoRead now) w = daqInfoRead now w"
| "exec (DaqTimeoutCheck now) w = daqTimeoutCheck now w"
| "exec (CmdPower now t on) w = snd (cmdPower now t on w)"
| "exec (ChangeState now s) w = snd (modelChangeState now (getState s (smap w)) w)"
| "exec (Accept now i acceptOk) w = handleAccept now i acceptOk w"
| "exec (CloseConnection now i active) w = connectionShutdown now i active w"
| "exec (ComTimeoutCheck now) w = comTimeoutCheck now w"
| "exec (WriteInterlock b) w = writeCrioInterlockEnable b w"
| "exec (ResetFaults now msk) w = w \<lparr> wfm := fm_resetFaults now msk (wfm w) \<rparr>"
| "exec (EnableFaults msk) w = w \<lparr> wfm := snd (fm_enableFaultsInMask msk (wfm w)) \<rparr>"
| "exec CtrlSetup w = ctrlSetup w"
| "exec (CtrlStart now) w = snd (ctrlStart now w)"
| "exec CtrlStop w = ctrlStop w"
| "exec CtrlJoin w = ctrlJoin w"
| "exec (SystemShutdown now) w = systemShutdown now w"
| "exec ServerRun w = w \<lparr> srvState := RUNNING, serverAlive := True \<rparr>"
| "exec ServerStopped w = w \<lparr> srvState := STOPPED \<rparr>"

text \<open>The states the system can reach from its construction.\<close>

inductive reachable :: "world \<Rightarrow> bool" where
  init: "mkWorld now si0 = Inr w \<Longrightarrow> reachable w"
| step: "reachable w \<Longrightarrow> reachable (exec e w)"

end
