(* ===== verification/SimLoop.thy ===== *)
theory SimLoop
  imports SimPower PowerProps M2System
begin

text \<open>
  The simulator and a power subsystem in a closed loop. \<open>FpgaIo::_readWriteFpga\<close> gives the
  output port to the simulator and takes the simulator's latest reading for the subsystem; the
  simulator makes its passes on a thread of its own. The loop here is the interleaving with one
  pass between an exchange of the ports and the next reading.
\<close>

section \<open>The loop\<close>

definition loopStep :: "fault_mgr \<Rightarrow> timepoint \<Rightarrow> sim_core \<times> pctx \<Rightarrow> sim_core \<times> pctx" where
  "loopStep fm now sc =
     (let s = simStep now (setNewOutputPort (port (snd sc)) (fst sc))
      in (s, psubStep now fm (simInfo s) (snd sc)))"

definition loopRun :: "fault_mgr \<Rightarrow> timepoint list \<Rightarrow> sim_core \<times> pctx \<Rightarrow> sim_core \<times> pctx" where
  "loopRun fm ts sc = fold (loopStep fm) ts sc"

lemma loopRun_simps [simp]:
  "loopRun fm [] sc = sc"
  "loopRun fm (t # ts) sc = loopRun fm ts (loopStep fm t sc)"
  "loopRun fm (ts @ us) sc = loopRun fm us (loopRun fm ts sc)"
  by (simp_all add: loopRun_def)

text \<open>A simulated subsystem without forced errors, its breaker closed, and an output port that
  turns it on.\<close>

definition simReady :: "PowerSystemType \<Rightarrow> sim_core \<Rightarrow> bool" where
  "simReady t s \<longleftrightarrow>
     core_inv s \<and> simVoltage (simSubOf t s) \<le> 24 \<and> \<not> overVoltage (simSubOf t s) \<and> \<not> overCurrent (simSubOf t s) \<and>
     breakerClosed (simSubOf t s) \<and> breakerClosedTarg (simSubOf t s) \<and>
     \<not> in_bit_on (simInput s) INTERLOCK_POWER_RELAY"



lemma core_inv_setNewOutputPort [simp]:
  "core_inv (setNewOutputPort p s) = core_inv s" "simSubOf t (setNewOutputPort p s) = simSubOf t s"
  "prevTimeStamp (setNewOutputPort p s) = prevTimeStamp s" "newOutput (setNewOutputPort p s) = p"
  "simInput (setNewOutputPort p s) = simInput s" "simReady t (setNewOutputPort p s) = simReady t s"
  by (simp_all add: core_inv_def simSubOf_def setNewOutputPort_def simReady_def)

definition rateOf :: "PowerSystemType \<Rightarrow> real" where
  "rateOf t = 24 / delayOf t * (13 / 10)"




section \<open>Turning on\<close>



lemma timePassedSec_split: "timePassedSec a c = timePassedSec a b + timePassedSec b c"
  by (simp add: timePassedSec_def field_simps)


lemma sorted_head: "sorted (a # b # xs) \<Longrightarrow> a \<le> (b :: int) \<and> sorted (b # xs)"
  by simp







definition sim0 :: sim_core where
  "sim0 = (case mkSimCore 0 si_zero of Inr s \<Rightarrow> s | Inl _ \<Rightarrow> undefined)"

lemma sim0: "mkSimCore 0 si_zero = Inr sim0"
  using mkSimCore_ok [of 0 si_zero] by (auto simp: sim0_def)

text \<open>Passes 25 ms apart: \<open>_frequencyHz\<close> is 40.\<close>

definition pass_times :: "nat \<Rightarrow> nat \<Rightarrow> timepoint list" where
  "pass_times m n = map (\<lambda>k. 25000000 * int k) [m..<n]"


section \<open>Runs of the simulation alone\<close>

text \<open>Each pass with the output port that was set before it.\<close>

definition simRun :: "(timepoint \<times> 8 word) list \<Rightarrow> sim_core \<Rightarrow> sim_core" where
  "simRun ps s = fold (\<lambda>(now, p) s. simStep now (setNewOutputPort p s)) ps s"

lemma simRun_simps [simp]:
  "simRun [] s = s"
  "simRun ((now, p) # ps) s = simRun ps (simStep now (setNewOutputPort p s))"
  by (simp_all add: simRun_def)

text \<open>No forced error, and the voltage of both subsystems within the nominal one.\<close>

definition simQuiet :: "sim_core \<Rightarrow> bool" where
  "simQuiet s \<longleftrightarrow> core_inv s \<and> (\<forall>t \<in> {MOTOR, COMM}.
     simVoltage (simSubOf t s) \<le> 24 \<and> \<not> overVoltage (simSubOf t s) \<and> \<not> overCurrent (simSubOf t s))"

lemma simQuiet_pass:
  fixes p :: "8 word"
  assumes q: "simQuiet s" and m: "prevTimeStamp s \<le> now" and t: "t = MOTOR \<or> t = COMM"
  defines "s' \<equiv> simStep now (setNewOutputPort p s)"
  shows "simQuiet s'" "prevTimeStamp s' = now" "core_inv s'"
    "simVoltage (simSubOf t s') =
       calcVoltage (timePassedSec (prevTimeStamp s) now) (out_bit_on p (pbit t)) (simSubOf t s)"
proof -
  let ?dt = "timePassedSec (prevTimeStamp s) now"
  have dt: "0 \<le> ?dt" using m by (simp add: timePassedSec_nonneg_iff)
  have inv: "core_inv (setNewOutputPort p s)" "prevTimeStamp (setNewOutputPort p s) \<le> now"
    using q m by (simp_all add: simQuiet_def)
  have sub: "subPass now p ?dt u (simSubOf u s) (simSubOf u s')" "core_inv s'" "prevTimeStamp s' = now"
    if "u = MOTOR \<or> u = COMM" for u
    using simStep_parts(1,2,4) [OF inv that] by (simp_all add: s'_def)
  show "prevTimeStamp s' = now" "core_inv s'"
    "simVoltage (simSubOf t s') = calcVoltage ?dt (out_bit_on p (pbit t)) (simSubOf t s)"
    using sub [OF t] by (simp_all add: subPass_def)
  have "simVoltage (simSubOf u s') \<le> 24 \<and> \<not> overVoltage (simSubOf u s') \<and> \<not> overCurrent (simSubOf u s')"
    if u: "u = MOTOR \<or> u = COMM" for u
  proof -
    have i: "sim_inv u (simInput s) (simSubOf u s)" using q u by (simp add: simQuiet_def core_inv_sub)
    then have wf: "sim_wf u (simSubOf u s)" "0 \<le> simVoltage (simSubOf u s)" by (simp_all add: sim_inv_def)
    show ?thesis
      using calcVoltage_bounds(3) [OF wf(1) dt wf(2)] sub(1) [OF u] q u by (auto simp: subPass_def simQuiet_def)
  qed
  then show "simQuiet s'" using sub(2) [OF t] by (simp add: simQuiet_def)
qed

lemma simQuiet_init:
  assumes "mkSimCore now si0 = Inr s"
  shows "simQuiet s" "prevTimeStamp s = now"
  using core_inv_init [OF assms] by (simp_all add: simQuiet_def)






definition offRateOf :: "PowerSystemType \<Rightarrow> real" where
  "offRateOf t = 24 / offDelayOf t * (13 / 10)"

lemma rates_nonneg: "t = MOTOR \<or> t = COMM \<Longrightarrow> 0 < rateOf t \<and> 0 < offRateOf t"
  by (auto simp: rateOf_def offRateOf_def delayOf_values)

text \<open>C38: The simulated voltage is a function of elapsed time only. While the power output of a
  subsystem is held, any sequence of passes in time order leaves the voltage where one pass over
  the whole time would: up by 31.2 V per turn-on delay and at most 24 V, or down by 31.2 V per
  turn-off delay and at least 0 V. Neither the times of the passes nor the other bits of the port
  matter, so the simulation does not depend on how often its thread runs.\<close>

theorem sim_voltage_closed_form:
  assumes "simQuiet s" and "sorted (prevTimeStamp s # map fst ps)" and "t = MOTOR \<or> t = COMM"
    and "\<forall>p \<in> set (map snd ps). out_bit_on p (pbit t) = on"
  shows "simVoltage (simSubOf t (simRun ps s)) =
    (let d = timePassedSec (prevTimeStamp s) (last (prevTimeStamp s # map fst ps))
     in if on then min 24 (simVoltage (simSubOf t s) + 24 / delayOf t * (13 / 10) * d)
        else max 0 (simVoltage (simSubOf t s) - 24 / offDelayOf t * (13 / 10) * d))"
  unfolding rateOf_def [symmetric] offRateOf_def [symmetric]
  using assms(1,2,4)
proof (induction ps arbitrary: s)
  case Nil
  have "sim_inv t (simInput s) (simSubOf t s)" using Nil.prems(1) assms(3) by (simp add: simQuiet_def core_inv_sub)
  then show ?case using Nil.prems(1) assms(3) by (auto simp: sim_inv_def simQuiet_def)
next
  case (Cons a ps)
  obtain now p where a: "a = (now, p)" by (cases a)
  let ?s = "simStep now (setNewOutputPort p s)"
  define V where "V = simVoltage (simSubOf t s)"
  define e where "e = timePassedSec now (last (now # map fst ps))"
  define dt where "dt = timePassedSec (prevTimeStamp s) now"
  have m: "prevTimeStamp s \<le> now" using Cons.prems(2) a by simp
  have "now \<le> last (now # map fst ps)" using Cons.prems(2) a by (cases ps rule: rev_cases) (auto simp: sorted_append)
  then have nn: "0 \<le> e" "0 \<le> dt" using m by (simp_all add: e_def dt_def timePassedSec_nonneg_iff)
  note q = simQuiet_pass [OF Cons.prems(1) m assms(3), of p]
  have i: "sim_wf t (simSubOf t s)" "0 \<le> V" "V \<le> 24" "\<not> overVoltage (simSubOf t s)"
    using Cons.prems(1) core_inv_sub [of s t] assms(3) by (auto simp: simQuiet_def sim_inv_def V_def)
  have bit: "out_bit_on p (pbit t) = on" using Cons.prems(3) a by simp
  have v: "simVoltage (simSubOf t ?s) = (if on then min 24 (V + rateOf t * dt) else max 0 (V - offRateOf t * dt))"
    using q(4) bit calcVoltage_on [OF i(1) nn(2) _ i(4)] calcVoltage_off [OF i(1) nn(2)] i
    by (simp add: dt_def [symmetric] V_def [symmetric] sim_wf_def rateOf_def offRateOf_def)
  have ih: "simVoltage (simSubOf t (simRun ps ?s)) =
      (if on then min 24 (simVoltage (simSubOf t ?s) + rateOf t * e) else max 0 (simVoltage (simSubOf t ?s) - offRateOf t * e))"
    using Cons.IH [OF q(1)] Cons.prems(2,3) q(2) a by (simp add: Let_def e_def)
  have "timePassedSec (prevTimeStamp s) (last (now # map fst ps)) = dt + e"
    unfolding dt_def e_def by (rule timePassedSec_split)
  moreover have "0 \<le> rateOf t * e" "0 \<le> offRateOf t * e" using nn rates_nonneg [OF assms(3)] by simp_all
  ultimately show ?case
    using ih v by (auto simp: a Let_def V_def [symmetric] distrib_left min_def max_def)
qed

theorem sim_voltage_closed_form_witness:
  "simVoltage (simSubOf COMM (simRun (map (\<lambda>k. (k, 2 ^ 1)) (pass_times 1 5)) sim0)) = 24 / delayOf COMM * (13 / 10) * (1 / 10)"
proof -
  have st: "sorted (0 # pass_times 1 5)" "out_bit_on (2 ^ 1) (pbit COMM)" "last (0 # pass_times 1 5) = 100000000"
    "timePassedSec 0 100000000 = 1 / 10"
    by code_simp+
  have "simVoltage (simSubOf COMM sim0) = 0" "prevTimeStamp sim0 = 0" using core_inv_init [OF sim0] by blast+
  then show ?thesis
    using sim_voltage_closed_form [OF simQuiet_init(1) [OF sim0], of "map (\<lambda>k. (k, 2 ^ 1)) (pass_times 1 5)" COMM True] st
    by (simp add: comp_def Let_def delayOf_values image_def)
qed

text \<open>The simulated breaker opens in the pass in which its reset output is low, whatever the
  state before, and closes again only in a pass more than 0.25 s after the output was seen high
  again; until it is closed the current is 0 and the program reads a breaker fault.\<close>

theorem sim_breaker:
  assumes "core_inv s" and "prevTimeStamp s \<le> now" and "t = MOTOR \<or> t = COMM"
  defines "s' \<equiv> simStep now s"
  shows "(breakerClosed (simSubOf t s') \<longleftrightarrow>
      out_bit_on (newOutput s) (bbit t) \<and>
      (breakerClosed (simSubOf t s) \<or>
       breakerClosedTarg (simSubOf t s) \<and> timePassedSec (breakerClosedTargTs (simSubOf t s)) now > 1 / 4)) \<and>
    breakerStatus (configOf t) (simInfo s') = (if breakerClosed (simSubOf t s') then GOOD else FAULT) \<and>
    (\<not> breakerClosed (simSubOf t s') \<longrightarrow> currentOf t (simInfo s') = 0)"
  using simStep_parts(2,9) [OF assms(1-3)] simStep_breakers [OF assms(1-3)]
  by (simp add: s'_def subPass_def)

theorem sim_breaker_witness: "breakerStatus (configOf MOTOR) (simInfo (simStep 1 sim0)) = FAULT"
proof -
  have "\<not> out_bit_on 0 (bbit MOTOR)" by code_simp
  then have "\<not> out_bit_on (newOutput sim0) (bbit MOTOR)" using core_inv_init(6) [OF sim0] by simp
  then show ?thesis using sim_breaker [of sim0 1 MOTOR] core_inv_init(1,2) [OF sim0] by simp
qed

end
