(* ===== verification/JsonLib.thy ===== *)
theory JsonLib
  imports M2Prelude
begin

text \<open>
  \<open>nlohmann::json\<close>, which is not part of the repository, as a parameter: the operations the
  program calls, over a type \<open>'j\<close> of values, and what it relies on. The last section has one
  concrete value type, which shows that the assumptions can hold and on which examples are
  evaluated.
\<close>

section \<open>The operations\<close>

text \<open>
  \<open>at\<close> and the conversions throw; the text is \<open>what()\<close>. A missing key is \<open>out_of_range\<close>, a
  value of the wrong kind a \<open>type_error\<close>.
\<close>

datatype json_exception = OutOfRange string | TypeError string | ParseError string

fun json_what :: "json_exception \<Rightarrow> string" where
  "json_what (OutOfRange s) = s"
| "json_what (TypeError s) = s"
| "json_what (ParseError s) = s"

record 'j json_ops =
  j_parse :: "string \<Rightarrow> json_exception + 'j"
  j_dump :: "'j \<Rightarrow> string"
  j_null :: "'j"
  j_set :: "string \<Rightarrow> 'j \<Rightarrow> 'j \<Rightarrow> 'j"
  j_at :: "string \<Rightarrow> 'j \<Rightarrow> json_exception + 'j"
  j_merge_patch :: "'j \<Rightarrow> 'j \<Rightarrow> 'j"
  j_ofString :: "string \<Rightarrow> 'j"
  j_ofBool :: "bool \<Rightarrow> 'j"
  j_ofUint :: "64 word \<Rightarrow> 'j"
  j_ofInt :: "int \<Rightarrow> 'j"
  j_ofReal :: "real \<Rightarrow> 'j"
  j_ofList :: "'j list \<Rightarrow> 'j"
  j_toString :: "'j \<Rightarrow> json_exception + string"
  j_toBool :: "'j \<Rightarrow> json_exception + bool"
  j_toUint :: "'j \<Rightarrow> json_exception + 64 word"
  j_toInt :: "'j \<Rightarrow> json_exception + int"
  j_toReal :: "'j \<Rightarrow> json_exception + real"
  j_toList :: "'j \<Rightarrow> json_exception + 'j list"

text \<open>\<open>T v = js.at(key)\<close>: the lookup and the conversion, either of which may throw.\<close>

definition j_get :: "('j \<Rightarrow> json_exception + 'a) \<Rightarrow> 'j json_ops \<Rightarrow> string \<Rightarrow> 'j \<Rightarrow> json_exception + 'a" where
  "j_get conv J key j = (case j_at J key j of Inl e \<Rightarrow> Inl e | Inr v \<Rightarrow> conv v)"

section \<open>What the program relies on\<close>

text \<open>
  Objects are built from the default value with \<open>js[key] = v\<close>; an entry that was set is found
  by \<open>at\<close>, the other entries stay. Converting a value of the matching kind gives it back.
  \<open>merge_patch\<close> with an object of one entry that is neither null nor an object sets that entry.
\<close>

inductive j_object :: "'j json_ops \<Rightarrow> 'j \<Rightarrow> bool" for J where
  null: "j_object J (j_null J)"
| set: "j_object J j \<Longrightarrow> j_object J (j_set J k v j)"

definition j_leaf :: "'j json_ops \<Rightarrow> 'j \<Rightarrow> bool" where
  "j_leaf J v \<longleftrightarrow>
     (\<exists>s. v = j_ofString J s) \<or> (\<exists>b. v = j_ofBool J b) \<or> (\<exists>n. v = j_ofUint J n) \<or> (\<exists>n. v = j_ofInt J n) \<or>
     (\<exists>r. v = j_ofReal J r) \<or> (\<exists>vs. v = j_ofList J vs)"

definition j_find :: "'j json_ops \<Rightarrow> string \<Rightarrow> 'j \<Rightarrow> 'j option" where
  "j_find J k j = (case j_at J k j of Inr v \<Rightarrow> Some v | Inl _ \<Rightarrow> None)"

lemma j_find_Some [simp]: "j_find J k j = Some v \<longleftrightarrow> j_at J k j = Inr v"
  by (auto simp: j_find_def split: sum.splits)

lemma j_find_None: "j_find J k j = None \<longleftrightarrow> (\<exists>e. j_at J k j = Inl e)"
  by (auto simp: j_find_def split: sum.splits)

definition json_laws :: "'j json_ops \<Rightarrow> bool" where
  "json_laws J \<longleftrightarrow>
     (\<forall>j k v k'. j_object J j \<longrightarrow> j_find J k' (j_set J k v j) = (if k' = k then Some v else j_find J k' j)) \<and>
     (\<forall>k. j_find J k (j_null J) = None) \<and>
     (\<forall>s. j_toString J (j_ofString J s) = Inr s) \<and>
     (\<forall>b. j_toBool J (j_ofBool J b) = Inr b) \<and>
     (\<forall>n. j_toUint J (j_ofUint J n) = Inr n) \<and>
     (\<forall>n. 0 \<le> n \<longrightarrow> n < 2 ^ 64 \<longrightarrow> j_toUint J (j_ofInt J n) = Inr (word_of_int n)) \<and>
     (\<forall>n. j_toInt J (j_ofInt J n) = Inr n) \<and>
     (\<forall>r. j_toReal J (j_ofReal J r) = Inr r) \<and>
     (\<forall>vs. j_toList J (j_ofList J vs) = Inr vs) \<and>
     (\<forall>j k v. j_object J j \<longrightarrow> j_leaf J v \<longrightarrow> j_merge_patch J j (j_set J k v (j_null J)) = j_set J k v j)"

named_theorems json_rules "the laws of the json operations"

lemma json_laws_simps [json_rules]:
  assumes "json_laws J"
  shows "j_object J j \<Longrightarrow> j_find J k' (j_set J k v j) = (if k' = k then Some v else j_find J k' j)"
    "j_find J k (j_null J) = None"
    "j_toString J (j_ofString J s) = Inr s" "j_toBool J (j_ofBool J b) = Inr b" "j_toUint J (j_ofUint J n) = Inr n"
    "0 \<le> i \<Longrightarrow> i < 2 ^ 64 \<Longrightarrow> j_toUint J (j_ofInt J i) = Inr (word_of_int i)"
    "j_toInt J (j_ofInt J i) = Inr i" "j_toReal J (j_ofReal J r) = Inr r" "j_toList J (j_ofList J vs) = Inr vs"
    "j_object J j \<Longrightarrow> j_leaf J v \<Longrightarrow> j_merge_patch J j (j_set J k v (j_null J)) = j_set J k v j"
  using assms unfolding json_laws_def by blast+

lemma j_at_set:
  assumes "json_laws J" and "j_object J j"
  shows "j_at J k (j_set J k v j) = Inr v"
    "k' \<noteq> k \<Longrightarrow> j_at J k' j = Inr w \<Longrightarrow> j_at J k' (j_set J k v j) = Inr w"
  using json_laws_simps(1) [OF assms, of k k v] json_laws_simps(1) [OF assms, of k' k v]
  by (simp_all flip: j_find_Some)

lemma j_object_intros [simp]:
  "j_object J (j_null J)" "j_object J j \<Longrightarrow> j_object J (j_set J k v j)"
  by (rule j_object.intros, (assumption)?)+

lemma j_leaf_intros [simp]:
  "j_leaf J (j_ofString J s)" "j_leaf J (j_ofBool J b)" "j_leaf J (j_ofUint J n)" "j_leaf J (j_ofInt J i)"
  "j_leaf J (j_ofReal J r)" "j_leaf J (j_ofList J vs)"
  unfolding j_leaf_def by blast+

section \<open>A concrete value type\<close>

text \<open>
  Values as a tree. \<open>parse\<close> and \<open>dump\<close> are arguments: the examples give \<open>parse\<close> as a table of
  the strings they use.
\<close>

datatype jval =
    JNull
  | JBool bool
  | JInt int
  | JReal real
  | JString string
  | JList "jval list"
  | JObject "(string \<times> jval) list"

fun jval_set :: "string \<Rightarrow> jval \<Rightarrow> jval \<Rightarrow> jval" where
  "jval_set k v (JObject kvs) = JObject ((k, v) # filter (\<lambda>(k', _). k' \<noteq> k) kvs)"
| "jval_set k v _ = JObject [(k, v)]"

fun jval_at :: "string \<Rightarrow> jval \<Rightarrow> json_exception + jval" where
  "jval_at k (JObject kvs) = (case map_of kvs k of Some v \<Rightarrow> Inr v | None \<Rightarrow> Inl (OutOfRange ''key not found''))"
| "jval_at k _ = Inl (TypeError ''cannot use at()'')"

fun jval_merge :: "jval \<Rightarrow> jval \<Rightarrow> jval" where
  "jval_merge j (JObject kvs) =
     foldr (\<lambda>(k, v) j. if v = JNull then j else jval_set k v j) kvs j"
| "jval_merge j p = p"

definition jval_ops :: "(string \<Rightarrow> jval option) \<Rightarrow> (jval \<Rightarrow> string) \<Rightarrow> jval json_ops" where
  "jval_ops parse dump = \<lparr>
     j_parse = (\<lambda>s. case parse s of Some j \<Rightarrow> Inr j | None \<Rightarrow> Inl (ParseError ''parse error'')),
     j_dump = dump, j_null = JNull, j_set = jval_set, j_at = jval_at, j_merge_patch = jval_merge,
     j_ofString = JString, j_ofBool = JBool, j_ofUint = (\<lambda>n. JInt (uint n)), j_ofInt = JInt,
     j_ofReal = JReal, j_ofList = JList,
     j_toString = (\<lambda>j. case j of JString s \<Rightarrow> Inr s | _ \<Rightarrow> Inl (TypeError ''type must be string'')),
     j_toBool = (\<lambda>j. case j of JBool b \<Rightarrow> Inr b | _ \<Rightarrow> Inl (TypeError ''type must be boolean'')),
     j_toUint = (\<lambda>j. case j of JInt n \<Rightarrow> Inr (word_of_int n) | _ \<Rightarrow> Inl (TypeError ''type must be number'')),
     j_toInt = (\<lambda>j. case j of JInt n \<Rightarrow> Inr n | _ \<Rightarrow> Inl (TypeError ''type must be number'')),
     j_toReal = (\<lambda>j. case j of JReal r \<Rightarrow> Inr r | JInt n \<Rightarrow> Inr (of_int n) | _ \<Rightarrow> Inl (TypeError ''type must be number'')),
     j_toList = (\<lambda>j. case j of JList vs \<Rightarrow> Inr vs | _ \<Rightarrow> Inl (TypeError ''type must be array'')) \<rparr>"

lemma jval_object: "j_object (jval_ops p d) j \<Longrightarrow> j = JNull \<or> (\<exists>kvs. j = JObject kvs)"
  by (induction rule: j_object.induct) (auto simp: jval_ops_def)

lemma map_of_filter_key: "map_of (filter (\<lambda>(k', _). k' \<noteq> k) kvs) k' = (if k' = k then None else map_of kvs k')"
  by (induction kvs) auto

lemma jval_laws: "json_laws (jval_ops p d)"
proof -
  let ?J = "jval_ops p d"
  have "j_find ?J k' (j_set ?J k v j) = (if k' = k then Some v else j_find ?J k' j)" if "j_object ?J j" for j k v k'
    using jval_object [OF that] by (auto simp: jval_ops_def j_find_def map_of_filter_key split: option.splits)
  moreover have "j_merge_patch ?J j (j_set ?J k v (j_null ?J)) = j_set ?J k v j" if "j_leaf ?J v" for j k v
    using that by (auto simp: jval_ops_def j_leaf_def)
  moreover have "j_find ?J k (j_null ?J) = None" for k by (simp add: jval_ops_def j_find_def)
  ultimately show ?thesis
    unfolding json_laws_def by (simp add: jval_ops_def)
qed

end
