(* ===== verification/NetCommand.thy ===== *)
theory NetCommand
  imports M2System JsonLib
begin

text \<open>
  \<open>control/NetCommand\<close>, \<open>control/NetCommandDefs\<close> and \<open>control/NetCommandFactory\<close>: the messages
  of a client become commands, with a check of their sequence numbers, an acknowledgement and a
  final response. The json library is a parameter, \<open>J\<close>.
\<close>

section \<open>Exceptions with their place\<close>

text \<open>
  \<open>Issue::what\<close>: the message and the place that \<open>ERR_LOC\<close> gives. The file is named from
  \<open>src/LSST\<close> on; the compiler may put a path before it.
\<close>

definition issueWhat :: "string \<Rightarrow> int \<Rightarrow> string \<Rightarrow> string \<Rightarrow> string" where
  "issueWhat file line func message =
     message @ '' ['' @ ''in function '' @ func @ '' at '' @ file @ '':'' @ to_string line @ '']''"

section \<open>Commands\<close>

datatype net_cmd_class =
    NCmdAck
  | NCmdNoAck
  | NCmdEcho
  | NCmdSwitchCommandSource
  | NCmdPower
  | NCmdSystemShutdown

fun getCommandName :: "net_cmd_class \<Rightarrow> string" where
  "getCommandName NCmdAck = ''cmd_ack''"
| "getCommandName NCmdNoAck = ''cmd_noack''"
| "getCommandName NCmdEcho = ''cmd_echo''"
| "getCommandName NCmdSwitchCommandSource = ''cmd_switchCommandSource''"
| "getCommandName NCmdPower = ''cmd_power''"
| "getCommandName NCmdSystemShutdown = ''cmd_systemShutdown''"

text \<open>The members of the base class and of all child classes, which have different names.\<close>

record 'j net_command =
  nc_class :: net_cmd_class
  nc_name :: string
  nc_seqId :: "64 word"
  ackJson :: 'j
  respJson :: 'j
  nc_msg :: string
  nc_isRemote :: bool
  nc_powerType :: PowerSystemType
  nc_status :: bool

text \<open>The default member initialisers, which are all that a factory version has.\<close>

definition netCommandDefault :: "'j json_ops \<Rightarrow> net_cmd_class \<Rightarrow> 'j net_command" where
  "netCommandDefault J cls =
     (let js = (\<lambda>i. j_set J ''user_info'' (j_ofString J '''')
                     (j_set J ''sequence_id'' (j_ofInt J 0) (j_set J ''id'' (j_ofString J i) (j_null J))))
      in \<lparr> nc_class = cls, nc_name = ''none'', nc_seqId = 0, ackJson = js ''noack'', respJson = js ''fail'',
           nc_msg = '''', nc_isRemote = True, nc_powerType = MOTOR, nc_status = False \<rparr>)"

definition setAckUserInfo :: "'j json_ops \<Rightarrow> string \<Rightarrow> 'j net_command \<Rightarrow> 'j net_command" where
  "setAckUserInfo J msg c = c \<lparr> ackJson := j_set J ''user_info'' (j_ofString J msg) (ackJson c) \<rparr>"

definition setAckId :: "'j json_ops \<Rightarrow> string \<Rightarrow> 'j net_command \<Rightarrow> 'j net_command" where
  "setAckId J i c = c \<lparr> ackJson := j_set J ''id'' (j_ofString J i) (ackJson c) \<rparr>"

definition mkNetCommand :: "'j json_ops \<Rightarrow> net_cmd_class \<Rightarrow> 'j option \<Rightarrow> 'j net_command result" where
  "mkNetCommand J cls inJson =
     (case inJson of
        None \<Rightarrow> Inl (NetCommandException
          (issueWhat ''control/NetCommand.cpp'' 41 ''NetCommand'' ''NetCommand constructor inJson=null''))
      | Some js \<Rightarrow>
          (let failed = (\<lambda>ex. Inl (NetCommandException (issueWhat ''control/NetCommand.cpp'' 50 ''NetCommand''
                 (''NetCommand constructor error in '' @ j_dump J js @ '' what='' @ json_what ex))))
           in case j_get (j_toString J) J ''id'' js of
                Inl ex \<Rightarrow> failed ex
              | Inr name \<Rightarrow>
                  (case j_get (j_toUint J) J ''sequence_id'' js of
                     Inl ex \<Rightarrow> failed ex
                   | Inr seqId \<Rightarrow>
                       let c = (netCommandDefault J cls) \<lparr> nc_name := name, nc_seqId := seqId \<rparr>;
                           c = c \<lparr> ackJson := j_set J ''sequence_id'' (j_ofUint J seqId) (ackJson c) \<rparr>;
                           c = setAckUserInfo J (''invalid:'' @ name) c
                       in Inr (c \<lparr> respJson := j_set J ''sequence_id'' (j_ofUint J seqId) (respJson c) \<rparr>))))"

definition throwNetCommandException ::
  "'j json_ops \<Rightarrow> net_cmd_class \<Rightarrow> int \<Rightarrow> string \<Rightarrow> 'j \<Rightarrow> json_exception \<Rightarrow> 'a result" where
  "throwNetCommandException J cls line func js ex =
     Inl (NetCommandException (issueWhat ''control/NetCommandDefs.cpp'' line func
       (getCommandName cls @ '' '' @ func @ '' constructor error in '' @ j_dump J js @ '' what='' @ json_what ex)))"

text \<open>\<open>std::to_string\<close> of a \<open>bool\<close>.\<close>

definition boolStr :: "bool \<Rightarrow> string" where
  "boolStr b = (if b then ''1'' else ''0'')"

section \<open>The child classes\<close>

definition newNCmdAck :: "'j json_ops \<Rightarrow> 'j \<Rightarrow> 'j net_command result" where
  "newNCmdAck J js = bind_result (mkNetCommand J NCmdAck (Some js)) (\<lambda>c.
     Inr (setAckUserInfo J ''ack'' (setAckId J ''ack'' c)))"

definition newNCmdNoAck :: "'j json_ops \<Rightarrow> 'j \<Rightarrow> 'j net_command result" where
  "newNCmdNoAck J js = bind_result (mkNetCommand J NCmdNoAck (Some js)) (\<lambda>c.
     Inr (setAckUserInfo J ''noack'' (setAckId J ''noack'' c)))"

definition newNCmdEcho :: "'j json_ops \<Rightarrow> 'j \<Rightarrow> 'j net_command result" where
  "newNCmdEcho J js = bind_result (mkNetCommand J NCmdEcho (Some js)) (\<lambda>c.
     case j_get (j_toString J) J ''msg'' js of
       Inl ex \<Rightarrow> Inl (NetCommandException (issueWhat ''control/NetCommand.cpp'' 148 ''NCmdEcho''
          (''NCmdEcho constructor error in '' @ j_dump J js @ '' what='' @ json_what ex)))
     | Inr msg \<Rightarrow> Inr (setAckUserInfo J ''echo'' (setAckId J ''ack'' (c \<lparr> nc_msg := msg \<rparr>))))"

definition newNCmdSwitchCommandSource :: "'j json_ops \<Rightarrow> 'j \<Rightarrow> 'j net_command result" where
  "newNCmdSwitchCommandSource J js = bind_result (mkNetCommand J NCmdSwitchCommandSource (Some js)) (\<lambda>c.
     case j_get (j_toBool J) J ''isRemote'' js of
       Inl ex \<Rightarrow> throwNetCommandException J NCmdSwitchCommandSource 54 ''NCmdSwitchCommandSource'' js ex
     | Inr b \<Rightarrow> Inr (setAckUserInfo J (getCommandName NCmdSwitchCommandSource @ '' '' @ boolStr b)
                      (setAckId J ''ack'' (c \<lparr> nc_isRemote := b \<rparr>))))"

definition newNCmdPower :: "'j json_ops \<Rightarrow> 'j \<Rightarrow> 'j net_command result" where
  "newNCmdPower J js = bind_result (mkNetCommand J NCmdPower (Some js)) (\<lambda>c.
     case j_get (j_toInt J) J ''powerType'' js of
       Inl ex \<Rightarrow> throwNetCommandException J NCmdPower 89 ''NCmdPower'' js ex
     | Inr powerVal \<Rightarrow>
         (case j_get (j_toBool J) J ''status'' js of
            Inl ex \<Rightarrow> throwNetCommandException J NCmdPower 89 ''NCmdPower'' js ex
          | Inr status \<Rightarrow>
              let powerType = intToPowerSystemType powerVal
              in if powerType = UNKNOWNPOWERSYSTEM
                 then Inl (NetCommandException (issueWhat ''control/NetCommandDefs.cpp'' 92 ''NCmdPower''
                        (''unknown powerType in '' @ j_dump J js)))
                 else Inr (setAckUserInfo J
                        (getCommandName NCmdPower @ '' '' @ getPowerSystemTypeStr powerType @ boolStr status)
                        (setAckId J ''ack'' (c \<lparr> nc_powerType := powerType, nc_status := status \<rparr>)))))"

definition newNCmdSystemShutdown :: "'j json_ops \<Rightarrow> 'j \<Rightarrow> 'j net_command result" where
  "newNCmdSystemShutdown J js = bind_result (mkNetCommand J NCmdSystemShutdown (Some js)) (\<lambda>c.
     Inr (setAckUserInfo J (getCommandName NCmdSystemShutdown) (setAckId J ''ack'' c)))"

fun createNewNetCommand :: "'j json_ops \<Rightarrow> net_cmd_class \<Rightarrow> 'j \<Rightarrow> 'j net_command result" where
  "createNewNetCommand J NCmdAck js = newNCmdAck J js"
| "createNewNetCommand J NCmdNoAck js = newNCmdNoAck J js"
| "createNewNetCommand J NCmdEcho js = newNCmdEcho J js"
| "createNewNetCommand J NCmdSwitchCommandSource js = newNCmdSwitchCommandSource J js"
| "createNewNetCommand J NCmdPower js = newNCmdPower J js"
| "createNewNetCommand J NCmdSystemShutdown js = newNCmdSystemShutdown J js"

text \<open>\<open>NetCommand::parse\<close>: at least \<open>id\<close> and \<open>sequence_id\<close> must be there.\<close>

definition parseCommand :: "'j json_ops \<Rightarrow> string \<Rightarrow> 'j result" where
  "parseCommand J inStr =
     (case j_parse J inStr of
        Inl ex \<Rightarrow> Inl (NetCommandException (issueWhat ''control/NetCommand.cpp'' 66 ''parse''
          (''NetCommand::parse error '' @ json_what ex @ '' '' @ inStr)))
      | Inr js \<Rightarrow>
          (let failed = (\<lambda>ex. Inl (NetCommandException (issueWhat ''control/NetCommand.cpp'' 78 ''parse''
                 (''NetCommand::parse error missing id or sequence_id in '' @ j_dump J js @ '' what='' @ json_what ex))))
           in case j_get (j_toString J) J ''id'' js of
                Inl ex \<Rightarrow> failed ex
              | Inr i \<Rightarrow> (case j_get (j_toUint J) J ''sequence_id'' js of Inl ex \<Rightarrow> failed ex | Inr n \<Rightarrow> Inr js)))"

section \<open>The factory\<close>

record cmd_factory =
  defaultNoAck :: net_cmd_class
  cmdMap :: "string \<rightharpoonup> net_cmd_class"
  prevSeqId :: "64 word"

definition mkFactory :: cmd_factory where
  "mkFactory = \<lparr> defaultNoAck = NCmdNoAck, cmdMap = Map.empty, prevSeqId = 0 \<rparr>"

definition addNetCommand :: "net_cmd_class \<Rightarrow> cmd_factory \<Rightarrow> cmd_factory result" where
  "addNetCommand cls f =
     (let cmdName = getCommandName cls
      in case cmdMap f cmdName of
           Some _ \<Rightarrow> Inl (NetCommandException (issueWhat ''control/NetCommandFactory.cpp'' 51 ''addNetCommand''
             (''addNetCommand failed as this command was already in the map '' @ cmdName)))
         | None \<Rightarrow> Inr (f \<lparr> cmdMap := (cmdMap f)(cmdName \<mapsto> cls) \<rparr>))"

text \<open>
  The call changes \<open>_prevSeqId\<close> even when the command turns out to be unknown or invalid. The
  two lookups after \<open>parse\<close> succeeded are written out with the exception they would throw.
\<close>

definition getCommandFor :: "'j json_ops \<Rightarrow> string \<Rightarrow> cmd_factory \<Rightarrow> 'j net_command result \<times> cmd_factory" where
  "getCommandFor J jsonStr f =
     (case parseCommand J jsonStr of
        Inl e \<Rightarrow> (Inl e, f)
      | Inr js \<Rightarrow>
          (case (j_get (j_toString J) J ''id'' js, j_get (j_toUint J) J ''sequence_id'' js) of
             (Inl ex, _) \<Rightarrow> (Inl (JsonException (json_what ex)), f)
           | (_, Inl ex) \<Rightarrow> (Inl (JsonException (json_what ex)), f)
           | (Inr cmdId, Inr seqId) \<Rightarrow>
               let noAck = (\<lambda>info. bind_result (createNewNetCommand J (defaultNoAck f) js)
                                      (\<lambda>c. Inr (setAckUserInfo J info c)))
               in if seqId \<le> prevSeqId f
                  then (noAck (''Bad sequence_id '' @ to_string (uint seqId) @ '' '' @ cmdId @
                               '' previous sequence_id was '' @ to_string (uint (prevSeqId f))), f)
                  else
                    let f = f \<lparr> prevSeqId := seqId \<rparr>
                    in case cmdMap f cmdId of
                         None \<Rightarrow> (noAck (''Original command not found '' @ cmdId), f)
                       | Some cls \<Rightarrow>
                           (case createNewNetCommand J cls js of
                              Inl (NetCommandException what) \<Rightarrow> (noAck (''Invalid json '' @ what), f)
                            | Inl e \<Rightarrow> (Inl e, f)
                            | Inr c \<Rightarrow> (Inr c, f))))"

definition getNoAck :: "'j json_ops \<Rightarrow> cmd_factory \<Rightarrow> 'j net_command result" where
  "getNoAck J f =
     (let js = j_set J ''sequence_id'' (j_ofInt J 0) (j_set J ''id'' (j_ofString J ''noack'') (j_null J))
      in bind_result (createNewNetCommand J (defaultNoAck f) js)
           (\<lambda>c. Inr (setAckUserInfo J ''factory default noack'' c)))"

text \<open>\<open>ComControl::setupNormalFactory\<close>: the commands a client may send.\<close>

definition setupNormalFactory :: "cmd_factory \<Rightarrow> cmd_factory result" where
  "setupNormalFactory f =
     bind_result (addNetCommand NCmdAck f) (\<lambda>f.
     bind_result (addNetCommand NCmdNoAck f) (\<lambda>f.
     bind_result (addNetCommand NCmdEcho f) (\<lambda>f.
     bind_result (addNetCommand NCmdSwitchCommandSource f) (\<lambda>f.
     bind_result (addNetCommand NCmdPower f) (\<lambda>f.
     addNetCommand NCmdSystemShutdown f)))))"

end
