(* ===== verification/Registry.thy ===== *)
theory Registry
  imports M2Prelude
begin

text \<open>
  The maps of the program that are filled once, by name, and searched afterwards: the commands
  of the factory, the items of a telemetry message, the states, the configuration values. What
  they have in common is that inserting a name twice is an error and that nothing is replaced.
\<close>

fun insertAll :: "('v \<Rightarrow> 'm \<Rightarrow> 'm result) \<Rightarrow> 'v list \<Rightarrow> 'm \<Rightarrow> 'm result" where
  "insertAll ins [] m = Inr m"
| "insertAll ins (v # vs) m = bind_result (ins v m) (insertAll ins vs)"

lemma insertAll_fun:
  "insertAll ins (v # vs) = (\<lambda>m. bind_result (ins v m) (insertAll ins vs))" "insertAll ins [] = Inr"
  by (rule ext, simp)+

locale registry =
  fixes key :: "'v \<Rightarrow> 'k"
    and ins :: "'v \<Rightarrow> 'm \<Rightarrow> 'm result"
    and look :: "'m \<Rightarrow> 'k \<rightharpoonup> 'v"
  assumes ins_new: "look m (key v) = None \<Longrightarrow> \<exists>m'. ins v m = Inr m' \<and> look m' = (look m)(key v \<mapsto> v)"
    and ins_dup: "look m (key v) = Some u \<Longrightarrow> \<exists>e. ins v m = Inl e"
begin

lemma ins_ok_iff: "(\<exists>m'. ins v m = Inr m') \<longleftrightarrow> look m (key v) = None"
  using ins_new [of m v] ins_dup [of m v] by (cases "look m (key v)") auto

lemma look_ins: "ins v m = Inr m' \<Longrightarrow> look m' = (look m)(key v \<mapsto> v)"
  using ins_new [of m v] ins_dup [of m v] by (cases "look m (key v)") auto

lemma look_kept: "ins v m = Inr m' \<Longrightarrow> look m k = Some u \<Longrightarrow> look m' k = Some u"
  using look_ins [of v m m'] ins_ok_iff [of v m] by auto

lemma ins_twice: "ins v m = Inr m' \<Longrightarrow> \<exists>e. ins v m' = Inl e"
  using look_ins [of v m m'] by (intro ins_dup [of m' v v]) simp

lemma insertAll_ok:
  assumes "distinct (map key vs)" and "\<And>v. v \<in> set vs \<Longrightarrow> look m (key v) = None"
  shows "\<exists>m'. insertAll ins vs m = Inr m' \<and> look m' = look m ++ map_of (map (\<lambda>v. (key v, v)) vs)"
  using assms
proof (induction vs arbitrary: m)
  case Nil
  then show ?case by simp
next
  case (Cons v vs)
  obtain m1 where m1: "ins v m = Inr m1" "look m1 = (look m)(key v \<mapsto> v)"
    using ins_new [of m v] Cons.prems(2) by auto
  have "\<exists>m'. insertAll ins vs m1 = Inr m' \<and> look m' = look m1 ++ map_of (map (\<lambda>v. (key v, v)) vs)"
  proof (rule Cons.IH)
    show "distinct (map key vs)" using Cons.prems(1) by simp
    fix u assume u: "u \<in> set vs"
    then have "key u \<noteq> key v" using Cons.prems(1) by (metis distinct.simps(2) image_eqI list.set_map list.simps(9))
    then show "look m1 (key u) = None" using Cons.prems(2) u m1(2) by simp
  qed
  moreover have "look m1 ++ map_of (map (\<lambda>v. (key v, v)) vs) = look m ++ map_of (map (\<lambda>v. (key v, v)) (v # vs))"
  proof -
    have "key v \<notin> dom (map_of (map (\<lambda>v. (key v, v)) vs))"
      using Cons.prems(1) by (simp add: dom_map_of_conv_image_fst image_image)
    then show ?thesis by (simp add: m1(2) map_add_upd_left)
  qed
  ultimately show ?case using m1(1) by (simp del: list.map map_of.simps)
qed

lemma insertAll_dup: "\<not> distinct (map key vs) \<Longrightarrow> \<exists>e. insertAll ins vs m = Inl e"
proof (induction vs arbitrary: m)
  case Nil
  then show ?case by simp
next
  case (Cons v vs)
  have kept: "\<exists>e. insertAll ins us n = Inl e" if "look n (key v) = Some u" "key v \<in> key ` set us" for us n u
    using that
  proof (induction us arbitrary: n u)
    case Nil
    then show ?case by simp
  next
    case (Cons w us)
    show ?case
    proof (cases "ins w n")
      case (Inl e)
      then show ?thesis by simp
    next
      case (Inr n')
      then have "key w \<noteq> key v" using ins_ok_iff [of w n] Cons.prems(1) by auto
      then show ?thesis using Cons.IH [OF look_kept [OF Inr Cons.prems(1)]] Cons.prems(2) Inr by auto
    qed
  qed
  show ?case
  proof (cases "ins v m")
    case (Inl e)
    then show ?thesis by simp
  next
    case (Inr m')
    show ?thesis
    proof (cases "distinct (map key vs)")
      case True
      then have "key v \<in> key ` set vs" using Cons.prems by simp
      then show ?thesis using kept [of m' v vs] look_ins [OF Inr] Inr by auto
    next
      case False
      then show ?thesis using Cons.IH [OF False, of m'] Inr by simp
    qed
  qed
qed

end

end
