(* ===== verification/ComControl.thy ===== *)
theory ComControl
  imports NetCommand Registry
begin

text \<open>
  \<open>system/ComControl\<close> and the part of \<open>system/ComConnection\<close> above the sockets: a message is
  interpreted and acknowledged, its command runs on a thread of its own and writes a response.
  All connections share one factory. The actions of the commands are here, because they reach
  the whole system.
\<close>

section \<open>The factory as a registry\<close>

interpretation cmds: registry getCommandName addNetCommand cmdMap
  by unfold_locales (auto simp: addNetCommand_def Let_def)

definition normalCommands :: "net_cmd_class list" where
  "normalCommands = [NCmdAck, NCmdNoAck, NCmdEcho, NCmdSwitchCommandSource, NCmdPower, NCmdSystemShutdown]"

lemma bind_result_Inr_right: "bind_result r Inr = r"
  by (cases r) simp_all

lemma setupNormalFactory_insertAll: "setupNormalFactory f = insertAll addNetCommand normalCommands f"
  by (simp add: setupNormalFactory_def normalCommands_def bind_result_Inr_right insertAll_fun)

lemma getCommandName_inj: "getCommandName a = getCommandName b \<longleftrightarrow> a = b"
  by (cases a; cases b) simp_all

lemma setupNormalFactory_ok:
  "\<exists>f. setupNormalFactory mkFactory = Inr f \<and> prevSeqId f = 0 \<and> defaultNoAck f = NCmdNoAck \<and>
     (\<forall>s c. cmdMap f s = Some c \<longleftrightarrow> s = getCommandName c)"
proof -
  have "\<exists>f. setupNormalFactory mkFactory = Inr f"
    by (simp add: setupNormalFactory_def mkFactory_def addNetCommand_def Let_def)
  then obtain f where f: "setupNormalFactory mkFactory = Inr f" by blast
  then have "cmdMap f = cmdMap mkFactory ++ map_of (map (\<lambda>v. (getCommandName v, v)) normalCommands)"
    using cmds.insertAll_ok [of normalCommands mkFactory]
    by (simp add: setupNormalFactory_insertAll normalCommands_def mkFactory_def)
  then have "cmdMap f s = Some c \<longleftrightarrow> s = getCommandName c" for s c
    by (cases c) (auto simp: mkFactory_def normalCommands_def)
  moreover have "prevSeqId f = 0 \<and> defaultNoAck f = NCmdNoAck"
    using f by (auto simp: setupNormalFactory_def mkFactory_def addNetCommand_def Let_def)
  ultimately show ?thesis using f by blast
qed

section \<open>Clients\<close>

text \<open>
  The state around the system: the factory, the two flags of \<open>Globals\<close> that a client can change,
  what was handed to \<open>asyncWrite\<close> with the receivers, in order, the commands whose threads have
  not run yet, and the number of detached threads that will call \<open>systemShutdown\<close>. The messages
  about the state of the power subsystems are in \<open>outbox\<close> of the system.
\<close>

record 'j client_world =
  cw :: world
  factory :: cmd_factory
  commandSourceIsRemote :: bool
  commandableByDds :: bool
  written :: "(nat list \<times> 'j) list"
  pending :: "(nat \<times> 'j net_command) list"
  shutdownThreads :: nat

definition mkClientWorld :: "world \<Rightarrow> cmd_factory \<Rightarrow> 'j client_world" where
  "mkClientWorld w f = \<lparr> cw = w, factory = f, commandSourceIsRemote = False, commandableByDds = True,
     written = [], pending = [], shutdownThreads = 0 \<rparr>"

definition setCommandSourceIsRemote :: "bool \<Rightarrow> 'j client_world \<Rightarrow> bool \<times> 'j client_world" where
  "setCommandSourceIsRemote b st = (True, st \<lparr> commandSourceIsRemote := b, commandableByDds := b \<rparr>)"

definition getCommandableByDdsJson :: "'j json_ops \<Rightarrow> 'j client_world \<Rightarrow> 'j" where
  "getCommandableByDdsJson J st =
     j_set J ''state'' (j_ofBool J (commandableByDds st))
       (j_set J ''id'' (j_ofString J ''commandableByDDS'') (j_null J))"

definition writeTo :: "nat list \<Rightarrow> 'j \<Rightarrow> 'j client_world \<Rightarrow> 'j client_world" where
  "writeTo cs js st = st \<lparr> written := written st @ [(cs, js)] \<rparr>"

definition writeToAll :: "'j \<Rightarrow> 'j client_world \<Rightarrow> 'j client_world" where
  "writeToAll js st = (if serverAlive (cw st) then writeTo (connections (cw st)) js st else st)"

text \<open>\<open>PowerSubsystem::getPowerSystemStateJson\<close>, as the record of the broadcast messages.\<close>

definition getPowerSystemStateJson :: "PowerSystemType \<Rightarrow> world \<Rightarrow> ps_msg" where
  "getPowerSystemStateJson t w = \<lparr>
     msg_id = ''powerSystemState'', msg_powerType = powerSystemTypeVal t,
     msg_state = powerStateVal (actual (getSub t w)), msg_status = (targ (getSub t w) = ON),
     msg_user_info = None, msg_to = [] \<rparr>"

text \<open>The actions. A factory version has no action of its own.\<close>

definition switchAction :: "'j json_ops \<Rightarrow> 'j net_command \<Rightarrow> 'j client_world \<Rightarrow> bool \<times> 'j client_world" where
  "switchAction J c st =
     (let (result, st) = setCommandSourceIsRemote (nc_isRemote c) st
      in (result, writeToAll (getCommandableByDdsJson J st) st))"

definition powerAction :: "timepoint \<Rightarrow> 'j net_command \<Rightarrow> 'j client_world \<Rightarrow> bool \<times> 'j client_world" where
  "powerAction now c st =
     (let (result, w) = cmdPower now (nc_powerType c) (nc_status c) (cw st);
          w = broadcast (getPowerSystemStateJson (nc_powerType c) w) w
      in (result, st \<lparr> cw := w \<rparr>))"

definition shutdownAction :: "'j client_world \<Rightarrow> bool \<times> 'j client_world" where
  "shutdownAction st = (True, st \<lparr> shutdownThreads := shutdownThreads st + 1 \<rparr>)"

definition netAction ::
  "'j json_ops \<Rightarrow> timepoint \<Rightarrow> 'j net_command \<Rightarrow> 'j client_world \<Rightarrow> bool \<times> 'j net_command \<times> 'j client_world" where
  "netAction J now c st =
     (case nc_class c of
        NCmdAck \<Rightarrow> (True, c, st)
      | NCmdNoAck \<Rightarrow> (False, c, st)
      | NCmdEcho \<Rightarrow> (True, c \<lparr> respJson := j_set J ''msg'' (j_ofString J (nc_msg c)) (respJson c) \<rparr>, st)
      | NCmdSwitchCommandSource \<Rightarrow> (let (ok, st) = switchAction J c st in (ok, c, st))
      | NCmdPower \<Rightarrow> (let (ok, st) = powerAction now c st in (ok, c, st))
      | NCmdSystemShutdown \<Rightarrow> (let (ok, st) = shutdownAction st in (ok, c, st)))"

definition runNetCommand ::
  "'j json_ops \<Rightarrow> timepoint \<Rightarrow> 'j net_command \<Rightarrow> 'j client_world \<Rightarrow> bool \<times> 'j net_command \<times> 'j client_world" where
  "runNetCommand J now c st =
     (let (result, c, st) = netAction J now c st
      in (result, c \<lparr> respJson := j_set J ''id'' (j_ofString J (if result then ''success'' else ''fail'')) (respJson c) \<rparr>, st))"

section \<open>Messages\<close>

text \<open>
  \<open>interpretCommand\<close>: the acknowledgement and the command. It catches \<open>NetCommandException\<close>
  and no other; what it does not catch is the \<open>Inl\<close> of the result.
\<close>

definition interpretCommand ::
  "'j json_ops \<Rightarrow> string \<Rightarrow> cmd_factory \<Rightarrow> ('j \<times> 'j net_command) result \<times> cmd_factory" where
  "interpretCommand J msg f =
     (let (r, f) = getCommandFor J msg f;
          r = (case r of Inl (NetCommandException _) \<Rightarrow> getNoAck J f | _ \<Rightarrow> r)
      in (bind_result r (\<lambda>c. Inr (ackJson c, c)), f))"

text \<open>
  \<open>_readCommand\<close>: the acknowledgement is written first, then the thread of the command starts.
  An exception would end the program's i/o thread; the step then changes nothing but the factory.
\<close>

definition readCommand :: "'j json_ops \<Rightarrow> nat \<Rightarrow> string \<Rightarrow> 'j client_world \<Rightarrow> 'j client_world" where
  "readCommand J connId msg st =
     (let (r, f) = interpretCommand J msg (factory st);
          st = st \<lparr> factory := f \<rparr>
      in case r of
           Inl _ \<Rightarrow> st
         | Inr (ack, c) \<Rightarrow> (let st = writeTo [connId] ack st in st \<lparr> pending := pending st @ [(connId, c)] \<rparr>))"

text \<open>The function that \<open>interpretCommand\<close> puts into the command, on the \<open>i\<close>-th waiting thread.\<close>

definition runPending :: "'j json_ops \<Rightarrow> timepoint \<Rightarrow> nat \<Rightarrow> 'j client_world \<Rightarrow> 'j client_world" where
  "runPending J now i st =
     (if i < length (pending st)
      then
        let (connId, c) = pending st ! i;
            st = st \<lparr> pending := take i (pending st) @ drop (Suc i) (pending st) \<rparr>;
            (_, c, st) = runNetCommand J now c st
        in writeTo [connId] (respJson c) st
      else st)"

text \<open>The steps: a message arrives, a waiting command runs, a shutdown thread wakes up, or the
  system itself makes one of its steps.\<close>

datatype client_event =
    Receive nat string
  | RunCommand timepoint nat
  | ShutdownThread timepoint
  | SystemEvent event

definition shutdownThread :: "timepoint \<Rightarrow> 'j client_world \<Rightarrow> 'j client_world" where
  "shutdownThread now st =
     (if shutdownThreads st = 0 then st
      else st \<lparr> shutdownThreads := shutdownThreads st - 1, cw := systemShutdown now (cw st) \<rparr>)"

fun clientStep :: "'j json_ops \<Rightarrow> client_event \<Rightarrow> 'j client_world \<Rightarrow> 'j client_world" where
  "clientStep J (Receive connId msg) st = readCommand J connId msg st"
| "clientStep J (RunCommand now i) st = runPending J now i st"
| "clientStep J (ShutdownThread now) st = shutdownThread now st"
| "clientStep J (SystemEvent e) st = st \<lparr> cw := exec e (cw st) \<rparr>"

definition clientRun :: "'j json_ops \<Rightarrow> client_event list \<Rightarrow> 'j client_world \<Rightarrow> 'j client_world" where
  "clientRun J es st = fold (clientStep J) es st"

end
