(* ===== verification/M2Safety.thy ===== *)
theory M2Safety
  imports M2System
begin

text \<open>
  Invariants of the whole system. The threads of the program interleave at the granularity of
  the locks, so the safety of the outputs is shown on a fine relation, \<open>astep\<close>, whose steps are
  the locked sections and arbitrary changes of everything else; each handler is a sequence of
  such steps. The remaining invariants are shown for handlers that run one after the other.
\<close>

section \<open>Locked sections\<close>

definition is_sub :: "PowerSystemType \<Rightarrow> bool" where
  "is_sub t \<longleftrightarrow> t = MOTOR \<or> t = COMM"

lemma is_sub_simps [simp]: "is_sub MOTOR" "is_sub COMM"
  by (simp_all add: is_sub_def)

lemma getSub_putSub: "is_sub t \<Longrightarrow> getSub t (putSub t ps w) = ps"
  by (auto simp: is_sub_def getSub_def putSub_def)

text \<open>\<open>p\<close> says whether turning on is among the steps.\<close>

inductive astep :: "bool \<Rightarrow> world \<Rightarrow> world \<Rightarrow> bool" for p where
  off: "is_sub t \<Longrightarrow> astep p w (subOff now t w)"
| on: "p \<Longrightarrow> is_sub t \<Longrightarrow> astep p w (putCtx t (snd (setPowerOn now f (ctxOf t 0 w))) w)"
| check: "is_sub t \<Longrightarrow> astep p w (putCtx t (processDaqFaultCheck now f info (ctxOf t flts w)) w)"
| remember: "is_sub t \<Longrightarrow> astep p w (putSub t (rememberState (getSub t w)) w)"
| switch: "is_sub t \<Longrightarrow> astep p w (putCtx t (processDaqSwitch now (ctxOf t flts w)) w)"
| emergency: "astep p w (emergencyTurnOffAllPower w)"
| other: "\<lbrakk> motor w' = motor w; comm w' = comm w;
           port_agree (own_bits MOTOR \<union> own_bits COMM) (outPort w) (outPort w') \<rbrakk> \<Longrightarrow> astep p w w'"

definition safe :: "world \<Rightarrow> bool" where
  "safe w \<longleftrightarrow> sub_inv MOTOR (motor w) (outPort w) \<and> sub_inv COMM (comm w) (outPort w)"

lemma full_inv_ctxOf: "safe w \<Longrightarrow> is_sub t \<Longrightarrow> full_inv t (ctxOf t flts w)"
  by (auto simp: safe_def is_sub_def full_inv_sub_inv ctxOf_def getSub_def)

lemma safe_putCtx:
  assumes "safe w" and "is_sub t"
    and "full_inv t c" and "keeps_foreign t (ctxOf t flts w) c"
  shows "safe (putCtx t c w)"
proof -
  have "psub_wf t (sub (ctxOf t flts w))"
    using full_inv_ctxOf [OF assms(1,2)] by (simp add: full_inv_def psub_inv_def)
  then have agree: "port_agree (- own_bits t) (outPort w) (port c)"
    using assms(4) by (simp add: keeps_foreign_def ctxOf_def)
  from assms(2) consider (m) "t = MOTOR" | (c) "t = COMM" by (auto simp: is_sub_def)
  then show ?thesis
  proof cases
    case m
    then show ?thesis
      using assms(1,3) agree motor_comm.foreign_op1
      by (auto simp: safe_def putCtx_def putSub_def full_inv_sub_inv)
  next
    case c
    then show ?thesis
      using assms(1,3) agree motor_comm.foreign_op2
      by (auto simp: safe_def putCtx_def putSub_def full_inv_sub_inv)
  qed
qed

lemma full_inv_wf: "full_inv t c \<Longrightarrow> psub_wf t (sub c)"
  by (simp add: full_inv_def psub_inv_def)

lemma full_inv_setPowerOn:
  assumes "psub_wf t (sub c)"
  shows "full_inv t (snd (setPowerOn now f c))"
  using psub_inv_setPowerOn [OF assms, of now f] assms
  by (auto simp: full_inv_def setPowerOn_def Let_def power_simps turn_inv_def start_inv_def)

lemma astep_safe:
  assumes "astep p w w'" and "safe w"
  shows "safe w'"
  using assms(1)
proof cases
  case (off t now)
  then show ?thesis
    using safe_putCtx [OF assms(2)] full_inv_wf [OF full_inv_ctxOf [OF assms(2)]]
    by (auto simp: subOff_def intro!: safe_putCtx [OF assms(2)] full_inv_setPowerOff kf_setPowerOff kf_refl)
next
  case (on t now f)
  then show ?thesis
    using full_inv_wf [OF full_inv_ctxOf [OF assms(2)]]
    by (auto intro!: safe_putCtx [OF assms(2)] full_inv_setPowerOn kf_setPowerOn)
next
  case (check t now f info flts)
  then show ?thesis
    using full_inv_ctxOf [OF assms(2)]
    by (auto intro!: safe_putCtx [OF assms(2)] processDaqFaultCheck_spec(1) kf_processDaqFaultCheck)
next
  case (remember t)
  then show ?thesis
    using assms(2)
    by (auto simp: is_sub_def safe_def putSub_def getSub_def sub_inv_def
        rememberState_parts(1) [of _ "\<lparr> sub = _, port = _, faults = 0 \<rparr>", simplified])
next
  case (switch t now flts)
  then show ?thesis
    using full_inv_ctxOf [OF assms(2)]
    by (auto intro!: safe_putCtx [OF assms(2)] processDaqSwitch_inv kf_processDaqSwitch)
next
  case emergency
  then show ?thesis using assms(2)
    by (auto simp: safe_def emergencyTurnOffAllPower_def sub_inv_def full_inv_def psub_inv_def bitmap_simps)
next
  case other
  then show ?thesis
    using assms(2) motor_comm.third_party [of "motor w" "outPort w" "comm w" "outPort w'"]
    by (simp add: safe_def)
qed

section \<open>Targets\<close>

text \<open>Only turning on moves a target to ON.\<close>

definition targets_off :: "world \<Rightarrow> bool" where
  "targets_off w \<longleftrightarrow> targ (motor w) = OFF \<and> targ (comm w) = OFF"

lemma targ_putCtx:
  "is_sub t \<Longrightarrow> targ (getSub u (putCtx t c w)) = (if u = MOTOR \<longleftrightarrow> t = MOTOR then targ (sub c) else targ (getSub u w))"
  by (auto simp: is_sub_def putCtx_def putSub_def getSub_def)

lemma targets_off_iff: "targets_off w \<longleftrightarrow> (\<forall>t. targ (getSub t w) = OFF)"
  by (auto simp: targets_off_def getSub_def)

lemma processDaqSwitch_off: "full_inv t c \<Longrightarrow> targ (sub c) = OFF \<Longrightarrow> targ (sub (processDaqSwitch now c)) = OFF"
  using processPowerOff_spec(1) [of t c now] by (simp add: processDaqSwitch_def)

lemma quiet_putCtx:
  assumes "is_sub t" and "targ (getSub t w) = OFF \<Longrightarrow> targ (sub c) = OFF" and "targ (getSub u w) = OFF"
  shows "targ (getSub u (putCtx t c w)) = OFF"
proof (cases "u = MOTOR \<longleftrightarrow> t = MOTOR")
  case True
  then have "getSub u w = getSub t w" by (auto simp: getSub_def)
  with True assms show ?thesis by (simp add: targ_putCtx)
next
  case False
  with assms show ?thesis by (simp add: targ_putCtx)
qed

lemma targ_ctxOf: "targ (sub (ctxOf t flts w)) = targ (getSub t w)"
  by (simp add: ctxOf_def)

lemma astep_quiet:
  assumes "astep False w w'" and "safe w" and "targ (getSub u w) = OFF"
  shows "targ (getSub u w') = OFF"
  using assms(1)
proof cases
  case (off t now)
  then show ?thesis using assms(3) by (simp add: subOff_def targ_putCtx power_simps)
next
  case (check t now f info flts)
  then show ?thesis
    using processDaqFaultCheck_spec(5) [OF full_inv_ctxOf [OF assms(2)], of t now f info flts]
    by (auto simp: targ_ctxOf intro!: quiet_putCtx assms(3))
next
  case (remember t)
  then show ?thesis using assms(3) by (auto simp: getSub_def putSub_def power_simps)
next
  case (switch t now flts)
  then show ?thesis
    using processDaqSwitch_off [OF full_inv_ctxOf [OF assms(2)], of t flts now]
    by (auto simp: targ_ctxOf intro!: quiet_putCtx assms(3))
next
  case emergency
  then show ?thesis using assms(3) by (auto simp: emergencyTurnOffAllPower_def getSub_def split: if_splits)
next
  case other
  then show ?thesis using assms(3) by (auto simp: getSub_def split: if_splits)
qed simp

section \<open>Handlers are sequences of locked sections\<close>

abbreviation steps :: "bool \<Rightarrow> world \<Rightarrow> world \<Rightarrow> bool" where
  "steps p \<equiv> (astep p)\<^sup>*\<^sup>*"

lemma steps_safe: "steps p w w' \<Longrightarrow> safe w \<Longrightarrow> safe w'"
  by (induction rule: rtranclp_induct) (auto intro: astep_safe)

lemma steps_quiet:
  assumes "steps False w w'" and "safe w" and "targ (getSub u w) = OFF"
  shows "targ (getSub u w') = OFF"
  using assms
proof (induction rule: rtranclp_induct)
  case (step y z)
  then show ?case using astep_quiet steps_safe by blast
qed

lemma steps_targets_off: "steps False w w' \<Longrightarrow> safe w \<Longrightarrow> targets_off w \<Longrightarrow> targets_off w'"
  unfolding targets_off_iff using steps_quiet by blast

lemma steps_other: "\<lbrakk> steps p w v; motor w' = motor v; comm w' = comm v; outPort w' = outPort v \<rbrakk> \<Longrightarrow> steps p w w'"
  by (erule rtranclp.rtrancl_into_rtrancl) (auto intro: astep.other)

text \<open>Changes of the other parts of the world.\<close>

lemma steps_fields:
  assumes "steps p w v"
  shows "steps p w (v \<lparr> wfm := f \<rparr>)" "steps p w (v \<lparr> smap := sm \<rparr>)" "steps p w (v \<lparr> outbox := ms \<rparr>)"
    "steps p w (v \<lparr> daqReadTime := d \<rparr>)" "steps p w (v \<lparr> motorStatusPrev := a, commStatusPrev := b \<rparr>)"
    "steps p w (v \<lparr> tcpCount := n \<rparr>)" "steps p w (v \<lparr> connections := cs \<rparr>)"
    "steps p w (v \<lparr> fpgaInfo := i \<rparr>)" "steps p w (v \<lparr> fpgaLoop := l \<rparr>)"
    "steps p w (v \<lparr> engine := e \<rparr>)" "steps p w (v \<lparr> setupFinished := l \<rparr>)"
    "steps p w (v \<lparr> srvShutdown := l \<rparr>)" "steps p w (v \<lparr> srvState := st, serverAlive := l \<rparr>)"
    "steps p w (v \<lparr> srvState := st \<rparr>)"
  by (rule steps_other [OF assms]; simp)+

lemma steps_off: "steps p w v \<Longrightarrow> is_sub t \<Longrightarrow> steps p w (subOff now t v)"
  by (erule rtranclp.rtrancl_into_rtrancl) (rule astep.off)

lemma steps_on: "steps p w v \<Longrightarrow> p \<Longrightarrow> is_sub t \<Longrightarrow> steps p w (snd (subOn now t v))"
  by (erule rtranclp.rtrancl_into_rtrancl)
     (auto simp: subOn_def case_prod_beta intro: astep.on)

lemma steps_turnOffAll: "steps p w v \<Longrightarrow> steps p w (turnOffAll now v)"
  by (simp add: turnOffAll_def steps_off)

lemma steps_enterCurrent: "steps p w v \<Longrightarrow> steps p w (enterCurrent now r v)"
  by (simp add: enterCurrent_def steps_turnOffAll)

lemma steps_applyChange: "steps p w v \<Longrightarrow> steps p w (snd (applyChange now r v))"
  by (simp add: applyChange_def case_prod_beta steps_enterCurrent steps_fields)

lemma steps_modelChangeState:
  "steps p w v \<Longrightarrow> steps p w (snd (modelChangeState now s v))"
  "steps p w v \<Longrightarrow> steps p w (snd (modelChangeStateEnum now e v))"
  by (simp_all add: modelChangeState_def modelChangeStateEnum_def steps_applyChange)

lemma steps_goToSafeMode: "steps p w v \<Longrightarrow> steps p w (snd (goToSafeMode now v))"
  by (simp add: goToSafeMode_def Let_def steps_applyChange steps_turnOffAll)

lemma steps_report: "steps p w v \<Longrightarrow> steps p w (reportPowerSystemStateChange now t a b v)"
  by (simp add: reportPowerSystemStateChange_def broadcast_def reportSwitch_def Let_def
      steps_modelChangeState steps_turnOffAll steps_fields)

lemma steps_updatePowerFaults: "steps p w v \<Longrightarrow> steps p w (updatePowerFaults now cf s v)"
  by (simp add: updatePowerFaults_def Let_def case_prod_beta steps_goToSafeMode steps_fields)

lemma steps_reportComConnectionCount: "steps p w v \<Longrightarrow> steps p w (reportComConnectionCount now n v)"
  by (simp add: reportComConnectionCount_def Let_def case_prod_beta steps_goToSafeMode steps_fields)

lemma steps_check:
  "steps p w v \<Longrightarrow> is_sub t \<Longrightarrow> steps p w (putCtx t (processDaqFaultCheck now f info (ctxOf t flts v)) v)"
  by (erule rtranclp.rtrancl_into_rtrancl) (rule astep.check)

lemma steps_remember:
  "steps p w v \<Longrightarrow> is_sub t \<Longrightarrow> steps p w (putSub t (rememberState (getSub t v)) v)"
  by (erule rtranclp.rtrancl_into_rtrancl) (rule astep.remember)

lemma steps_switch:
  "steps p w v \<Longrightarrow> is_sub t \<Longrightarrow> steps p w (putCtx t (processDaqSwitch now (ctxOf t flts v)) v)"
  by (erule rtranclp.rtrancl_into_rtrancl) (rule astep.switch)

lemma steps_subProcessDaq:
  assumes "steps p w v" and "is_sub t"
  shows "steps p w (snd (snd (subProcessDaq now t info flts v)))"
  unfolding subProcessDaq_def Let_def
  using assms by (simp add: steps_check steps_remember steps_switch steps_report)

lemma steps_processDaq:
  assumes "steps p w v"
  shows "steps p w (processDaq now info v)"
proof -
  let ?f = "processDaqHealthTelemetry (boostCurrentFaultEnabled v) info 0"
  define a where "a = (if ?f \<noteq> 0 then updatePowerFaults now ?f POWER_SUBSYSTEM v else v)"
  define b where "b = (if out_bit_on (si_outputPort info) MOTOR_POWER_ON \<and>
                  \<not> out_bit_on (si_outputPort info) ILC_COMM_POWER_ON
               then subOff now MOTOR a else a)"
  define m where "m = subProcessDaq now MOTOR info ?f b"
  define c where "c = subProcessDaq now COMM info (fst (snd m)) (snd (snd m))"
  have ab: "steps p w b" using assms by (simp add: a_def b_def steps_updatePowerFaults steps_off)
  have c: "steps p w (updatePowerFaults now (fst (snd c)) POWER_SUBSYSTEM (snd (snd c)))"
    unfolding c_def m_def by (intro steps_updatePowerFaults steps_subProcessDaq ab) simp_all
  show ?thesis
    unfolding processDaq_def Let_def a_def [symmetric]
    unfolding b_def [symmetric] case_prod_beta m_def [symmetric]
    unfolding c_def [symmetric]
    using c by (simp add: steps_fields)
qed

lemma steps_checkTimeout: "steps p w v \<Longrightarrow> steps p w (snd (checkTimeout now d v))"
  by (simp add: checkTimeout_def Let_def steps_updatePowerFaults steps_off)

lemma steps_daq:
  "steps p w v \<Longrightarrow> steps p w (daqInfoRead now v)" "steps p w v \<Longrightarrow> steps p w (daqTimeoutCheck now v)"
  by (simp_all add: daqInfoRead_def daqTimeoutCheck_def Let_def case_prod_beta
      steps_processDaq steps_checkTimeout steps_fields)

lemma steps_setTcpIpConnected: "steps p w v \<Longrightarrow> steps p w (setTcpIpConnected now b v)"
  by (simp add: setTcpIpConnected_def Let_def steps_modelChangeState steps_fields)

lemma steps_handleAccept: "steps p w v \<Longrightarrow> steps p w (handleAccept now i b v)"
  by (simp add: handleAccept_def Let_def steps_setTcpIpConnected steps_reportComConnectionCount steps_fields)

lemma steps_connectionShutdown: "steps p w v \<Longrightarrow> steps p w (connectionShutdown now i b v)"
  by (simp add: connectionShutdown_def eraseConnection_def eraseFromMap_def Let_def
      steps_setTcpIpConnected steps_reportComConnectionCount steps_fields)

lemma steps_systemShutdown: "steps p w v \<Longrightarrow> steps p w (systemShutdown now v)"
  by (simp add: systemShutdown_def Let_def steps_modelChangeState steps_turnOffAll steps_fields)

lemma steps_cmdPower: "steps p w v \<Longrightarrow> (on \<longrightarrow> p) \<Longrightarrow> steps p w (snd (cmdPower now t on v))"
  by (cases t) (auto simp: cmdPower_def cmdPowerBase_def powerMotor_def powerComm_def Let_def
      steps_off steps_on)

lemma steps_emergency: "steps p w v \<Longrightarrow> steps p w (emergencyTurnOffAllPower v)"
  by (erule rtranclp.rtrancl_into_rtrancl) (rule astep.emergency)

lemma steps_ReadFpga: "steps p w v \<Longrightarrow> steps p w (exec (ReadFpga reg hw) v)"
  by (simp add: readWriteFpga_def Let_def or_else_def steps_fields steps_emergency)

lemma steps_interlock: "steps p w v \<Longrightarrow> steps p w (writeCrioInterlockEnable b v)"
  by (erule rtranclp.rtrancl_into_rtrancl)
     (auto simp: writeCrioInterlockEnable_def own_bits_def port_agree_def bitmap_simps intro!: astep.other)

text \<open>Every event is a sequence of locked sections, and only a command to turn on turns on.\<close>

definition turnsOn :: "event \<Rightarrow> bool" where
  "turnsOn e = (case e of CmdPower now t on \<Rightarrow> on | _ \<Rightarrow> False)"

lemma steps_exec: "steps (turnsOn e) w (exec e w)"
proof (cases e)
  case (CtrlStart now)
  then show ?thesis
    by (simp add: ctrlStart_def Let_def steps_modelChangeState steps_fields split: prod.split sum.split)
qed (simp_all add: turnsOn_def steps_daq steps_cmdPower steps_modelChangeState steps_handleAccept
    steps_connectionShutdown steps_interlock steps_fields steps_systemShutdown steps_ReadFpga
    comTimeoutCheck_def engineCheckTimeout_def ctrlSetup_def ctrlStop_def ctrlJoin_def
    del: exec.simps(1))

lemma exec_safe: "safe w \<Longrightarrow> safe (exec e w)"
  using steps_safe [OF steps_exec] .

lemma exec_quiet: "\<not> turnsOn e \<Longrightarrow> safe w \<Longrightarrow> targ (getSub u w) = OFF \<Longrightarrow> targ (getSub u (exec e w)) = OFF"
  using steps_quiet [of w "exec e w" u] steps_exec [of e w] by simp

section \<open>The initial state\<close>

lemma mkPowerSubsystem_inv:
  assumes "mkPowerSubsystem now si0 t p = Inr (ps, q)"
  shows "sub_inv t ps q" "targ ps = OFF" "port_agree (- own_bits t) p q" "is_sub t"
proof -
  have "t = MOTOR \<or> t = COMM" using assms
    by (cases t) (auto simp: mkPowerSubsystem_def mkPowerSubsystemConfig_eq)
  then show "sub_inv t ps q" "targ ps = OFF" "port_agree (- own_bits t) p q" "is_sub t"
    using assms
    by (auto simp: mkPowerSubsystem_def mkPowerSubsystemConfig_eq Let_def sub_inv_def full_inv_def
        psub_inv_def psub_wf_def turn_inv_def start_inv_def power_simps bitmap_simps configOf_values
        own_bits_def port_agree_def)
qed

lemma mkWorld_parts:
  assumes "mkWorld now si0 = Inr w"
  shows "safe w" "targets_off w" "sm_ok (smap w)" "currentState (smap w) = STARTUPSTATE"
    "wfm w = mkFaultMgr now" "connections w = []" "tcpCount w = 0" "outbox w = []"
    "\<not> out_bit_on (outPort w) CRIO_INTERLOCK_ENABLE"
    "si_outputPort (fpgaInfo w) = 0" "sysInfo (motor w) = fpgaInfo w"
proof -
  obtain sm where sm: "mkStateMap = Inr sm" "sm_ok sm" "currentState sm = STARTUPSTATE"
    using mkStateMap_ok by blast
  obtain m p c q where m: "mkPowerSubsystem now si0 MOTOR 0 = Inr (m, p)"
    and c: "mkPowerSubsystem now si0 COMM p = Inr (c, q)"
    by (simp add: mkPowerSubsystem_def mkPowerSubsystemConfig_eq Let_def)
  note im = mkPowerSubsystem_inv [OF m] and ic = mkPowerSubsystem_inv [OF c]
  have parts: "motor w = m" "comm w = c" "outPort w = q" "smap w = sm"
    using assms by (auto simp: mkWorld_def sm(1) m c)
  show "safe w" unfolding safe_def parts
    using im(1) ic(1,3) motor_comm.foreign_op2 by blast
  show "targets_off w" using im(2) ic(2) by (simp add: targets_off_def parts)
  show "sm_ok (smap w)" "currentState (smap w) = STARTUPSTATE" using sm parts by simp_all
  show "wfm w = mkFaultMgr now" "connections w = []" "tcpCount w = 0" "outbox w = []"
    using assms by (auto simp: mkWorld_def sm(1) m c)
  have "\<not> out_bit_on p CRIO_INTERLOCK_ENABLE" using im(3) by (auto simp: port_agree_def own_bits_def)
  then show "\<not> out_bit_on (outPort w) CRIO_INTERLOCK_ENABLE"
    using ic(3) by (auto simp: port_agree_def own_bits_def parts)
  show "si_outputPort (fpgaInfo w) = 0" "sysInfo (motor w) = fpgaInfo w"
    using assms m
    by (auto simp: mkWorld_def sm(1) m c mkPowerSubsystem_def mkPowerSubsystemConfig_eq Let_def power_simps)
qed

lemma mkWorld_defined: "\<exists>w. mkWorld now si0 = Inr w"
proof -
  obtain sm where sm: "mkStateMap = Inr sm" using mkStateMap_ok by blast
  show ?thesis by (simp add: sm mkWorld_def mkPowerSubsystem_def mkPowerSubsystemConfig_eq Let_def)
qed

section \<open>The invariant of the sequential system\<close>

text \<open>
  Power targets are OFF while the system is starting up or offline, and while no connection
  exists.
\<close>

definition must_be_off :: "world \<Rightarrow> bool" where
  "must_be_off w \<longleftrightarrow> commConnectionFault (wfm w) \<or> currentState (smap w) \<in> {STARTUPSTATE, OFFLINESTATE}"

definition sys_inv :: "world \<Rightarrow> bool" where
  "sys_inv w \<longleftrightarrow>
     safe w \<and> sm_ok (smap w) \<and> bfm_ok (powerFaultMgr (wfm w)) \<and> (must_be_off w \<longrightarrow> targets_off w)"

text \<open>\<open>kept b cs w\<close>: the invariant, with the connection fault and the connections pinned.\<close>

definition kept :: "bool \<Rightarrow> nat list \<Rightarrow> world \<Rightarrow> bool" where
  "kept b cs w \<longleftrightarrow> sys_inv w \<and> commConnectionFault (wfm w) = b \<and> connections w = cs"

lemma putCtx_frame [simp]:
  "wfm (putCtx t c w) = wfm w" "smap (putCtx t c w) = smap w" "connections (putCtx t c w) = connections w"
  "setupFinished (putCtx t c w) = setupFinished w" "serverAlive (putCtx t c w) = serverAlive w"
  "outbox (putCtx t c w) = outbox w" "fpgaInfo (putCtx t c w) = fpgaInfo w"
  "daqReadTime (putCtx t c w) = daqReadTime w"
  by (simp_all add: putCtx_def putSub_def)

lemma putSub_frame [simp]:
  "wfm (putSub t c w) = wfm w" "smap (putSub t c w) = smap w" "connections (putSub t c w) = connections w"
  by (simp_all add: putSub_def)

lemma subOff_frame [simp]:
  "wfm (subOff now t w) = wfm w" "smap (subOff now t w) = smap w" "connections (subOff now t w) = connections w"
  "setupFinished (subOff now t w) = setupFinished w" "serverAlive (subOff now t w) = serverAlive w"
  "outbox (subOff now t w) = outbox w" "fpgaInfo (subOff now t w) = fpgaInfo w"
  "daqReadTime (subOff now t w) = daqReadTime w"
  by (simp_all add: subOff_def)

lemma targ_subOff: "targ (getSub u (subOff now t w)) = (if u = MOTOR \<longleftrightarrow> t = MOTOR then OFF else targ (getSub u w))"
  by (auto simp: subOff_def putCtx_def putSub_def getSub_def ctxOf_def power_simps)

lemma turnOffAll_frame [simp]:
  "wfm (turnOffAll now w) = wfm w" "smap (turnOffAll now w) = smap w"
  "connections (turnOffAll now w) = connections w" "setupFinished (turnOffAll now w) = setupFinished w"
  "serverAlive (turnOffAll now w) = serverAlive w" "outbox (turnOffAll now w) = outbox w"
  "fpgaInfo (turnOffAll now w) = fpgaInfo w"
  by (simp_all add: turnOffAll_def)

lemma turnOffAll_off: "targets_off (turnOffAll now w)"
  using targ_subOff [of MOTOR now COMM "subOff now MOTOR w"] targ_subOff [of COMM now COMM "subOff now MOTOR w"]
    targ_subOff [of MOTOR now MOTOR w]
  by (simp add: targets_off_def turnOffAll_def getSub_def)

lemma enterCurrent_frame [simp]:
  "wfm (enterCurrent now r w) = wfm w" "smap (enterCurrent now r w) = smap w"
  "connections (enterCurrent now r w) = connections w"
  "serverAlive (enterCurrent now r w) = serverAlive w" "outbox (enterCurrent now r w) = outbox w"
  by (simp_all add: enterCurrent_def)

lemma applyChange_frame [simp]:
  "wfm (snd (applyChange now r w)) = wfm w" "connections (snd (applyChange now r w)) = connections w"
  "smap (snd (applyChange now r w)) = fst (snd r)" "fst (applyChange now r w) = fst r"
  "serverAlive (snd (applyChange now r w)) = serverAlive w" "outbox (snd (applyChange now r w)) = outbox w"
  by (simp_all add: applyChange_def case_prod_beta)

text \<open>A step of the fine relation that leaves the state map and the fault manager alone.\<close>

lemma kept_steps:
  assumes "kept b cs w" and "steps False w w'"
    and "wfm w' = wfm w" and "smap w' = smap w" and "connections w' = connections w"
  shows "kept b cs w'"
  using assms steps_safe [OF assms(2)] steps_targets_off [OF assms(2)]
  by (auto simp: kept_def sys_inv_def must_be_off_def)

lemma kept_subOff: "kept b cs w \<Longrightarrow> is_sub t \<Longrightarrow> kept b cs (subOff now t w)"
  by (erule kept_steps) (simp_all add: steps_off)

lemma kept_turnOffAll: "kept b cs w \<Longrightarrow> kept b cs (turnOffAll now w)"
  by (erule kept_steps) (simp_all add: steps_turnOffAll)

lemma sys_inv_change:
  fixes f :: bool and s :: StateEnum
  assumes inv: "sys_inv w"
  defines "r \<equiv> changeStateBody f (Some s) (smap w)"
  shows "sys_inv (snd (applyChange now r w))"
proof -
  have w: "safe w" "sm_ok (smap w)" "bfm_ok (powerFaultMgr (wfm w))" "must_be_off w \<Longrightarrow> targets_off w"
    using inv by (simp_all add: sys_inv_def)
  define w' where "w' = snd (applyChange now r w)"
  have steps: "steps False w w'" unfolding w'_def by (simp add: steps_applyChange)
  have "targets_off w'" if off: "must_be_off w'"
  proof (cases "allowed f (currentState (smap w)) s")
    case True
    then have r: "r = (True, smap w \<lparr> currentState := s \<rparr>, True)"
      by (simp add: r_def changeStateBody_allowed [OF w(2)])
    show ?thesis
    proof (cases "enterTurnsOff s")
      case True
      then show ?thesis by (simp add: w'_def applyChange_def r enterCurrent_def turnOffAll_off)
    next
      case False
      then have "commConnectionFault (wfm w)"
        using off by (cases s) (simp_all add: must_be_off_def w'_def r)
      then have "must_be_off w" by (simp add: must_be_off_def)
      then show ?thesis using steps_targets_off [OF steps w(1)] w(4) by blast
    qed
  next
    case False
    then have "r = (False, smap w, False)" by (simp add: r_def changeStateBody_allowed [OF w(2)])
    then have "must_be_off w" using off by (simp add: must_be_off_def w'_def)
    then show ?thesis using steps_targets_off [OF steps w(1)] w(4) by blast
  qed
  moreover have "sm_ok (smap w')"
    using w(2) by (simp add: w'_def r_def changeStateBody_allowed [OF w(2)]) (simp add: sm_ok_def)
  ultimately show ?thesis
    using steps_safe [OF steps w(1)] w(3) by (simp add: sys_inv_def w'_def)
qed

lemma kept_change:
  "kept b cs w \<Longrightarrow> kept b cs (snd (modelChangeStateEnum now s w))"
  "kept b cs w \<Longrightarrow> kept b cs (snd (modelChangeState now (getState s (smap w)) w))"
  using sys_inv_change [of w now _ s]
  by (simp_all add: kept_def modelChangeStateEnum_def modelChangeState_def sys_inv_def changeState_entry)

lemma goToSafeMode_inv:
  assumes "safe w" and "sm_ok (smap w)" and "bfm_ok (powerFaultMgr (wfm w))"
  shows "sys_inv (snd (goToSafeMode now w))" "targets_off (snd (goToSafeMode now w))"
    "wfm (snd (goToSafeMode now w)) = wfm w" "connections (snd (goToSafeMode now w)) = connections w"
    "smap (snd (goToSafeMode now w)) = fst (snd (goToASafeState (setupFinished w) STANDBYSTATE (smap w)))"
proof -
  let ?w = "snd (goToSafeMode now w)"
  have steps: "steps False (turnOffAll now w) ?w"
    by (simp add: goToSafeMode_def Let_def steps_applyChange)
  have "safe (turnOffAll now w)" by (rule steps_safe [OF _ assms(1), of False]) (simp add: steps_turnOffAll)
  then show off: "targets_off ?w" using steps_targets_off [OF steps] turnOffAll_off by blast
  show fr: "wfm ?w = wfm w" "connections ?w = connections w"
    "smap ?w = fst (snd (goToASafeState (setupFinished w) STANDBYSTATE (smap w)))"
    by (simp_all add: goToSafeMode_def Let_def)
  have "safe ?w" by (rule steps_safe [OF _ assms(1), of False]) (simp add: steps_goToSafeMode)
  moreover have "sm_ok (smap ?w)" using assms(2)
    by (simp add: fr goToASafeState_standby) (simp add: sm_ok_def)
  ultimately show "sys_inv ?w" using off assms(3) by (simp add: sys_inv_def fr)
qed

lemma kept_goToSafeMode: "kept b cs w \<Longrightarrow> kept b cs (snd (goToSafeMode now w))"
  using goToSafeMode_inv [of w now] by (simp add: kept_def sys_inv_def)

lemma kept_report: "kept b cs w \<Longrightarrow> kept b cs (reportPowerSystemStateChange now t x y w)"
proof -
  assume k: "kept b cs w"
  have "kept b cs (reportSwitch now w)"
    using k by (auto simp: reportSwitch_def Let_def intro: kept_turnOffAll kept_change(1))
  then show ?thesis
    unfolding reportPowerSystemStateChange_def broadcast_def
    by (auto simp: kept_def sys_inv_def safe_def must_be_off_def targets_off_def)
qed

lemma kept_fields:
  assumes "kept b cs w"
  shows "kept b cs (w \<lparr> daqReadTime := d \<rparr>)" "kept b cs (w \<lparr> motorStatusPrev := x, commStatusPrev := y \<rparr>)"
    "kept b cs (w \<lparr> tcpCount := n \<rparr>)" "kept b cs (w \<lparr> fpgaInfo := i \<rparr>)" "kept b cs (w \<lparr> fpgaLoop := l \<rparr>)"
    "kept b cs (w \<lparr> engine := e \<rparr>)" "kept b cs (w \<lparr> setupFinished := l \<rparr>)"
    "kept b cs (w \<lparr> srvShutdown := l \<rparr>)" "kept b cs (w \<lparr> srvState := st, serverAlive := l \<rparr>)"
    "kept b cs (w \<lparr> srvState := st \<rparr>)"
  using assms by (auto simp: kept_def sys_inv_def safe_def must_be_off_def targets_off_def)

lemma kept_wfm:
  assumes "kept b cs w" and "bfm_ok (powerFaultMgr f)" and "commConnectionFault f = b"
  shows "kept b cs (w \<lparr> wfm := f \<rparr>)"
  using assms by (auto simp: kept_def sys_inv_def safe_def must_be_off_def targets_off_def)

lemma kept_bfm: "kept b cs w \<Longrightarrow> bfm_ok (powerFaultMgr (wfm w)) \<and> commConnectionFault (wfm w) = b"
  by (simp add: kept_def sys_inv_def)

lemma kept_updatePowerFaults: "kept b cs w \<Longrightarrow> kept b cs (updatePowerFaults now cf sb w)"
proof -
  assume k: "kept b cs w"
  let ?f = "snd (fm_powerMerge now cf (wfm w))"
  have k1: "kept b cs (w \<lparr> wfm := ?f \<rparr>)"
    using k kept_bfm [OF k] by (intro kept_wfm) (simp_all add: world_frame fm_powerMerge_report bfm_ok_report)
  then have k2: "kept b cs (snd (goToSafeMode now (w \<lparr> wfm := ?f \<rparr>)))" by (rule kept_goToSafeMode)
  have k3: "kept b cs v \<Longrightarrow> kept b cs (v \<lparr> wfm := fm_summaryUpdate (wfm v) \<rparr>)" for v
    using kept_bfm [of b cs v] by (intro kept_wfm) (simp_all add: world_frame)
  show ?thesis using k1 k3 [OF k1] k3 [OF k2]
    by (auto simp: updatePowerFaults_def Let_def case_prod_beta)
qed

lemma kept_check:
  "kept b cs w \<Longrightarrow> is_sub t \<Longrightarrow> kept b cs (putCtx t (processDaqFaultCheck now f info (ctxOf t flts w)) w)"
  by (erule kept_steps) (simp_all add: steps_check)

lemma kept_remember: "kept b cs w \<Longrightarrow> is_sub t \<Longrightarrow> kept b cs (putSub t (rememberState (getSub t w)) w)"
  by (erule kept_steps) (simp_all add: steps_remember)

lemma kept_switch:
  "kept b cs w \<Longrightarrow> is_sub t \<Longrightarrow> kept b cs (putCtx t (processDaqSwitch now (ctxOf t flts w)) w)"
  by (erule kept_steps) (simp_all add: steps_switch)

lemma kept_subProcessDaq:
  "kept b cs w \<Longrightarrow> is_sub t \<Longrightarrow> kept b cs (snd (snd (subProcessDaq now t info flts w)))"
  unfolding subProcessDaq_def Let_def
  by (simp add: kept_check kept_remember kept_switch kept_report)

text \<open>\<open>_processDaq\<close> cut into its pieces.\<close>

definition daqHealth :: "timepoint \<Rightarrow> sys_info \<Rightarrow> world \<Rightarrow> world" where
  "daqHealth now info w =
     (let flts = processDaqHealthTelemetry (boostCurrentFaultEnabled w) info 0
      in if flts \<noteq> 0 then updatePowerFaults now flts POWER_SUBSYSTEM w else w)"

definition daqMotorAlone :: "timepoint \<Rightarrow> sys_info \<Rightarrow> world \<Rightarrow> world" where
  "daqMotorAlone now info w =
     (if out_bit_on (si_outputPort info) MOTOR_POWER_ON \<and> \<not> out_bit_on (si_outputPort info) ILC_COMM_POWER_ON
      then subOff now MOTOR w else w)"

definition daqStatus :: "SysStatus \<Rightarrow> SysStatus \<Rightarrow> world \<Rightarrow> world" where
  "daqStatus m c w =
     (if motorStatusPrev w \<noteq> m \<or> commStatusPrev w \<noteq> c
      then w \<lparr> motorStatusPrev := m, commStatusPrev := c \<rparr> else w)"

lemma processDaq_pieces:
  "processDaq now info w =
     (let flts = processDaqHealthTelemetry (boostCurrentFaultEnabled w) info 0;
          (ms, flts, w) = subProcessDaq now MOTOR info flts (daqMotorAlone now info (daqHealth now info w));
          (cs, flts, w) = subProcessDaq now COMM info flts w
      in daqStatus ms cs (updatePowerFaults now flts POWER_SUBSYSTEM w))"
  by (simp add: processDaq_def daqHealth_def daqMotorAlone_def daqStatus_def Let_def)

lemma kept_processDaq: "kept b cs w \<Longrightarrow> kept b cs (processDaq now info w)"
  unfolding processDaq_pieces Let_def case_prod_beta
  by (auto simp: daqStatus_def daqMotorAlone_def daqHealth_def Let_def
      intro!: kept_fields kept_updatePowerFaults kept_subProcessDaq kept_subOff)

lemma kept_checkTimeout: "kept b cs w \<Longrightarrow> kept b cs (snd (checkTimeout now d w))"
  by (auto simp: checkTimeout_def Let_def intro!: kept_updatePowerFaults kept_subOff)

lemma kept_daq:
  "kept b cs w \<Longrightarrow> kept b cs (daqInfoRead now w)" "kept b cs w \<Longrightarrow> kept b cs (daqTimeoutCheck now w)"
  by (auto simp: daqInfoRead_def daqTimeoutCheck_def Let_def case_prod_beta
      intro!: kept_processDaq kept_checkTimeout kept_fields)

lemma kept_setTcpIpConnected: "kept b cs w \<Longrightarrow> kept b cs (setTcpIpConnected now c w)"
  using kept_change(2) [OF kept_fields(3), of b cs w]
  by (auto simp: setTcpIpConnected_def Let_def intro: kept_fields)

lemma kept_systemShutdown: "kept b cs w \<Longrightarrow> kept b cs (systemShutdown now w)"
  by (auto simp: systemShutdown_def Let_def intro!: kept_fields kept_turnOffAll kept_change)

text \<open>Turning on is refused wherever power must be off.\<close>

lemma kept_subOn:
  assumes k: "kept b cs w" and t: "is_sub t" and st: "acceptsCmdPower (currentState (smap w))"
  shows "kept b cs (snd (subOn now t w))"
proof -
  let ?w = "snd (subOn now t w)"
  have fr: "wfm ?w = wfm w" "smap ?w = smap w" "connections ?w = connections w"
    by (simp_all add: subOn_def case_prod_beta)
  have "safe ?w" using k steps_safe [of True w ?w] steps_on [of True w w t] t
    by (auto simp: kept_def sys_inv_def)
  moreover have "targets_off ?w" if "must_be_off w"
  proof -
    have fault: "commConnectionFault (wfm w)" using that st by (auto simp: must_be_off_def)
    then have "checkForFaults (wfm w) (getSub t w)"
      by (simp add: checkForFaults_def checkForPowerSubsystemFaults_iff)
    then have "?w = subOff now t w"
      by (simp add: subOn_def subOff_def setPowerOn_def ctxOf_def)
    moreover have "targets_off w" using k that by (simp add: kept_def sys_inv_def)
    ultimately show ?thesis by (simp add: targets_off_iff targ_subOff)
  qed
  ultimately show ?thesis using k fr by (simp add: kept_def sys_inv_def must_be_off_def)
qed

lemma kept_cmdPower: "kept b cs w \<Longrightarrow> kept b cs (snd (cmdPower now t on w))"
  by (cases t) (auto simp: cmdPower_def cmdPowerBase_def powerMotor_def powerComm_def Let_def
      intro!: kept_subOff kept_subOn)

text \<open>Reporting the number of connections decides the connection fault.\<close>

lemma bfm_ok_connectionCount:
  "bfm_ok (powerFaultMgr f) \<Longrightarrow> bfm_ok (powerFaultMgr (snd (fm_connectionCount now n f)))"
  by (simp add: fm_connectionCount_def fm_resetFaults_def Let_def bfm_ok_resetFaults)

lemma kept_reportComConnectionCount:
  assumes "sys_inv w"
  shows "kept (n = 0) (connections w) (reportComConnectionCount now n w)"
proof -
  let ?f = "snd (fm_connectionCount now n (wfm w))"
  have f: "bfm_ok (powerFaultMgr ?f)" "commConnectionFault ?f \<longleftrightarrow> n = 0"
    using assms bfm_ok_connectionCount by (simp_all add: sys_inv_def world_frame)
  have w: "safe (w \<lparr> wfm := ?f \<rparr>)" "sm_ok (smap (w \<lparr> wfm := ?f \<rparr>))"
    using assms by (simp_all add: sys_inv_def safe_def)
  have "kept (n = 0) (connections w) (snd (goToSafeMode now (w \<lparr> wfm := ?f \<rparr>)))"
    using goToSafeMode_inv [OF w] f by (simp add: kept_def)
  moreover have "kept False (connections w) (w \<lparr> wfm := ?f \<rparr>)" if "n \<noteq> 0"
    using assms w f that by (auto simp: kept_def sys_inv_def must_be_off_def targets_off_def)
  ultimately show ?thesis
    by (auto simp: reportComConnectionCount_def Let_def case_prod_beta world_frame)
qed

lemma sys_inv_kept: "sys_inv w \<Longrightarrow> kept (commConnectionFault (wfm w)) (connections w) w"
  by (simp add: kept_def)

text \<open>The connection fault is set exactly while the map of connections is empty.\<close>

definition conn_inv :: "world \<Rightarrow> bool" where
  "conn_inv w \<longleftrightarrow> sys_inv w \<and> (commConnectionFault (wfm w) \<longleftrightarrow> connections w = [])"

lemma conn_inv_kept: "conn_inv w \<longleftrightarrow> kept (connections w = []) (connections w) w"
  by (auto simp: conn_inv_def kept_def)

lemma kept_conn_inv: "kept (cs = []) cs w \<Longrightarrow> conn_inv w"
  by (auto simp: conn_inv_def kept_def)

lemma conn_inv_handleAccept:
  assumes "conn_inv w"
  shows "conn_inv (handleAccept now i acceptOk w)"
proof -
  define v where "v = (if i \<in> set (connections w) then w else w \<lparr> connections := connections w @ [i] \<rparr>)"
  have v: "sys_inv v" "connections v \<noteq> []"
    using assms by (auto simp: v_def conn_inv_def sys_inv_def safe_def must_be_off_def targets_off_def)
  have k: "kept (connections v = []) (connections v) (reportComConnectionCount now (length (connections v)) v)"
    using kept_reportComConnectionCount [OF v(1), of "length (connections v)" now] by simp
  show ?thesis
    using assms kept_conn_inv [OF k] kept_conn_inv [OF kept_setTcpIpConnected [OF k]]
    unfolding handleAccept_def Let_def v_def [symmetric] by simp
qed

lemma conn_inv_connectionShutdown:
  assumes "conn_inv w"
  shows "conn_inv (connectionShutdown now i active w)"
proof -
  define v where "v = (if active then setTcpIpConnected now False w else w)"
  have kv: "kept (connections w = []) (connections w) v"
    using assms kept_setTcpIpConnected by (auto simp: v_def conn_inv_kept)
  then have v: "sys_inv v" "connections v = connections w" "conn_inv v"
    using kept_conn_inv by (auto simp: kept_def)
  define u where "u = v \<lparr> connections := removeAll i (connections v) \<rparr>"
  have u: "sys_inv u" using v(1) by (auto simp: u_def sys_inv_def safe_def must_be_off_def targets_off_def)
  have k: "kept (connections u = []) (connections u) (reportComConnectionCount now (length (connections u)) u)"
    using kept_reportComConnectionCount [OF u, of "length (connections u)" now] by simp
  have "eraseConnection now i v = (if i \<notin> set (connections v) then v
      else reportComConnectionCount now (length (connections u)) u)"
    by (simp add: eraseConnection_def eraseFromMap_def u_def Let_def)
  then show ?thesis
    using kept_conn_inv [OF k] v(3) unfolding connectionShutdown_def Let_def v_def [symmetric] by simp
qed

lemma bfm_ok_resetAll: "bfm_ok (powerFaultMgr f) \<Longrightarrow> bfm_ok (powerFaultMgr (fm_resetFaults now msk f))"
  by (simp add: fm_resetFaults_def bfm_ok_resetFaults)

lemma bfm_ok_enableAll: "bfm_ok (powerFaultMgr f) \<Longrightarrow> bfm_ok (powerFaultMgr (snd (fm_enableFaultsInMask msk f)))"
  by (simp add: fm_enableFaultsInMask_def case_prod_beta bfm_ok_enable)

lemma fm_resetFaults_fault [world_frame]:
  "commConnectionFault (fm_resetFaults now msk f) = commConnectionFault f"
  "commConnectionFault (snd (fm_enableFaultsInMask msk f)) = commConnectionFault f"
  by (simp_all add: fm_resetFaults_def fm_enableFaultsInMask_def case_prod_beta)

lemma kept_emergency: "kept b cs w \<Longrightarrow> kept b cs (emergencyTurnOffAllPower w)"
  by (erule kept_steps) (simp_all add: steps_emergency, simp_all add: emergencyTurnOffAllPower_def)

lemma kept_ReadFpga: "kept b cs w \<Longrightarrow> kept b cs (exec (ReadFpga reg hw) w)"
  by (simp add: readWriteFpga_def Let_def or_else_def kept_fields kept_emergency)

lemma kept_interlock: "kept b cs w \<Longrightarrow> kept b cs (writeCrioInterlockEnable x w)"
  by (erule kept_steps) (simp_all add: steps_interlock, simp_all add: writeCrioInterlockEnable_def)

lemma kept_comTimeoutCheck: "kept b cs w \<Longrightarrow> kept b cs (comTimeoutCheck now w)"
  using kept_bfm [of b cs w]
  by (auto simp: comTimeoutCheck_def engineCheckTimeout_def world_frame intro!: kept_wfm)

lemma kept_CtrlStart: "kept b cs w \<Longrightarrow> kept b cs (snd (ctrlStart now w))"
  using kept_change(2) [OF kept_fields(6), of b cs w] kept_fields(6) [of b cs w]
  by (simp add: ctrlStart_def Let_def split: prod.split sum.split)

lemma conn_inv_exec: "conn_inv w \<Longrightarrow> conn_inv (exec e w)"
proof (cases e)
  case (Accept now i acceptOk)
  then show "conn_inv w \<Longrightarrow> ?thesis" by (simp add: conn_inv_handleAccept)
next
  case (CloseConnection now i active)
  then show "conn_inv w \<Longrightarrow> ?thesis" by (simp add: conn_inv_connectionShutdown)
next
  case (ResetFaults now msk)
  then show "conn_inv w \<Longrightarrow> ?thesis"
    using kept_bfm [of _ _ w] bfm_ok_resetAll
    by (auto simp: conn_inv_kept world_frame intro!: kept_wfm)
next
  case (EnableFaults msk)
  then show "conn_inv w \<Longrightarrow> ?thesis"
    using kept_bfm [of _ _ w] bfm_ok_enableAll
    by (auto simp: conn_inv_kept world_frame intro!: kept_wfm)
next
  case (ReadFpga reg hw)
  then show "conn_inv w \<Longrightarrow> ?thesis" using kept_conn_inv kept_ReadFpga conn_inv_kept by metis
qed (use kept_conn_inv [OF kept_daq(1)] kept_conn_inv [OF kept_daq(2)] kept_conn_inv [OF kept_cmdPower]
      kept_conn_inv [OF kept_change(2)] kept_conn_inv [OF kept_comTimeoutCheck] kept_conn_inv [OF kept_interlock]
      kept_conn_inv [OF kept_fields(7)] kept_conn_inv [OF kept_CtrlStart] kept_conn_inv [OF kept_systemShutdown]
      kept_conn_inv [OF kept_fields(6)] kept_conn_inv [OF kept_fields(9)] kept_conn_inv [OF kept_fields(10)]
      in \<open>simp_all add: conn_inv_kept ctrlSetup_def ctrlStop_def ctrlJoin_def\<close>)

lemma conn_inv_init:
  assumes "mkWorld now si0 = Inr w"
  shows "conn_inv w"
  using mkWorld_parts [OF assms]
  by (simp add: conn_inv_def sys_inv_def mkFaultMgr_def bfm_ok_initial)

text \<open>
  A system given by its initial states and its events, with a predicate that holds initially
  and is kept by every event. \<open>reach\<close> is the least set that contains the initial states and is
  closed under the events.
\<close>

locale transition_system =
  fixes init :: "'s \<Rightarrow> bool" and run_event :: "'e \<Rightarrow> 's \<Rightarrow> 's"
    and reach :: "'s \<Rightarrow> bool" and inv :: "'s \<Rightarrow> bool"
  assumes reach_induct: "\<lbrakk> reach s; \<And>s. init s \<Longrightarrow> P s; \<And>s e. \<lbrakk> reach s; P s \<rbrakk> \<Longrightarrow> P (run_event e s) \<rbrakk> \<Longrightarrow> P s"
    and reach_step: "reach s \<Longrightarrow> reach (run_event e s)"
    and inv_init: "init s \<Longrightarrow> inv s"
    and inv_step: "inv s \<Longrightarrow> inv (run_event e s)"
begin

lemma reach_inv: "reach s \<Longrightarrow> inv s"
  by (erule reach_induct) (simp_all add: inv_init inv_step)

lemma reach_run: "reach s \<Longrightarrow> reach (fold run_event es s)"
  by (induction es arbitrary: s) (simp_all add: reach_step)

lemma run_inv: "inv s \<Longrightarrow> inv (fold run_event es s)"
  by (induction es arbitrary: s) (simp_all add: inv_step)

text \<open>A property that every event keeps from a state of the invariant on holds until an event breaks it.\<close>

lemma run_until:
  assumes "inv s" and "P s" and "\<forall>e \<in> set es. ok e"
    and keep: "\<And>s e. \<lbrakk> inv s; P s; ok e \<rbrakk> \<Longrightarrow> P (run_event e s)"
  shows "P (fold run_event es s)"
  using assms(1,2,3)
proof (induction es arbitrary: s)
  case (Cons e es)
  then have "inv (run_event e s)" "P (run_event e s)" using keep by (auto simp: inv_step)
  with Cons.IH Cons.prems(3) show ?case by simp
qed simp

end

interpretation m2: transition_system "\<lambda>w. \<exists>now si0. mkWorld now si0 = Inr w" exec reachable conn_inv
proof
  fix s and P :: "world \<Rightarrow> bool"
  assume "reachable s" and "\<And>s. \<exists>now si0. mkWorld now si0 = Inr s \<Longrightarrow> P s"
    and "\<And>s e. \<lbrakk> reachable s; P s \<rbrakk> \<Longrightarrow> P (exec e s)"
  then show "P s" by (induction rule: reachable.induct) blast+
qed (use conn_inv_init conn_inv_exec in \<open>auto intro: reachable.step\<close>)

lemmas reachable_invs = m2.reach_inv [unfolded conn_inv_def sys_inv_def]

end
