(* ===== verification/M2Handlers.thy ===== *)
theory M2Handlers
  imports M2Safety
begin

text \<open>
  Properties that survive the processing of readings. The contract is a locale: a predicate on
  the world that the primitive actions keep is kept by every handler of the power system and
  of the fault manager. It is interpreted for the offline state, for the MOTOR power of a system
  whose interlock is never enabled, and, through a second contract, for conditions on the
  power fault record: a latched fault and the masks the constructor sets.
\<close>

section \<open>The contract\<close>

locale daq_closed =
  fixes P :: "world \<Rightarrow> bool" and Q :: "sys_info \<Rightarrow> bool"
  assumes off: "\<lbrakk> P w; is_sub t \<rbrakk> \<Longrightarrow> P (subOff now t w)"
    and safeMode: "P w \<Longrightarrow> P (snd (applyChange now (goToASafeState (setupFinished w) STANDBYSTATE (smap w)) w))"
    and powerChange: "\<lbrakk> P w; currentState (smap w) \<notin> {STARTUPSTATE, OFFLINESTATE}; s \<in> {STANDBYSTATE, IDLESTATE} \<rbrakk> \<Longrightarrow>
      P (snd (modelChangeStateEnum now s w))"
    and check: "\<lbrakk> P w; is_sub t; Q info \<rbrakk> \<Longrightarrow> P (putCtx t (processDaqFaultCheck now (wfm w) info (ctxOf t flts w)) w)"
    and remember: "\<lbrakk> P w; is_sub t \<rbrakk> \<Longrightarrow> P (putSub t (rememberState (getSub t w)) w)"
    and switch: "\<lbrakk> P w; is_sub t \<rbrakk> \<Longrightarrow> P (putCtx t (processDaqSwitch now (ctxOf t flts w)) w)"
    and merge: "P w \<Longrightarrow> P (w \<lparr> wfm := snd (fm_powerMerge now cf (wfm w)) \<rparr>)"
    and summary: "P w \<Longrightarrow> P (w \<lparr> wfm := fm_summaryUpdate (wfm w) \<rparr>)"
    and outboxes: "P w \<Longrightarrow> P (w \<lparr> outbox := ms \<rparr>)"
    and status: "P w \<Longrightarrow> P (w \<lparr> motorStatusPrev := x, commStatusPrev := y \<rparr>)"
    and readTime: "P w \<Longrightarrow> P (w \<lparr> daqReadTime := d \<rparr>)"
    and info: "P w \<Longrightarrow> Q (fpgaInfo w)"
begin

lemma P_turnOffAll: "P w \<Longrightarrow> P (turnOffAll now w)"
  by (simp add: turnOffAll_def off)

lemma P_goToSafeMode: "P w \<Longrightarrow> P (snd (goToSafeMode now w))"
  using safeMode [OF P_turnOffAll, of w now] by (simp add: goToSafeMode_def Let_def)

lemma P_report: "P w \<Longrightarrow> P (reportPowerSystemStateChange now t x y w)"
proof -
  assume P: "P w"
  have "P (reportSwitch now w)"
    using P powerChange by (cases "currentState (smap w)") (simp_all add: reportSwitch_def P_turnOffAll)
  then show ?thesis by (simp add: reportPowerSystemStateChange_def broadcast_def outboxes)
qed

lemma P_updatePowerFaults: "P w \<Longrightarrow> P (updatePowerFaults now cf s w)"
proof -
  assume P: "P w"
  let ?v = "w \<lparr> wfm := snd (fm_powerMerge now cf (wfm w)) \<rparr>"
  have v: "P ?v" by (rule merge [OF P])
  show ?thesis
    using v summary [OF v] summary [OF P_goToSafeMode [OF v]]
    by (simp add: updatePowerFaults_def Let_def case_prod_beta)
qed

lemma P_subProcessDaq: "\<lbrakk> P w; is_sub t; Q info \<rbrakk> \<Longrightarrow> P (snd (snd (subProcessDaq now t info flts w)))"
  unfolding subProcessDaq_def Let_def by (simp add: check remember switch P_report)

lemma P_processDaq: "\<lbrakk> P w; Q info \<rbrakk> \<Longrightarrow> P (processDaq now info w)"
  unfolding processDaq_pieces Let_def case_prod_beta
  by (auto simp: daqStatus_def daqMotorAlone_def daqHealth_def Let_def
      intro!: status P_updatePowerFaults P_subProcessDaq off)

lemma P_checkTimeout: "P w \<Longrightarrow> P (snd (checkTimeout now d w))"
  by (auto simp: checkTimeout_def Let_def intro!: P_updatePowerFaults off)

lemma checkTimeout_info: "fpgaInfo (snd (checkTimeout now d w)) = fpgaInfo w"
  by (simp add: checkTimeout_def Let_def updatePowerFaults_def case_prod_beta goToSafeMode_def applyChange_def
      enterCurrent_def)

lemma P_daqInfoRead: "P w \<Longrightarrow> P (daqInfoRead now w)"
  using P_processDaq [OF P_checkTimeout [OF readTime], of w "fpgaInfo w"] info [of w]
  by (simp add: daqInfoRead_def Let_def case_prod_beta)

lemma P_daqTimeoutCheck: "P w \<Longrightarrow> P (daqTimeoutCheck now w)"
  using P_processDaq [OF P_checkTimeout, of w "fpgaInfo w"] info [of w]
    P_checkTimeout [of w]
  by (simp add: daqTimeoutCheck_def Let_def case_prod_beta checkTimeout_info)

lemma P_reportComConnectionCount:
  "\<lbrakk> P w; P (w \<lparr> wfm := snd (fm_connectionCount now n (wfm w)) \<rparr>) \<rbrakk> \<Longrightarrow> P (reportComConnectionCount now n w)"
  by (simp add: reportComConnectionCount_def Let_def case_prod_beta P_goToSafeMode)

end

section \<open>Offline\<close>

definition offline :: "world \<Rightarrow> bool" where
  "offline w \<longleftrightarrow> sm_ok (smap w) \<and> currentState (smap w) = OFFLINESTATE"

interpretation offl: daq_closed offline "\<lambda>_. True"
  by unfold_locales (auto simp: offline_def goToASafeState_standby)

lemma offline_change: "offline w \<Longrightarrow> offline (snd (modelChangeState now (getState OFFLINESTATE (smap w)) w))"
  by (simp add: offline_def modelChangeState_def changeState_entry changeStateBody_allowed allowed_def) (simp add: sm_ok_def)

section \<open>The power record\<close>

lemma modelChange_wfm [simp]: "wfm (snd (modelChangeStateEnum now s w)) = wfm w" "wfm (snd (modelChangeState now p w)) = wfm w"
  by (simp_all add: modelChangeStateEnum_def modelChangeState_def)

lemma setTcpIpConnected_wfm [simp]: "wfm (setTcpIpConnected now b w) = wfm w"
  by (simp add: setTcpIpConnected_def Let_def)

lemma subOn_frame [simp]: "wfm (snd (subOn now t w)) = wfm w" "smap (snd (subOn now t w)) = smap w"
  by (simp_all add: subOn_def case_prod_beta)

lemma cmdPower_frame [simp]: "wfm (snd (cmdPower now t on w)) = wfm w" "smap (snd (cmdPower now t on w)) = smap w"
  by (auto simp: cmdPower_def cmdPowerBase_def powerMotor_def powerComm_def Let_def split: PowerSystemType.split)

text \<open>
  A condition on the power record that its own operations keep is kept by every event, except
  for the resets it does not allow.
\<close>

locale power_record =
  fixes R :: "basic_fault_mgr \<Rightarrow> bool" and allowed_reset :: "64 word \<Rightarrow> bool"
  assumes R_report: "R b \<Longrightarrow> R (bfm_report now b cf)"
    and R_enable: "R b \<Longrightarrow> R (snd (bfm_enableFaultsInMask m b))"
    and R_reset: "\<lbrakk> R b; allowed_reset m \<rbrakk> \<Longrightarrow> R (bfm_resetFaults now m b)"
    and comm_reset: "allowed_reset commMask"
begin

sublocale daq: daq_closed "\<lambda>w. R (powerFaultMgr (wfm w))" "\<lambda>_. True"
  by unfold_locales (simp_all add: world_frame fm_powerMerge_report R_report)

lemma R_connectionCount: "R (powerFaultMgr f) \<Longrightarrow> R (powerFaultMgr (snd (fm_connectionCount now n f)))"
  by (simp add: fm_connectionCount_def fm_resetFaults_def Let_def R_reset comm_reset)

lemma R_reportConnections: "R (powerFaultMgr (wfm w)) \<Longrightarrow> R (powerFaultMgr (wfm (reportComConnectionCount now n w)))"
  by (rule daq.P_reportComConnectionCount) (simp_all add: R_connectionCount)

lemma R_exec:
  assumes "R (powerFaultMgr (wfm w))" and "\<And>now m. e = ResetFaults now m \<Longrightarrow> allowed_reset m"
  shows "R (powerFaultMgr (wfm (exec e w)))"
proof (cases e)
  case (ReadFpga reg hw)
  then show ?thesis using assms(1) by (simp add: readWriteFpga_def or_else_def Let_def emergencyTurnOffAllPower_def)
next
  case (Accept now i ok)
  have "R (powerFaultMgr (wfm (handleAccept now i ok w)))"
    using assms(1) by (simp add: handleAccept_def Let_def R_reportConnections)
  with Accept show ?thesis by simp
next
  case (CloseConnection now i active)
  have "R (powerFaultMgr (wfm (connectionShutdown now i active w)))"
    using assms(1)
    by (simp add: connectionShutdown_def eraseConnection_def eraseFromMap_def Let_def R_reportConnections)
  with CloseConnection show ?thesis by simp
next
  case (CtrlStart now)
  then show ?thesis using assms(1) by (simp add: ctrlStart_def engineStart_def Let_def)
next
  case (ComTimeoutCheck now)
  then show ?thesis using assms(1) by (simp add: comTimeoutCheck_def engineCheckTimeout_def world_frame)
next
  case (SystemShutdown now)
  then show ?thesis using assms(1) by (simp add: systemShutdown_def Let_def)
qed (use assms in \<open>auto simp: daq.P_daqInfoRead daq.P_daqTimeoutCheck fm_resetFaults_def fm_enableFaultsInMask_def
      case_prod_beta R_enable R_reset writeCrioInterlockEnable_def ctrlSetup_def
      ctrlStop_def ctrlJoin_def\<close>)

lemma R_run:
  "\<lbrakk> R (powerFaultMgr (wfm w)); \<And>now m. ResetFaults now m \<in> set es \<Longrightarrow> allowed_reset m \<rbrakk> \<Longrightarrow>
     R (powerFaultMgr (wfm (fold exec es w)))"
proof (induction es arbitrary: w)
  case (Cons e es)
  have "R (powerFaultMgr (wfm (exec e w)))" using Cons.prems by (intro R_exec) auto
  then have "R (powerFaultMgr (wfm (fold exec es (exec e w))))"
    by (rule Cons.IH) (erule Cons.prems(2) [OF list.set_intros(2)])
  then show ?case by simp
qed simp

end

text \<open>A fault other than the connection fault that the power record has latched.\<close>

definition latched_fault :: "fault_bit \<Rightarrow> basic_fault_mgr \<Rightarrow> bool" where
  "latched_fault f b \<longleftrightarrow> bfm_ok b \<and> f \<in> bfm_latched b \<and> f \<noteq> CRIO_COMM_FAULT"

lemma bfm_latched_enable: "bfm_latched (snd (bfm_enableFaultsInMask m b)) = bfm_latched b"
  by (simp add: bfm_latched_def bfm_enableFaultsInMask_def Let_def)

interpretation lat: power_record "latched_fault f" "\<lambda>m. f = CRIO_COMM_FAULT \<or> \<not> hasFault m f" for f
  by unfold_locales
    (auto simp: latched_fault_def bfm_ok_report bfm_latched_report bfm_ok_enable bfm_latched_enable bfm_ok_resetFaults
      bfm_latched_reset commMask_def bitmap_simps)

text \<open>The masks of affected faults stay what the constructor made them.\<close>

definition affected_as_built :: "basic_fault_mgr \<Rightarrow> bool" where
  "affected_as_built b \<longleftrightarrow>
     affectedWarnInfoMask b = 0 \<and> affectedFaultsMask b = getPowerSubsystemFaultManagerAffectedWarningMask"

interpretation aff: power_record affected_as_built "\<lambda>_. True"
  by unfold_locales
    (simp_all add: affected_as_built_def bfm_report_def bfm_updateFaults_def bfm_enableFaultsInMask_def
      bfm_resetFaults_def Let_def)

section \<open>No interlock, no MOTOR power\<close>

text \<open>Processing a reading does not change the stored reading.\<close>

lemma configCheck_sysInfo: "sysInfo (sub (snd (checkBreakersCtx c))) = sysInfo (sub c)"
  by (simp add: power_simps)

lemma breakerFault_sysInfo: "sysInfo (sub (snd (checkForPowerOnBreakerFault now v c))) = sysInfo (sub c)"
  by (simp add: checkForPowerOnBreakerFault_def power_simps)

lemma processDaqSwitch_sysInfo: "sysInfo (sub (processDaqSwitch now c)) = sysInfo (sub c)"
proof -
  have on: "sysInfo (sub (processOnCase now x v c)) = sysInfo (sub c)" for x v c
    using breakerFault_sysInfo [of now v c]
    by (auto simp: processOnCase_def Let_def power_simps split: prod.split)
  have tu: "sysInfo (sub (processTurningOnCase now x v c)) = sysInfo (sub c)" for x v c
    by (simp add: processTurningOnCase_def Let_def power_simps)
  have re: "sysInfo (sub (processResetCase now x v c)) = sysInfo (sub c)" for x v c
    using breakerFault_sysInfo [of now v "writeOutputPort (outputBreakerBit (psCfg (sub c))) True c"]
    by (auto simp: processResetCase_def Let_def power_simps split: prod.split)
  have po: "sysInfo (sub (processPowerOn now c)) = sysInfo (sub c)" for c
    unfolding processPowerOn_def Let_def case_prod_beta
    by (simp add: power_simps on tu re split: PowerState.split)
  have of: "sysInfo (sub (processPowerOff now c)) = sysInfo (sub c)" for c
    unfolding processPowerOff_def processTurningOffCase_def Let_def
    by (simp add: power_simps split: PowerState.split)
  show ?thesis
    unfolding processDaqSwitch_def by (simp add: po of power_simps split: PowerState.split)
qed

text \<open>
  Nobody enabled the interlock output and the readings show it off: the target of MOTOR stays OFF.
\<close>

definition crio_off :: "sys_info \<Rightarrow> bool" where
  "crio_off i \<longleftrightarrow> \<not> out_bit_on (si_outputPort i) CRIO_INTERLOCK_ENABLE"

definition no_interlock :: "world \<Rightarrow> bool" where
  "no_interlock w \<longleftrightarrow> safe w \<and> \<not> out_bit_on (outPort w) CRIO_INTERLOCK_ENABLE \<and>
     crio_off (fpgaInfo w) \<and> crio_off (sysInfo (motor w)) \<and> targ (motor w) = OFF"

lemma no_interlock_putCtx:
  assumes ni: "no_interlock w" and t: "is_sub t" and c: "full_inv t c" and kf: "keeps_foreign t (ctxOf t flts w) c"
    and m: "t = MOTOR \<Longrightarrow> crio_off (sysInfo (sub c)) \<and> targ (sub c) = OFF"
  shows "no_interlock (putCtx t c w)"
proof -
  have s: "safe w" using ni by (simp add: no_interlock_def)
  have "psub_wf t (sub (ctxOf t flts w))" by (rule full_inv_wf [OF full_inv_ctxOf [OF s t]])
  then have "port_agree (- own_bits t) (outPort w) (port c)" using kf by (simp add: keeps_foreign_def ctxOf_def)
  then have "out_bit_on (port c) CRIO_INTERLOCK_ENABLE = out_bit_on (outPort w) CRIO_INTERLOCK_ENABLE"
    using t by (auto simp: port_agree_def own_bits_def is_sub_def)
  then show ?thesis
    using ni safe_putCtx [OF s t c kf] m t
    by (auto simp: no_interlock_def is_sub_def putCtx_def putSub_def)
qed

lemma no_interlock_ctx:
  assumes "no_interlock w" and "is_sub t"
  shows "full_inv t (ctxOf t flts w)" "psub_wf t (sub (ctxOf t flts w))"
    "t = MOTOR \<Longrightarrow> targ (sub (ctxOf t flts w)) = OFF \<and> crio_off (sysInfo (sub (ctxOf t flts w)))"
  using assms full_inv_ctxOf [of w t flts] full_inv_wf [OF full_inv_ctxOf [of w t flts]]
  by (auto simp: no_interlock_def ctxOf_def getSub_def)

lemma no_interlock_off: "no_interlock w \<Longrightarrow> is_sub t \<Longrightarrow> no_interlock (subOff now t w)"
  using no_interlock_ctx [of w t 0] unfolding subOff_def
  by (auto intro!: no_interlock_putCtx [of w t _ 0] full_inv_setPowerOff kf_setPowerOff kf_refl simp: power_simps)

lemma no_interlock_turnOffAll: "no_interlock w \<Longrightarrow> no_interlock (turnOffAll now w)"
  by (simp add: turnOffAll_def no_interlock_off)

lemma no_interlock_cong:
  "\<lbrakk> no_interlock w; outPort v = outPort w; fpgaInfo v = fpgaInfo w; motor v = motor w; comm v = comm w \<rbrakk> \<Longrightarrow> no_interlock v"
  by (simp add: no_interlock_def safe_def)

lemma no_interlock_applyChange: "no_interlock w \<Longrightarrow> no_interlock (snd (applyChange now r w))"
proof -
  assume "no_interlock w"
  then have "no_interlock (w \<lparr> smap := fst (snd r) \<rparr>)" by (rule no_interlock_cong) simp_all
  then show ?thesis by (simp add: applyChange_def case_prod_beta enterCurrent_def no_interlock_turnOffAll)
qed

interpretation noil: daq_closed no_interlock crio_off
proof
  fix w t now info flts
  assume ni: "no_interlock w" and t: "is_sub t" and q: "crio_off info"
  note c = no_interlock_ctx [OF ni t, of flts]
  show "no_interlock (putCtx t (processDaqFaultCheck now (wfm w) info (ctxOf t flts w)) w)"
    using c q processDaqFaultCheck_spec [OF c(1), of now "wfm w" info]
    by (intro no_interlock_putCtx [OF ni t _ kf_processDaqFaultCheck]) auto
next
  fix w t now flts
  assume ni: "no_interlock w" and t: "is_sub t"
  note c = no_interlock_ctx [OF ni t, of flts]
  show "no_interlock (putCtx t (processDaqSwitch now (ctxOf t flts w)) w)"
    using c processDaqSwitch_off [OF c(1)]
    by (intro no_interlock_putCtx [OF ni t processDaqSwitch_inv kf_processDaqSwitch])
       (auto simp: processDaqSwitch_sysInfo)
next
  fix w t
  assume ni: "no_interlock w" and t: "is_sub t"
  have "safe (putSub t (rememberState (getSub t w)) w)"
    using ni astep_safe [OF astep.remember [OF t, of False w]] by (simp add: no_interlock_def)
  then show "no_interlock (putSub t (rememberState (getSub t w)) w)"
    using ni by (auto simp: no_interlock_def putSub_def getSub_def power_simps)
next
  fix w assume "no_interlock w" then show "crio_off (fpgaInfo w)" by (simp add: no_interlock_def)
qed (simp_all add: no_interlock_off no_interlock_applyChange modelChangeStateEnum_def, (erule no_interlock_cong; simp)+)

end
