(* ===== verification/M2Props.thy ===== *)
theory M2Props
  imports M2Safety PowerProps
begin

text \<open>
  The properties of the system as a whole, with witnesses on a concrete run: construction,
  setup, start, one client, and commands to turn power on.
\<close>

section \<open>A concrete run\<close>

definition world0 :: world where
  "world0 = (case mkWorld 0 si_zero of Inr w \<Rightarrow> w | Inl _ \<Rightarrow> undefined)"

definition startup_events :: "event list" where
  "startup_events = [CtrlSetup, CtrlStart 1, ServerRun, Accept 2 7 True]"

definition world_connected :: world where
  "world_connected = fold exec startup_events world0"

definition world_comm_on :: world where
  "world_comm_on = exec (CmdPower 4 COMM True) world_connected"

lemma world0: "mkWorld 0 si_zero = Inr world0"
  using mkWorld_defined [of 0 si_zero] by (auto simp: world0_def)

lemma reachable_run: "reachable (fold exec es world0)"
  by (rule m2.reach_run) (rule reachable.init [OF world0])

lemma reachable_connected: "reachable world_connected"
  unfolding world_connected_def by (rule reachable_run)

lemma reachable_comm_on: "reachable world_comm_on"
  unfolding world_comm_on_def by (rule reachable.step [OF reachable_connected])

section \<open>Power outputs\<close>

text \<open>What the invariant of the two subsystems says about the output port.\<close>

definition outputs_follow_targets :: "world \<Rightarrow> bool" where
  "outputs_follow_targets w \<longleftrightarrow>
     (out_bit_on (outPort w) MOTOR_POWER_ON \<longrightarrow> targ (motor w) = ON) \<and>
     (out_bit_on (outPort w) ILC_COMM_POWER_ON \<longrightarrow> targ (comm w) = ON) \<and>
     (\<not> out_bit_on (outPort w) RESET_MOTOR_BREAKERS \<longrightarrow> targ (motor w) = ON \<and> actual (motor w) = RESET) \<and>
     (\<not> out_bit_on (outPort w) RESET_COMM_BREAKERS \<longrightarrow> targ (comm w) = ON \<and> actual (comm w) = RESET) \<and>
     targ (motor w) \<in> {ON, OFF} \<and> targ (comm w) \<in> {ON, OFF}"

lemma safe_outputs: "safe w \<Longrightarrow> outputs_follow_targets w"
  by (simp add: safe_def outputs_follow_targets_def sub_inv_def full_inv_def psub_inv_def)

text \<open>C1: In every reachable state the power-on outputs of MOTOR and COMM are set only while
  the target of that subsystem is ON, a breaker reset output is low only while that subsystem
  is ON and resetting its breakers, and both targets are ON or OFF.\<close>

theorem power_outputs_safe:
  assumes "reachable w"
  shows "outputs_follow_targets w"
  using m2.reach_inv [OF assms] by (auto simp: conn_inv_def sys_inv_def intro: safe_outputs)

theorem power_outputs_safe_witness:
  "out_bit_on (outPort world_comm_on) ILC_COMM_POWER_ON \<and> targ (comm world_comm_on) = ON"
proof -
  have "out_bit_on (outPort world_comm_on) ILC_COMM_POWER_ON" by code_simp
  then show ?thesis using power_outputs_safe [OF reachable_comm_on] by (simp add: outputs_follow_targets_def)
qed

text \<open>C2: The same holds when the threads interleave at the granularity of the locks: every
  event is a sequence of locked sections, and every sequence of locked sections of any events,
  in any order and with any other change of state between them, keeps the outputs safe.\<close>

theorem power_outputs_safe_interleaved:
  assumes "mkWorld now si0 = Inr w0" and "(astep True)\<^sup>*\<^sup>* w0 w"
  shows "outputs_follow_targets w \<and> (astep (turnsOn e))\<^sup>*\<^sup>* w (exec e w)"
  using steps_safe [OF assms(2)] mkWorld_parts(1) [OF assms(1)] steps_exec [of e w]
  by (auto intro: safe_outputs)

theorem power_outputs_safe_interleaved_witness:
  "outputs_follow_targets (subOff 5 MOTOR world0)"
proof -
  have "(astep True)\<^sup>*\<^sup>* world0 (subOff 5 MOTOR world0)" by (rule steps_off) simp_all
  from power_outputs_safe_interleaved [OF world0 this] show ?thesis by simp
qed

lemma outputs_off:
  "outputs_follow_targets w \<Longrightarrow> targets_off w \<Longrightarrow>
     \<not> out_bit_on (outPort w) MOTOR_POWER_ON \<and> \<not> out_bit_on (outPort w) ILC_COMM_POWER_ON"
  by (auto simp: outputs_follow_targets_def targets_off_def)



section \<open>Commands\<close>

lemma sub_wf: "safe w \<Longrightarrow> is_sub t \<Longrightarrow> psub_wf t (getSub t w)"
  using full_inv_wf [OF full_inv_ctxOf [of w t 0]] by (simp add: ctxOf_def)

lemma subOn_cases:
  assumes "safe w" and "is_sub t"
  defines "c \<equiv> \<not> subsystemFaults t (wfm w) \<and>
      (t = MOTOR \<longrightarrow> out_bit_on (si_outputPort (sysInfo (motor w))) CRIO_INTERLOCK_ENABLE)"
  shows "fst (subOn now t w) \<longleftrightarrow> c"
    "c \<Longrightarrow> targ (getSub t (snd (subOn now t w))) = ON \<and> out_bit_on (outPort (snd (subOn now t w))) (pbit t)"
    "\<not> c \<Longrightarrow> snd (subOn now t w) = subOff now t w"
proof -
  have wf: "psub_wf t (getSub t w)" by (rule sub_wf [OF assms(1,2)])
  have crio: "val_or False (getCrioReadyOutputOn (getSub t w)) \<longleftrightarrow>
      (t = MOTOR \<longrightarrow> out_bit_on (si_outputPort (sysInfo (motor w))) CRIO_INTERLOCK_ENABLE)"
    using assms(2) wf by (auto simp: is_sub_def getCrioReadyOutputOn_def getSub_def psub_wf_def)
  note chk = psub_wf_reads(4) [OF wf, of "wfm w"]
  show "fst (subOn now t w) \<longleftrightarrow> c"
    using chk crio by (simp add: subOn_def case_prod_beta setPowerOn_def ctxOf_def Let_def c_def)
  show "targ (getSub t (snd (subOn now t w))) = ON \<and> out_bit_on (outPort (snd (subOn now t w))) (pbit t)" if c
    using that chk crio psub_wf_cfg(1,2) [OF wf] assms(2)
    by (auto simp: subOn_def case_prod_beta setPowerOn_def ctxOf_def Let_def c_def putCtx_def power_simps
        bitmap_simps is_sub_def getSub_def putSub_def)
  show "snd (subOn now t w) = subOff now t w" if "\<not> c"
    using that chk crio by (auto simp: subOn_def subOff_def case_prod_beta setPowerOn_def ctxOf_def Let_def c_def)
qed

text \<open>C4: A command to turn a subsystem on is accepted exactly in StandbyState and IdleState,
  with no fault against the subsystem, and for MOTOR also only while COMM is actually ON and
  the crio interlock reads enabled. An accepted command has a client, sets the target to ON and
  the power-on output; a refused one leaves no output on that was off before.\<close>

theorem power_on_accepted_iff:
  assumes "reachable w" and "t = MOTOR \<or> t = COMM"
  shows "(fst (cmdPower now t True w) \<longleftrightarrow>
      currentState (smap w) \<in> {STANDBYSTATE, IDLESTATE} \<and> \<not> subsystemFaults t (wfm w) \<and>
      (t = MOTOR \<longrightarrow> actual (comm w) = ON \<and>
                    out_bit_on (si_outputPort (sysInfo (motor w))) CRIO_INTERLOCK_ENABLE)) \<and>
    (if fst (cmdPower now t True w)
     then connections w \<noteq> [] \<and> targ (getSub t (snd (cmdPower now t True w))) = ON \<and>
          out_bit_on (outPort (snd (cmdPower now t True w))) (pbit t)
     else out_bit_on (outPort (snd (cmdPower now t True w))) (pbit t) \<longrightarrow> out_bit_on (outPort w) (pbit t))"
proof -
  have inv: "conn_inv w" by (rule m2.reach_inv [OF assms(1)])
  then have w: "safe w" "commConnectionFault (wfm w) \<longleftrightarrow> connections w = []"
    by (simp_all add: conn_inv_def sys_inv_def)
  have t: "is_sub t" using assms(2) by (auto simp: is_sub_def)
  have acc: "acceptsCmdPower (currentState (smap w)) \<longleftrightarrow> currentState (smap w) \<in> {STANDBYSTATE, IDLESTATE}"
    by (cases "currentState (smap w)") simp_all
  note on = subOn_cases [OF w(1) t, of now]
  have conn: "\<not> subsystemFaults t (wfm w) \<Longrightarrow> connections w \<noteq> []"
    using w(2) by (auto simp: subsystemFaults_def checkForPowerSubsystemFaults_iff)
  have off: "\<not> out_bit_on (outPort (subOff now t w)) (pbit t)"
    using psub_wf_cfg(1) [OF sub_wf [OF w(1) t]]
    by (simp add: subOff_def putCtx_def ctxOf_def power_simps bitmap_simps)
  define c where "c \<longleftrightarrow> \<not> subsystemFaults t (wfm w) \<and>
      (t = MOTOR \<longrightarrow> out_bit_on (si_outputPort (sysInfo (motor w))) CRIO_INTERLOCK_ENABLE)"
  define g where "g \<longleftrightarrow> currentState (smap w) \<in> {STANDBYSTATE, IDLESTATE} \<and> (t = MOTOR \<longrightarrow> actual (comm w) = ON)"
  have cmd: "cmdPower now t True w = (if g then subOn now t w else (False, w))"
    using assms(2) acc by (auto simp: cmdPower_def cmdPowerBase_def powerMotor_def powerComm_def g_def)
  note on = on [folded c_def]
  have iff: "(currentState (smap w) \<in> {STANDBYSTATE, IDLESTATE} \<and> \<not> subsystemFaults t (wfm w) \<and>
      (t = MOTOR \<longrightarrow> actual (comm w) = ON \<and>
                    out_bit_on (si_outputPort (sysInfo (motor w))) CRIO_INTERLOCK_ENABLE)) \<longleftrightarrow> g \<and> c"
    by (auto simp: g_def c_def)
  show ?thesis
  proof (cases "g \<and> c")
    case True
    then show ?thesis unfolding iff using on conn by (simp add: cmd) (simp add: c_def)
  next
    case False
    then show ?thesis unfolding iff using on off by (auto simp: cmd)
  qed
qed

theorem power_on_accepted_iff_witness:
  "fst (cmdPower 4 COMM True world_connected) \<and>
   out_bit_on (outPort (snd (cmdPower 4 COMM True world_connected))) ILC_COMM_POWER_ON \<and>
   \<not> fst (cmdPower 4 MOTOR True world_connected)"
proof -
  have "currentState (smap world_connected) = STANDBYSTATE" "\<not> subsystemFaults COMM (wfm world_connected)"
    "actual (comm world_connected) \<noteq> ON"
    by code_simp+
  then show ?thesis
    using power_on_accepted_iff [OF reachable_connected, of COMM 4] power_on_accepted_iff [OF reachable_connected, of MOTOR 4]
    by (simp split: if_splits)
qed

text \<open>In StartupState, OfflineState, PauseState and InMotionState a power command does
  nothing and fails. Elsewhere a command to turn off is always accepted: it turns that subsystem
  off, and turning COMM off turns MOTOR off too, unless the actual state of MOTOR is OFF, when
  the command leaves MOTOR as it is even if its target is ON.\<close>

theorem power_off_command:
  assumes "reachable w"
  shows "(currentState (smap w) \<notin> {STANDBYSTATE, IDLESTATE} \<longrightarrow> cmdPower now t on w = (False, w)) \<and>
    (currentState (smap w) \<in> {STANDBYSTATE, IDLESTATE} \<longrightarrow>
       fst (cmdPower now MOTOR False w) \<and> targ (motor (snd (cmdPower now MOTOR False w))) = OFF \<and>
       comm (snd (cmdPower now MOTOR False w)) = comm w \<and>
       fst (cmdPower now COMM False w) \<and> targ (comm (snd (cmdPower now COMM False w))) = OFF \<and>
       (if actual (motor w) = OFF then motor (snd (cmdPower now COMM False w)) = motor w
        else targ (motor (snd (cmdPower now COMM False w))) = OFF))"
proof -
  have acc: "acceptsCmdPower (currentState (smap w)) \<longleftrightarrow> currentState (smap w) \<in> {STANDBYSTATE, IDLESTATE}"
    by (cases "currentState (smap w)") simp_all
  have t: "targ (motor (subOff now MOTOR v)) = OFF" "comm (subOff now MOTOR v) = comm v"
    "targ (comm (subOff now COMM v)) = OFF" "motor (subOff now COMM v) = motor v" for v
    by (simp_all add: subOff_def putCtx_def putSub_def power_simps)
  show ?thesis
    using acc by (auto simp: cmdPower_def cmdPowerBase_def powerMotor_def powerComm_def Let_def t)
qed

theorem power_off_command_witness:
  "targ (comm (snd (cmdPower 5 COMM False world_comm_on))) = OFF"
proof -
  have "currentState (smap world_comm_on) \<in> {STANDBYSTATE, IDLESTATE}" by code_simp
  then show ?thesis using power_off_command [OF reachable_comm_on, of 5] by blast
qed

section \<open>Readings and timeouts\<close>

lemma subOff_targ_motor: "targ (motor (subOff now MOTOR w)) = OFF"
  using targ_subOff [of MOTOR now MOTOR w] by (simp add: getSub_def)

lemma processDaq_quiet_from:
  assumes "safe w"
  shows "targ (getSub u (daqMotorAlone now info (daqHealth now info w))) = OFF \<Longrightarrow>
    targ (getSub u (processDaq now info w)) = OFF"
proof -
  let ?a = "daqMotorAlone now info (daqHealth now info w)"
  have a: "steps False w ?a"
    by (simp add: daqMotorAlone_def daqHealth_def Let_def steps_off steps_updatePowerFaults)
  let ?f = "processDaqHealthTelemetry (boostCurrentFaultEnabled w) info 0"
  let ?m = "subProcessDaq now MOTOR info ?f ?a"
  let ?c = "subProcessDaq now COMM info (fst (snd ?m)) (snd (snd ?m))"
  have "steps False ?a (daqStatus (fst ?m) (fst ?c) (updatePowerFaults now (fst (snd ?c)) POWER_SUBSYSTEM (snd (snd ?c))))"
    by (simp add: daqStatus_def steps_fields steps_updatePowerFaults steps_subProcessDaq)
  then have "steps False ?a (processDaq now info w)"
    by (simp add: processDaq_pieces Let_def case_prod_beta)
  then show "targ (getSub u ?a) = OFF \<Longrightarrow> targ (getSub u (processDaq now info w)) = OFF"
    using steps_quiet steps_safe [OF a assms] by blast
qed

text \<open>C10: A reading that shows the MOTOR output on while the COMM output is off turns MOTOR
  off: its target is OFF and its power-on output low after the reading.\<close>

theorem motor_never_alone:
  assumes "reachable w" and "out_bit_on (si_outputPort info) MOTOR_POWER_ON"
    and "\<not> out_bit_on (si_outputPort info) ILC_COMM_POWER_ON"
  shows "targ (motor (processDaq now info w)) = OFF \<and> \<not> out_bit_on (outPort (processDaq now info w)) MOTOR_POWER_ON"
proof -
  have s: "safe w" using m2.reach_inv [OF assms(1)] by (simp add: conn_inv_def sys_inv_def)
  have off: "targ (motor (processDaq now info w)) = OFF"
    using processDaq_quiet_from [OF s, of MOTOR now info] assms(2,3)
    by (simp add: daqMotorAlone_def subOff_targ_motor getSub_def)
  have "safe (processDaq now info w)"
    by (rule steps_safe [OF _ s, of False]) (simp add: steps_processDaq)
  then show ?thesis using off safe_outputs by (auto simp: outputs_follow_targets_def)
qed

theorem motor_never_alone_witness:
  "targ (motor (processDaq 9 (si_zero \<lparr> si_outputPort := write_out 0 MOTOR_POWER_ON True \<rparr>) world_comm_on)) = OFF"
proof -
  have "out_bit_on (si_outputPort (si_zero \<lparr> si_outputPort := write_out 0 MOTOR_POWER_ON True \<rparr>)) MOTOR_POWER_ON"
    "\<not> out_bit_on (si_outputPort (si_zero \<lparr> si_outputPort := write_out 0 MOTOR_POWER_ON True \<rparr>)) ILC_COMM_POWER_ON"
    by (simp_all add: si_zero_def bitmap_simps)
  from motor_never_alone [OF reachable_comm_on this] show ?thesis by blast
qed

lemma checkTimeout_off: "d > sysInfoTimeoutSecs \<Longrightarrow> safe w \<Longrightarrow> targets_off (snd (checkTimeout now d w))"
proof -
  assume d: "d > sysInfoTimeoutSecs" and s: "safe w"
  let ?v = "subOff now COMM (subOff now MOTOR w)"
  have off: "targets_off ?v" using turnOffAll_off [of now w] by (simp add: turnOffAll_def)
  have "safe ?v" by (rule steps_safe [OF _ s, of False]) (simp add: steps_off)
  moreover have "steps False ?v (snd (checkTimeout now d w))"
    using d by (simp add: checkTimeout_def Let_def steps_updatePowerFaults)
  ultimately show ?thesis using off steps_targets_off by blast
qed

lemma stale_processed_off:
  assumes "d > sysInfoTimeoutSecs" and "safe v"
  shows "targets_off (processDaq now i (snd (checkTimeout now d v)))"
    and "\<not> out_bit_on (outPort (processDaq now i (snd (checkTimeout now d v)))) MOTOR_POWER_ON"
    and "\<not> out_bit_on (outPort (processDaq now i (snd (checkTimeout now d v)))) ILC_COMM_POWER_ON"
proof -
  have a: "safe (snd (checkTimeout now d v))"
    by (rule steps_safe [OF _ assms(2), of False]) (simp add: steps_checkTimeout)
  have b: "steps False (snd (checkTimeout now d v)) (processDaq now i (snd (checkTimeout now d v)))"
    by (simp add: steps_processDaq)
  show off: "targets_off (processDaq now i (snd (checkTimeout now d v)))"
    by (rule steps_targets_off [OF b a checkTimeout_off [OF assms]])
  show "\<not> out_bit_on (outPort (processDaq now i (snd (checkTimeout now d v)))) MOTOR_POWER_ON"
    and "\<not> out_bit_on (outPort (processDaq now i (snd (checkTimeout now d v)))) ILC_COMM_POWER_ON"
    using outputs_off [OF safe_outputs [OF steps_safe [OF b a]]] off by blast+
qed

lemma stale_check_off:
  assumes "safe w" and "timePassedSec (daqReadTime w) now > sysInfoTimeoutSecs"
  shows "targets_off (daqTimeoutCheck now w)" "\<not> out_bit_on (outPort (daqTimeoutCheck now w)) MOTOR_POWER_ON"
    "\<not> out_bit_on (outPort (daqTimeoutCheck now w)) ILC_COMM_POWER_ON"
  using assms stale_processed_off [of "timePassedSec (daqReadTime w) now" w]
  by (simp_all add: daqTimeoutCheck_def case_prod_beta, simp_all add: checkTimeout_def Let_def)

lemma stale_read_off:
  assumes "safe w" and "timePassedSec (si_timestamp (fpgaInfo w)) now > sysInfoTimeoutSecs"
  shows "targets_off (daqInfoRead now w)" "\<not> out_bit_on (outPort (daqInfoRead now w)) MOTOR_POWER_ON"
    "\<not> out_bit_on (outPort (daqInfoRead now w)) ILC_COMM_POWER_ON"
proof -
  have "safe (w \<lparr> daqReadTime := now \<rparr>)" using assms(1) by (simp add: safe_def)
  from stale_processed_off [OF assms(2) this]
  show "targets_off (daqInfoRead now w)" "\<not> out_bit_on (outPort (daqInfoRead now w)) MOTOR_POWER_ON"
    "\<not> out_bit_on (outPort (daqInfoRead now w)) ILC_COMM_POWER_ON"
    by (simp_all add: daqInfoRead_def Let_def case_prod_beta)
qed

text \<open>C11: Without fresh readings power goes off: a timeout check more than 1.5 seconds after the
  last reading was taken in, and a reading whose time stamp is older than 1.5 seconds, leave
  both targets OFF and both power-on outputs low.\<close>

theorem stale_data_turns_off:
  assumes "reachable w"
  shows "(timePassedSec (daqReadTime w) now > 3 / 2 \<longrightarrow>
      targets_off (daqTimeoutCheck now w) \<and>
      \<not> out_bit_on (outPort (daqTimeoutCheck now w)) MOTOR_POWER_ON \<and>
      \<not> out_bit_on (outPort (daqTimeoutCheck now w)) ILC_COMM_POWER_ON) \<and>
    (timePassedSec (si_timestamp (fpgaInfo w)) now > 3 / 2 \<longrightarrow>
      targets_off (daqInfoRead now w) \<and>
      \<not> out_bit_on (outPort (daqInfoRead now w)) MOTOR_POWER_ON \<and>
      \<not> out_bit_on (outPort (daqInfoRead now w)) ILC_COMM_POWER_ON)"
proof -
  have s: "safe w" using m2.reach_inv [OF assms] by (simp add: conn_inv_def sys_inv_def)
  show ?thesis
    using stale_check_off [OF s, of now] stale_read_off [OF s, of now] by (simp add: sysInfoTimeoutSecs_def)
qed

theorem stale_data_turns_off_witness:
  "targ (comm world_comm_on) = ON \<and> targets_off (daqTimeoutCheck 2000000000 world_comm_on)"
proof -
  have "targ (comm world_comm_on) = ON" "timePassedSec (daqReadTime world_comm_on) 2000000000 > 3 / 2"
    by code_simp+
  then show ?thesis using stale_data_turns_off [OF reachable_comm_on] by blast
qed

section \<open>System states\<close>

text \<open>The state changes exactly along the table: to the same state always; out of
  StartupState only once the setup is finished; to StandbyState, OfflineState and IdleState
  from everywhere; to InMotionState from IdleState and PauseState; to PauseState from IdleState
  and InMotionState. An entered OfflineState turns both subsystems off.\<close>

theorem state_table:
  assumes "reachable w"
  shows "fst (modelChangeState now (getState s (smap w)) w) = allowed (setupFinished w) (currentState (smap w)) s \<and>
    currentState (smap (snd (modelChangeState now (getState s (smap w)) w))) =
      (if allowed (setupFinished w) (currentState (smap w)) s then s else currentState (smap w)) \<and>
    (s = OFFLINESTATE \<longrightarrow> targets_off (snd (modelChangeState now (getState s (smap w)) w)))"
proof -
  have inv: "conn_inv w" by (rule m2.reach_inv [OF assms])
  then have sm: "sm_ok (smap w)" by (simp add: conn_inv_def sys_inv_def)
  have e: "modelChangeState now (getState s (smap w)) w =
      applyChange now (changeStateBody (setupFinished w) (Some s) (smap w)) w"
    by (simp add: modelChangeState_def changeState_entry [OF sm])
  have "targets_off (snd (modelChangeState now (getState s (smap w)) w))" if "s = OFFLINESTATE"
  proof (cases "allowed (setupFinished w) (currentState (smap w)) s")
    case True
    then show ?thesis
      unfolding e using that by (simp add: changeStateBody_allowed [OF sm] applyChange_def enterCurrent_def turnOffAll_off)
  next
    case False
    then have "currentState (smap w) = STARTUPSTATE" using that by (simp add: allowed_def)
    then have "targets_off w" using inv by (simp add: conn_inv_def sys_inv_def must_be_off_def)
    then show ?thesis
      unfolding e using False by (simp add: changeStateBody_allowed [OF sm] applyChange_def enterCurrent_def targets_off_def)
  qed
  then show ?thesis by (simp add: e changeStateBody_allowed [OF sm])
qed

theorem state_table_witness:
  "fst (modelChangeState 5 (getState IDLESTATE (smap world_comm_on)) world_comm_on) \<and>
   \<not> fst (modelChangeState 5 (getState PAUSESTATE (smap world_comm_on)) world_comm_on)"
proof -
  have "currentState (smap world_comm_on) = STANDBYSTATE" "setupFinished world_comm_on" by code_simp+
  then show ?thesis
    using state_table [OF reachable_comm_on, of 5 IDLESTATE] state_table [OF reachable_comm_on, of 5 PAUSESTATE]
    by (simp add: allowed_def)
qed

text \<open>After a subsystem reported a change, the system state agrees with the power: in
  IdleState, PauseState and InMotionState both subsystems are ON with target ON, and in
  StandbyState they are not all of that. In StartupState and OfflineState both targets are OFF.
  The report is broadcast to every connection of the server with the type, the state and
  whether the target is ON.\<close>

theorem report_agrees:
  fixes now :: timepoint
  assumes "reachable w" and "t = MOTOR \<or> t = COMM"
  defines "w' \<equiv> reportPowerSystemStateChange now t (targ (getSub t w)) (actual (getSub t w)) w"
  shows "(currentState (smap w') \<in> {IDLESTATE, PAUSESTATE, INMOTIONSTATE} \<longrightarrow> allPowerOn w') \<and>
    (currentState (smap w') = STANDBYSTATE \<longrightarrow> \<not> allPowerOn w') \<and>
    (currentState (smap w') \<in> {STARTUPSTATE, OFFLINESTATE} \<longrightarrow> targets_off w') \<and>
    (serverAlive w \<longrightarrow> (\<exists>m. outbox w' = outbox w @ [m] \<and> msg_to m = connections w \<and>
       msg_powerType m = powerSystemTypeVal t \<and> msg_state m = powerStateVal (actual (getSub t w)) \<and>
       (msg_status m \<longleftrightarrow> targ (getSub t w) = ON)))"
proof -
  have inv: "conn_inv w" by (rule m2.reach_inv [OF assms(1)])
  then have sm: "sm_ok (smap w)" by (simp add: conn_inv_def sys_inv_def)
  define v where "v = reportSwitch now w"
  have fr: "smap w' = smap v" "allPowerOn w' = allPowerOn v" "targets_off w' = targets_off v"
    by (simp_all add: w'_def v_def reportPowerSystemStateChange_def broadcast_def allPowerOn_def targets_off_def)
  have same: "allPowerOn (snd (modelChangeStateEnum now s w)) = allPowerOn w"
    if "s = IDLESTATE \<or> s = STANDBYSTATE" "currentState (smap w) \<notin> {STARTUPSTATE, OFFLINESTATE}" for s
    using that
    by (auto simp: modelChangeStateEnum_def changeState_entry [OF sm] changeStateBody_allowed [OF sm]
        applyChange_def enterCurrent_def allPowerOn_def)
  have st: "currentState (smap (snd (modelChangeStateEnum now s w))) = s"
    if "s = IDLESTATE \<or> s = STANDBYSTATE" "currentState (smap w) \<notin> {STARTUPSTATE, OFFLINESTATE}" for s
    using that
    by (auto simp: modelChangeStateEnum_def changeState_entry [OF sm] changeStateBody_allowed [OF sm] allowed_def)
  have "(currentState (smap v) \<in> {IDLESTATE, PAUSESTATE, INMOTIONSTATE} \<longrightarrow> allPowerOn v) \<and>
    (currentState (smap v) = STANDBYSTATE \<longrightarrow> \<not> allPowerOn v) \<and>
    (currentState (smap v) \<in> {STARTUPSTATE, OFFLINESTATE} \<longrightarrow> targets_off v)"
  proof (cases "currentState (smap w)")
    case OFFLINESTATE
    then show ?thesis using turnOffAll_off [of now w] by (auto simp: v_def reportSwitch_def targets_off_def)
  next
    case STARTUPSTATE
    then show ?thesis using turnOffAll_off [of now w] by (auto simp: v_def reportSwitch_def targets_off_def)
  qed (use same [of IDLESTATE] same [of STANDBYSTATE] st [of IDLESTATE] st [of STANDBYSTATE]
        in \<open>auto simp: v_def reportSwitch_def Let_def\<close>)
  moreover have "serverAlive v = serverAlive w" "connections v = connections w" "outbox v = outbox w"
    by (simp_all add: v_def reportSwitch_def Let_def modelChangeStateEnum_def)
  ultimately show ?thesis
    unfolding fr by (auto simp: w'_def v_def [symmetric] reportPowerSystemStateChange_def broadcast_def powerSystemStateMsg_def)
qed

theorem report_agrees_witness:
  "(\<exists>m. outbox (reportPowerSystemStateChange 5 COMM (targ (getSub COMM world_comm_on)) (actual (getSub COMM world_comm_on)) world_comm_on)
        = outbox world_comm_on @ [m] \<and> msg_to m = connections world_comm_on)"
proof -
  have "serverAlive world_comm_on" by code_simp
  then show ?thesis using report_agrees [OF reachable_comm_on, of COMM 5] by blast
qed

end
