(* ===== verification/M2FaultProps.thy ===== *)
theory M2FaultProps
  imports M2Handlers M2Props
begin

text \<open>
  The properties of the fault handling of the whole system: what safe mode leaves, what the
  offline state and a latched fault survive, what reaches the system summary, and what a
  stale connection count does.
\<close>

section \<open>Safe mode and new faults\<close>

text \<open>Going to safe mode turns both subsystems off. OfflineState stays, StartupState stays
  until the setup is finished, and every other state becomes StandbyState. It does not touch
  the fault records or the connections.\<close>

theorem safe_mode:
  fixes now :: timepoint
  assumes "reachable w"
  defines "w' \<equiv> snd (goToSafeMode now w)"
  shows "targets_off w' \<and> \<not> out_bit_on (outPort w') MOTOR_POWER_ON \<and> \<not> out_bit_on (outPort w') ILC_COMM_POWER_ON \<and>
    currentState (smap w') =
      (if currentState (smap w) = OFFLINESTATE \<or> (currentState (smap w) = STARTUPSTATE \<and> \<not> setupFinished w)
       then currentState (smap w) else STANDBYSTATE) \<and>
    wfm w' = wfm w \<and> connections w' = connections w"
proof -
  have inv: "conn_inv w" by (rule m2.reach_inv [OF assms(1)])
  then have s: "safe w" and sm: "sm_ok (smap w)" by (simp_all add: conn_inv_def sys_inv_def)
  have steps: "steps False w w'" unfolding w'_def by (simp add: steps_goToSafeMode)
  have "targets_off w'"
    using goToSafeMode_inv(2) [of w now] inv by (simp add: w'_def conn_inv_def sys_inv_def)
  moreover have "outputs_follow_targets w'" by (rule safe_outputs [OF steps_safe [OF steps s]])
  moreover have "currentState (smap w') =
      (if currentState (smap w) = OFFLINESTATE \<or> (currentState (smap w) = STARTUPSTATE \<and> \<not> setupFinished w)
       then currentState (smap w) else STANDBYSTATE)"
    using goToASafeState_standby [OF sm, of "setupFinished w"]
    by (auto simp: w'_def goToSafeMode_def Let_def allowed_def)
  moreover have "wfm w' = wfm w" "connections w' = connections w"
    by (simp_all add: w'_def goToSafeMode_def Let_def)
  ultimately show ?thesis using outputs_off by blast
qed

theorem safe_mode_witness:
  "targ (comm world_comm_on) = ON \<and> targets_off (snd (goToSafeMode 5 world_comm_on))"
proof -
  have "targ (comm world_comm_on) = ON" by code_simp
  then show ?thesis using safe_mode [OF reachable_comm_on, of 5] by blast
qed

text \<open>What a report of power faults does. If it agrees with the previous report on the
  enabled faults, only the current faults of the power record change: a standing health fault
  turns nothing off. If it does not and it contains a health fault, both subsystems are turned
  off and the system goes to safe mode; if it contains none, power, state and connections
  stay as they are.\<close>

theorem power_fault_report:
  fixes now :: timepoint and cf :: "64 word"
  assumes "reachable w"
  defines "p \<equiv> powerFaultMgr (wfm w)"
    and "w' \<equiv> updatePowerFaults now cf POWER_SUBSYSTEM w"
  shows "(if (prevFaults p XOR cf) AND faultEnableMask p = 0
          then w' = w \<lparr> wfm := (wfm w) \<lparr> powerFaultMgr := p \<lparr> currentFaults := cf \<rparr> \<rparr> \<rparr>
          else if cf AND healthFaultMask (wfm w) \<noteq> 0
          then targets_off w' \<and> \<not> out_bit_on (outPort w') MOTOR_POWER_ON \<and>
               \<not> out_bit_on (outPort w') ILC_COMM_POWER_ON \<and>
               (currentState (smap w) \<notin> {OFFLINESTATE, STARTUPSTATE} \<longrightarrow> currentState (smap w') = STANDBYSTATE)
          else w' = w \<lparr> wfm := wfm w' \<rparr>)"
proof -
  have inv: "conn_inv w" by (rule m2.reach_inv [OF assms(1)])
  then have s: "safe w" and sm: "sm_ok (smap w)" and b: "bfm_ok (powerFaultMgr (wfm w))"
    by (simp_all add: conn_inv_def sys_inv_def)
  let ?same = "(prevFaults p XOR cf) AND faultEnableMask p = 0"
  have merge: "fst (fm_powerMerge now cf (wfm w)) \<longleftrightarrow> \<not> ?same"
    by (simp add: fm_powerMerge_def bfm_updateFaults_def Let_def p_def)
  show ?thesis
  proof (cases "?same")
    case True
    then have "w' = w \<lparr> wfm := (wfm w) \<lparr> powerFaultMgr := p \<lparr> currentFaults := cf \<rparr> \<rparr> \<rparr>"
      by (simp add: w'_def updatePowerFaults_def fm_powerMerge_def bfm_updateFaults_def Let_def p_def)
    with True show ?thesis by simp
  next
    case False
    define v where "v = w \<lparr> wfm := snd (fm_powerMerge now cf (wfm w)) \<rparr>"
    have v: "safe v" "sm_ok (smap v)" "bfm_ok (powerFaultMgr (wfm v))" "healthFaultMask (wfm v) = healthFaultMask (wfm w)"
      "smap v = smap w"
      using s sm b by (simp_all add: v_def safe_def world_frame fm_powerMerge_report bfm_ok_report)
    have w': "w' = (let x = (if cf AND healthFaultMask (wfm v) \<noteq> 0 then snd (goToSafeMode now v) else v)
                    in x \<lparr> wfm := fm_summaryUpdate (wfm x) \<rparr>)"
      using False merge by (simp add: w'_def updatePowerFaults_def case_prod_beta v_def fm_needsSafeMode_def)
    show ?thesis
    proof (cases "cf AND healthFaultMask (wfm w) = 0")
      case True
      then have "w' = v \<lparr> wfm := fm_summaryUpdate (wfm v) \<rparr>" using v(4) by (simp add: w')
      then have "w' = w \<lparr> wfm := wfm w' \<rparr>" by (simp add: v_def)
      then show ?thesis using False True by simp
    next
      case health: False
      let ?x = "snd (goToSafeMode now v)"
      have w'x: "w' = ?x \<lparr> wfm := fm_summaryUpdate (wfm ?x) \<rparr>" using health v(4) by (simp add: w' Let_def)
      have "safe ?x" by (rule steps_safe [OF _ v(1), of False]) (simp add: steps_goToSafeMode)
      then have "\<not> out_bit_on (outPort ?x) MOTOR_POWER_ON \<and> \<not> out_bit_on (outPort ?x) ILC_COMM_POWER_ON"
        using outputs_off [OF safe_outputs] goToSafeMode_inv(2) [OF v(1,2,3)] by blast
      moreover have "currentState (smap w) \<notin> {OFFLINESTATE, STARTUPSTATE} \<longrightarrow> currentState (smap ?x) = STANDBYSTATE"
        using goToASafeState_standby [OF v(2)] by (simp add: goToSafeMode_inv(5) [OF v(1,2,3)] v(5) allowed_def)
      ultimately show ?thesis
        using False health goToSafeMode_inv(2) [OF v(1,2,3), of now] by (simp add: w'x targets_off_def)
    qed
  qed
qed

theorem power_fault_report_witness:
  "targ (comm world_comm_on) = ON \<and>
   targets_off (updatePowerFaults 5 (setFault 0 POWER_HEALTH_FAULT) POWER_SUBSYSTEM world_comm_on)"
proof -
  let ?p = "powerFaultMgr (wfm world_comm_on)"
  have "targ (comm world_comm_on) = ON"
    "(prevFaults ?p XOR setFault 0 POWER_HEALTH_FAULT) AND faultEnableMask ?p \<noteq> 0"
    "setFault 0 POWER_HEALTH_FAULT AND healthFaultMask (wfm world_comm_on) \<noteq> 0"
    by code_simp+
  then show ?thesis
    using power_fault_report [OF reachable_comm_on, of "setFault 0 POWER_HEALTH_FAULT" 5] by (simp add: Let_def)
qed

section \<open>What survives\<close>

text \<open>The events that can take the system out of OfflineState.\<close>

fun wakes :: "event \<Rightarrow> bool" where
  "wakes (Accept now i ok) = True"
| "wakes (ChangeState now s) = True"
| "wakes (CtrlStart now) = True"
| "wakes _ = False"

lemma offline_smap: "offline w \<Longrightarrow> smap v = smap w \<Longrightarrow> offline v"
  by (simp add: offline_def)

lemma offline_reportConnections: "offline w \<Longrightarrow> offline (reportComConnectionCount now n w)"
  by (rule offl.P_reportComConnectionCount) (simp_all add: offline_def)

lemma offline_exec:
  assumes "offline w" and "\<not> wakes e"
  shows "offline (exec e w)"
proof (cases e)
  case (ReadFpga reg hw)
  then show ?thesis using assms(1)
    by (auto simp: readWriteFpga_def or_else_def Let_def emergencyTurnOffAllPower_def offline_def)
next
  case (CloseConnection now i active)
  have "offline (setTcpIpConnected now False w)"
  proof -
    let ?v = "w \<lparr> tcpCount := tcpCount w - 1 \<rparr>"
    have "offline ?v" using assms(1) by (simp add: offline_def)
    from offline_change [OF this, of now] show ?thesis
      using assms(1) by (auto simp: setTcpIpConnected_def Let_def offline_def)
  qed
  then have "offline (if active then setTcpIpConnected now False w else w)" using assms(1) by simp
  then have "offline (connectionShutdown now i active w)"
    unfolding connectionShutdown_def eraseConnection_def eraseFromMap_def Let_def
    by (auto intro!: offline_reportConnections elim: offline_smap)
  with CloseConnection show ?thesis by simp
next
  case (SystemShutdown now)
  have "offline (systemShutdown now w)"
    unfolding systemShutdown_def Let_def
    by (rule offline_smap [OF offl.P_turnOffAll [OF offline_change [OF assms(1), of now], of now]]) simp
  with SystemShutdown show ?thesis by simp
next
  case (ComTimeoutCheck now)
  then show ?thesis using assms(1) by (simp add: comTimeoutCheck_def engineCheckTimeout_def offline_def)
next
  case (ResetFaults now m)
  then show ?thesis using assms(1) by (simp add: offline_def)
next
  case (EnableFaults m)
  then show ?thesis using assms(1) by (simp add: offline_def)
next
  case (WriteInterlock b)
  then show ?thesis using assms(1) by (simp add: offline_def writeCrioInterlockEnable_def)
next
  case CtrlSetup
  then show ?thesis using assms(1) by (simp add: offline_def ctrlSetup_def)
next
  case CtrlStop
  then show ?thesis using assms(1) by (simp add: offline_def ctrlStop_def)
next
  case CtrlJoin
  then show ?thesis using assms(1) by (simp add: offline_def ctrlJoin_def)
next
  case (CmdPower now t on)
  then show ?thesis using assms(1) by (simp add: offline_def)
next
  case ServerRun
  then show ?thesis using assms(1) by (simp add: offline_def)
next
  case ServerStopped
  then show ?thesis using assms(1) by (simp add: offline_def)
qed (use assms in \<open>simp_all add: offl.P_daqInfoRead offl.P_daqTimeoutCheck\<close>)

lemma offline_run: "offline w \<Longrightarrow> (\<forall>e\<in>set es. \<not> wakes e) \<Longrightarrow> offline (fold exec es w)"
  by (induction es arbitrary: w) (auto simp: offline_exec)

text \<open>OfflineState is left only by a new connection, by a request for another state or by
  the start of the control. Until then both subsystems stay off, whatever readings, timeouts,
  power commands and closing connections there are.\<close>

theorem offline_until_woken:
  assumes "reachable w" and "currentState (smap w) = OFFLINESTATE" and "\<forall>e\<in>set es. \<not> wakes e"
  shows "currentState (smap (fold exec es w)) = OFFLINESTATE \<and> targets_off (fold exec es w) \<and>
    \<not> out_bit_on (outPort (fold exec es w)) MOTOR_POWER_ON \<and> \<not> out_bit_on (outPort (fold exec es w)) ILC_COMM_POWER_ON"
proof -
  have "conn_inv w" by (rule m2.reach_inv [OF assms(1)])
  then have "offline w" using assms(2) by (simp add: offline_def conn_inv_def sys_inv_def)
  then have off: "currentState (smap (fold exec es w)) = OFFLINESTATE"
    using offline_run [OF _ assms(3)] by (simp add: offline_def)
  have inv: "conn_inv (fold exec es w)" by (rule m2.reach_inv [OF m2.reach_run [OF assms(1)]])
  then have "targets_off (fold exec es w)" using off by (simp add: conn_inv_def sys_inv_def must_be_off_def)
  then show ?thesis
    using off outputs_off [OF safe_outputs] inv by (auto simp: conn_inv_def sys_inv_def)
qed

theorem offline_until_woken_witness:
  "currentState (smap (fold exec [CmdPower 6 COMM True] (exec (CloseConnection 5 7 True) world_comm_on))) = OFFLINESTATE"
proof -
  have "currentState (smap (exec (CloseConnection 5 7 True) world_comm_on)) = OFFLINESTATE" by code_simp
  then show ?thesis
    using offline_until_woken [OF reachable.step [OF reachable_comm_on], of "CloseConnection 5 7 True" "[CmdPower 6 COMM True]"]
    by simp
qed

text \<open>The faults that block a subsystem; its breaker fault is taken out of the mask.\<close>

fun blocks :: "PowerSystemType \<Rightarrow> fault_bit \<Rightarrow> bool" where
  "blocks MOTOR f = (f \<in> {MOTOR_VOLTAGE_FAULT, MOTOR_OVER_CURRENT, POWER_RELAY_OPEN_FAULT})"
| "blocks COMM f = (f \<in> {COMM_VOLTAGE_FAULT, COMM_OVER_CURRENT, POWER_RELAY_OPEN_FAULT})"
| "blocks _ f = False"

lemma blocks_mask:
  "blocks t f \<Longrightarrow> is_sub t \<and> f \<noteq> CRIO_COMM_FAULT \<and> hasFault getMaskFaults f \<and>
     hasFault (unsetFault (subsystemFaultMask (configOf t)) (breakerFault (configOf t))) f"
  by (cases t) (auto simp: motorConfig_unfold commConfig_unfold mask_defs bitmap_simps)

lemma subsystemFaults_latched: "latched_fault f (powerFaultMgr fm) \<Longrightarrow> blocks t f \<Longrightarrow> subsystemFaults t fm"
  using checkForPowerSubsystemFaults_latched [of fm f] blocks_mask [of t f]
  by (simp add: subsystemFaults_def latched_fault_def)

text \<open>C6: A voltage, over-current or relay fault that the power record has latched stays latched
  through every sequence of events in which no explicit reset names it: connections that come
  and go, readings, and commands do not clear it. While it is latched, every command to turn on
  a subsystem it concerns is refused.\<close>

theorem latched_fault_blocks_power:
  assumes "reachable w" and "blocks t f"
    and "hasFault (summaryFaults (powerFaultMgr (wfm w))) f"
    and "\<forall>now m. ResetFaults now m \<in> set es \<longrightarrow> \<not> hasFault m f"
  shows "hasFault (summaryFaults (powerFaultMgr (wfm (fold exec es w)))) f \<and>
    \<not> fst (cmdPower now t True (fold exec es w))"
proof -
  let ?v = "fold exec es w"
  note t = blocks_mask [OF assms(2)]
  have "conn_inv w" by (rule m2.reach_inv [OF assms(1)])
  then have "latched_fault f (powerFaultMgr (wfm w))"
    using assms(3) t by (simp add: latched_fault_def conn_inv_def sys_inv_def bfm_latched_def fault_set_def)
  then have l: "latched_fault f (powerFaultMgr (wfm ?v))"
    using assms(4) by (intro lat.R_run) blast+
  have "conn_inv ?v" by (rule m2.reach_inv [OF m2.reach_run [OF assms(1)]])
  then have s: "safe ?v" by (simp add: conn_inv_def sys_inv_def)
  have "\<not> fst (subOn now t ?v)"
    using subOn_cases(1) [OF s, of t now] subsystemFaults_latched [OF l assms(2)] t by simp
  then have "\<not> fst (cmdPower now t True ?v)"
    using t by (auto simp: cmdPower_def cmdPowerBase_def powerMotor_def powerComm_def is_sub_def split: if_splits)
  then show ?thesis using l by (simp add: latched_fault_def bfm_latched_def fault_set_def)
qed

text \<open>A run that latches a fault: COMM is commanded on and the next reading shows 27 V.\<close>

definition si_over :: sys_info where
  "si_over = si_comm \<lparr> si_timestamp := 5, si_commVoltage := 27 \<rparr>"

definition world_reading :: world where
  "world_reading = exec (ReadFpga True (\<lambda>p. si_over)) world_comm_on"

definition world_latched :: world where
  "world_latched = exec (DaqInfoRead 6) world_reading"

definition motor_step :: "SysStatus \<times> 64 word \<times> world" where
  "motor_step = subProcessDaq 6 MOTOR si_over 0 (world_reading \<lparr> daqReadTime := 6 \<rparr>)"

lemma reachable_latched: "reachable world_latched"
  unfolding world_latched_def world_reading_def by (intro reachable.step reachable_comm_on)

lemma world_latched_fault: "hasFault (summaryFaults (powerFaultMgr (wfm world_latched))) COMM_VOLTAGE_FAULT"
proof -
  let ?w = "world_reading \<lparr> daqReadTime := 6 \<rparr>"
  let ?c = "subProcessDaq 6 COMM si_over (fst (snd motor_step)) (snd (snd motor_step))"
  have health: "processDaqHealthTelemetry (boostCurrentFaultEnabled ?w) si_over 0 = 0"
    and alone: "\<not> out_bit_on (si_outputPort si_over) MOTOR_POWER_ON"
    and info: "si_timestamp si_over = 5"
    and flt: "hasFault (fst (snd ?c)) COMM_VOLTAGE_FAULT"
    by code_simp+
  have taken: "fpgaInfo world_reading = si_over"
    by (simp add: world_reading_def world_comm_on_def world_connected_def startup_events_def readWriteFpga_def
        or_else_def Let_def) code_simp
  let ?u = "updatePowerFaults 6 (fst (snd ?c)) POWER_SUBSYSTEM (snd (snd ?c))"
  have latched: "wfm world_latched = wfm ?u"
    using health alone info
    by (simp add: world_latched_def daqInfoRead_def taken checkTimeout_def sysInfoTimeoutSecs_def timePassedSec_def
        processDaq_pieces daqHealth_def daqMotorAlone_def Let_def case_prod_beta motor_step_def daqStatus_def)
  have "conn_inv world_reading"
    unfolding world_reading_def by (rule m2.reach_inv [OF reachable.step [OF reachable_comm_on]])
  then have "kept (commConnectionFault (wfm world_reading)) (connections world_reading) ?w"
    by (intro kept_fields sys_inv_kept) (simp add: conn_inv_def)
  then have "kept (commConnectionFault (wfm world_reading)) (connections world_reading) (snd (snd ?c))"
    by (simp add: kept_subProcessDaq motor_step_def)
  then have ok: "bfm_ok (powerFaultMgr (wfm (snd (snd ?c))))" by (rule kept_bfm [THEN conjunct1])
  have "powerFaultMgr (wfm ?u) = bfm_report 6 (powerFaultMgr (wfm (snd (snd ?c)))) (fst (snd ?c))"
    by (simp add: updatePowerFaults_def Let_def case_prod_beta goToSafeMode_def world_frame fm_powerMerge_report)
  then have "COMM_VOLTAGE_FAULT \<in> bfm_latched (powerFaultMgr (wfm world_latched))"
    using bfm_latched_report [OF ok] flt by (simp add: latched fault_set_def mask_defs bitmap_simps)
  then show ?thesis by (simp add: bfm_latched_def fault_set_def)
qed

theorem latched_fault_blocks_power_witness:
  "\<not> fst (cmdPower 9 COMM True (fold exec [CloseConnection 7 7 True, Accept 8 9 True] world_latched))"
  using latched_fault_blocks_power [OF reachable_latched, of COMM COMM_VOLTAGE_FAULT
      "[CloseConnection 7 7 True, Accept 8 9 True]"] world_latched_fault
  by simp

section \<open>The MOTOR interlock\<close>

text \<open>
  The events of a run in which nobody enables the interlock output and in which the hardware
  does not read the interlock output as enabled when the output port does not have it enabled.
\<close>

fun interlock_untouched :: "event \<Rightarrow> bool" where
  "interlock_untouched (WriteInterlock b) = (\<not> b)"
| "interlock_untouched (ReadFpga reg hw) = (\<forall>p. \<not> out_bit_on p CRIO_INTERLOCK_ENABLE \<longrightarrow> crio_off (hw p))"
| "interlock_untouched _ = True"

lemma no_interlock_reportConnections: "no_interlock w \<Longrightarrow> no_interlock (reportComConnectionCount now n w)"
  by (rule noil.P_reportComConnectionCount) (simp_all add: no_interlock_cong)

lemma no_interlock_changeState: "no_interlock w \<Longrightarrow> no_interlock (snd (modelChangeState now p w))"
  by (simp add: modelChangeState_def no_interlock_applyChange)

lemma no_interlock_tcp: "no_interlock w \<Longrightarrow> no_interlock (setTcpIpConnected now b w)"
proof -
  assume ni: "no_interlock w"
  define v where "v = w \<lparr> tcpCount := (if b then tcpCount w + 1 else tcpCount w - 1) \<rparr>"
  have v: "no_interlock v" by (rule no_interlock_cong [OF ni]) (simp_all add: v_def)
  then have "no_interlock (snd (modelChangeState now p v))" for p by (rule no_interlock_changeState)
  with v show ?thesis unfolding setTcpIpConnected_def Let_def v_def [symmetric] by simp
qed

lemma no_interlock_cmdPower:
  assumes "no_interlock w"
  shows "no_interlock (snd (cmdPower now t on w))"
proof -
  have s: "safe w" using assms by (simp add: no_interlock_def)
  have m: "snd (subOn now MOTOR w) = subOff now MOTOR w"
    using subOn_cases(3) [OF s, of MOTOR now] assms by (auto simp: no_interlock_def crio_off_def)
  have c: "no_interlock (snd (subOn now COMM v))" if "no_interlock v" for v
    using no_interlock_ctx(2) [OF that, of COMM 0] unfolding subOn_def
    by (auto simp: case_prod_beta intro!: no_interlock_putCtx [OF that _ _ kf_setPowerOn] full_inv_setPowerOn)
  show ?thesis
    using assms m c no_interlock_off by (auto simp: cmdPower_def cmdPowerBase_def powerMotor_def powerComm_def Let_def
        split: PowerSystemType.split)
qed

lemma no_interlock_reading:
  assumes "no_interlock w" and "interlock_untouched (ReadFpga reg hw)"
  shows "no_interlock (exec (ReadFpga reg hw) w)"
proof -
  have *: "no_interlock v \<Longrightarrow> no_interlock (v \<lparr> fpgaInfo := hw (outPort v) \<rparr>)" for v
    using assms(2) by (auto simp: no_interlock_def safe_def)
  have "safe (emergencyTurnOffAllPower w)"
    using astep_safe [OF astep.emergency [of False w]] assms(1) by (simp add: no_interlock_def)
  then have "no_interlock (emergencyTurnOffAllPower w)"
    using assms(1) by (simp add: no_interlock_def emergencyTurnOffAllPower_def bitmap_simps)
  with * [OF this] * [OF assms(1)] assms(1) show ?thesis
    by (simp add: readWriteFpga_def or_else_def Let_def)
qed

lemma no_interlock_exec:
  assumes "no_interlock w" and "interlock_untouched e"
  shows "no_interlock (exec e w)"
proof (cases e)
  case (ReadFpga reg hw)
  then show ?thesis using no_interlock_reading assms by simp
next
  case (WriteInterlock b)
  have "safe (writeCrioInterlockEnable b w)"
    using steps_safe [OF steps_interlock [of False w w b]] assms(1) by (simp add: no_interlock_def)
  then show ?thesis using assms WriteInterlock
    by (simp add: no_interlock_def writeCrioInterlockEnable_def bitmap_simps)
next
  case (Accept now i ok)
  define v where "v = (if i \<in> set (connections w) then w else w \<lparr> connections := connections w @ [i] \<rparr>)"
  have "no_interlock v" by (rule no_interlock_cong [OF assms(1)]) (simp_all add: v_def)
  then show ?thesis
    using assms(1) Accept no_interlock_reportConnections no_interlock_tcp
    by (simp add: handleAccept_def Let_def v_def)
next
  case (CloseConnection now i active)
  define v where "v = (if active then setTcpIpConnected now False w else w)"
  have v: "no_interlock v" using assms(1) by (simp add: v_def no_interlock_tcp)
  then have "no_interlock (v \<lparr> connections := cs \<rparr>)" for cs by (rule no_interlock_cong) simp_all
  then show ?thesis
    using CloseConnection v no_interlock_reportConnections
    by (simp add: connectionShutdown_def v_def [symmetric] eraseConnection_def eraseFromMap_def Let_def)
next
  case (CtrlStart now)
  have "no_interlock (w \<lparr> engine := x \<rparr>)" for x by (rule no_interlock_cong [OF assms(1)]) simp_all
  then show ?thesis
    using CtrlStart assms(1) no_interlock_changeState
    by (simp add: ctrlStart_def engineStart_def Let_def)
next
  case CtrlStop
  have "no_interlock (ctrlStop w)" by (rule no_interlock_cong [OF assms(1)]) (simp_all add: ctrlStop_def)
  with CtrlStop show ?thesis by simp
next
  case CtrlJoin
  have "no_interlock (ctrlJoin w)" by (rule no_interlock_cong [OF assms(1)]) (simp_all add: ctrlJoin_def)
  with CtrlJoin show ?thesis by simp
next
  case (SystemShutdown now)
  let ?v = "turnOffAll now (snd (modelChangeState now (getState OFFLINESTATE (smap w)) w))"
  have v: "no_interlock ?v" by (rule no_interlock_turnOffAll [OF no_interlock_changeState [OF assms(1)]])
  have "no_interlock (systemShutdown now w)"
    unfolding systemShutdown_def Let_def by (rule no_interlock_cong [OF v]) simp_all
  with SystemShutdown show ?thesis by simp
next
  case (ComTimeoutCheck now)
  have "no_interlock (comTimeoutCheck now w)"
    by (rule no_interlock_cong [OF assms(1)]) (simp_all add: comTimeoutCheck_def engineCheckTimeout_def)
  with ComTimeoutCheck show ?thesis by simp
next
  case CtrlSetup
  have "no_interlock (ctrlSetup w)" by (rule no_interlock_cong [OF assms(1)]) (simp_all add: ctrlSetup_def)
  with CtrlSetup show ?thesis by simp
next
  case ServerRun
  have "no_interlock (exec ServerRun w)" by (rule no_interlock_cong [OF assms(1)]) simp_all
  with ServerRun show ?thesis by simp
next
  case ServerStopped
  have "no_interlock (exec ServerStopped w)" by (rule no_interlock_cong [OF assms(1)]) simp_all
  with ServerStopped show ?thesis by simp
next
  case (ResetFaults now m)
  have "no_interlock (exec (ResetFaults now m) w)" by (rule no_interlock_cong [OF assms(1)]) simp_all
  with ResetFaults show ?thesis by simp
next
  case (EnableFaults m)
  have "no_interlock (exec (EnableFaults m) w)" by (rule no_interlock_cong [OF assms(1)]) simp_all
  with EnableFaults show ?thesis by simp
qed (use assms in \<open>simp_all add: noil.P_daqInfoRead noil.P_daqTimeoutCheck no_interlock_changeState no_interlock_cmdPower\<close>)

lemma no_interlock_run:
  "no_interlock w \<Longrightarrow> (\<forall>e\<in>set es. interlock_untouched e) \<Longrightarrow> no_interlock (fold exec es w)"
  by (induction es arbitrary: w) (auto simp: no_interlock_exec)

text \<open>C12: MOTOR power needs the crio interlock output, and nothing but an explicit
  \<open>writeCrioInterlockEnable\<close> sets it: from construction on, in every run in which no such call
  enables it and the hardware does not invent it, MOTOR is never turned on and its
  power-on output stays low, whatever commands are given.\<close>

theorem motor_needs_interlock:
  assumes "mkWorld now si0 = Inr w" and "\<forall>e\<in>set es. interlock_untouched e"
  shows "targ (motor (fold exec es w)) = OFF \<and> \<not> out_bit_on (outPort (fold exec es w)) MOTOR_POWER_ON \<and>
    \<not> out_bit_on (outPort (fold exec es w)) CRIO_INTERLOCK_ENABLE"
proof -
  note i = mkWorld_parts [OF assms(1)]
  have "crio_off (fpgaInfo w)" using i(10) by (simp add: crio_off_def bitmap_simps)
  then have "no_interlock w" using i by (simp add: no_interlock_def targets_off_def)
  then have n: "no_interlock (fold exec es w)" by (rule no_interlock_run [OF _ assms(2)])
  then have "\<not> out_bit_on (outPort (fold exec es w)) MOTOR_POWER_ON"
    using safe_outputs by (auto simp: no_interlock_def outputs_follow_targets_def)
  with n show ?thesis by (simp add: no_interlock_def)
qed

theorem motor_needs_interlock_witness:
  "targ (comm (fold exec (startup_events @ [CmdPower 4 COMM True, CmdPower 5 MOTOR True]) world0)) = ON \<and>
   targ (motor (fold exec (startup_events @ [CmdPower 4 COMM True, CmdPower 5 MOTOR True]) world0)) = OFF"
proof -
  let ?es = "startup_events @ [CmdPower 4 COMM True, CmdPower 5 MOTOR True]"
  have "\<forall>e\<in>set ?es. interlock_untouched e" by (simp add: startup_events_def)
  moreover have "targ (comm (fold exec ?es world0)) = ON" by code_simp
  ultimately show ?thesis using motor_needs_interlock [OF world0, of ?es] by blast
qed

section \<open>The system summary\<close>

lemma reachable_affected: "reachable w \<Longrightarrow> affected_as_built (powerFaultMgr (wfm w))"
proof (induction rule: reachable.induct)
  case (init now si0 w)
  then show ?case
    using mkWorld_parts(5) [OF init]
    by (simp add: mkFaultMgr_def mkPowerFaultMgr_def mkBasicFaultMgr_def affected_as_built_def Let_def)
next
  case (step w e)
  then show ?case by (intro aff.R_exec) simp_all
qed

lemma hasFault_cut: "hasFault (ucast (ucast w :: 16 word) :: 64 word) f \<longleftrightarrow> fault_pos f < 16 \<and> hasFault w f"
  using fault_pos_range [of f] by (auto simp: hasFault_def bit_simps nat_less_iff)

lemma fm_summaryUpdate_faults:
  assumes "affected_as_built (powerFaultMgr fm)"
  shows "hasFault (summaryFaults (summarySystem (fm_summaryUpdate fm))) f \<longleftrightarrow>
     f \<in> {MOTOR_VOLTAGE_WARN, COMM_VOLTAGE_WARN} \<and> hasFault (currentFaults (powerFaultMgr fm)) f \<and>
     \<not> hasFault (summaryFaults (summarySystem fm)) f"
proof -
  let ?n = "ucast (fst (updateFaultStatus (summaryFaults (summarySystem fm)) (faultEnableMask (powerFaultMgr fm))
      (currentFaults (powerFaultMgr fm)) (affectedWarnInfoMask (powerFaultMgr fm))
      (affectedFaultsMask (powerFaultMgr fm)))) :: 64 word"
  have "summaryFaults (summarySystem (fm_summaryUpdate fm)) = ?n"
    by (simp add: fm_summaryUpdate_def bfm_updateSummary_def Let_def case_prod_beta)
  moreover have "hasFault ?n f \<longleftrightarrow>
     f \<in> {MOTOR_VOLTAGE_WARN, COMM_VOLTAGE_WARN} \<and> hasFault (currentFaults (powerFaultMgr fm)) f \<and>
     \<not> hasFault (summaryFaults (summarySystem fm)) f"
    using assms
    by (cases f) (auto simp: updateFaultStatus_def Let_def affected_as_built_def hasFault_cut
        getPowerSubsystemFaultManagerAffectedWarningMask_def bitmap_simps)
  ultimately show ?thesis by simp
qed

text \<open>What a report of power faults that differs from the previous one leaves in the system
  summary: of all faults only the two voltage warnings, and those only if they are reported and
  were not in the summary before. Everything else the summary held, the connection fault and
  the health faults included, is lost.\<close>

theorem summary_after_power_report:
  fixes now :: timepoint and cf :: "64 word"
  assumes "reachable w" and "(prevFaults (powerFaultMgr (wfm w)) XOR cf) AND faultEnableMask (powerFaultMgr (wfm w)) \<noteq> 0"
  shows "hasFault (fm_getSummaryFaults (wfm (updatePowerFaults now cf subsystem w))) f \<longleftrightarrow>
     f \<in> {MOTOR_VOLTAGE_WARN, COMM_VOLTAGE_WARN} \<and> hasFault cf f \<and> \<not> hasFault (fm_getSummaryFaults (wfm w)) f"
proof -
  let ?m = "snd (fm_powerMerge now cf (wfm w))"
  have merge: "fst (fm_powerMerge now cf (wfm w))"
    using assms(2) by (simp add: fm_powerMerge_def bfm_updateFaults_def Let_def)
  have cf: "currentFaults (powerFaultMgr ?m) = cf"
    using assms(2) by (simp add: fm_powerMerge_def bfm_updateFaults_def Let_def)
  have aff: "affected_as_built (powerFaultMgr ?m)"
    using aff.R_report [OF reachable_affected [OF assms(1)]] by (simp add: fm_powerMerge_report)
  have "wfm (updatePowerFaults now cf subsystem w) = fm_summaryUpdate ?m"
    using merge by (simp add: updatePowerFaults_def case_prod_beta Let_def goToSafeMode_def)
  then show ?thesis
    using fm_summaryUpdate_faults [OF aff, of f] by (simp add: fm_getSummaryFaults_def cf world_frame)
qed

theorem summary_after_power_report_witness:
  "\<not> hasFault (fm_getSummaryFaults (wfm (updatePowerFaults 5 (setFault 0 COMM_OVER_CURRENT) POWER_SUBSYSTEM world_comm_on)))
      COMM_OVER_CURRENT"
proof -
  let ?p = "powerFaultMgr (wfm world_comm_on)"
  have "(prevFaults ?p XOR setFault 0 COMM_OVER_CURRENT) AND faultEnableMask ?p \<noteq> 0" by code_simp
  from summary_after_power_report [OF reachable_comm_on this] show ?thesis by simp
qed

section \<open>Connections\<close>



text \<open>\<open>eraseConnection\<close> takes the lock of the map for the erasure only. Two connections that
  end at the same time may report their counts in the wrong order, and then the stale count of
  one clears the connection fault although no connection is left.\<close>

theorem stale_connection_report:
  assumes "connections w = [a, b]" and "a \<noteq> b"
  shows "\<exists>w1 w2. eraseFromMap a w = (Some 1, w1) \<and> eraseFromMap b w1 = (Some 0, w2) \<and>
    (let wbad = reportComConnectionCount t2 1 (reportComConnectionCount t1 0 w2);
         wgood = reportComConnectionCount t2 0 (reportComConnectionCount t1 1 w2)
     in connections wbad = [] \<and> \<not> commConnectionFault (wfm wbad) \<and>
        connections wgood = [] \<and> commConnectionFault (wfm wgood))"
proof -
  define w1 where "w1 = w \<lparr> connections := [b] \<rparr>"
  define w2 where "w2 = w1 \<lparr> connections := [] \<rparr>"
  have e: "eraseFromMap a w = (Some 1, w1)" "eraseFromMap b w1 = (Some 0, w2)"
    using assms by (simp_all add: eraseFromMap_def w1_def w2_def)
  have r: "connections (reportComConnectionCount t n v) = connections v"
    "commConnectionFault (wfm (reportComConnectionCount t n v)) \<longleftrightarrow> n = 0" for t n v
    by (simp_all add: reportComConnectionCount_def Let_def case_prod_beta goToSafeMode_def world_frame)
  show ?thesis
    by (rule exI [of _ w1], rule exI [of _ w2]) (use e r in \<open>simp add: w2_def Let_def\<close>)
qed

theorem stale_connection_report_witness:
  "\<exists>w1 w2. eraseFromMap 7 (world_connected \<lparr> connections := [7, 8] \<rparr>) = (Some 1, w1) \<and> eraseFromMap 8 w1 = (Some 0, w2) \<and>
     \<not> commConnectionFault (wfm (reportComConnectionCount 10 1 (reportComConnectionCount 9 0 w2)))"
  using stale_connection_report [of "world_connected \<lparr> connections := [7, 8] \<rparr>" 7 8 10 9] unfolding Let_def by auto

end
