(* ===== verification/ClientProps.thy ===== *)
theory ClientProps
  imports ComControl M2FaultProps
begin

text \<open>
  What holds of the messages of clients: every message is answered, sequence numbers of accepted
  commands increase over all connections, and only an accepted command turns power on.
\<close>

section \<open>Commands that were created\<close>

abbreviation ack_id :: "'j json_ops \<Rightarrow> 'j net_command \<Rightarrow> json_exception + string" where
  "ack_id J c \<equiv> j_get (j_toString J) J ''id'' (ackJson c)"

definition cmd_ok :: "'j json_ops \<Rightarrow> 'j net_command \<Rightarrow> bool" where
  "cmd_ok J c \<longleftrightarrow>
     j_object J (ackJson c) \<and> j_object J (respJson c) \<and>
     ack_id J c = Inr (if nc_class c = NCmdNoAck then ''noack'' else ''ack'') \<and>
     j_get (j_toUint J) J ''sequence_id'' (ackJson c) = Inr (nc_seqId c) \<and>
     j_get (j_toUint J) J ''sequence_id'' (respJson c) = Inr (nc_seqId c) \<and>
     nc_powerType c \<in> {MOTOR, COMM}"

lemma j_get_set:
  assumes "json_laws J" and "j_object J j"
  shows "j_get conv J k (j_set J k v j) = conv v"
    "k' \<noteq> k \<Longrightarrow> j_get conv J k' j = Inr x \<Longrightarrow> j_get conv J k' (j_set J k v j) = Inr x"
  using j_at_set [OF assms] by (auto simp: j_get_def split: sum.splits)

lemma cmd_ok_upd:
  "cmd_ok J (c \<lparr> nc_msg := m \<rparr>) = cmd_ok J c" "cmd_ok J (c \<lparr> nc_isRemote := b \<rparr>) = cmd_ok J c"
  "cmd_ok J (c \<lparr> nc_status := b \<rparr>) = cmd_ok J c"
  by (simp_all add: cmd_ok_def)

text \<open>What the constructor of the base class sets up, before the child class names its answer.\<close>

definition cmd_base :: "'j json_ops \<Rightarrow> 'j net_command \<Rightarrow> bool" where
  "cmd_base J c \<longleftrightarrow>
     j_object J (ackJson c) \<and> j_object J (respJson c) \<and>
     j_get (j_toUint J) J ''sequence_id'' (ackJson c) = Inr (nc_seqId c) \<and>
     j_get (j_toUint J) J ''sequence_id'' (respJson c) = Inr (nc_seqId c) \<and> nc_powerType c = MOTOR"

lemma mkNetCommand_base:
  assumes "json_laws J" and "mkNetCommand J cls (Some js) = Inr c"
  shows "cmd_base J c" "nc_class c = cls" "j_get (j_toUint J) J ''sequence_id'' js = Inr (nc_seqId c)"
    "j_get (j_toString J) J ''id'' js = Inr (nc_name c)"
  using assms(2)
  by (auto simp: mkNetCommand_def netCommandDefault_def setAckUserInfo_def Let_def cmd_base_def
      j_get_set [OF assms(1)] json_laws_simps [OF assms(1)] split: sum.splits)

lemma cmd_ok_named:
  assumes "json_laws J" and "cmd_base J c"
  shows "\<lbrakk> nc_class c \<noteq> NCmdNoAck; t \<in> {MOTOR, COMM} \<rbrakk> \<Longrightarrow> cmd_ok J (setAckUserInfo J u (setAckId J ''ack'' (c \<lparr> nc_powerType := t \<rparr>)))"
    "nc_class c \<noteq> NCmdNoAck \<Longrightarrow> cmd_ok J (setAckUserInfo J u (setAckId J ''ack'' c))"
    "nc_class c = NCmdNoAck \<Longrightarrow> cmd_ok J (setAckUserInfo J u (setAckId J ''noack'' c))"
  using assms(2)
  by (auto simp: cmd_ok_def cmd_base_def setAckUserInfo_def setAckId_def j_get_set [OF assms(1)]
      json_laws_simps [OF assms(1)])

lemma setAck_fields [simp]:
  "nc_class (setAckUserInfo J u c) = nc_class c" "nc_seqId (setAckUserInfo J u c) = nc_seqId c"
  "nc_name (setAckUserInfo J u c) = nc_name c" "nc_class (setAckId J u c) = nc_class c"
  "nc_seqId (setAckId J u c) = nc_seqId c" "nc_name (setAckId J u c) = nc_name c"
  "nc_powerType (setAckUserInfo J u c) = nc_powerType c" "nc_status (setAckUserInfo J u c) = nc_status c"
  "nc_powerType (setAckId J u c) = nc_powerType c" "nc_status (setAckId J u c) = nc_status c"
  by (simp_all add: setAckUserInfo_def setAckId_def)

lemma cmd_ok_info: "json_laws J \<Longrightarrow> cmd_ok J c \<Longrightarrow> cmd_ok J (setAckUserInfo J u c)"
  by (auto simp: cmd_ok_def setAckUserInfo_def j_get_set)

lemma intToPowerSystemType_known: "intToPowerSystemType v \<noteq> UNKNOWNPOWERSYSTEM \<Longrightarrow> intToPowerSystemType v \<in> {MOTOR, COMM}"
  by (auto simp: intToPowerSystemType_def split: if_splits)

text \<open>Creating a command fails with a \<open>NetCommandException\<close>, or gives a command of the class with
  the name and the number of the message.\<close>

lemma createNew_ok:
  assumes "json_laws J" and "createNewNetCommand J cls js = Inr c"
  shows "cmd_ok J c \<and> nc_class c = cls \<and> j_get (j_toUint J) J ''sequence_id'' js = Inr (nc_seqId c) \<and>
    j_get (j_toString J) J ''id'' js = Inr (nc_name c) \<and>
    (cls = NCmdPower \<longrightarrow> (\<exists>v. j_get (j_toInt J) J ''powerType'' js = Inr v \<and> nc_powerType c = intToPowerSystemType v) \<and>
       j_get (j_toBool J) J ''status'' js = Inr (nc_status c))"
proof -
  obtain b where b: "mkNetCommand J cls (Some js) = Inr b"
    using assms(2) by (cases cls; cases "mkNetCommand J cls (Some js)")
      (auto simp: newNCmdAck_def newNCmdNoAck_def newNCmdEcho_def newNCmdSwitchCommandSource_def newNCmdPower_def
        newNCmdSystemShutdown_def)
  note base = mkNetCommand_base [OF assms(1) b]
  have upd: "cmd_base J (b \<lparr> nc_msg := m \<rparr>)" "cmd_base J (b \<lparr> nc_isRemote := x \<rparr>)" "cmd_base J (b \<lparr> nc_status := x \<rparr>)" for m x
    using base(1) by (simp_all add: cmd_base_def)
  note named = cmd_ok_named [OF assms(1)]
  show ?thesis
  proof (cases cls)
    case NCmdAck
    then show ?thesis using assms(2) b base named [OF base(1)] by (auto simp: newNCmdAck_def)
  next
    case NCmdNoAck
    then show ?thesis using assms(2) b base named [OF base(1)] by (auto simp: newNCmdNoAck_def)
  next
    case NCmdEcho
    then show ?thesis using assms(2) b base named [OF upd(1)] by (auto simp: newNCmdEcho_def split: sum.splits)
  next
    case NCmdSwitchCommandSource
    then show ?thesis using assms(2) b base named [OF upd(2)]
      by (auto simp: newNCmdSwitchCommandSource_def throwNetCommandException_def split: sum.splits)
  next
    case NCmdSystemShutdown
    then show ?thesis using assms(2) b base named [OF base(1)] by (auto simp: newNCmdSystemShutdown_def)
  next
    case NCmdPower
    then obtain v s where v: "j_get (j_toInt J) J ''powerType'' js = Inr v" "j_get (j_toBool J) J ''status'' js = Inr s"
      "intToPowerSystemType v \<noteq> UNKNOWNPOWERSYSTEM"
      "c = setAckUserInfo J (''cmd_power '' @ getPowerSystemTypeStr (intToPowerSystemType v) @ boolStr s)
             (setAckId J ''ack'' (b \<lparr> nc_powerType := intToPowerSystemType v, nc_status := s \<rparr>))"
      using assms(2) b
      by (auto simp: newNCmdPower_def throwNetCommandException_def Let_def split: sum.splits if_splits)
    have eq: "b \<lparr> nc_powerType := intToPowerSystemType v, nc_status := s \<rparr> = (b \<lparr> nc_status := s \<rparr>) \<lparr> nc_powerType := intToPowerSystemType v \<rparr>"
      by simp
    have "cmd_ok J c" unfolding v(4) eq
      by (rule named(1) [OF upd(3) _ intToPowerSystemType_known [OF v(3)]]) (simp add: base(2) NCmdPower)
    then show ?thesis using v base NCmdPower by simp
  qed
qed

lemma createNew_error: "createNewNetCommand J cls js = Inl e \<Longrightarrow> \<exists>w. e = NetCommandException w"
  by (cases cls)
    (auto simp: newNCmdAck_def newNCmdNoAck_def newNCmdEcho_def newNCmdSwitchCommandSource_def newNCmdPower_def
      newNCmdSystemShutdown_def mkNetCommand_def throwNetCommandException_def Let_def
      elim!: bind_result.elims split: sum.splits if_splits)

lemma createNoAck_ok:
  assumes "j_get (j_toString J) J ''id'' js = Inr i" and "j_get (j_toUint J) J ''sequence_id'' js = Inr n"
  shows "\<exists>c. createNewNetCommand J NCmdNoAck js = Inr c"
  using assms by (simp add: newNCmdNoAck_def mkNetCommand_def Let_def)

lemma parseCommand_ok:
  assumes "parseCommand J msg = Inr js"
  obtains i n where "j_get (j_toString J) J ''id'' js = Inr i" "j_get (j_toUint J) J ''sequence_id'' js = Inr n"
  using assms by (auto simp: parseCommand_def Let_def split: sum.splits)

lemma parseCommand_error: "parseCommand J msg = Inl e \<Longrightarrow> \<exists>w. e = NetCommandException w"
  by (auto simp: parseCommand_def Let_def split: sum.splits)

section \<open>Interpreting a message\<close>

text \<open>The class of the command a parsed message becomes.\<close>

definition class_for :: "'j json_ops \<Rightarrow> cmd_factory \<Rightarrow> 'j \<Rightarrow> string \<Rightarrow> 64 word \<Rightarrow> net_cmd_class" where
  "class_for J f js i n =
     (if n \<le> prevSeqId f then NCmdNoAck
      else case cmdMap f i of
             None \<Rightarrow> NCmdNoAck
           | Some cls \<Rightarrow> (case createNewNetCommand J cls js of Inl _ \<Rightarrow> NCmdNoAck | Inr _ \<Rightarrow> cls))"

lemma class_for_known:
  "class_for J f js i n \<noteq> NCmdNoAck \<Longrightarrow> prevSeqId f < n \<and> cmdMap f i = Some (class_for J f js i n)"
  by (auto simp: class_for_def split: if_splits option.splits sum.splits)

lemma getCommandFor_parsed:
  assumes J: "json_laws J" and na: "defaultNoAck f = NCmdNoAck" and p: "parseCommand J msg = Inr js"
    and i: "j_get (j_toString J) J ''id'' js = Inr i" and n: "j_get (j_toUint J) J ''sequence_id'' js = Inr n"
  shows "\<exists>c. getCommandFor J msg f = (Inr c, if n \<le> prevSeqId f then f else f \<lparr> prevSeqId := n \<rparr>) \<and>
    cmd_ok J c \<and> nc_seqId c = n \<and> nc_name c = i \<and> nc_class c = class_for J f js i n \<and>
    (nc_class c = NCmdNoAck \<or> createNewNetCommand J (nc_class c) js = Inr c)"
proof -
  obtain c0 where c0: "createNewNetCommand J NCmdNoAck js = Inr c0" using createNoAck_ok [OF i n] by blast
  have ok0: "cmd_ok J (setAckUserInfo J u c0)" "nc_class c0 = NCmdNoAck" "nc_seqId c0 = n" "nc_name c0 = i" for u
    using createNew_ok [OF J c0] i n cmd_ok_info [OF J] by auto
  consider (old) "n \<le> prevSeqId f" | (unknown) "\<not> n \<le> prevSeqId f" "cmdMap f i = None"
    | (bad) cls e where "\<not> n \<le> prevSeqId f" "cmdMap f i = Some cls" "createNewNetCommand J cls js = Inl e"
    | (good) cls c where "\<not> n \<le> prevSeqId f" "cmdMap f i = Some cls" "createNewNetCommand J cls js = Inr c"
    by (cases "cmdMap f i"; cases "createNewNetCommand J (the (cmdMap f i)) js") auto
  then show ?thesis
  proof cases
    case old
    then show ?thesis using c0 ok0 na by (simp add: getCommandFor_def p i n Let_def class_for_def)
  next
    case unknown
    then show ?thesis using c0 ok0 na by (simp add: getCommandFor_def p i n Let_def class_for_def)
  next
    case bad
    then show ?thesis using c0 ok0 na createNew_error [OF bad(3)]
      by (auto simp: getCommandFor_def p i n Let_def class_for_def)
  next
    case good
    then show ?thesis using createNew_ok [OF J good(3)] i n
      by (simp add: getCommandFor_def p i n Let_def class_for_def)
  qed
qed

lemma getNoAck_ok:
  assumes J: "json_laws J" and na: "defaultNoAck f = NCmdNoAck"
  shows "\<exists>c. getNoAck J f = Inr c \<and> cmd_ok J c \<and> nc_class c = NCmdNoAck \<and> nc_seqId c = 0"
proof -
  let ?js = "j_set J ''sequence_id'' (j_ofInt J 0) (j_set J ''id'' (j_ofString J ''noack'') (j_null J))"
  have i: "j_get (j_toString J) J ''id'' ?js = Inr ''noack''" "j_get (j_toUint J) J ''sequence_id'' ?js = Inr 0"
    by (simp_all add: j_get_set [OF J] json_laws_simps [OF J])
  obtain c where c: "createNewNetCommand J NCmdNoAck ?js = Inr c" using createNoAck_ok [OF i] by blast
  then show ?thesis using createNew_ok [OF J c] i na cmd_ok_info [OF J]
    by (auto simp: getNoAck_def Let_def simp del: createNewNetCommand.simps)
qed

lemma interpretCommand_spec:
  assumes J: "json_laws J" and na: "defaultNoAck f = NCmdNoAck"
  obtains c f' where "interpretCommand J msg f = (Inr (ackJson c, c), f')" "cmd_ok J c" "defaultNoAck f' = NCmdNoAck"
    "\<And>e. parseCommand J msg = Inl e \<Longrightarrow> nc_class c = NCmdNoAck \<and> nc_seqId c = 0 \<and> f' = f"
    "\<And>js. parseCommand J msg = Inr js \<Longrightarrow> \<exists>i n. j_get (j_toString J) J ''id'' js = Inr i \<and>
       j_get (j_toUint J) J ''sequence_id'' js = Inr n \<and> nc_seqId c = n \<and> f' = f \<lparr> prevSeqId := max n (prevSeqId f) \<rparr> \<and>
       nc_class c = class_for J f js i n \<and>
       (nc_class c = NCmdNoAck \<or> createNewNetCommand J (nc_class c) js = Inr c)"
proof (cases "parseCommand J msg")
  case (Inl e)
  obtain w where w: "e = NetCommandException w" using parseCommand_error [OF Inl] by blast
  obtain c where c: "getNoAck J f = Inr c" "cmd_ok J c" "nc_class c = NCmdNoAck" "nc_seqId c = 0"
    using getNoAck_ok [OF J na] by blast
  have "interpretCommand J msg f = (Inr (ackJson c, c), f)"
    using c(1) by (simp add: interpretCommand_def getCommandFor_def Inl w)
  then show thesis by (rule that [OF _ c(2) na]) (use c Inl in auto)
next
  case (Inr js)
  obtain i n where i: "j_get (j_toString J) J ''id'' js = Inr i" "j_get (j_toUint J) J ''sequence_id'' js = Inr n"
    by (rule parseCommand_ok [OF Inr]) blast
  obtain c where c: "getCommandFor J msg f = (Inr c, if n \<le> prevSeqId f then f else f \<lparr> prevSeqId := n \<rparr>)"
    "cmd_ok J c" "nc_seqId c = n" "nc_class c = class_for J f js i n"
    "nc_class c = NCmdNoAck \<or> createNewNetCommand J (nc_class c) js = Inr c"
    using getCommandFor_parsed [OF J na Inr i] by blast
  have "interpretCommand J msg f = (Inr (ackJson c, c), f \<lparr> prevSeqId := max n (prevSeqId f) \<rparr>)"
    using c(1) by (auto simp: interpretCommand_def max_def not_le)
  then show thesis by (rule that [OF _ c(2)]) (use c Inr i na in auto)
qed


section \<open>Runs of clients\<close>

definition client_ok :: "'j json_ops \<Rightarrow> 'j client_world \<Rightarrow> bool" where
  "client_ok J st \<longleftrightarrow> conn_inv (cw st) \<and> defaultNoAck (factory st) = NCmdNoAck \<and>
     (\<forall>s c. cmdMap (factory st) s = Some c \<longleftrightarrow> s = getCommandName c) \<and> (\<forall>(i, c) \<in> set (pending st). cmd_ok J c)"

inductive client_reach :: "'j json_ops \<Rightarrow> 'j client_world \<Rightarrow> bool" for J where
  init: "\<lbrakk> reachable w; setupNormalFactory mkFactory = Inr f \<rbrakk> \<Longrightarrow> client_reach J (mkClientWorld w f)"
| step: "client_reach J st \<Longrightarrow> client_reach J (clientStep J e st)"

lemma writeTo_fields [simp]:
  "cw (writeTo cs js st) = cw st" "factory (writeTo cs js st) = factory st" "pending (writeTo cs js st) = pending st"
  "shutdownThreads (writeTo cs js st) = shutdownThreads st" "commandableByDds (writeTo cs js st) = commandableByDds st"
  "cw (writeToAll js st) = cw st" "factory (writeToAll js st) = factory st" "pending (writeToAll js st) = pending st"
  "shutdownThreads (writeToAll js st) = shutdownThreads st" "commandableByDds (writeToAll js st) = commandableByDds st"
  by (simp_all add: writeTo_def writeToAll_def)

lemma conn_inv_outbox: "conn_inv (w \<lparr> outbox := ms \<rparr>) = conn_inv w"
  by (simp add: conn_inv_def sys_inv_def safe_def must_be_off_def targets_off_def)

lemma broadcast_outbox: "\<exists>ms. broadcast m w = w \<lparr> outbox := ms \<rparr>"
  by (cases "serverAlive w") (auto simp: broadcast_def intro: exI [of _ "outbox w"])

text \<open>What running a command does to the system: nothing, or a power command and its broadcast, or
  another thread that will shut the system down.\<close>

lemma runNetCommand_parts:
  assumes "runNetCommand J now c st = (ok, c', st')"
  shows "factory st' = factory st" "pending st' = pending st"
    "nc_class c \<noteq> NCmdPower \<Longrightarrow> cw st' = cw st"
    "nc_class c = NCmdPower \<Longrightarrow> \<exists>ms. cw st' = (exec (CmdPower now (nc_powerType c) (nc_status c)) (cw st)) \<lparr> outbox := ms \<rparr>"
    "nc_class c = NCmdNoAck \<Longrightarrow> st' = st \<and> \<not> ok"
    "nc_class c \<noteq> NCmdSystemShutdown \<Longrightarrow> shutdownThreads st' = shutdownThreads st"
proof -
  have power: "\<exists>ms. cw (snd (powerAction now c st)) = (exec (CmdPower now (nc_powerType c) (nc_status c)) (cw st)) \<lparr> outbox := ms \<rparr>"
    using broadcast_outbox by (simp add: powerAction_def Let_def case_prod_beta)
  show "factory st' = factory st" "pending st' = pending st" "nc_class c \<noteq> NCmdPower \<Longrightarrow> cw st' = cw st"
    "nc_class c = NCmdNoAck \<Longrightarrow> st' = st \<and> \<not> ok"
    "nc_class c \<noteq> NCmdSystemShutdown \<Longrightarrow> shutdownThreads st' = shutdownThreads st"
    using assms
    by (cases "nc_class c"; auto simp: runNetCommand_def netAction_def Let_def case_prod_beta powerAction_def
        shutdownAction_def switchAction_def setCommandSourceIsRemote_def)+
  show "\<exists>ms. cw st' = (exec (CmdPower now (nc_powerType c) (nc_status c)) (cw st)) \<lparr> outbox := ms \<rparr>" if "nc_class c = NCmdPower"
    using assms that power by (auto simp: runNetCommand_def netAction_def Let_def case_prod_beta)
qed

text \<open>The event of the system that a step of the clients amounts to.\<close>

definition systemEvent :: "client_event \<Rightarrow> 'j client_world \<Rightarrow> event option" where
  "systemEvent e st =
     (case e of
        Receive i msg \<Rightarrow> None
      | RunCommand now k \<Rightarrow>
          if k < length (pending st) \<and> nc_class (snd (pending st ! k)) = NCmdPower
          then Some (CmdPower now (nc_powerType (snd (pending st ! k))) (nc_status (snd (pending st ! k))))
          else None
      | ShutdownThread now \<Rightarrow> if shutdownThreads st = 0 then None else Some (SystemShutdown now)
      | SystemEvent ev \<Rightarrow> Some ev)"

lemma readCommand_parts:
  assumes J: "json_laws J" and ok: "client_ok J st"
  obtains c f' where "interpretCommand J msg (factory st) = (Inr (ackJson c, c), f')" "cmd_ok J c"
    "readCommand J i msg st = (writeTo [i] (ackJson c) (st \<lparr> factory := f' \<rparr>)) \<lparr> pending := pending st @ [(i, c)] \<rparr>"
    "cmdMap f' = cmdMap (factory st)" "defaultNoAck f' = NCmdNoAck"
    "nc_class c = NCmdNoAck \<or> prevSeqId (factory st) < nc_seqId c \<and> prevSeqId f' = nc_seqId c \<and>
       (\<exists>js. parseCommand J msg = Inr js \<and> j_get (j_toUint J) J ''sequence_id'' js = Inr (nc_seqId c) \<and>
          j_get (j_toString J) J ''id'' js = Inr (getCommandName (nc_class c)) \<and>
          createNewNetCommand J (nc_class c) js = Inr c)"
    "prevSeqId (factory st) \<le> prevSeqId f'"
proof -
  have f: "defaultNoAck (factory st) = NCmdNoAck" "\<And>s c. cmdMap (factory st) s = Some c \<longleftrightarrow> s = getCommandName c"
    using ok by (simp_all add: client_ok_def)
  obtain c f' where c: "interpretCommand J msg (factory st) = (Inr (ackJson c, c), f')" "cmd_ok J c" "defaultNoAck f' = NCmdNoAck"
    "\<And>e. parseCommand J msg = Inl e \<Longrightarrow> nc_class c = NCmdNoAck \<and> nc_seqId c = 0 \<and> f' = factory st"
    "\<And>js. parseCommand J msg = Inr js \<Longrightarrow> \<exists>i n. j_get (j_toString J) J ''id'' js = Inr i \<and>
       j_get (j_toUint J) J ''sequence_id'' js = Inr n \<and> nc_seqId c = n \<and>
       f' = (factory st) \<lparr> prevSeqId := max n (prevSeqId (factory st)) \<rparr> \<and>
       nc_class c = class_for J (factory st) js i n \<and>
       (nc_class c = NCmdNoAck \<or> createNewNetCommand J (nc_class c) js = Inr c)"
    by (rule interpretCommand_spec [OF J f(1)]) blast
  have read: "readCommand J i msg st = (writeTo [i] (ackJson c) (st \<lparr> factory := f' \<rparr>)) \<lparr> pending := pending st @ [(i, c)] \<rparr>"
    using c(1) by (simp add: readCommand_def Let_def)
  show thesis
  proof (cases "parseCommand J msg")
    case (Inl e)
    then show ?thesis using that [OF c(1,2) read] c(3) c(4) [OF Inl] by simp
  next
    case (Inr js)
    from c(5) [OF this] obtain k n where k: "j_get (j_toString J) J ''id'' js = Inr k"
      "j_get (j_toUint J) J ''sequence_id'' js = Inr n" "nc_seqId c = n"
      "f' = (factory st) \<lparr> prevSeqId := max n (prevSeqId (factory st)) \<rparr>" "nc_class c = class_for J (factory st) js k n"
      "nc_class c = NCmdNoAck \<or> createNewNetCommand J (nc_class c) js = Inr c" by blast
    have "nc_class c = NCmdNoAck \<or> prevSeqId (factory st) < n \<and> k = getCommandName (nc_class c)"
      using class_for_known [of J "factory st" js k n] f(2) k(5) by metis
    then show ?thesis
      by (intro that [OF c(1,2) read _ c(3)]) (use Inr k in \<open>auto simp: max_def\<close>)
  qed
qed

lemma runPending_parts:
  assumes "k < length (pending st)" and "pending st ! k = (i, c)"
  obtains r c' st' where
    "runNetCommand J now c (st \<lparr> pending := take k (pending st) @ drop (Suc k) (pending st) \<rparr>) = (r, c', st')"
    "runPending J now k st = writeTo [i] (respJson c') st'"
proof -
  obtain r c' st' where run: "runNetCommand J now c (st \<lparr> pending := take k (pending st) @ drop (Suc k) (pending st) \<rparr>) = (r, c', st')"
    by (metis prod_cases3)
  then show thesis by (rule that) (use assms run in \<open>simp add: runPending_def Let_def\<close>)
qed

lemma same_outbox: "\<exists>ms. w = w \<lparr> outbox := ms \<rparr>"
  by (rule exI [of _ "outbox w"]) simp

lemma clientStep_system:
  assumes J: "json_laws J" and ok: "client_ok J st"
  shows "\<exists>ms. cw (clientStep J e st) =
    (case systemEvent e st of None \<Rightarrow> cw st | Some ev \<Rightarrow> (exec ev (cw st)) \<lparr> outbox := ms \<rparr>)"
proof (cases e)
  case (Receive i msg)
  obtain c f' where "readCommand J i msg st = (writeTo [i] (ackJson c) (st \<lparr> factory := f' \<rparr>)) \<lparr> pending := pending st @ [(i, c)] \<rparr>"
    by (rule readCommand_parts [OF J ok]) blast
  then show ?thesis by (simp add: Receive systemEvent_def)
next
  case (RunCommand now k)
  show ?thesis
  proof (cases "k < length (pending st)")
    case True
    obtain i c where ic: "pending st ! k = (i, c)" by (cases "pending st ! k")
    obtain r c' st' where run: "runNetCommand J now c (st \<lparr> pending := take k (pending st) @ drop (Suc k) (pending st) \<rparr>) = (r, c', st')"
      and eq: "runPending J now k st = writeTo [i] (respJson c') st'"
      by (rule runPending_parts [OF True ic])
    have cw: "cw (clientStep J e st) = cw st'" unfolding RunCommand clientStep.simps eq by simp
    show ?thesis
    proof (cases "nc_class c = NCmdPower")
      case power: True
      then have "systemEvent e st = Some (CmdPower now (nc_powerType c) (nc_status c))"
        using True ic by (simp add: RunCommand systemEvent_def)
      then show ?thesis using runNetCommand_parts(4) [OF run power] unfolding cw by simp
    next
      case False
      then have "systemEvent e st = None" using True ic by (simp add: RunCommand systemEvent_def)
      then show ?thesis using runNetCommand_parts(3) [OF run False] unfolding cw by simp
    qed
  qed (simp add: RunCommand systemEvent_def runPending_def)
next
  case (ShutdownThread now)
  show ?thesis
  proof (cases "shutdownThreads st = 0")
    case False
    then show ?thesis using same_outbox [of "systemShutdown now (cw st)"]
      unfolding ShutdownThread by (simp add: systemEvent_def shutdownThread_def)
  qed (simp add: ShutdownThread systemEvent_def shutdownThread_def)
next
  case (SystemEvent ev)
  show ?thesis using same_outbox [of "exec ev (cw st)"]
    unfolding SystemEvent by (simp add: systemEvent_def del: exec.simps)
qed

lemma client_ok_step:
  assumes J: "json_laws J" and ok: "client_ok J st"
  shows "client_ok J (clientStep J e st)"
proof -
  have "conn_inv (cw (clientStep J e st))"
    using clientStep_system [OF J ok, of e] ok
    by (auto simp: client_ok_def conn_inv_outbox conn_inv_exec split: option.splits simp del: exec.simps)
  moreover have "defaultNoAck (factory (clientStep J e st)) = NCmdNoAck \<and>
      cmdMap (factory (clientStep J e st)) = cmdMap (factory st) \<and>
      (\<forall>(i, c) \<in> set (pending (clientStep J e st)). cmd_ok J c)"
  proof (cases e)
    case (Receive i msg)
    obtain c f' where "readCommand J i msg st = (writeTo [i] (ackJson c) (st \<lparr> factory := f' \<rparr>)) \<lparr> pending := pending st @ [(i, c)] \<rparr>"
      "cmd_ok J c" "cmdMap f' = cmdMap (factory st)" "defaultNoAck f' = NCmdNoAck"
      by (rule readCommand_parts [OF J ok]) blast
    then show ?thesis using ok by (auto simp: Receive client_ok_def)
  next
    case (RunCommand now k)
    show ?thesis
    proof (cases "k < length (pending st)")
      case True
      obtain i c where ic: "pending st ! k = (i, c)" by (cases "pending st ! k")
      obtain r c' st' where run: "runNetCommand J now c (st \<lparr> pending := take k (pending st) @ drop (Suc k) (pending st) \<rparr>) = (r, c', st')"
        and eq: "runPending J now k st = writeTo [i] (respJson c') st'"
        by (rule runPending_parts [OF True ic])
      have "set (pending st') \<subseteq> set (pending st)"
        using runNetCommand_parts(2) [OF run] set_take_subset [of k "pending st"] set_drop_subset [of "Suc k" "pending st"] by auto
      then show ?thesis using runNetCommand_parts(1) [OF run] ok by (auto simp: RunCommand eq client_ok_def)
    qed (use ok in \<open>simp add: RunCommand runPending_def client_ok_def\<close>)
  qed (use ok in \<open>auto simp: client_ok_def shutdownThread_def\<close>)
  ultimately show ?thesis using ok by (simp add: client_ok_def)
qed

interpretation cl: transition_system
  "\<lambda>st. \<exists>w f. reachable w \<and> setupNormalFactory mkFactory = Inr f \<and> st = mkClientWorld w f"
  "clientStep J" "client_reach J" "\<lambda>st. json_laws J \<longrightarrow> client_ok J st" for J :: "'j json_ops"
proof
  fix s and P :: "'j client_world \<Rightarrow> bool"
  assume "client_reach J s" and "\<And>s. \<exists>w f. reachable w \<and> setupNormalFactory mkFactory = Inr f \<and> s = mkClientWorld w f \<Longrightarrow> P s"
    and "\<And>s e. \<lbrakk> client_reach J s; P s \<rbrakk> \<Longrightarrow> P (clientStep J e s)"
  then show "P s" by (induction rule: client_reach.induct) blast+
next
  fix s :: "'j client_world"
  assume "\<exists>w f. reachable w \<and> setupNormalFactory mkFactory = Inr f \<and> s = mkClientWorld w f"
  then show "json_laws J \<longrightarrow> client_ok J s"
    using setupNormalFactory_ok m2.reach_inv by (auto simp: client_ok_def mkClientWorld_def)
qed (auto intro: client_reach.step client_ok_step)

section \<open>A concrete run\<close>

text \<open>A table of four messages: turn COMM on, turn COMM off, an unknown command, and a command with
  the largest sequence number.\<close>

definition power_msg :: "int \<Rightarrow> bool \<Rightarrow> jval" where
  "power_msg n on = JObject [(''id'', JString ''cmd_power''), (''sequence_id'', JInt n), (''powerType'', JInt 2), (''status'', JBool on)]"

definition parse0 :: "string \<Rightarrow> jval option" where
  "parse0 s =
     (if s = ''on'' then Some (power_msg 1 True)
      else if s = ''off'' then Some (power_msg 2 False)
      else if s = ''unknown'' then Some (JObject [(''id'', JString ''cmd_dance''), (''sequence_id'', JInt 3)])
      else if s = ''last'' then Some (JObject [(''id'', JString ''cmd_ack''), (''sequence_id'', JInt (2 ^ 64 - 1))])
      else None)"

definition J0 :: "jval json_ops" where
  "J0 = jval_ops parse0 (\<lambda>_. '''')"

definition factory0 :: cmd_factory where
  "factory0 = (case setupNormalFactory mkFactory of Inr f \<Rightarrow> f | Inl _ \<Rightarrow> mkFactory)"

definition client0 :: "jval client_world" where
  "client0 = mkClientWorld world_connected factory0"

lemma J0_laws: "json_laws J0"
  unfolding J0_def by (rule jval_laws)

lemma client0_reach: "client_reach J0 client0"
  using setupNormalFactory_ok
  by (auto simp: client0_def factory0_def intro: client_reach.init [OF reachable_connected])


section \<open>Sequence numbers\<close>

text \<open>The sequence numbers of the messages that are acknowledged in a run, in order.\<close>

fun ackedIds :: "'j json_ops \<Rightarrow> client_event list \<Rightarrow> 'j client_world \<Rightarrow> 64 word list" where
  "ackedIds J [] st = []"
| "ackedIds J (e # es) st =
     (case e of
        Receive i msg \<Rightarrow>
          (case fst (interpretCommand J msg (factory st)) of
             Inr (ack, c) \<Rightarrow> if j_get (j_toString J) J ''id'' ack = Inr ''ack'' then [nc_seqId c] else []
           | Inl _ \<Rightarrow> [])
      | _ \<Rightarrow> []) @ ackedIds J es (clientStep J e st)"

lemma factory_kept: "(\<And>i msg. e \<noteq> Receive i msg) \<Longrightarrow> factory (clientStep J e st) = factory st"
proof (cases e)
  case (RunCommand now k)
  then show ?thesis
  proof (cases "k < length (pending st)")
    case True
    obtain i c where ic: "pending st ! k = (i, c)" by (cases "pending st ! k")
    obtain r c' st' where run: "runNetCommand J now c (st \<lparr> pending := take k (pending st) @ drop (Suc k) (pending st) \<rparr>) = (r, c', st')"
      and eq: "runPending J now k st = writeTo [i] (respJson c') st'"
      by (rule runPending_parts [OF True ic])
    show ?thesis using runNetCommand_parts(1) [OF run] by (simp add: RunCommand eq)
  qed (simp add: runPending_def)
qed (auto simp: shutdownThread_def)

lemma ackedIds_sorted:
  assumes J: "json_laws J" and "client_ok J st"
  shows "sorted_wrt (<) (ackedIds J es st) \<and> (\<forall>n \<in> set (ackedIds J es st). prevSeqId (factory st) < n)"
  using assms(2)
proof (induction es arbitrary: st)
  case Nil
  then show ?case by simp
next
  case (Cons e es)
  note ih = Cons.IH [OF client_ok_step [OF J Cons.prems, of e]]
  show ?case
  proof (cases "\<exists>i msg. e = Receive i msg")
    case False
    have "factory (clientStep J e st) = factory st" by (rule factory_kept) (use False in blast)
    moreover have "ackedIds J (e # es) st = ackedIds J es (clientStep J e st)"
      using False by (cases e) (simp_all del: clientStep.simps)
    ultimately show ?thesis using ih by simp
  next
    case True
    then obtain i msg where e: "e = Receive i msg" by blast
    obtain c f' where c: "interpretCommand J msg (factory st) = (Inr (ackJson c, c), f')" "cmd_ok J c"
      and r: "readCommand J i msg st = (writeTo [i] (ackJson c) (st \<lparr> factory := f' \<rparr>)) \<lparr> pending := pending st @ [(i, c)] \<rparr>"
      and n: "nc_class c = NCmdNoAck \<or> prevSeqId (factory st) < nc_seqId c \<and> prevSeqId f' = nc_seqId c"
        "prevSeqId (factory st) \<le> prevSeqId f'"
      by (rule readCommand_parts [OF J Cons.prems]) blast
    have f': "factory (clientStep J e st) = f'" by (simp add: e r)
    have "ackedIds J (e # es) st = (if nc_class c = NCmdNoAck then [] else [nc_seqId c]) @ ackedIds J es (clientStep J e st)"
      using c by (simp add: e cmd_ok_def)
    moreover have "\<forall>m \<in> set (ackedIds J es (clientStep J e st)). prevSeqId f' < m" using ih f' by simp
    ultimately show ?thesis using ih n by (auto intro: le_less_trans)
  qed
qed

text \<open>C17: No command is accepted twice, and none out of order: in every run, over all connections
  together, the sequence numbers of the acknowledged messages strictly increase. (The connections
  share one factory, so a second client has to number its commands above those of the first.)\<close>

theorem sequence_numbers_increase:
  assumes "json_laws J" and "client_reach J st"
  shows "sorted_wrt (<) (ackedIds J es st) \<and> (\<forall>n \<in> set (ackedIds J es st). prevSeqId (factory st) < n)"
  using ackedIds_sorted [OF assms(1)] cl.reach_inv [OF assms(2)] assms(1) by blast

theorem sequence_numbers_increase_witness:
  "ackedIds J0 [Receive 7 ''on'', Receive 8 ''on'', Receive 8 ''unknown'', Receive 7 ''off''] client0 = [1] \<and>
   sorted_wrt (<) (ackedIds J0 [Receive 7 ''on'', Receive 8 ''on'', Receive 8 ''unknown'', Receive 7 ''off''] client0)"
proof
  show "ackedIds J0 [Receive 7 ''on'', Receive 8 ''on'', Receive 8 ''unknown'', Receive 7 ''off''] client0 = [1]"
    by code_simp
qed (use sequence_numbers_increase [OF J0_laws client0_reach] in blast)

text \<open>One message can lock all clients out: after a message with the largest sequence number
  (which -1 becomes), of any connection and with any command name, no message is acknowledged
  any more in any run, commands to turn power off included.\<close>

theorem largest_number_locks_out:
  assumes "json_laws J" and "client_reach J st" and "parseCommand J msg = Inr js"
    and "j_get (j_toUint J) J ''sequence_id'' js = Inr (- 1)"
  shows "ackedIds J es (clientStep J (Receive i msg) st) = []"
proof -
  have ok: "client_ok J st" using cl.reach_inv [OF assms(2)] assms(1) by blast
  then have "defaultNoAck (factory st) = NCmdNoAck" by (simp add: client_ok_def)
  then obtain c f' where c: "interpretCommand J msg (factory st) = (Inr (ackJson c, c), f')"
    and "\<And>js. parseCommand J msg = Inr js \<Longrightarrow> \<exists>i n. j_get (j_toUint J) J ''sequence_id'' js = Inr n \<and>
       f' = (factory st) \<lparr> prevSeqId := max n (prevSeqId (factory st)) \<rparr>"
    by (rule interpretCommand_spec [OF assms(1), of "factory st" msg]) blast
  then have "f' = (factory st) \<lparr> prevSeqId := max (- 1) (prevSeqId (factory st)) \<rparr>" using assms(3,4) by fastforce
  then have "prevSeqId (factory (clientStep J (Receive i msg) st)) = - 1"
    using c by (simp add: readCommand_def Let_def max_absorb1)
  moreover note ackedIds_sorted [OF assms(1) client_ok_step [OF assms(1) ok, of "Receive i msg"], of es]
  ultimately have "set (ackedIds J es (clientStep J (Receive i msg) st)) = {}" by auto
  then show ?thesis by simp
qed

theorem largest_number_locks_out_witness:
  "ackedIds J0 [Receive 8 ''off''] (clientStep J0 (Receive 7 ''last'') client0) = []"
proof -
  have "parseCommand J0 ''last'' = Inr (JObject [(''id'', JString ''cmd_ack''), (''sequence_id'', JInt (2 ^ 64 - 1))])"
    "j_get (j_toUint J0) J0 ''sequence_id'' (JObject [(''id'', JString ''cmd_ack''), (''sequence_id'', JInt (2 ^ 64 - 1))]) = Inr (- 1)"
    by code_simp+
  from largest_number_locks_out [OF J0_laws client0_reach this] show ?thesis by blast
qed

section \<open>Power\<close>

lemma exec_power_other:
  assumes "safe w" and "targ (getSub u w) = OFF" and "u \<in> {MOTOR, COMM}" and "t \<in> {MOTOR, COMM}"
    and "u \<noteq> t \<or> \<not> on"
  shows "targ (getSub u (exec (CmdPower now t on) w)) = OFF"
proof (cases on)
  case True
  have on: "targ (getSub u (snd (subOn now t w))) = OFF"
    using assms True by (auto simp: subOn_def Let_def case_prod_beta targ_putCtx is_sub_def)
  show ?thesis
    using assms True on
    by (auto simp: cmdPower_def cmdPowerBase_def powerMotor_def powerComm_def Let_def)
next
  case False
  then show ?thesis by (intro exec_quiet assms(1,2)) (simp add: turnsOn_def)
qed

text \<open>A message that asks for power of subsystem \<open>t\<close> and was accepted: its number is larger than
  every number before it.\<close>

definition asks_for_power :: "'j json_ops \<Rightarrow> PowerSystemType \<Rightarrow> 'j client_world \<Rightarrow> string \<Rightarrow> bool" where
  "asks_for_power J t st msg \<longleftrightarrow>
     (\<exists>js n v. parseCommand J msg = Inr js \<and> j_get (j_toString J) J ''id'' js = Inr ''cmd_power'' \<and>
        j_get (j_toUint J) J ''sequence_id'' js = Inr n \<and> prevSeqId (factory st) < n \<and>
        j_get (j_toInt J) J ''powerType'' js = Inr v \<and> intToPowerSystemType v = t \<and>
        j_get (j_toBool J) J ''status'' js = Inr True)"

definition power_waiting :: "PowerSystemType \<Rightarrow> 'j client_world \<Rightarrow> bool" where
  "power_waiting t st \<longleftrightarrow> (\<exists>(i, c) \<in> set (pending st). nc_class c = NCmdPower \<and> nc_powerType c = t \<and> nc_status c)"

lemma power_step:
  assumes J: "json_laws J" and ok: "client_ok J st" and t: "t \<in> {MOTOR, COMM}"
    and off: "targ (getSub t (cw st)) = OFF" "\<not> power_waiting t st"
    and e: "\<And>ev. e = SystemEvent ev \<Longrightarrow> \<not> turnsOn ev" "\<And>i msg. e = Receive i msg \<Longrightarrow> \<not> asks_for_power J t st msg"
  shows "targ (getSub t (cw (clientStep J e st))) = OFF \<and> \<not> power_waiting t (clientStep J e st)"
proof
  have safe: "safe (cw st)" using ok by (simp add: client_ok_def conn_inv_def sys_inv_def)
  have quiet: "targ (getSub t (exec ev (cw st))) = OFF" if ev: "systemEvent e st = Some ev" for ev
  proof (cases e)
    case (RunCommand now k)
    then obtain i c where c: "(i, c) \<in> set (pending st)" "nc_class c = NCmdPower" "ev = CmdPower now (nc_powerType c) (nc_status c)"
      using ev nth_mem [of k "pending st"] by (cases "pending st ! k") (auto simp: systemEvent_def split: if_splits)
    then have "nc_powerType c \<in> {MOTOR, COMM}" using ok by (auto simp: client_ok_def cmd_ok_def)
    moreover have "t \<noteq> nc_powerType c \<or> \<not> nc_status c" using off(2) c(1,2) by (auto simp: power_waiting_def)
    ultimately show ?thesis unfolding c(3) by (rule exec_power_other [OF safe off(1) t])
  next
    case (SystemEvent ev')
    then show ?thesis using ev e(1) exec_quiet [OF _ safe off(1)] by (simp add: systemEvent_def)
  next
    case (ShutdownThread now)
    then have "ev = SystemShutdown now" using ev by (simp add: systemEvent_def split: if_splits)
    then show ?thesis using exec_quiet [OF _ safe off(1), of "SystemShutdown now"] by (simp add: turnsOn_def)
  qed (use ev in \<open>simp add: systemEvent_def\<close>)
  have "targ (getSub t (w \<lparr> outbox := ms \<rparr>)) = targ (getSub t w)" for w ms by (simp add: getSub_def)
  then show "targ (getSub t (cw (clientStep J e st))) = OFF"
    using clientStep_system [OF J ok, of e] quiet off(1) by (auto split: option.splits)
  show "\<not> power_waiting t (clientStep J e st)"
  proof (cases e)
    case (Receive i msg)
    obtain c f' where c: "readCommand J i msg st = (writeTo [i] (ackJson c) (st \<lparr> factory := f' \<rparr>)) \<lparr> pending := pending st @ [(i, c)] \<rparr>"
      "nc_class c = NCmdNoAck \<or> prevSeqId (factory st) < nc_seqId c \<and> prevSeqId f' = nc_seqId c \<and>
         (\<exists>js. parseCommand J msg = Inr js \<and> j_get (j_toUint J) J ''sequence_id'' js = Inr (nc_seqId c) \<and>
            j_get (j_toString J) J ''id'' js = Inr (getCommandName (nc_class c)) \<and>
            createNewNetCommand J (nc_class c) js = Inr c)"
      by (rule readCommand_parts [OF J ok]) blast
    have "\<not> (nc_class c = NCmdPower \<and> nc_powerType c = t \<and> nc_status c)"
    proof
      assume p: "nc_class c = NCmdPower \<and> nc_powerType c = t \<and> nc_status c"
      then obtain js where js: "parseCommand J msg = Inr js" "j_get (j_toUint J) J ''sequence_id'' js = Inr (nc_seqId c)"
        "j_get (j_toString J) J ''id'' js = Inr ''cmd_power''" "createNewNetCommand J NCmdPower js = Inr c"
        "prevSeqId (factory st) < nc_seqId c"
        using c(2) by auto
      obtain v where "j_get (j_toInt J) J ''powerType'' js = Inr v" "intToPowerSystemType v = t"
        "j_get (j_toBool J) J ''status'' js = Inr True"
        using createNew_ok [OF J js(4)] p by auto
      then have "asks_for_power J t st msg" using js unfolding asks_for_power_def by blast
      then show False using e(2) [OF Receive] by blast
    qed
    then show ?thesis using off(2) by (auto simp: Receive power_waiting_def c(1))
  next
    case (RunCommand now k)
    show ?thesis
    proof (cases "k < length (pending st)")
      case True
      obtain i c where ic: "pending st ! k = (i, c)" by (cases "pending st ! k")
      obtain r c' st' where run: "runNetCommand J now c (st \<lparr> pending := take k (pending st) @ drop (Suc k) (pending st) \<rparr>) = (r, c', st')"
        and eq: "runPending J now k st = writeTo [i] (respJson c') st'"
        by (rule runPending_parts [OF True ic])
      have "set (pending st') \<subseteq> set (pending st)"
        using runNetCommand_parts(2) [OF run] set_take_subset [of k "pending st"] set_drop_subset [of "Suc k" "pending st"] by auto
      then show ?thesis using off(2) by (auto simp: RunCommand eq power_waiting_def)
    qed (use off(2) in \<open>simp add: RunCommand runPending_def\<close>)
  qed (use off(2) in \<open>auto simp: power_waiting_def shutdownThread_def\<close>)
qed

lemma clientRun_simps [simp]:
  "clientRun J [] st = st" "clientRun J (e # es) st = clientRun J es (clientStep J e st)"
  by (simp_all add: clientRun_def)

text \<open>C18: Only an accepted message turns power on. If the target of a subsystem is OFF, no command
  to turn it on is waiting, and the system itself makes no such step, then a run of the clients
  that ends with the target ON received, at some point, a \<open>cmd_power\<close> message with that subsystem
  and status true, whose sequence number was larger than every one before it.\<close>

theorem power_needs_accepted_message:
  assumes "json_laws J" and "client_reach J st" and "t \<in> {MOTOR, COMM}"
    and "targ (getSub t (cw st)) = OFF" and "\<not> power_waiting t st"
    and "\<forall>ev. SystemEvent ev \<in> set es \<longrightarrow> \<not> turnsOn ev"
    and "targ (getSub t (cw (clientRun J es st))) = ON"
  shows "\<exists>es1 i msg es2. es = es1 @ Receive i msg # es2 \<and> asks_for_power J t (clientRun J es1 st) msg"
proof -
  have ok: "client_ok J st" using cl.reach_inv [OF assms(2)] assms(1) by blast
  show ?thesis
    using ok assms(4-7)
  proof (induction es arbitrary: st)
    case Nil
    then show ?case by simp
  next
    case (Cons e es)
    show ?case
    proof (cases "\<exists>i msg. e = Receive i msg \<and> asks_for_power J t st msg")
      case True
      then obtain i msg where "e = Receive i msg" "asks_for_power J t st msg" by blast
      then have "e # es = [] @ Receive i msg # es \<and> asks_for_power J t (clientRun J [] st) msg" by simp
      then show ?thesis by blast
    next
      case False
      have "targ (getSub t (cw (clientStep J e st))) = OFF \<and> \<not> power_waiting t (clientStep J e st)"
        by (rule power_step [OF assms(1) Cons.prems(1) assms(3) Cons.prems(2,3)]) (use Cons.prems(4) False in auto)
      then obtain es1 i msg es2 where es: "es = es1 @ Receive i msg # es2"
        "asks_for_power J t (clientRun J es1 (clientStep J e st)) msg"
        using Cons.IH [OF client_ok_step [OF assms(1) Cons.prems(1), of e]] Cons.prems(4,5) by auto
      then have "e # es = (e # es1) @ Receive i msg # es2 \<and> asks_for_power J t (clientRun J (e # es1) st) msg" by simp
      then show ?thesis by blast
    qed
  qed
qed

theorem power_needs_accepted_message_witness:
  "targ (comm (cw (clientRun J0 [Receive 7 ''unknown'', Receive 7 ''on'', RunCommand 4 1] client0))) = OFF \<and>
   targ (comm (cw (clientRun J0 [Receive 7 ''on'', RunCommand 4 0] client0))) = ON \<and>
   (\<exists>es1 i msg es2. [Receive 7 ''on'', RunCommand 4 0] = es1 @ Receive i msg # es2 \<and>
      asks_for_power J0 COMM (clientRun J0 es1 client0) msg)"
proof (intro conjI)
  show "targ (comm (cw (clientRun J0 [Receive 7 ''unknown'', Receive 7 ''on'', RunCommand 4 1] client0))) = OFF" by code_simp
  show on: "targ (comm (cw (clientRun J0 [Receive 7 ''on'', RunCommand 4 0] client0))) = ON" by code_simp
  have "targ (comm (cw client0)) = OFF" "pending client0 = []" by code_simp+
  then have "targ (getSub COMM (cw client0)) = OFF" "\<not> power_waiting COMM client0"
    by (simp_all add: getSub_def power_waiting_def)
  moreover have "targ (getSub COMM (cw (clientRun J0 [Receive 7 ''on'', RunCommand 4 0] client0))) = ON"
    using on by (simp add: getSub_def)
  ultimately show "\<exists>es1 i msg es2. [Receive 7 ''on'', RunCommand 4 0] = es1 @ Receive i msg # es2 \<and>
      asks_for_power J0 COMM (clientRun J0 es1 client0) msg"
    by (intro power_needs_accepted_message [OF J0_laws client0_reach]) simp_all
qed

text \<open>The outputs stay safe under clients: in every state that the system and its clients reach
  together, with the commands of any number of clients waiting on threads of their own and running
  in any order, the power outputs follow the targets, and both are low while there is no client.\<close>

theorem clients_keep_outputs_safe:
  assumes "json_laws J" and "client_reach J st"
  shows "outputs_follow_targets (cw st) \<and>
    (connections (cw st) = [] \<longrightarrow>
       \<not> out_bit_on (outPort (cw st)) MOTOR_POWER_ON \<and> \<not> out_bit_on (outPort (cw st)) ILC_COMM_POWER_ON)"
proof -
  have inv: "conn_inv (cw st)" using cl.reach_inv [OF assms(2)] assms(1) by (simp add: client_ok_def)
  then have out: "outputs_follow_targets (cw st)" by (auto simp: conn_inv_def sys_inv_def intro: safe_outputs)
  moreover have "targets_off (cw st)" if "connections (cw st) = []"
    using inv that by (auto simp: conn_inv_def sys_inv_def must_be_off_def)
  ultimately show ?thesis using outputs_off by blast
qed

theorem clients_keep_outputs_safe_witness:
  "out_bit_on (outPort (cw (clientRun J0 [Receive 7 ''on'', RunCommand 4 0] client0))) ILC_COMM_POWER_ON \<and>
   targ (comm (cw (clientRun J0 [Receive 7 ''on'', RunCommand 4 0] client0))) = ON"
proof -
  have "client_reach J0 (clientRun J0 [Receive 7 ''on'', RunCommand 4 0] client0)"
    unfolding clientRun_def by (rule cl.reach_run [OF client0_reach])
  moreover have "out_bit_on (outPort (cw (clientRun J0 [Receive 7 ''on'', RunCommand 4 0] client0))) ILC_COMM_POWER_ON"
    by code_simp
  ultimately show ?thesis using clients_keep_outputs_safe [OF J0_laws] by (auto simp: outputs_follow_targets_def)
qed

section \<open>Responses\<close>

definition command_succeeds :: "timepoint \<Rightarrow> 'j net_command \<Rightarrow> world \<Rightarrow> bool" where
  "command_succeeds now c w =
     (case nc_class c of
        NCmdNoAck \<Rightarrow> False
      | NCmdPower \<Rightarrow> fst (cmdPower now (nc_powerType c) (nc_status c) w)
      | _ \<Rightarrow> True)"

lemma runNetCommand_response:
  assumes J: "json_laws J" and ok: "cmd_ok J c" and run: "runNetCommand J now c st = (r, c', st')"
  shows "r = command_succeeds now c (cw st)"
    "j_get (j_toString J) J ''id'' (respJson c') = Inr (if r then ''success'' else ''fail'')"
    "j_get (j_toUint J) J ''sequence_id'' (respJson c') = Inr (nc_seqId c)"
    "nc_class c = NCmdEcho \<Longrightarrow> j_get (j_toString J) J ''msg'' (respJson c') = Inr (nc_msg c)"
    "\<exists>bs. written st' = written st @ bs \<and> length bs \<le> 1 \<and> (nc_class c \<noteq> NCmdSwitchCommandSource \<longrightarrow> bs = [])"
proof -
  have resp: "j_object J (respJson c)" "j_get (j_toUint J) J ''sequence_id'' (respJson c) = Inr (nc_seqId c)"
    using ok by (simp_all add: cmd_ok_def)
  have msg: "j_object J (j_set J ''msg'' (j_ofString J (nc_msg c)) (respJson c))"
    "j_get (j_toUint J) J ''sequence_id'' (j_set J ''msg'' (j_ofString J (nc_msg c)) (respJson c)) = Inr (nc_seqId c)"
    "j_get (j_toString J) J ''msg'' (j_set J ''msg'' (j_ofString J (nc_msg c)) (respJson c)) = Inr (nc_msg c)"
    using resp by (simp_all add: j_get_set [OF J] json_laws_simps [OF J])
  note defs = runNetCommand_def netAction_def Let_def case_prod_beta powerAction_def shutdownAction_def
    switchAction_def setCommandSourceIsRemote_def command_succeeds_def
  note sets = j_get_set [OF J resp(1)] j_get_set [OF J msg(1)] json_laws_simps [OF J]
  show "r = command_succeeds now c (cw st)"
    "j_get (j_toString J) J ''id'' (respJson c') = Inr (if r then ''success'' else ''fail'')"
    "j_get (j_toUint J) J ''sequence_id'' (respJson c') = Inr (nc_seqId c)"
    "nc_class c = NCmdEcho \<Longrightarrow> j_get (j_toString J) J ''msg'' (respJson c') = Inr (nc_msg c)"
    using run resp msg by (cases "nc_class c"; auto simp: defs sets)+
  show "\<exists>bs. written st' = written st @ bs \<and> length bs \<le> 1 \<and> (nc_class c \<noteq> NCmdSwitchCommandSource \<longrightarrow> bs = [])"
    using run by (cases "nc_class c") (auto simp: defs writeToAll_def writeTo_def)
qed

text \<open>Every waiting command is answered once: running it removes it from those that wait and
  writes one response, to the connection it came from, as the last thing, with its sequence
  number and the id \<open>success\<close> or \<open>fail\<close>. It fails exactly if it was answered \<open>noack\<close>, or is a
  power command that the system refuses; a command that was answered \<open>noack\<close> changes nothing else.\<close>

theorem command_response:
  assumes "json_laws J" and "client_reach J st" and "k < length (pending st)" and "pending st ! k = (i, c)"
  shows "\<exists>bs resp. written (clientStep J (RunCommand now k) st) = written st @ bs @ [([i], resp)] \<and> length bs \<le> 1 \<and>
    length (pending (clientStep J (RunCommand now k) st)) = length (pending st) - 1 \<and>
    j_get (j_toUint J) J ''sequence_id'' resp = Inr (nc_seqId c) \<and>
    j_get (j_toString J) J ''id'' resp = Inr (if command_succeeds now c (cw st) then ''success'' else ''fail'') \<and>
    (nc_class c = NCmdNoAck \<longrightarrow> bs = [] \<and> cw (clientStep J (RunCommand now k) st) = cw st \<and>
       shutdownThreads (clientStep J (RunCommand now k) st) = shutdownThreads st)"
proof -
  have "client_ok J st" using cl.reach_inv [OF assms(2)] assms(1) by blast
  then have ok: "cmd_ok J c" using assms(3,4) nth_mem [of k "pending st"] by (auto simp: client_ok_def)
  obtain r c' st' where run: "runNetCommand J now c (st \<lparr> pending := take k (pending st) @ drop (Suc k) (pending st) \<rparr>) = (r, c', st')"
    and eq: "runPending J now k st = writeTo [i] (respJson c') st'"
    by (rule runPending_parts [OF assms(3,4)])
  note resp = runNetCommand_response [OF assms(1) ok run] and parts = runNetCommand_parts [OF run]
  obtain bs where bs: "written st' = written st @ bs" "length bs \<le> 1" "nc_class c \<noteq> NCmdSwitchCommandSource \<longrightarrow> bs = []"
    using resp(5) by auto
  show ?thesis
    by (rule exI [of _ bs], rule exI [of _ "respJson c'"])
      (use bs resp(1-3) parts(2,5) assms(3) in \<open>auto simp: eq writeTo_def\<close>)
qed

theorem command_response_witness:
  "\<exists>bs resp. written (clientStep J0 (RunCommand 4 0) (clientStep J0 (Receive 7 ''on'') client0)) =
     written (clientStep J0 (Receive 7 ''on'') client0) @ bs @ [([7], resp)] \<and>
     j_get (j_toString J0) J0 ''id'' resp = Inr ''success''"
proof -
  let ?st = "clientStep J0 (Receive 7 ''on'') client0"
  have r: "client_reach J0 ?st" by (rule client_reach.step [OF client0_reach])
  have "map fst (pending ?st) = [7]" "map (nc_seqId \<circ> snd) (pending ?st) = [1]"
    "list_all (\<lambda>(i, c). command_succeeds 4 c (cw ?st)) (pending ?st)"
    by code_simp+
  then obtain c where c: "pending ?st = [(7, c)]" "command_succeeds 4 c (cw ?st)" by (cases "pending ?st") auto
  then show ?thesis using command_response [OF J0_laws r, of 0 7 c 4] by auto
qed

end
