(* ===== verification/ComStream.thy ===== *)
theory ComStream
  imports ClientProps
begin

text \<open>
  The bytes of a connection: what \<open>system/ComConnection\<close> writes when a connection begins and how
  it splits what a client sends, and \<open>system/ComClient\<close>, the other side. A socket is the bytes
  that will come from it, and for writing the numbers of bytes its calls of \<open>write_some\<close> take.
\<close>

section \<open>Messages and delimiters\<close>

definition getDelimiter :: string where
  "getDelimiter = [CHR 0x0D, CHR 0x0A]"

text \<open>
  \<open>read_until\<close> and \<open>async_read_until\<close> with the message cut off before the delimiter and the
  buffer consumed up to behind it; \<open>None\<close> when the bytes end before.
\<close>

fun readUntil :: "string \<Rightarrow> (string \<times> string) option" where
  "readUntil (c # d # cs) =
     (if [c, d] = getDelimiter then Some ([], cs)
      else map_option (\<lambda>(msg, rest). (c # msg, rest)) (readUntil (d # cs)))"
| "readUntil _ = None"

lemma readUntil_shorter: "readUntil s = Some (msg, rest) \<Longrightarrow> length rest < length s"
  by (induction s arbitrary: msg rest rule: readUntil.induct) (auto split: if_splits)

lemma readUntil_message:
  "CHR 0x0A \<notin> set msg \<Longrightarrow> readUntil (msg @ getDelimiter @ rest) = Some (msg, rest)"
proof (induction msg)
  case Nil
  then show ?case by (simp add: getDelimiter_def)
next
  case (Cons c msg)
  obtain d cs where "msg @ getDelimiter @ rest = d # cs" "d \<noteq> CHR 0x0A"
    using Cons.prems by (cases msg) (auto simp: getDelimiter_def)
  then show ?case using Cons by (simp add: getDelimiter_def)
qed

text \<open>
  The loop of \<open>_syncWrite\<close>: \<open>write_some\<close> takes one or more bytes of those offered, or throws,
  which it does here when its answers run out. The result is what was sent, and the answers
  left unless it threw.
\<close>

fun syncWriteLoop :: "nat list \<Rightarrow> string \<Rightarrow> nat \<Rightarrow> string \<times> nat list option" where
  "syncWriteLoop [] msg bytesWritten = ([], if bytesWritten < length msg then None else Some [])"
| "syncWriteLoop (k # ks) msg bytesWritten =
     (if bytesWritten < length msg
      then
        let bytesToSend = length msg - bytesWritten;
            taken = min k bytesToSend;
            (sent, r) = syncWriteLoop ks msg (bytesWritten + taken)
        in (take taken (drop bytesWritten msg) @ sent, r)
      else ([], Some (k # ks)))"

definition syncWrite :: "nat list \<Rightarrow> string \<Rightarrow> string \<times> nat list option" where
  "syncWrite ks inMsg = syncWriteLoop ks (inMsg @ getDelimiter) 0"

lemma syncWriteLoop_sent:
  assumes "\<forall>k \<in> set ks. 0 < k" and "n \<le> length msg" and "length msg - n \<le> length ks"
  shows "\<exists>j \<le> length msg - n. syncWriteLoop ks msg n = (drop n msg, Some (drop j ks))"
  using assms
proof (induction ks arbitrary: n)
  case Nil
  then show ?case by simp
next
  case (Cons k ks)
  show ?case
  proof (cases "n < length msg")
    case True
    let ?t = "min k (length msg - n)"
    have "0 < k" using Cons.prems(1) by simp
    then have t: "1 \<le> ?t" "n + ?t \<le> length msg" "length msg - (n + ?t) \<le> length ks" using True Cons.prems(3) by auto
    then obtain j where j: "j \<le> length msg - (n + ?t)"
      "syncWriteLoop ks msg (n + ?t) = (drop (n + ?t) msg, Some (drop j ks))"
      using Cons.IH [of "n + ?t"] Cons.prems(1) by auto
    have "take ?t (drop n msg) @ drop (n + ?t) msg = drop n msg"
      using append_take_drop_id [of ?t "drop n msg"] by (simp add: add.commute)
    then have "syncWriteLoop (k # ks) msg n = (drop n msg, Some (drop (Suc j) (k # ks)))"
      using True j(2) by (simp add: Let_def)
    moreover have "Suc j \<le> length msg - n" using j(1) t(1) True by linarith
    ultimately show ?thesis by blast
  next
    case False
    then show ?thesis using Cons.prems(2) by (intro exI [of _ 0]) simp
  qed
qed

lemma syncWrite_sent:
  assumes "\<forall>k \<in> set ks. 0 < k" and "length msg + 2 \<le> length ks"
  shows "\<exists>j \<le> length msg + 2. syncWrite ks msg = (msg @ getDelimiter, Some (drop j ks))"
  using syncWriteLoop_sent [OF assms(1), of 0 "msg @ getDelimiter"] assms(2)
  by (simp add: syncWrite_def getDelimiter_def)


section \<open>The welcome message\<close>

text \<open>The members of \<open>Globals\<close> that it reads and are not part of the client state.\<close>

record globals_info =
  hardPointList :: "int list"
  temperatureOffsetsRing :: "real list"
  temperatureOffsetsIntake :: "real list"
  temperatureOffsetsExhaust :: "real list"
  interlock :: bool
  telemetrySource :: int
  summaryState :: int
  digitalInput :: "32 word"
  digitalOutput :: "32 word"
  closedLoopControlMode :: int

definition mkGlobals :: globals_info where
  "mkGlobals = \<lparr> hardPointList = [6, 16, 26, 74, 76, 78], temperatureOffsetsRing = replicate 12 21,
     temperatureOffsetsIntake = [0, 0], temperatureOffsetsExhaust = [0, 0], interlock = True,
     telemetrySource = 1, summaryState = 5, digitalInput = 0x9F00FFFF, digitalOutput = 0x1C,
     closedLoopControlMode = 1 \<rparr>"

definition setSummaryState :: "int \<Rightarrow> globals_info \<Rightarrow> globals_info" where
  "setSummaryState v g = g \<lparr> summaryState := v \<rparr>"

definition getTcpIpConnected :: "world \<Rightarrow> bool" where
  "getTcpIpConnected w \<longleftrightarrow> tcpCount w > 0"

text \<open>A document built from the default value, entry by entry.\<close>

definition jdoc :: "'j json_ops \<Rightarrow> (string \<times> 'j) list \<Rightarrow> 'j" where
  "jdoc J kvs = fold (\<lambda>(k, v) js. j_set J k v js) kvs (j_null J)"

definition configEntries :: "'j json_ops \<Rightarrow> (string \<times> 'j) list" where
  "configEntries J =
     [(''id'', j_ofString J ''config''),
      (''configuration'', j_ofString J ''Configurable_File_Description_20180831T092556_surrogate_handling.csv''),
      (''version'', j_ofString J ''20180831T092556''),
      (''controlParameters'', j_ofString J ''CtrlParameterFiles_2018-07-19_104314_surg''),
      (''lutParameters'', j_ofString J ''FinalHandlingLUTs''),
      (''powerWarningMotor'', j_ofReal J 5), (''powerFaultMotor'', j_ofReal J 10),
      (''powerThresholdMotor'', j_ofReal J 20), (''powerWarningComm'', j_ofReal J 5),
      (''powerFaultComm'', j_ofReal J 10), (''powerThresholdComm'', j_ofReal J 10),
      (''inPositionAxial'', j_ofReal J (158 / 1000)), (''inPositionTangent'', j_ofReal J (11 / 10)),
      (''inPositionSample'', j_ofReal J 1), (''timeoutSal'', j_ofReal J 15), (''timeoutCrio'', j_ofReal J 1),
      (''timeoutIlc'', j_ofInt J 3), (''inclinometerDelta'', j_ofReal J 2),
      (''inclinometerDiffEnabled'', j_ofBool J True), (''cellTemperatureDelta'', j_ofReal J 2)]"

definition configFiles :: "string list" where
  "configFiles =
     [''Configurable_File_Description_PLACEHOLDER_M2_optical.csv'',
      ''Configurable_File_Description_PLACEHOLDER_M2_handling.csv'',
      ''Configurable_File_Description_PLACEHOLDER_surrogate_optical.csv'',
      ''Configurable_File_Description_PLACEHOLDER_surrogate_handling.csv'']"

text \<open>
  The messages in their order, each with what it changes in \<open>Globals\<close> before it is built. All of
  them read the rest of the system in the state \<open>st\<close>.
\<close>

definition welcomeItems ::
  "'j json_ops \<Rightarrow> 'j client_world \<Rightarrow> ((globals_info \<Rightarrow> globals_info) \<times> (globals_info \<Rightarrow> 'j)) list" where
  "welcomeItems J st =
     (let str = j_ofString J; uint32 = (\<lambda>v :: 32 word. j_ofUint J (ucast v));
          reals = (\<lambda>rs. j_ofList J (map (j_ofReal J) rs));
          doc = (\<lambda>i kvs. (id, \<lambda>g. jdoc J ((''id'', str i) # kvs g)))
      in [doc ''tcpIpConnected'' (\<lambda>g. [(''isConnected'', j_ofBool J (getTcpIpConnected (cw st)))]),
          (id, \<lambda>g. getCommandableByDdsJson J st),
          doc ''hardpointList'' (\<lambda>g. [(''actuators'', j_ofList J (map (j_ofInt J) (hardPointList g)))]),
          doc ''interlock'' (\<lambda>g. [(''state'', j_ofBool J (interlock g))]),
          doc ''inclinationTelemetrySource'' (\<lambda>g. [(''source'', j_ofInt J (telemetrySource g))]),
          doc ''temperatureOffset''
            (\<lambda>g. [(''ring'', reals (temperatureOffsetsRing g)), (''intake'', reals (temperatureOffsetsIntake g)),
                  (''exhaust'', reals (temperatureOffsetsExhaust g))]),
          (setSummaryState 5, \<lambda>g. jdoc J [(''id'', str ''summaryState''), (''summaryState'', j_ofInt J (summaryState g))]),
          doc ''digitalInput'' (\<lambda>g. [(''value'', uint32 (digitalInput g))]),
          doc ''digitalOutput'' (\<lambda>g. [(''value'', uint32 (digitalOutput g))]),
          (id, \<lambda>g. jdoc J (configEntries J)),
          doc ''closedLoopControlMode'' (\<lambda>g. [(''mode'', j_ofInt J (closedLoopControlMode g))]),
          doc ''enabledFaultsMask'' (\<lambda>g. [(''mask'', j_ofUint J (fm_getFaultEnableMask (wfm (cw st))))]),
          doc ''configurationFiles'' (\<lambda>g. [(''files'', j_ofList J (map str configFiles))]),
          (setSummaryState 3, \<lambda>g. jdoc J [(''id'', str ''summaryState''), (''summaryState'', j_ofInt J (summaryState g))]),
          doc ''forceBalanceSystemStatus'' (\<lambda>g. [(''status'', j_ofBool J False)]),
          doc ''summaryFaultsStatus'' (\<lambda>g. [(''status'', j_ofUint J (fm_getSummaryFaults (wfm (cw st))))])])"

fun sendItems ::
  "'j json_ops \<Rightarrow> nat list \<Rightarrow> ((globals_info \<Rightarrow> globals_info) \<times> (globals_info \<Rightarrow> 'j)) list \<Rightarrow> globals_info \<Rightarrow>
     string \<times> nat list option \<times> globals_info" where
  "sendItems J ks [] g = ([], Some ks, g)"
| "sendItems J ks ((upd, doc) # items) g =
     (let g = upd g;
          (sent, r) = syncWrite ks (j_dump J (doc g))
      in case r of
           None \<Rightarrow> (sent, None, g)
         | Some ks \<Rightarrow> (let (sent', r, g) = sendItems J ks items g in (sent @ sent', r, g)))"

definition sendWelcomeMsg ::
  "'j json_ops \<Rightarrow> bool \<Rightarrow> nat list \<Rightarrow> 'j client_world \<Rightarrow> globals_info \<Rightarrow> string \<times> nat list option \<times> globals_info" where
  "sendWelcomeMsg J doSendWelcomeMsg ks st g =
     (if \<not> doSendWelcomeMsg then ([], Some ks, g) else sendItems J ks (welcomeItems J st) g)"

section \<open>The client\<close>

text \<open>
  \<open>ComClient\<close> with its \<open>JsonMsgMap\<close>: the bytes that are still to come, what it has written, and
  the messages put aside, by id. Bytes that end are a connection that was closed.
\<close>

record 'j com_client =
  readStream :: string
  clientSent :: string
  sockOpen :: bool
  jMsgMap :: "string \<rightharpoonup> 'j list"

definition mkComClient :: "string \<Rightarrow> 'j com_client" where
  "mkComClient s = \<lparr> readStream = s, clientSent = [], sockOpen = True, jMsgMap = Map.empty \<rparr>"

definition msgMapInsert :: "string \<Rightarrow> 'j \<Rightarrow> 'j com_client \<Rightarrow> 'j com_client" where
  "msgMapInsert key js c =
     c \<lparr> jMsgMap := (jMsgMap c)(key \<mapsto> (case jMsgMap c key of None \<Rightarrow> [] | Some jd \<Rightarrow> jd) @ [js]) \<rparr>"

definition getDequeFor :: "string \<Rightarrow> 'j com_client \<Rightarrow> 'j list \<times> 'j com_client" where
  "getDequeFor key c =
     (case jMsgMap c key of
        None \<Rightarrow> ([], c)
      | Some jd \<Rightarrow> (jd, c \<lparr> jMsgMap := (jMsgMap c)(key \<mapsto> []) \<rparr>))"

definition writeCommand :: "string \<Rightarrow> 'j com_client \<Rightarrow> unit result \<times> 'j com_client" where
  "writeCommand cmd c =
     (if sockOpen c then (Inr (), c \<lparr> clientSent := clientSent c @ cmd @ getDelimiter \<rparr>)
      else (Inl (RuntimeError ''write''), c))"

definition clientReadCommand :: "'j com_client \<Rightarrow> string result \<times> 'j com_client" where
  "clientReadCommand c =
     (case readUntil (readStream c) of
        None \<Rightarrow> (Inl (RuntimeError ''End of file''), c \<lparr> sockOpen := False \<rparr>)
      | Some (msg, rest) \<Rightarrow> (Inr msg, c \<lparr> readStream := rest \<rparr>))"

lemma clientReadCommand_shorter:
  "clientReadCommand c = (Inr msg, c') \<Longrightarrow> length (readStream c') < length (readStream c)"
  by (auto simp: clientReadCommand_def split: option.splits dest: readUntil_shorter)

text \<open>Only \<open>parse_error\<close> is caught; a document without a string as id throws.\<close>

function welcomeLoop :: "'j json_ops \<Rightarrow> int \<Rightarrow> 'j com_client \<Rightarrow> int result \<times> 'j com_client" where
  "welcomeLoop J count c =
     (case clientReadCommand c of
        (Inl e, c) \<Rightarrow> (Inl e, c)
      | (Inr inMsg, c) \<Rightarrow>
          (case j_parse J inMsg of
             Inl (ParseError _) \<Rightarrow> (Inr (- 1), c)
           | Inl ex \<Rightarrow> (Inl (JsonException (json_what ex)), c)
           | Inr js \<Rightarrow>
               (case j_get (j_toString J) J ''id'' js of
                  Inl ex \<Rightarrow> (Inl (JsonException (json_what ex)), c)
                | Inr i \<Rightarrow> if i = ''summaryFaultsStatus'' then (Inr (count + 1), c) else welcomeLoop J (count + 1) c)))"
  by pat_completeness auto

termination
  by (relation "measure (\<lambda>(J, n, c). length (readStream c))") (auto intro: clientReadCommand_shorter [OF sym])

declare welcomeLoop.simps [simp del]

definition readWelcomeMsg :: "'j json_ops \<Rightarrow> 'j com_client \<Rightarrow> int result \<times> 'j com_client" where
  "readWelcomeMsg J c = welcomeLoop J 0 c"

text \<open>
  The comparison of json values is the argument \<open>eq\<close>. Messages that are not looked for are put
  aside under their id, whose conversion to a string may throw; so may \<open>parse\<close>.
\<close>

function cmdRecvSeqId ::
  "('j \<Rightarrow> 'j \<Rightarrow> bool) \<Rightarrow> 'j json_ops \<Rightarrow> 32 word \<Rightarrow> 'j com_client \<Rightarrow> 'j result \<times> 'j com_client" where
  "cmdRecvSeqId eq J seqId c =
     (case clientReadCommand c of
        (Inl e, c) \<Rightarrow> (Inl e, c)
      | (Inr inStr, c) \<Rightarrow>
          (case j_parse J inStr of
             Inl ex \<Rightarrow> (Inl (JsonException (json_what ex)), c)
           | Inr js \<Rightarrow>
               if (case j_find J ''sequence_id'' js of None \<Rightarrow> False | Some v \<Rightarrow> eq v (j_ofUint J (ucast seqId))) then (Inr js, c)
               else
                 (case j_get (j_toString J) J ''id'' js of
                    Inl ex \<Rightarrow> (Inl (JsonException (json_what ex)), c)
                  | Inr i \<Rightarrow> cmdRecvSeqId eq J seqId (msgMapInsert i js c))))"
  by pat_completeness auto

termination
  by (relation "measure (\<lambda>(eq, J, n, c). length (readStream c))") (auto simp: msgMapInsert_def intro: clientReadCommand_shorter [OF sym])

declare cmdRecvSeqId.simps [simp del]

function cmdRecvId ::
  "('j \<Rightarrow> 'j \<Rightarrow> bool) \<Rightarrow> 'j json_ops \<Rightarrow> string \<Rightarrow> 'j com_client \<Rightarrow> 'j result \<times> 'j com_client" where
  "cmdRecvId eq J targetId c =
     (case clientReadCommand c of
        (Inl e, c) \<Rightarrow> (Inl e, c)
      | (Inr inStr, c) \<Rightarrow>
          (case j_parse J inStr of
             Inl ex \<Rightarrow> (Inl (JsonException (json_what ex)), c)
           | Inr js \<Rightarrow>
               (case j_at J ''id'' js of
                  Inl ex \<Rightarrow> (Inl (JsonException (json_what ex)), c)
                | Inr v \<Rightarrow>
                    if eq v (j_ofString J targetId) then (Inr js, c)
                    else
                      (case j_toString J v of
                         Inl ex \<Rightarrow> (Inl (JsonException (json_what ex)), c)
                       | Inr i \<Rightarrow> cmdRecvId eq J targetId (msgMapInsert i js c)))))"
  by pat_completeness auto

termination
  by (relation "measure (\<lambda>(eq, J, n, c). length (readStream c))") (auto simp: msgMapInsert_def intro: clientReadCommand_shorter [OF sym])

declare cmdRecvId.simps [simp del]

definition cmdSendRecv ::
  "('j \<Rightarrow> 'j \<Rightarrow> bool) \<Rightarrow> 'j json_ops \<Rightarrow> string \<Rightarrow> 32 word \<Rightarrow> 'j com_client \<Rightarrow> ('j \<times> 'j) result \<times> 'j com_client" where
  "cmdSendRecv eq J jStr seqId c =
     (case writeCommand jStr c of
        (Inl e, c) \<Rightarrow> (Inl e, c)
      | (Inr _, c) \<Rightarrow>
          (case cmdRecvSeqId eq J seqId c of
             (Inl e, c) \<Rightarrow> (Inl e, c)
           | (Inr ackJ, c) \<Rightarrow>
               (let (r, c) = cmdRecvSeqId eq J seqId c in (bind_result r (\<lambda>finJ. Inr (ackJ, finJ)), c))))"

definition recvDequeForId ::
  "('j \<Rightarrow> 'j \<Rightarrow> bool) \<Rightarrow> 'j json_ops \<Rightarrow> string \<Rightarrow> 'j com_client \<Rightarrow> 'j list result \<times> 'j com_client" where
  "recvDequeForId eq J key c =
     (let (jDeque, c) = getDequeFor key c
      in if jDeque \<noteq> [] then (Inr jDeque, c)
         else (let (r, c) = cmdRecvId eq J key c in (bind_result r (\<lambda>js. Inr (jDeque @ [js])), c)))"

section \<open>The server's reader\<close>

text \<open>
  \<open>_receiveCommand\<close>, \<open>_readCommand\<close> and \<open>_responseSent\<close>: a message is read, answered, and the
  next one is received once the answer was written. When the bytes end the connection is not
  read any more.
\<close>

function serveConnection :: "'j json_ops \<Rightarrow> nat \<Rightarrow> string \<Rightarrow> 'j client_world \<Rightarrow> 'j client_world" where
  "serveConnection J connId s st =
     (case readUntil s of
        None \<Rightarrow> st
      | Some (msg, rest) \<Rightarrow> serveConnection J connId rest (readCommand J connId msg st))"
  by pat_completeness auto

termination
  by (relation "measure (\<lambda>(J, i, s, st). length s)") (auto simp: readUntil_shorter)

declare serveConnection.simps [simp del]

end
