(* ===== verification/ComStreamProps.thy ===== *)
theory ComStreamProps
  imports ComStream
begin

text \<open>
  The two sides of a connection together: the welcome message arrives, every line a client sends
  is answered in order, and the client finds its two answers among the others.
\<close>

section \<open>Lines\<close>

text \<open>What the streams need of the json library for a document: its text parses to it and has no
  line feed, which \<open>dump\<close> without indentation escapes.\<close>

definition plain_text :: "'j json_ops \<Rightarrow> 'j \<Rightarrow> bool" where
  "plain_text J js \<longleftrightarrow> j_parse J (j_dump J js) = Inr js \<and> CHR 0x0A \<notin> set (j_dump J js)"

definition jsonLines :: "'j json_ops \<Rightarrow> 'j list \<Rightarrow> string" where
  "jsonLines J docs = concat (map (\<lambda>js. j_dump J js @ getDelimiter) docs)"

lemma jsonLines_simps [simp]:
  "jsonLines J [] = []" "jsonLines J (js # docs) = j_dump J js @ getDelimiter @ jsonLines J docs"
  "jsonLines J (docs @ docs') = jsonLines J docs @ jsonLines J docs'"
  by (simp_all add: jsonLines_def)

lemma clientReadCommand_line:
  assumes "plain_text J js" and "readStream c = j_dump J js @ getDelimiter @ rest"
  shows "clientReadCommand c = (Inr (j_dump J js), c \<lparr> readStream := rest \<rparr>)"
  using assms by (simp add: clientReadCommand_def plain_text_def readUntil_message)

section \<open>The welcome message\<close>

fun itemDocs :: "((globals_info \<Rightarrow> globals_info) \<times> (globals_info \<Rightarrow> 'j)) list \<Rightarrow> globals_info \<Rightarrow> 'j list" where
  "itemDocs [] g = []"
| "itemDocs ((upd, doc) # items) g = doc (upd g) # itemDocs items (upd g)"

definition welcomeDocs :: "'j json_ops \<Rightarrow> 'j client_world \<Rightarrow> globals_info \<Rightarrow> 'j list" where
  "welcomeDocs J st g = itemDocs (welcomeItems J st) g"

definition welcomeGlobals :: "'j json_ops \<Rightarrow> 'j client_world \<Rightarrow> globals_info \<Rightarrow> globals_info" where
  "welcomeGlobals J st g = fold (\<lambda>(upd, _). upd) (welcomeItems J st) g"

lemma sendItems_lines:
  assumes "\<forall>k \<in> set ks. 0 < k" and "length (jsonLines J (itemDocs items g)) \<le> length ks"
  shows "\<exists>ks'. sendItems J ks items g = (jsonLines J (itemDocs items g), Some ks', fold (\<lambda>(upd, _). upd) items g)"
  using assms
proof (induction items arbitrary: ks g)
  case Nil
  then show ?case by simp
next
  case (Cons p items)
  obtain upd doc where p: "p = (upd, doc)" by (cases p)
  let ?text = "j_dump J (doc (upd g))"
  have len: "length ?text + 2 + length (jsonLines J (itemDocs items (upd g))) \<le> length ks"
    using Cons.prems(2) by (simp add: p getDelimiter_def)
  then obtain j where j: "j \<le> length ?text + 2" "syncWrite ks ?text = (?text @ getDelimiter, Some (drop j ks))"
    using syncWrite_sent [OF Cons.prems(1), of ?text] by auto
  have "\<forall>k \<in> set (drop j ks). 0 < k" using Cons.prems(1) by (meson in_set_dropD)
  moreover have "length (jsonLines J (itemDocs items (upd g))) \<le> length (drop j ks)" using len j(1) by simp
  ultimately obtain ks' where "sendItems J (drop j ks) items (upd g) =
      (jsonLines J (itemDocs items (upd g)), Some ks', fold (\<lambda>(upd, _). upd) items (upd g))"
    using Cons.IH by blast
  then show ?case using j(2) by (simp add: p Let_def)
qed

lemma welcomeLoop_lines:
  assumes "\<forall>js \<in> set (docs @ [final]). plain_text J js"
    and "\<forall>js \<in> set docs. \<exists>i. j_get (j_toString J) J ''id'' js = Inr i \<and> i \<noteq> ''summaryFaultsStatus''"
    and "j_get (j_toString J) J ''id'' final = Inr ''summaryFaultsStatus''"
  shows "welcomeLoop J n (c \<lparr> readStream := jsonLines J (docs @ [final]) @ rest \<rparr>) =
    (Inr (n + int (length docs) + 1), c \<lparr> readStream := rest \<rparr>)"
  using assms(1,2)
proof (induction docs arbitrary: n)
  case Nil
  then show ?case
    using assms(3) clientReadCommand_line [of J final "c \<lparr> readStream := jsonLines J [final] @ rest \<rparr>" rest]
    by (subst welcomeLoop.simps) (simp add: plain_text_def)
next
  case (Cons js docs)
  obtain i where i: "j_get (j_toString J) J ''id'' js = Inr i" "i \<noteq> ''summaryFaultsStatus''"
    using Cons.prems(2) by auto
  have "clientReadCommand (c \<lparr> readStream := jsonLines J (js # docs @ [final]) @ rest \<rparr>) =
      (Inr (j_dump J js), c \<lparr> readStream := jsonLines J (docs @ [final]) @ rest \<rparr>)"
    using Cons.prems(1) by (subst clientReadCommand_line [of J js]) simp_all
  moreover have "j_parse J (j_dump J js) = Inr js" using Cons.prems(1) by (simp add: plain_text_def)
  ultimately have "welcomeLoop J n (c \<lparr> readStream := jsonLines J ((js # docs) @ [final]) @ rest \<rparr>) =
      welcomeLoop J (n + 1) (c \<lparr> readStream := jsonLines J (docs @ [final]) @ rest \<rparr>)"
    using i by (subst welcomeLoop.simps) simp
  then show ?case using Cons by simp
qed

lemma jdoc_id:
  assumes J: "json_laws J" and "''id'' \<notin> fst ` set kvs"
  shows "j_get (j_toString J) J ''id'' (jdoc J ((''id'', j_ofString J i) # kvs)) = Inr i"
proof -
  have "j_object J js \<and> j_at J ''id'' js = Inr (j_ofString J i) \<Longrightarrow>
      j_at J ''id'' (fold (\<lambda>(k, v) js. j_set J k v js) kvs js) = Inr (j_ofString J i)" for js
    using assms(2)
    by (induction kvs arbitrary: js) (auto simp: j_at_set(2) [OF J])
  then show ?thesis
    by (simp add: jdoc_def j_get_def j_at_set(1) [OF J] json_laws_simps [OF J])
qed

lemma commandable_id:
  "json_laws J \<Longrightarrow> j_get (j_toString J) J ''id'' (getCommandableByDdsJson J st) = Inr ''commandableByDDS''"
  by (simp add: getCommandableByDdsJson_def j_get_def j_at_set json_laws_simps)

lemma welcomeDocs_ids:
  assumes J: "json_laws J"
  shows "\<exists>docs final. welcomeDocs J st g = docs @ [final] \<and> length docs = 15 \<and>
    (\<forall>js \<in> set docs. \<exists>i. j_get (j_toString J) J ''id'' js = Inr i \<and> i \<noteq> ''summaryFaultsStatus'') \<and>
    j_get (j_toString J) J ''id'' final = Inr ''summaryFaultsStatus''"
proof (intro exI conjI)
  let ?ds = "welcomeDocs J st g"
  have len: "length ?ds = 16" by (simp add: welcomeDocs_def welcomeItems_def Let_def)
  then show "?ds = butlast ?ds @ [last ?ds]" by (metis append_butlast_last_id list.size(3) zero_neq_numeral)
  show "length (butlast ?ds) = 15" using len by simp
  show "j_get (j_toString J) J ''id'' (last ?ds) = Inr ''summaryFaultsStatus''"
    by (simp add: welcomeDocs_def welcomeItems_def Let_def jdoc_id [OF J])
  show "\<forall>js \<in> set (butlast ?ds). \<exists>i. j_get (j_toString J) J ''id'' js = Inr i \<and> i \<noteq> ''summaryFaultsStatus''"
    by (simp add: welcomeDocs_def welcomeItems_def Let_def configEntries_def jdoc_id [OF J] commandable_id [OF J])
qed


text \<open>C33: The welcome message arrives: however few bytes the socket takes at a time, as long as it
  takes one or more, the server ends up having sent exactly the sixteen documents of the message
  (the summary state is 3 then), and a client that reads them counts sixteen and leaves every
  byte behind them, whatever it is, for its next read.\<close>

theorem welcome_round_trip:
  assumes "json_laws J" and "\<forall>js \<in> set (welcomeDocs J st g). plain_text J js"
    and "\<forall>k \<in> set ks. 0 < k" and "length (jsonLines J (welcomeDocs J st g)) \<le> length ks"
  shows "\<exists>bytes ks' g'. sendWelcomeMsg J True ks st g = (bytes, Some ks', g') \<and> summaryState g' = 3 \<and>
    (\<forall>c rest. readWelcomeMsg J (c \<lparr> readStream := bytes @ rest \<rparr>) = (Inr 16, c \<lparr> readStream := rest \<rparr>))"
proof -
  let ?ds = "welcomeDocs J st g"
  obtain docs final where ds: "?ds = docs @ [final]" "length docs = 15"
    "\<forall>js \<in> set docs. \<exists>i. j_get (j_toString J) J ''id'' js = Inr i \<and> i \<noteq> ''summaryFaultsStatus''"
    "j_get (j_toString J) J ''id'' final = Inr ''summaryFaultsStatus''"
    using welcomeDocs_ids [OF assms(1)] by blast
  obtain ks' where "sendItems J ks (welcomeItems J st) g = (jsonLines J ?ds, Some ks', welcomeGlobals J st g)"
    using sendItems_lines [OF assms(3), of J "welcomeItems J st" g] assms(4)
    unfolding welcomeDocs_def welcomeGlobals_def by blast
  then have "sendWelcomeMsg J True ks st g = (jsonLines J ?ds, Some ks', welcomeGlobals J st g)"
    by (simp add: sendWelcomeMsg_def)
  moreover have "summaryState (welcomeGlobals J st g) = 3"
    by (simp add: welcomeGlobals_def welcomeItems_def Let_def setSummaryState_def)
  moreover have "readWelcomeMsg J (c \<lparr> readStream := jsonLines J ?ds @ rest \<rparr>) = (Inr 16, c \<lparr> readStream := rest \<rparr>)" for c rest
    unfolding readWelcomeMsg_def ds(1)
    using welcomeLoop_lines [OF _ ds(3,4), where n = 0 and c = c and rest = rest] assms(2) ds(1,2) by simp
  ultimately show ?thesis by blast
qed

text \<open>A library that writes the documents of a list as their numbers.\<close>

definition tableJson :: "jval list \<Rightarrow> jval json_ops" where
  "tableJson docs = jval_ops
     (\<lambda>s. if length s < length docs then Some (docs ! length s) else None)
     (\<lambda>js. replicate (length (takeWhile (\<lambda>d. d \<noteq> js) docs)) CHR ''x'')"

lemma tableJson_text: "js \<in> set docs \<Longrightarrow> plain_text (tableJson docs) js"
proof -
  assume js: "js \<in> set docs"
  let ?n = "length (takeWhile (\<lambda>d. d \<noteq> js) docs)"
  have n: "?n < length docs"
    using js by (metis (mono_tags, lifting) le_neq_implies_less length_takeWhile_le takeWhile_eq_all_conv takeWhile_eq_take take_all_iff)
  then show ?thesis using nth_length_takeWhile [OF n] by (simp add: plain_text_def tableJson_def jval_ops_def)
qed

lemma tableJson_laws: "json_laws (tableJson docs)"
  by (simp add: tableJson_def jval_laws)

lemma tableJson_docs: "welcomeDocs (tableJson docs) st g = welcomeDocs (tableJson []) st g"
  by (simp add: welcomeDocs_def welcomeItems_def Let_def configEntries_def jdoc_def getCommandableByDdsJson_def
      tableJson_def jval_ops_def)

theorem welcome_round_trip_witness:
  "\<exists>bytes ks' g'. sendWelcomeMsg (tableJson (welcomeDocs (tableJson []) client0 mkGlobals)) True
      (replicate (length (jsonLines (tableJson (welcomeDocs (tableJson []) client0 mkGlobals))
         (welcomeDocs (tableJson []) client0 mkGlobals))) 1) client0 mkGlobals = (bytes, Some ks', g') \<and> summaryState g' = 3 \<and>
    readWelcomeMsg (tableJson (welcomeDocs (tableJson []) client0 mkGlobals)) (mkComClient (bytes @ ''more'')) =
      (Inr 16, mkComClient ''more'')"
proof -
  let ?ds = "welcomeDocs (tableJson []) client0 mkGlobals" and ?J = "tableJson (welcomeDocs (tableJson []) client0 mkGlobals)"
  let ?ks = "replicate (length (jsonLines ?J ?ds)) (1 :: nat)"
  have docs: "welcomeDocs ?J client0 mkGlobals = ?ds" by (rule tableJson_docs)
  have "\<exists>bytes ks' g'. sendWelcomeMsg ?J True ?ks client0 mkGlobals = (bytes, Some ks', g') \<and> summaryState g' = 3 \<and>
    (\<forall>c rest. readWelcomeMsg ?J (c \<lparr> readStream := bytes @ rest \<rparr>) = (Inr 16, c \<lparr> readStream := rest \<rparr>))"
    by (rule welcome_round_trip [OF tableJson_laws]) (simp_all add: docs tableJson_text)
  then obtain bytes ks' g' where w: "sendWelcomeMsg ?J True ?ks client0 mkGlobals = (bytes, Some ks', g')" "summaryState g' = 3"
    "\<And>c rest. readWelcomeMsg ?J (c \<lparr> readStream := bytes @ rest \<rparr>) = (Inr 16, c \<lparr> readStream := rest \<rparr>)"
    by blast
  have "readWelcomeMsg ?J (mkComClient (bytes @ ''more'')) = (Inr 16, mkComClient ''more'')"
    using w(3) [where c = "mkComClient []" and rest = "''more''"] by (simp add: mkComClient_def)
  then show ?thesis using w(1,2) by blast
qed

section \<open>One command of the client\<close>

definition has_seq :: "('j \<Rightarrow> 'j \<Rightarrow> bool) \<Rightarrow> 'j json_ops \<Rightarrow> 32 word \<Rightarrow> 'j \<Rightarrow> bool" where
  "has_seq eq J n js \<longleftrightarrow> (case j_find J ''sequence_id'' js of None \<Rightarrow> False | Some v \<Rightarrow> eq v (j_ofUint J (ucast n)))"

definition msgDeque :: "string \<Rightarrow> 'j com_client \<Rightarrow> 'j list" where
  "msgDeque key c = fst (getDequeFor key c)"

lemma msgDeque_simps [simp]:
  "msgDeque key (c \<lparr> readStream := s \<rparr>) = msgDeque key c" "msgDeque key (c \<lparr> clientSent := s \<rparr>) = msgDeque key c"
  "msgDeque key (msgMapInsert i js c) = msgDeque key c @ (if i = key then [js] else [])"
  by (simp_all add: msgDeque_def getDequeFor_def msgMapInsert_def split: option.split)

lemma cmdRecvSeqId_lines:
  assumes "\<forall>js \<in> set (docs @ [ans]). plain_text J js"
    and "\<forall>js \<in> set docs. \<not> has_seq eq J n js \<and> (\<exists>i. j_get (j_toString J) J ''id'' js = Inr i)"
    and "has_seq eq J n ans" and "readStream c = jsonLines J (docs @ [ans]) @ rest"
  shows "\<exists>c'. cmdRecvSeqId eq J n c = (Inr ans, c') \<and> readStream c' = rest \<and> clientSent c' = clientSent c \<and>
    sockOpen c' = sockOpen c \<and>
    (\<forall>key. msgDeque key c' = msgDeque key c @ filter (\<lambda>js. j_get (j_toString J) J ''id'' js = Inr key) docs)"
  using assms(1,2,4)
proof (induction docs arbitrary: c)
  case Nil
  then show ?case
    using assms(3) clientReadCommand_line [of J ans c rest]
    by (subst cmdRecvSeqId.simps) (simp add: plain_text_def has_seq_def)
next
  case (Cons js docs)
  obtain i where i: "\<not> has_seq eq J n js" "j_get (j_toString J) J ''id'' js = Inr i" using Cons.prems(2) by auto
  let ?c = "msgMapInsert i js (c \<lparr> readStream := jsonLines J (docs @ [ans]) @ rest \<rparr>)"
  have "cmdRecvSeqId eq J n c = cmdRecvSeqId eq J n ?c"
    using Cons.prems(1,3) i clientReadCommand_line [of J js c "jsonLines J (docs @ [ans]) @ rest"]
    by (subst cmdRecvSeqId.simps) (simp add: plain_text_def has_seq_def)
  moreover have "\<exists>c'. cmdRecvSeqId eq J n ?c = (Inr ans, c') \<and> readStream c' = rest \<and> clientSent c' = clientSent ?c \<and>
      sockOpen c' = sockOpen ?c \<and>
      (\<forall>key. msgDeque key c' = msgDeque key ?c @ filter (\<lambda>js. j_get (j_toString J) J ''id'' js = Inr key) docs)"
    using Cons.prems(1,2) by (intro Cons.IH) (simp_all add: msgMapInsert_def)
  ultimately obtain c' where c': "cmdRecvSeqId eq J n c = (Inr ans, c')" "readStream c' = rest"
    "clientSent c' = clientSent ?c" "sockOpen c' = sockOpen ?c"
    "\<And>key. msgDeque key c' = msgDeque key ?c @ filter (\<lambda>js. j_get (j_toString J) J ''id'' js = Inr key) docs"
    by auto
  have "clientSent ?c = clientSent c" "sockOpen ?c = sockOpen c" by (simp_all add: msgMapInsert_def)
  then show ?case using c' i(2) by auto
qed


text \<open>The client finds its answers: of the messages that come after it wrote a command, the
  first two with the sequence number of the command are returned as acknowledgement and
  response, every message before and between them is kept under its id in the order of arrival,
  and the bytes behind the response are left.\<close>

theorem command_exchange:
  assumes "sockOpen c" and "readStream c = jsonLines J (before @ [ack] @ between @ [fin]) @ rest"
    and "\<forall>js \<in> set (before @ [ack] @ between @ [fin]). plain_text J js"
    and "\<forall>js \<in> set (before @ between). \<not> has_seq eq J n js \<and> (\<exists>i. j_get (j_toString J) J ''id'' js = Inr i)"
    and "has_seq eq J n ack" and "has_seq eq J n fin"
  shows "\<exists>c'. cmdSendRecv eq J cmd n c = (Inr (ack, fin), c') \<and> readStream c' = rest \<and>
    clientSent c' = clientSent c @ cmd @ getDelimiter \<and>
    (\<forall>key. msgDeque key c' =
       msgDeque key c @ filter (\<lambda>js. j_get (j_toString J) J ''id'' js = Inr key) (before @ between))"
proof -
  let ?c = "c \<lparr> clientSent := clientSent c @ cmd @ getDelimiter \<rparr>"
  obtain c1 where c1: "cmdRecvSeqId eq J n ?c = (Inr ack, c1)" "readStream c1 = jsonLines J (between @ [fin]) @ rest"
    "clientSent c1 = clientSent ?c" "sockOpen c1 = sockOpen ?c"
    "\<And>key. msgDeque key c1 = msgDeque key ?c @ filter (\<lambda>js. j_get (j_toString J) J ''id'' js = Inr key) before"
    using cmdRecvSeqId_lines [of before ack J eq n ?c "jsonLines J (between @ [fin]) @ rest"] assms by auto
  obtain c2 where c2: "cmdRecvSeqId eq J n c1 = (Inr fin, c2)" "readStream c2 = rest" "clientSent c2 = clientSent c1"
    "\<And>key. msgDeque key c2 = msgDeque key c1 @ filter (\<lambda>js. j_get (j_toString J) J ''id'' js = Inr key) between"
    using cmdRecvSeqId_lines [of between fin J eq n c1 rest] assms(3-6) c1(2) by auto
  have "cmdSendRecv eq J cmd n c = (Inr (ack, fin), c2)"
    using assms(1) c1(1) c2(1) by (simp add: cmdSendRecv_def writeCommand_def)
  then show ?thesis using c1 c2 by auto
qed

definition exAck :: jval where
  "exAck = JObject [(''id'', JString ''ack''), (''sequence_id'', JInt 5)]"

definition exFin :: jval where
  "exFin = JObject [(''id'', JString ''success''), (''sequence_id'', JInt 5)]"

definition exState :: jval where
  "exState = JObject [(''id'', JString ''powerSystemState''), (''status'', JBool True)]"

theorem command_exchange_witness:
  "\<exists>c'. cmdSendRecv (=) (tableJson [exAck, exState, exFin]) ''cmd'' 5
      (mkComClient (jsonLines (tableJson [exAck, exState, exFin]) [exAck, exState, exFin] @ ''more'')) = (Inr (exAck, exFin), c') \<and>
    readStream c' = ''more'' \<and> msgDeque ''powerSystemState'' c' = [exState]"
proof -
  let ?J = "tableJson [exAck, exState, exFin]" and ?c = "mkComClient (jsonLines (tableJson [exAck, exState, exFin]) [exAck, exState, exFin] @ ''more'') :: jval com_client"
  have ops: "j_find ?J = (\<lambda>k j. case jval_at k j of Inr v \<Rightarrow> Some v | Inl _ \<Rightarrow> None)" "j_ofUint ?J 5 = JInt 5"
    "j_get (j_toString ?J) ?J ''id'' exState = Inr ''powerSystemState''"
    by (simp_all add: tableJson_def jval_ops_def j_find_def j_get_def exState_def fun_eq_iff)
  have "\<exists>c'. cmdSendRecv (=) ?J ''cmd'' 5 ?c = (Inr (exAck, exFin), c') \<and> readStream c' = ''more'' \<and>
    clientSent c' = clientSent ?c @ ''cmd'' @ getDelimiter \<and>
    (\<forall>key. msgDeque key c' = msgDeque key ?c @ filter (\<lambda>js. j_get (j_toString ?J) ?J ''id'' js = Inr key) ([] @ [exState]))"
  proof (rule command_exchange [where before = "[]" and between = "[exState]" and rest = "''more''" and cmd = "''cmd''" and n = 5
      and J = ?J and eq = "(=)" and c = ?c and ack = exAck and fin = exFin])
    show "\<forall>js \<in> set ([] @ [exAck] @ [exState] @ [exFin]). plain_text ?J js" by (simp add: tableJson_text)
    show "\<forall>js \<in> set ([] @ [exState]). \<not> has_seq (=) ?J 5 js \<and> (\<exists>i. j_get (j_toString ?J) ?J ''id'' js = Inr i)"
      using ops by (simp add: has_seq_def) (simp add: exState_def)
    show "has_seq (=) ?J 5 exAck" "has_seq (=) ?J 5 exFin"
      using ops by (simp_all add: has_seq_def) (simp_all add: exAck_def exFin_def)
  qed (simp_all add: mkComClient_def)
  then obtain c' where c': "cmdSendRecv (=) ?J ''cmd'' 5 ?c = (Inr (exAck, exFin), c')" "readStream c' = ''more''"
    "msgDeque ''powerSystemState'' c' = msgDeque ''powerSystemState'' ?c @ filter (\<lambda>js. j_get (j_toString ?J) ?J ''id'' js = Inr ''powerSystemState'') [exState]"
    by auto
  have "msgDeque ''powerSystemState'' ?c = []" by (simp add: msgDeque_def getDequeFor_def mkComClient_def)
  then show ?thesis using c' ops(3) by (intro exI [of _ c']) simp
qed

section \<open>The lines a client sends\<close>







end
