(* ===== verification/StdMap.thy ===== *)
theory StdMap
  imports M2Prelude
begin

text \<open>
  \<open>std::map\<close> with strings as keys, as the list of its entries in the order of the keys.
\<close>

section \<open>Operations\<close>

text \<open>\<open>std::string\<close> is ordered by its bytes, and \<open>std::map\<close> keeps its keys in that order.\<close>

fun key_less :: "string \<Rightarrow> string \<Rightarrow> bool" where
  "key_less _ [] = False"
| "key_less [] _ = True"
| "key_less (a # as) (b # bs) =
     ((of_char a :: nat) < of_char b \<or> a = b \<and> key_less as bs)"

fun map_insert :: "string \<Rightarrow> 'v \<Rightarrow> (string \<times> 'v) list \<Rightarrow> (string \<times> 'v) list" where
  "map_insert k v [] = [(k, v)]"
| "map_insert k v ((k', v') # kvs) =
     (if key_less k k' then (k, v) # (k', v') # kvs else (k', v') # map_insert k v kvs)"

text \<open>Changing what a key refers to.\<close>

definition map_modify :: "string \<Rightarrow> ('v \<Rightarrow> 'v) \<Rightarrow> (string \<times> 'v) list \<Rightarrow> (string \<times> 'v) list" where
  "map_modify k f m = map (\<lambda>(k', v). (k', if k' = k then f v else v)) m"

section \<open>Laws\<close>

lemma key_less_irrefl: "\<not> key_less k k"
  by (induction k) auto

lemma key_less_trans: "key_less a b \<Longrightarrow> key_less b c \<Longrightarrow> key_less a c"
proof (induction a b arbitrary: c rule: key_less.induct)
  case (3 a as b bs)
  then show ?case by (cases c) auto
next
  case (2 v va)
  then show ?case by (cases c) auto
qed auto

lemma key_less_linear: "a = b \<or> key_less a b \<or> key_less b a"
proof (induction a b rule: key_less.induct)
  case (1 a)
  then show ?case by (cases a) auto
next
  case (3 a as b bs)
  then show ?case by (metis key_less.simps(3) linorder_neqE_nat of_char_eq_iff)
qed auto

lemma map_of_map_insert: "map_of m k = None \<Longrightarrow> map_of (map_insert k v m) = (map_of m)(k \<mapsto> v)"
  by (induction m) (auto split: if_splits)

lemma set_map_insert: "set (map_insert k v m) = insert (k, v) (set m)"
  by (induction m) (auto split: if_splits)

definition sorted_keys :: "(string \<times> 'v) list \<Rightarrow> bool" where
  "sorted_keys m \<longleftrightarrow> sorted_wrt key_less (map fst m)"

lemma sorted_keys_insert: "sorted_keys m \<Longrightarrow> map_of m k = None \<Longrightarrow> sorted_keys (map_insert k v m)"
proof (induction m)
  case Nil
  then show ?case by (simp add: sorted_keys_def)
next
  case (Cons a m)
  obtain k' v' where a: "a = (k', v')" by (cases a)
  have k: "k \<noteq> k'" "map_of m k = None" using Cons.prems(2) a by (auto split: if_splits)
  show ?case
  proof (cases "key_less k k'")
    case True
    then show ?thesis using Cons.prems(1) by (auto simp: a sorted_keys_def intro: key_less_trans)
  next
    case False
    then have "key_less k' k" using key_less_linear [of k k'] k(1) by blast
    then show ?thesis using Cons.IH Cons.prems(1) k(2) False
      by (auto simp: a sorted_keys_def set_map_insert)
  qed
qed

lemma sorted_keys_distinct: "sorted_keys m \<Longrightarrow> distinct (map fst m)"
  unfolding sorted_keys_def by (induction m) (auto simp: key_less_irrefl)

lemma map_modify_keys [simp]: "map fst (map_modify i f m) = map fst m"
  by (induction m) (auto simp: map_modify_def)

lemma map_of_map_modify: "map_of (map_modify i f m) k = (if k = i then map_option f (map_of m k) else map_of m k)"
  by (induction m) (auto simp: map_modify_def)

lemma map_of_map_key: "map_of (map (\<lambda>(k, v). (k, f k v)) c) k = map_option (f k) (map_of c k)"
  by (induction c) auto

end
