(* ===== verification/TelemetryItem.thy ===== *)
theory TelemetryItem
  imports JsonLib Registry StdMap
begin

text \<open>
  \<open>system/TelemetryItem\<close> and \<open>system/TelemetryItemDefs\<close>: values with a name, the items that are
  made of them, and their json form. A \<open>double\<close> is a real number; NaN is not modelled.
\<close>

section \<open>Values\<close>

text \<open>
  The child classes \<open>TItemDouble\<close>, \<open>TItemBoolean\<close>, \<open>TItemString\<close>, \<open>TItemVectorDouble\<close> and
  \<open>TItemVectorInt\<close>. A vector has its \<open>_size\<close> beside \<open>_vals\<close>.
\<close>

datatype tval =
    TDouble real
  | TBoolean bool
  | TString string
  | TVectorDouble nat "real list"
  | TVectorInt nat "int list"

type_synonym tvalue = "string \<times> tval"

definition newDouble :: "string \<Rightarrow> tvalue" where
  "newDouble i = (i, TDouble 0)"

definition newString :: "string \<Rightarrow> tvalue" where
  "newString i = (i, TString [])"

text \<open>The constructor pushes \<open>_size\<close> copies of the default value.\<close>

definition newVectorDouble :: "string \<Rightarrow> nat \<Rightarrow> tvalue" where
  "newVectorDouble i n = (i, TVectorDouble n (replicate n 0))"

definition newVectorInt :: "string \<Rightarrow> nat \<Rightarrow> tvalue" where
  "newVectorInt i n = (i, TVectorInt n (replicate n 0))"

subsection \<open>Elements of a vector\<close>

definition getVals :: "nat \<times> 'a list \<Rightarrow> 'a list" where
  "getVals v = snd v"

definition setVals :: "'a list \<Rightarrow> nat \<times> 'a list \<Rightarrow> bool \<times> nat \<times> 'a list" where
  "setVals vals v = (if length vals \<noteq> fst v then (False, v) else (True, fst v, vals))"

text \<open>
  The range check compares with \<open>>\<close>, so \<open>_vals[_size]\<close> is reached, which C++ leaves undefined.
\<close>

definition setVal :: "nat \<Rightarrow> 'a \<Rightarrow> nat \<times> 'a list \<Rightarrow> (bool \<times> nat \<times> 'a list) result" where
  "setVal index val v =
     (if index > fst v then Inr (False, v)
      else if index < length (snd v) then Inr (True, fst v, (snd v)[index := val])
      else Inl (UndefinedBehaviour ''vector index out of range''))"

definition getVal :: "nat \<Rightarrow> nat \<times> 'a list \<Rightarrow> 'a result" where
  "getVal index v =
     (if index > fst v then Inl (TelemetryException (''TItemVector::getVal out of range for index='' @ to_string (int index)))
      else if index < length (snd v) then Inr (snd v ! index)
      else Inl (UndefinedBehaviour ''vector index out of range''))"

subsection \<open>Json\<close>

fun valueJson :: "'j json_ops \<Rightarrow> tval \<Rightarrow> 'j" where
  "valueJson J (TDouble r) = j_ofReal J r"
| "valueJson J (TBoolean b) = j_ofBool J b"
| "valueJson J (TString s) = j_ofString J s"
| "valueJson J (TVectorDouble n vals) = j_ofList J (map (\<lambda>j. j_ofReal J (vals ! j)) [0..<n])"
| "valueJson J (TVectorInt n vals) = j_ofList J (map (\<lambda>j. j_ofInt J (vals ! j)) [0..<n])"

definition getJsonValue :: "'j json_ops \<Rightarrow> tvalue \<Rightarrow> 'j" where
  "getJsonValue J t = j_set J (fst t) (valueJson J (snd t)) (j_null J)"

text \<open>A json array as a \<open>std::vector\<close>: every element is converted.\<close>

fun convert_all :: "('j \<Rightarrow> json_exception + 'a) \<Rightarrow> 'j list \<Rightarrow> json_exception + 'a list" where
  "convert_all conv [] = Inr []"
| "convert_all conv (j # js) =
     (case conv j of
        Inl ex \<Rightarrow> Inl ex
      | Inr v \<Rightarrow> (case convert_all conv js of Inl ex \<Rightarrow> Inl ex | Inr vs \<Rightarrow> Inr (v # vs)))"

definition toVector :: "('j \<Rightarrow> json_exception + 'a) \<Rightarrow> 'j json_ops \<Rightarrow> 'j \<Rightarrow> json_exception + 'a list" where
  "toVector conv J j = (case j_toList J j of Inl ex \<Rightarrow> Inl ex | Inr js \<Rightarrow> convert_all conv js)"

text \<open>
  \<open>setFromJson\<close> of the simple values. It catches \<open>out_of_range\<close> only, so a value of the wrong
  type throws.
\<close>

definition caught :: "json_exception + 'a \<Rightarrow> ('a \<Rightarrow> bool \<times> tval) \<Rightarrow> tval \<Rightarrow> (bool \<times> tval) result" where
  "caught r f v =
     (case r of
        Inr x \<Rightarrow> Inr (f x)
      | Inl (OutOfRange _) \<Rightarrow> Inr (False, v)
      | Inl ex \<Rightarrow> Inl (JsonException (json_what ex)))"

fun setValueFromJson :: "'j json_ops \<Rightarrow> 'j \<Rightarrow> string \<Rightarrow> tval \<Rightarrow> (bool \<times> tval) result" where
  "setValueFromJson J js i (TDouble r) = caught (j_get (j_toReal J) J i js) (\<lambda>x. (True, TDouble x)) (TDouble r)"
| "setValueFromJson J js i (TBoolean b) = caught (j_get (j_toBool J) J i js) (\<lambda>x. (True, TBoolean x)) (TBoolean b)"
| "setValueFromJson J js i (TString s) = caught (j_get (j_toString J) J i js) (\<lambda>x. (True, TString x)) (TString s)"
| "setValueFromJson J js i (TVectorDouble n vs) =
     caught (j_get (toVector (j_toReal J) J) J i js)
       (\<lambda>x. let (ok, m, ws) = setVals x (n, vs) in (ok, TVectorDouble m ws)) (TVectorDouble n vs)"
| "setValueFromJson J js i (TVectorInt n vs) =
     caught (j_get (toVector (j_toInt J) J) J i js)
       (\<lambda>x. let (ok, m, ws) = setVals x (n, vs) in (ok, TVectorInt m ws)) (TVectorInt n vs)"

definition setFromJsonValue :: "'j json_ops \<Rightarrow> 'j \<Rightarrow> bool \<Rightarrow> tvalue \<Rightarrow> (bool \<times> tvalue) result" where
  "setFromJsonValue J js idExpected t =
     (if idExpected then Inr (False, t)
      else bind_result (setValueFromJson J js (fst t) (snd t)) (\<lambda>(ok, v). Inr (ok, fst t, v)))"

text \<open>\<open>compareItem\<close>: the \<open>dynamic_cast\<close> succeeds between values of one class.\<close>

fun compareItemValue :: "tvalue \<Rightarrow> tvalue \<Rightarrow> bool" where
  "compareItemValue (i, TDouble x) (j, TDouble y) = (i = j \<and> x = y)"
| "compareItemValue (i, TBoolean x) (j, TBoolean y) = (i = j \<and> x = y)"
| "compareItemValue (i, TString x) (j, TString y) = (i = j \<and> x = y)"
| "compareItemValue (i, TVectorDouble n x) (j, TVectorDouble m y) = (i = j \<and> n = m \<and> x = y)"
| "compareItemValue (i, TVectorInt n x) (j, TVectorInt m y) = (i = j \<and> n = m \<and> x = y)"
| "compareItemValue _ _ = False"

section \<open>Maps of items\<close>

text \<open>\<open>TelemetryItem::insert\<close>; the map is a pointer that may be null.\<close>

definition insertItem :: "'j json_ops \<Rightarrow> tvalue \<Rightarrow> tvalue list option \<Rightarrow> tvalue list result" where
  "insertItem J item tiMap =
     (case tiMap of
        None \<Rightarrow> Inl (TelemetryException (''insert failure, tiMap was null '' @ j_dump J (getJsonValue J item)))
      | Some m \<Rightarrow>
          (case map_of m (fst item) of
             Some _ \<Rightarrow> Inl (TelemetryException (''insert failure, likely duplicate '' @ j_dump J (getJsonValue J item)))
           | None \<Rightarrow> Inr (map_insert (fst item) (snd item) m)))"

definition compareMapsBy :: "('v \<Rightarrow> 'v \<Rightarrow> bool) \<Rightarrow> (string \<times> 'v) list \<Rightarrow> (string \<times> 'v) list \<Rightarrow> bool" where
  "compareMapsBy cmp mapA mapB \<longleftrightarrow>
     length mapA = length mapB \<and>
     list_all (\<lambda>(i, a). case map_of mapB i of None \<Rightarrow> False | Some b \<Rightarrow> cmp a b) mapA"

section \<open>Items\<close>

datatype titem_class =
    TItemPowerStatus | TItemPowerStatusRaw | TItemTangentForce | TItemForceBalance | TItemPosition
  | TItemPositionIMS | TItemTemperature | TItemZenithAngle | TItemAxialEncoderPositions
  | TItemTangentEncoderPositions | TItemAxialActuatorSteps | TItemTangentActuatorSteps
  | TItemForceErrorTangent | TItemInclinometerAngleTma | TItemDisplacementSensors | TItemIlcData
  | TItemNetForcesTotal | TItemNetMomentsTotal | TItemAxialForce | TItemTelElevation

fun itemId :: "titem_class \<Rightarrow> string" where
  "itemId TItemPowerStatus = ''powerStatus''"
| "itemId TItemPowerStatusRaw = ''powerStatusRaw''"
| "itemId TItemTangentForce = ''tangentForce''"
| "itemId TItemForceBalance = ''forceBalance''"
| "itemId TItemPosition = ''position''"
| "itemId TItemPositionIMS = ''positionIMS''"
| "itemId TItemTemperature = ''temperature''"
| "itemId TItemZenithAngle = ''zenithAngle''"
| "itemId TItemAxialEncoderPositions = ''axialEncoderPositions''"
| "itemId TItemTangentEncoderPositions = ''tangentEncoderPositions''"
| "itemId TItemAxialActuatorSteps = ''axialActuatorSteps''"
| "itemId TItemTangentActuatorSteps = ''tangentActuatorSteps''"
| "itemId TItemForceErrorTangent = ''forceErrorTangent''"
| "itemId TItemInclinometerAngleTma = ''inclinometerAngleTma''"
| "itemId TItemDisplacementSensors = ''displacementSensors''"
| "itemId TItemIlcData = ''ilcData''"
| "itemId TItemNetForcesTotal = ''netForcesTotal''"
| "itemId TItemNetMomentsTotal = ''netMomentsTotal''"
| "itemId TItemAxialForce = ''axialForce''"
| "itemId TItemTelElevation = ''tel_elevation''"

text \<open>The members of each class, in the order they are created.\<close>

definition powerStatusItems :: "tvalue list" where
  "powerStatusItems =
     [newDouble ''motorVoltage'', newDouble ''motorCurrent'', newDouble ''commVoltage'', newDouble ''commCurrent'']"

definition tangentForceItems :: "tvalue list" where
  "tangentForceItems =
     [newVectorDouble ''lutGravity'' 6, newVectorDouble ''lutTemperature'' 6, newVectorDouble ''applied'' 6,
      newVectorDouble ''measured'' 6, newVectorDouble ''hardpointCorrection'' 6]"

definition forceBalanceItems :: "tvalue list" where
  "forceBalanceItems =
     [newDouble ''fx'', newDouble ''fy'', newDouble ''fz'', newDouble ''mx'', newDouble ''my'', newDouble ''mz'']"

definition positionItems :: "tvalue list" where
  "positionItems =
     [newDouble ''x'', newDouble ''y'', newDouble ''z'', newDouble ''xRot'', newDouble ''yRot'', newDouble ''zRot'']"

definition temperatureItems :: "tvalue list" where
  "temperatureItems = [newVectorDouble ''ring'' 12, newVectorDouble ''intake'' 2, newVectorDouble ''exhaust'' 2]"

definition zenithAngleItems :: "tvalue list" where
  "zenithAngleItems = [newDouble ''measured'', newDouble ''inclinometerRaw'', newDouble ''inclinometerProcessed'']"

definition axialEncoderPositionsItems :: "tvalue list" where
  "axialEncoderPositionsItems = [newVectorDouble ''position'' 72]"

definition tangentEncoderPositionsItems :: "tvalue list" where
  "tangentEncoderPositionsItems = [newVectorDouble ''position'' 6]"

definition axialActuatorStepsItems :: "tvalue list" where
  "axialActuatorStepsItems = [newVectorInt ''steps'' 72]"

definition tangentActuatorStepsItems :: "tvalue list" where
  "tangentActuatorStepsItems = [newVectorInt ''steps'' 6]"

definition forceErrorTangentItems :: "tvalue list" where
  "forceErrorTangentItems = [newVectorDouble ''force'' 6, newDouble ''weight'', newDouble ''sum'']"

definition inclinometerAngleTmaItems :: "tvalue list" where
  "inclinometerAngleTmaItems = [newDouble ''inclinometer'']"

definition displacementSensorsItems :: "tvalue list" where
  "displacementSensorsItems = [newVectorDouble ''thetaZ'' 6, newVectorDouble ''deltaZ'' 6]"

definition ilcDataItems :: "tvalue list" where
  "ilcDataItems = [newVectorDouble ''status'' 78]"

definition netForcesTotalItems :: "tvalue list" where
  "netForcesTotalItems = [newDouble ''fx'', newDouble ''fy'', newDouble ''fz'']"

definition netMomentsTotalItems :: "tvalue list" where
  "netMomentsTotalItems = [newDouble ''mx'', newDouble ''my'', newDouble ''mz'']"

definition axialForceItems :: "tvalue list" where
  "axialForceItems =
     [newVectorDouble ''lutGravity'' 72, newVectorDouble ''lutTemperature'' 72, newVectorDouble ''applied'' 72,
      newVectorDouble ''measured'' 72, newVectorDouble ''hardpointCorrection'' 72]"

definition telElevationItems :: "tvalue list" where
  "telElevationItems = [newDouble ''actualPosition'', newString ''compName'']"

fun itemValues :: "titem_class \<Rightarrow> tvalue list" where
  "itemValues TItemPowerStatus = powerStatusItems"
| "itemValues TItemPowerStatusRaw = powerStatusItems"
| "itemValues TItemTangentForce = tangentForceItems"
| "itemValues TItemForceBalance = forceBalanceItems"
| "itemValues TItemPosition = positionItems"
| "itemValues TItemPositionIMS = positionItems"
| "itemValues TItemTemperature = temperatureItems"
| "itemValues TItemZenithAngle = zenithAngleItems"
| "itemValues TItemAxialEncoderPositions = axialEncoderPositionsItems"
| "itemValues TItemTangentEncoderPositions = tangentEncoderPositionsItems"
| "itemValues TItemAxialActuatorSteps = axialActuatorStepsItems"
| "itemValues TItemTangentActuatorSteps = tangentActuatorStepsItems"
| "itemValues TItemForceErrorTangent = forceErrorTangentItems"
| "itemValues TItemInclinometerAngleTma = inclinometerAngleTmaItems"
| "itemValues TItemDisplacementSensors = displacementSensorsItems"
| "itemValues TItemIlcData = ilcDataItems"
| "itemValues TItemNetForcesTotal = netForcesTotalItems"
| "itemValues TItemNetMomentsTotal = netMomentsTotalItems"
| "itemValues TItemAxialForce = axialForceItems"
| "itemValues TItemTelElevation = telElevationItems"

record telem_item =
  ti_class :: titem_class
  ti_id :: string
  tiMap :: "tvalue list"
  doNotSend :: bool

definition mkItem :: "'j json_ops \<Rightarrow> titem_class \<Rightarrow> telem_item result" where
  "mkItem J cls =
     bind_result (insertAll (\<lambda>v m. insertItem J v (Some m)) (itemValues cls) []) (\<lambda>m.
       Inr \<lparr> ti_class = cls, ti_id = itemId cls, tiMap = m, doNotSend = False \<rparr>)"

text \<open>The class that \<open>compareItemsTemplate\<close> casts both sides to; two pairs share a base class.\<close>

fun compareClass :: "titem_class \<Rightarrow> titem_class" where
  "compareClass TItemPowerStatusRaw = TItemPowerStatus"
| "compareClass TItemPositionIMS = TItemPosition"
| "compareClass c = c"

definition compareItem :: "telem_item \<Rightarrow> telem_item \<Rightarrow> bool" where
  "compareItem a b \<longleftrightarrow>
     compareClass (ti_class a) = compareClass (ti_class b) \<and>
     compareMapsBy (\<lambda>x y. compareItemValue ([], x) ([], y)) (tiMap a) (tiMap b)"

definition buildJsonFromMap :: "'j json_ops \<Rightarrow> telem_item \<Rightarrow> 'j" where
  "buildJsonFromMap J item =
     fold (\<lambda>v js. j_merge_patch J js (getJsonValue J v)) (tiMap item)
       (j_set J ''id'' (j_ofString J (ti_id item)) (j_null J))"

text \<open>\<open>js["id"]\<close> of a constant json without that entry is undefined.\<close>

definition checkIdCorrect :: "'j json_ops \<Rightarrow> 'j \<Rightarrow> bool \<Rightarrow> string \<Rightarrow> bool result" where
  "checkIdCorrect J js idExpected i =
     (if \<not> idExpected then Inr True
      else case j_at J ''id'' js of
             Inr v \<Rightarrow> Inr (j_toString J v = Inr i)
           | Inl (OutOfRange _) \<Rightarrow> Inl (UndefinedBehaviour ''const operator[] without the key'')
           | Inl ex \<Rightarrow> Inl (JsonException (json_what ex)))"

text \<open>The loop of \<open>setMapFromJson\<close> sets every value it can; an exception leaves the rest as it was.\<close>

fun setAllFromJson :: "'j json_ops \<Rightarrow> 'j \<Rightarrow> tvalue list \<Rightarrow> bool result \<times> tvalue list" where
  "setAllFromJson J js [] = (Inr True, [])"
| "setAllFromJson J js (v # vs) =
     (case setFromJsonValue J js False v of
        Inl e \<Rightarrow> (Inl e, v # vs)
      | Inr (status, v') \<Rightarrow>
          (let (r, vs') = setAllFromJson J js vs
           in (bind_result r (\<lambda>success. Inr (status \<and> success)), v' # vs')))"

definition setFromJson :: "'j json_ops \<Rightarrow> 'j \<Rightarrow> bool \<Rightarrow> telem_item \<Rightarrow> bool result \<times> telem_item" where
  "setFromJson J js idExpected item =
     (case checkIdCorrect J js idExpected (ti_id item) of
        Inl e \<Rightarrow> (Inl e, item)
      | Inr False \<Rightarrow> (Inr False, item)
      | Inr True \<Rightarrow> (let (r, m) = setAllFromJson J js (tiMap item) in (r, item \<lparr> tiMap := m \<rparr>)))"

definition parseItem :: "'j json_ops \<Rightarrow> string \<Rightarrow> telem_item \<Rightarrow> bool result \<times> telem_item" where
  "parseItem J jStr item =
     (case j_parse J jStr of
        Inl ex \<Rightarrow> (Inr False, item)
      | Inr js \<Rightarrow> setFromJson J js True item)"

section \<open>The items of a map\<close>

interpretation ti: registry fst "\<lambda>v m. insertItem J v (Some m)" "\<lambda>m k. map_option (Pair k) (map_of m k)"
  for J :: "'j json_ops"
  by unfold_locales (auto simp: insertItem_def map_of_map_insert fun_eq_iff)

end
