(* ===== verification/TelemetryMap.thy ===== *)
theory TelemetryMap
  imports TelemetryItem
begin

text \<open>
  \<open>system/TelemetryMap\<close> and the byte streams of \<open>system/TelemetryCom\<close>: the twenty items by id,
  the messages that set them, one pass of the sender and the reader's loop. Sockets and threads
  are not modelled; a read that ends the connection is the end of the bytes.
\<close>

section \<open>The map\<close>

type_synonym telem_map = "(string \<times> telem_item) list"

text \<open>\<open>_addItem\<close> inserts without looking at the result: a second item with an id would be lost.\<close>

definition addItem :: "'j json_ops \<Rightarrow> titem_class \<Rightarrow> telem_map \<Rightarrow> telem_map result" where
  "addItem J cls m =
     bind_result (mkItem J cls) (\<lambda>item.
       Inr (if map_of m (ti_id item) = None then map_insert (ti_id item) item m else m))"

definition telemetryClasses :: "titem_class list" where
  "telemetryClasses =
     [TItemPowerStatus, TItemPowerStatusRaw, TItemTangentForce, TItemForceBalance, TItemPosition,
      TItemPositionIMS, TItemTemperature, TItemZenithAngle, TItemAxialEncoderPositions,
      TItemTangentEncoderPositions, TItemAxialActuatorSteps, TItemTangentActuatorSteps,
      TItemForceErrorTangent, TItemInclinometerAngleTma, TItemDisplacementSensors, TItemIlcData,
      TItemNetForcesTotal, TItemNetMomentsTotal, TItemAxialForce, TItemTelElevation]"

definition setDoNotSend :: "bool \<Rightarrow> telem_item \<Rightarrow> telem_item" where
  "setDoNotSend b item = item \<lparr> doNotSend := b \<rparr>"

text \<open>The member initialisers in their order, then the body of the constructor.\<close>

definition mkTelemetryMap :: "'j json_ops \<Rightarrow> telem_map result" where
  "mkTelemetryMap J =
     bind_result (insertAll (addItem J) telemetryClasses []) (\<lambda>m.
       Inr (map_modify (itemId TItemTelElevation) (setDoNotSend True) m))"

definition compareMaps :: "telem_map \<Rightarrow> telem_map \<Rightarrow> bool" where
  "compareMaps a b = compareMapsBy compareItem a b"

text \<open>
  The item is changed in place, also when not all of its values could be set; the result is the id
  of the item that was set.
\<close>

definition setItemFromJson :: "'j json_ops \<Rightarrow> 'j \<Rightarrow> telem_map \<Rightarrow> string option result \<times> telem_map" where
  "setItemFromJson J js m =
     (case j_get (j_toString J) J ''id'' js of
        Inl (OutOfRange _) \<Rightarrow> (Inl (UndefinedBehaviour ''const operator[] without the key''), m)
      | Inl ex \<Rightarrow> (Inl (JsonException (json_what ex)), m)
      | Inr i \<Rightarrow>
          (case map_of m i of
             None \<Rightarrow> (Inr None, m)
           | Some item \<Rightarrow>
               (let (r, item') = setFromJson J js True item
                in (bind_result r (\<lambda>ok. Inr (if ok then Some i else None)), map_modify i (\<lambda>_. item') m))))"

definition setItemFromJsonStr :: "'j json_ops \<Rightarrow> string \<Rightarrow> telem_map \<Rightarrow> string option result \<times> telem_map" where
  "setItemFromJsonStr J jsStr m =
     (case j_parse J jsStr of
        Inl ex \<Rightarrow> (Inr None, m)
      | Inr js \<Rightarrow> setItemFromJson J js m)"

section \<open>The stream\<close>

definition TERMINATOR :: string where
  "TERMINATOR = [CHR 0x0D, CHR 0x0A]"

text \<open>One pass over the items in \<open>_servConnHandler\<close>: the bytes that are sent.\<close>

definition sendItem :: "'j json_ops \<Rightarrow> telem_item \<Rightarrow> string" where
  "sendItem J item = (if doNotSend item then [] else j_dump J (buildJsonFromMap J item) @ TERMINATOR)"

definition sendPass :: "'j json_ops \<Rightarrow> telem_map \<Rightarrow> string" where
  "sendPass J m = concat (map (\<lambda>(i, item). sendItem J item) m)"

text \<open>
  The loops of \<open>client\<close> and \<open>_servConnReader\<close>, a byte at a time. \<open>inMsg.back()\<close> of an empty string
  is undefined. An exception leaves the loop and, since nothing on the thread catches it, ends the
  program.
\<close>

record reader =
  inMsg :: string
  rmap :: telem_map

definition clientByte :: "'j json_ops \<Rightarrow> char \<Rightarrow> reader \<Rightarrow> reader result" where
  "clientByte J inChar r =
     (if inChar = CHR 0x0A \<and> inMsg r = [] then Inl (UndefinedBehaviour ''back() of an empty string'')
      else if inChar = CHR 0x0A \<and> last (inMsg r) = CHR 0x0D
      then
        (case setItemFromJsonStr J (butlast (inMsg r)) (rmap r) of
           (Inl e, m) \<Rightarrow> Inl e
         | (Inr _, m) \<Rightarrow> Inr (r \<lparr> inMsg := [], rmap := m \<rparr>))
      else Inr (r \<lparr> inMsg := inMsg r @ [inChar] \<rparr>))"

fun clientRead :: "'j json_ops \<Rightarrow> string \<Rightarrow> reader \<Rightarrow> reader result" where
  "clientRead J [] r = Inr r"
| "clientRead J (c # cs) r = bind_result (clientByte J c r) (clientRead J cs)"

text \<open>
  The server's reader also copies the telescope elevation to the inclinometer item, whichever
  value \<open>actualPosition\<close> has after the message.
\<close>

definition getDouble :: "string \<Rightarrow> telem_item \<Rightarrow> real" where
  "getDouble i item = (case map_of (tiMap item) i of Some (TDouble r) \<Rightarrow> r | _ \<Rightarrow> 0)"

definition setDouble :: "string \<Rightarrow> real \<Rightarrow> telem_item \<Rightarrow> telem_item" where
  "setDouble i r item = item \<lparr> tiMap := map (\<lambda>(k, v). (k, if k = i then TDouble r else v)) (tiMap item) \<rparr>"

definition copyElevation :: "telem_map \<Rightarrow> telem_map" where
  "copyElevation m =
     (case map_of m (itemId TItemTelElevation) of
        None \<Rightarrow> m
      | Some tel \<Rightarrow>
          map_modify (itemId TItemInclinometerAngleTma) (setDouble ''inclinometer'' (getDouble ''actualPosition'' tel)) m)"

definition servByte :: "'j json_ops \<Rightarrow> char \<Rightarrow> reader \<Rightarrow> reader result" where
  "servByte J inChar r =
     (if inChar = CHR 0x0A \<and> inMsg r = [] then Inl (UndefinedBehaviour ''back() of an empty string'')
      else if inChar = CHR 0x0A \<and> last (inMsg r) = CHR 0x0D
      then
        (case setItemFromJsonStr J (butlast (inMsg r)) (rmap r) of
           (Inl e, m) \<Rightarrow> Inl e
         | (Inr updated, m) \<Rightarrow>
             Inr (r \<lparr> inMsg := [],
                      rmap := (if updated = Some (itemId TItemTelElevation) then copyElevation m else m) \<rparr>))
      else Inr (r \<lparr> inMsg := inMsg r @ [inChar] \<rparr>))"

fun servRead :: "'j json_ops \<Rightarrow> string \<Rightarrow> reader \<Rightarrow> reader result" where
  "servRead J [] r = Inr r"
| "servRead J (c # cs) r = bind_result (servByte J c r) (servRead J cs)"

end
