(* ===== verification/TelemetryProps.thy ===== *)
theory TelemetryProps
  imports TelemetryMap
begin

text \<open>
  Telemetry arrives as it was sent: the json form of an item sets an item of the same class to
  equal values, and a pass of the sender makes the reader's map equal to the sender's. Then what a
  message of the wrong form does.
\<close>

section \<open>Well-formed items\<close>

fun value_ok :: "tval \<Rightarrow> bool" where
  "value_ok (TVectorDouble n vs) = (length vs = n)"
| "value_ok (TVectorInt n vs) = (length vs = n)"
| "value_ok _ = True"

text \<open>The class and the size of a value, without its content.\<close>

fun shape :: "tval \<Rightarrow> tval" where
  "shape (TDouble _) = TDouble 0"
| "shape (TBoolean _) = TBoolean False"
| "shape (TString _) = TString []"
| "shape (TVectorDouble n _) = TVectorDouble n []"
| "shape (TVectorInt n _) = TVectorInt n []"

definition values_wf :: "tvalue list \<Rightarrow> bool" where
  "values_wf vs \<longleftrightarrow> sorted_keys vs \<and> (\<forall>(k, v) \<in> set vs. k \<noteq> ''id'' \<and> value_ok v)"

definition insertValues :: "tvalue list \<Rightarrow> tvalue list" where
  "insertValues vs = foldl (\<lambda>m v. map_insert (fst v) (snd v) m) [] vs"

definition shapes :: "tvalue list \<Rightarrow> (string \<times> tval) list" where
  "shapes vs = map (\<lambda>(k, v). (k, shape v)) vs"

definition item_wf :: "telem_item \<Rightarrow> bool" where
  "item_wf item \<longleftrightarrow>
     ti_id item = itemId (ti_class item) \<and> values_wf (tiMap item) \<and>
     shapes (tiMap item) = shapes (insertValues (itemValues (ti_class item)))"

definition map_wf :: "telem_map \<Rightarrow> bool" where
  "map_wf m \<longleftrightarrow> sorted_keys m \<and> (\<forall>(i, item) \<in> set m. item_wf item \<and> i = ti_id item)"

lemma still_new:
  assumes "u \<in> set vs" and "distinct (map fst (v # vs))" and "\<forall>u \<in> set (v # vs). map_of m (fst u) = None"
  shows "map_of (map_insert (fst v) w m) (fst u) = None"
proof -
  have "fst u \<noteq> fst v" 
    using assms(1, 2) by (metis distinct.simps(2) image_eqI list.set_map list.simps(9))
  then show ?thesis using assms by (simp add: map_of_map_insert)
qed

lemma insertAll_values:
  assumes "distinct (map fst vs)" and "\<forall>v \<in> set vs. map_of m (fst v) = None"
  shows "insertAll (\<lambda>v m. insertItem J v (Some m)) vs m = Inr (foldl (\<lambda>m v. map_insert (fst v) (snd v) m) m vs)"
  using assms
proof (induction vs arbitrary: m)
  case (Cons v vs)
  have "map_of (map_insert (fst v) (snd v) m) (fst u) = None" if "u \<in> set vs" for u
      using that Cons.prems(1, 2) by (rule still_new)
  then show ?case using Cons by (simp add: insertItem_def)
qed simp

lemmas item_defs =
  powerStatusItems_def tangentForceItems_def forceBalanceItems_def positionItems_def temperatureItems_def
  zenithAngleItems_def axialEncoderPositionsItems_def tangentEncoderPositionsItems_def
  axialActuatorStepsItems_def tangentActuatorStepsItems_def forceErrorTangentItems_def
  inclinometerAngleTmaItems_def displacementSensorsItems_def ilcDataItems_def netForcesTotalItems_def
  netMomentsTotalItems_def axialForceItems_def telElevationItems_def
  newDouble_def newString_def newVectorDouble_def newVectorInt_def

lemma itemValues_distinct: "distinct (map fst (itemValues cls))"
  by (cases cls) (simp_all add: item_defs)

lemma mkItem_eq:
  "mkItem J cls = Inr \<lparr> ti_class = cls, ti_id = itemId cls, tiMap = insertValues (itemValues cls), doNotSend = False \<rparr>"
  by (simp add: mkItem_def insertAll_values itemValues_distinct insertValues_def)

lemma insertValues_wf: "values_wf (insertValues (itemValues cls))"
proof -
  have "sorted_keys (foldl (\<lambda>m v. map_insert (fst v) (snd v) m) m vs) \<and>
      set (foldl (\<lambda>m v. map_insert (fst v) (snd v) m) m vs) = set m \<union> set vs"
    if "sorted_keys m" "distinct (map fst vs)" "\<forall>v \<in> set vs. map_of m (fst v) = None" for m :: "tvalue list" and vs
    using that
  proof (induction vs arbitrary: m)
    case (Cons v vs)
    have "map_of (map_insert (fst v) (snd v) m) (fst u) = None" if "u \<in> set vs" for u
      using that Cons.prems(2, 3) by (rule still_new)
    then show ?case using Cons by (simp add: sorted_keys_insert set_map_insert)
  qed simp
  then have "sorted_keys (insertValues (itemValues cls)) \<and> set (insertValues (itemValues cls)) = set (itemValues cls)"
    using itemValues_distinct [of cls] by (simp add: insertValues_def sorted_keys_def)
  moreover have "list_all (\<lambda>(k, v). k \<noteq> ''id'' \<and> value_ok v) (itemValues cls)"
    by (cases cls) (simp_all add: item_defs)
  ultimately show ?thesis by (auto simp: values_wf_def list_all_iff)
qed

lemma mkItem_wf: "mkItem J cls = Inr item \<Longrightarrow> item_wf item \<and> ti_class item = cls \<and> \<not> doNotSend item"
  by (auto simp: mkItem_eq item_wf_def insertValues_wf)

definition freshItem :: "titem_class \<Rightarrow> telem_item" where
  "freshItem cls =
     \<lparr> ti_class = cls, ti_id = itemId cls, tiMap = insertValues (itemValues cls), doNotSend = False \<rparr>"

definition telemetryMap0 :: telem_map where
  "telemetryMap0 = map_modify (itemId TItemTelElevation) (setDoNotSend True)
     (foldl (\<lambda>m cls. map_insert (itemId cls) (freshItem cls) m) [] telemetryClasses)"

lemma itemId_inj: "itemId a = itemId b \<longleftrightarrow> a = b"
  by (cases a; cases b) simp_all

lemma addItem_new:
  "map_of m (itemId cls) = None \<Longrightarrow> addItem J cls m = Inr (map_insert (itemId cls) (freshItem cls) m)"
  by (simp add: addItem_def mkItem_eq freshItem_def)

lemma insertAll_addItem:
  assumes "distinct cs" and "\<forall>c \<in> set cs. map_of m (itemId c) = None"
  shows "insertAll (addItem J) cs m = Inr (foldl (\<lambda>m cls. map_insert (itemId cls) (freshItem cls) m) m cs)"
  using assms
proof (induction cs arbitrary: m)
  case (Cons c cs)
  have "map_of (map_insert (itemId c) (freshItem c) m) (itemId d) = None" if "d \<in> set cs" for d
    using that Cons.prems by (auto simp: map_of_map_insert itemId_inj)
  then show ?case using Cons by (simp add: addItem_new)
qed simp

lemma mkTelemetryMap_eq: "mkTelemetryMap J = Inr telemetryMap0"
proof -
  have "distinct telemetryClasses" by (simp add: telemetryClasses_def)
  then show ?thesis by (simp add: mkTelemetryMap_def telemetryMap0_def insertAll_addItem)
qed


section \<open>Json forms\<close>

lemma shapes_keys: "shapes vs = shapes ws \<Longrightarrow> map fst vs = map fst ws"
  unfolding shapes_def by (drule arg_cong [where f = "map fst"]) (simp add: o_def case_prod_unfold)

lemma convert_all_map:
  "(\<And>x. x \<in> set xs \<Longrightarrow> conv (f x) = Inr (g x)) \<Longrightarrow> convert_all conv (map f xs) = Inr (map g xs)"
  by (induction xs) auto

lemma toVector_list:
  assumes "json_laws J" and "\<And>x. conv (f x) = Inr x" and "length vals = n"
  shows "toVector conv J (j_ofList J (map (\<lambda>j. f (vals ! j)) [0..<n])) = Inr vals"
proof -
  have "convert_all conv (map (\<lambda>j. f (vals ! j)) [0..<n]) = Inr (map (\<lambda>j. vals ! j) [0..<n])"
    by (rule convert_all_map) (rule assms(2))
  moreover have "map (\<lambda>j. vals ! j) [0..<n] = vals" using assms(3) by (metis map_nth)
  ultimately show ?thesis by (simp add: toVector_def json_laws_simps [OF assms(1)])
qed

lemma setValueFromJson_value:
  assumes J: "json_laws J" and v: "value_ok v" "shape w = shape v" and js: "j_at J i js = Inr (valueJson J v)"
  shows "setValueFromJson J js i w = Inr (True, v)"
proof -
  note laws = json_laws_simps [OF J] toVector_list [OF J, where f = "j_ofReal J"]
    toVector_list [OF J, where f = "j_ofInt J"]
  show ?thesis
    using v js by (cases v; cases w) (simp_all add: j_get_def caught_def setVals_def laws)
qed

lemma setAllFromJson_values:
  assumes "json_laws J" and "shapes ws = shapes vs"
    and "\<forall>(k, v) \<in> set vs. value_ok v \<and> j_at J k js = Inr (valueJson J v)"
  shows "setAllFromJson J js ws = (Inr True, vs)"
  using assms(2, 3)
proof (induction ws arbitrary: vs)
  case Nil
  then show ?case by (simp add: shapes_def)
next
  case (Cons w ws)
  obtain v vs' where vs: "vs = v # vs'" using Cons.prems(1) by (cases vs) (auto simp: shapes_def)
  have eq: "fst w = fst v" "shape (snd w) = shape (snd v)" "shapes ws = shapes vs'"
    using Cons.prems(1) vs by (auto simp: shapes_def split: prod.splits)
  have "value_ok (snd v)" "j_at J (fst v) js = Inr (valueJson J (snd v))" using Cons.prems(2) vs by auto
  then have "setValueFromJson J js (fst w) (snd w) = Inr (True, snd v)"
    using eq by (simp add: setValueFromJson_value [OF assms(1)])
  moreover have "setAllFromJson J js ws = (Inr True, vs')" using Cons.IH [OF eq(3)] Cons.prems(2) vs by simp
  ultimately show ?case using eq(1) by (simp add: vs setFromJsonValue_def)
qed

lemma valueJson_leaf: "j_leaf J (valueJson J v)"
  by (cases v) simp_all

definition addValues :: "'j json_ops \<Rightarrow> tvalue list \<Rightarrow> 'j \<Rightarrow> 'j" where
  "addValues J vs j = fold (\<lambda>v js. j_merge_patch J js (getJsonValue J v)) vs j"

lemma addValues_Cons:
  assumes "json_laws J" and "j_object J j"
  shows "addValues J (u # vs) j = addValues J vs (j_set J (fst u) (valueJson J (snd u)) j)"
  using json_laws_simps(10) [OF assms valueJson_leaf] by (simp add: addValues_def getJsonValue_def)

lemma addValues_other:
  assumes J: "json_laws J" and "j_object J j" and "k \<notin> fst ` set vs" and "j_at J k j = Inr w"
  shows "j_at J k (addValues J vs j) = Inr w"
  using assms(2-)
proof (induction vs arbitrary: j)
  case (Cons u vs)
  have "j_at J k (j_set J (fst u) (valueJson J (snd u)) j) = Inr w"
    using Cons.prems by (simp add: j_at_set [OF J])
  then show ?case using Cons by (simp add: addValues_Cons [OF J])
qed (simp add: addValues_def)

lemma addValues_set:
  assumes J: "json_laws J" and "j_object J j" and "distinct (map fst vs)"
  shows "\<forall>(k, v) \<in> set vs. j_at J k (addValues J vs j) = Inr (valueJson J v)"
  using assms(2-)
proof (induction vs arbitrary: j)
  case (Cons u vs)
  let ?j = "j_set J (fst u) (valueJson J (snd u)) j"
  have "j_at J (fst u) (addValues J vs ?j) = Inr (valueJson J (snd u))"
    using Cons.prems by (intro addValues_other [OF J]) (simp_all add: j_at_set [OF J])
  moreover have "\<forall>(k, v) \<in> set vs. j_at J k (addValues J vs ?j) = Inr (valueJson J v)"
    using Cons by simp
  ultimately show ?case using Cons.prems(1) by (auto simp: addValues_Cons [OF J])
qed simp

lemma buildJsonFromMap_at:
  assumes J: "json_laws J" and "values_wf (tiMap a)"
  shows "j_at J ''id'' (buildJsonFromMap J a) = Inr (j_ofString J (ti_id a))"
    and "\<forall>(k, v) \<in> set (tiMap a). value_ok v \<and> j_at J k (buildJsonFromMap J a) = Inr (valueJson J v)"
proof -
  let ?j = "j_set J ''id'' (j_ofString J (ti_id a)) (j_null J)"
  have d: "buildJsonFromMap J a = addValues J (tiMap a) ?j" by (simp add: buildJsonFromMap_def addValues_def)
  have wf: "''id'' \<notin> fst ` set (tiMap a)" "distinct (map fst (tiMap a))" "\<forall>(k, v) \<in> set (tiMap a). value_ok v"
    using assms(2) sorted_keys_distinct by (auto simp: values_wf_def)
  show "j_at J ''id'' (buildJsonFromMap J a) = Inr (j_ofString J (ti_id a))"
    unfolding d by (rule addValues_other [OF J _ wf(1)]) (simp_all add: j_at_set [OF J])
  show "\<forall>(k, v) \<in> set (tiMap a). value_ok v \<and> j_at J k (buildJsonFromMap J a) = Inr (valueJson J v)"
    using addValues_set [OF J _ wf(2), of ?j] wf(3) unfolding d by auto
qed

lemma setFromJson_build:
  assumes "json_laws J" and "values_wf (tiMap a)" and "ti_id b = ti_id a" and "shapes (tiMap b) = shapes (tiMap a)"
  shows "setFromJson J (buildJsonFromMap J a) True b = (Inr True, b \<lparr> tiMap := tiMap a \<rparr>)"
  using buildJsonFromMap_at(1) [OF assms(1, 2)] setAllFromJson_values [OF assms(1, 4) buildJsonFromMap_at(2) [OF assms(1, 2)]]
  by (simp add: setFromJson_def checkIdCorrect_def json_laws_simps [OF assms(1)] assms(3))


section \<open>Items keep their form\<close>

lemma setValueFromJson_shape:
  assumes "setValueFromJson J js i v = Inr (ok, v')"
  shows "shape v' = shape v \<and> (value_ok v \<longrightarrow> value_ok v')"
  using assms
  by (cases v) (auto simp: caught_def setVals_def split: sum.splits json_exception.splits if_splits prod.splits)

lemma setAllFromJson_shapes:
  assumes "setAllFromJson J js vs = (r, vs')"
  shows "shapes vs' = shapes vs \<and> ((\<forall>(k, v) \<in> set vs. value_ok v) \<longrightarrow> (\<forall>(k, v) \<in> set vs'. value_ok v))"
  using assms
proof (induction vs arbitrary: r vs')
  case (Cons u vs)
  show ?case
  proof (cases "setFromJsonValue J js False u")
    case (Inl e)
    then show ?thesis using Cons.prems by auto
  next
    case (Inr p)
    obtain ok u' where u: "setFromJsonValue J js False u = Inr (ok, u')" using Inr by (cases p) auto
    obtain r2 vs2 where vs: "setAllFromJson J js vs = (r2, vs2)" by fastforce
    have *: "vs' = u' # vs2" using Cons.prems u vs by auto
    have "fst u' = fst u \<and> shape (snd u') = shape (snd u) \<and> (value_ok (snd u) \<longrightarrow> value_ok (snd u'))"
      using u setValueFromJson_shape [of J js "fst u" "snd u"]
      by (cases "setValueFromJson J js (fst u) (snd u)") (auto simp: setFromJsonValue_def)
    then show ?thesis using Cons.IH [OF vs] by (auto simp: * shapes_def case_prod_unfold)
  qed
qed simp

lemma values_wf_shapes:
  assumes "values_wf vs" and "shapes vs' = shapes vs" and "\<forall>(k, v) \<in> set vs'. value_ok v"
  shows "values_wf vs'"
proof -
  have keys: "map fst vs' = map fst vs" using assms(2) by (rule shapes_keys)
  moreover have "k \<noteq> ''id''" if "(k, v) \<in> set vs'" for k v
  proof -
    have "k \<in> set (map fst vs)" using imageI [OF that, of fst] by (simp flip: keys)
    then show ?thesis using assms(1) by (auto simp: values_wf_def)
  qed
  ultimately show ?thesis using assms by (auto simp: values_wf_def sorted_keys_def)
qed

lemma setFromJson_wf:
  assumes "item_wf item" and "setFromJson J js x item = (r, item')"
  shows "item_wf item' \<and> ti_id item' = ti_id item"
proof -
  obtain r2 vs where vs: "setAllFromJson J js (tiMap item) = (r2, vs)" by fastforce
  have ok: "\<forall>(k, v) \<in> set (tiMap item). value_ok v" using assms(1) by (auto simp: item_wf_def values_wf_def)
  have "values_wf vs \<and> shapes vs = shapes (tiMap item)"
    using setAllFromJson_shapes [OF vs] ok values_wf_shapes [of "tiMap item" vs] assms(1) by (simp add: item_wf_def)
  then have "item_wf (item \<lparr> tiMap := vs \<rparr>)" using assms(1) by (simp add: item_wf_def)
  then show ?thesis
    using assms vs by (auto simp: setFromJson_def split: sum.splits bool.splits)
qed

lemma map_wf_map_modify:
  assumes "map_wf m" and "\<And>item. map_of m i = Some item \<Longrightarrow> item_wf (f item) \<and> ti_id (f item) = i"
  shows "map_wf (map_modify i f m)"
proof -
  have d: "distinct (map fst m)" using assms(1) by (auto simp: map_wf_def sorted_keys_distinct)
  have "item_wf y \<and> k = ti_id y" if "(k, y) \<in> set (map_modify i f m)" for k y
  proof -
    have "map_of (map_modify i f m) k = Some y" using d that by (simp add: map_of_is_SomeI)
    then show ?thesis
      using assms d by (auto simp: map_of_map_modify map_wf_def split: if_splits dest: map_of_SomeD)
  qed
  then show ?thesis using assms(1) by (auto simp: map_wf_def sorted_keys_def)
qed

lemma map_wf_item: "map_wf m \<Longrightarrow> map_of m i = Some item \<Longrightarrow> item_wf item \<and> ti_id item = i"
  by (auto simp: map_wf_def dest: map_of_SomeD)

lemma setDouble_wf:
  assumes "item_wf item" and "\<forall>(k, v) \<in> set (shapes (tiMap item)). k = i \<longrightarrow> v = TDouble 0"
  shows "item_wf (setDouble i r item) \<and> ti_id (setDouble i r item) = ti_id item"
proof -
  have sh: "shapes (tiMap (setDouble i r item)) = shapes (tiMap item)"
    using assms(2) by (auto simp: shapes_def setDouble_def case_prod_unfold split: if_splits)
  moreover have "values_wf (tiMap (setDouble i r item))"
    using assms(1) by (intro values_wf_shapes [OF _ sh]) (auto simp: item_wf_def values_wf_def setDouble_def)
  ultimately show ?thesis using assms(1) by (simp add: item_wf_def setDouble_def)
qed

lemma item_wf_class:
  assumes "item_wf item" and "ti_id item = itemId cls"
  shows "ti_class item = cls" "shapes (tiMap item) = shapes (insertValues (itemValues cls))"
  using assms by (auto simp: item_wf_def itemId_inj)

lemma copyElevation_wf:
  assumes "map_wf m"
  shows "map_wf (copyElevation m)"
proof -
  have "item_wf (setDouble ''inclinometer'' r item) \<and> ti_id (setDouble ''inclinometer'' r item) = itemId TItemInclinometerAngleTma"
    if "map_of m (itemId TItemInclinometerAngleTma) = Some item" for item r
    using map_wf_item [OF assms that] item_wf_class [of item TItemInclinometerAngleTma] setDouble_wf [of item]
    by (auto simp: insertValues_def shapes_def item_defs)
  then show ?thesis unfolding copyElevation_def
    by (auto split: option.splits intro!: map_wf_map_modify assms)
qed

lemma copyElevation_keys [simp]: "map fst (copyElevation m) = map fst m"
  by (auto simp: copyElevation_def split: option.splits)

lemma setItemFromJsonStr_wf:
  assumes "map_wf m" and "setItemFromJsonStr J s m = (r, m')"
  shows "map_wf m' \<and> map fst m' = map fst m"
proof -
  have "map_wf (map_modify i (\<lambda>_. item') m)"
    if "map_of m i = Some item" "setFromJson J js True item = (q, item')" for i item item' js q
    using setFromJson_wf [OF _ that(2)] map_wf_item [OF assms(1) that(1)] by (intro map_wf_map_modify assms(1)) auto
  then show ?thesis
    using assms
    by (auto simp: setItemFromJsonStr_def setItemFromJson_def split: sum.splits option.splits json_exception.splits prod.splits)
qed

lemma servByte_wf:
  assumes "map_wf (rmap r)" and "servByte J c r = Inr r'"
  shows "map_wf (rmap r') \<and> map fst (rmap r') = map fst (rmap r)"
proof -
  obtain q m where m: "setItemFromJsonStr J (butlast (inMsg r)) (rmap r) = (q, m)" by fastforce
  show ?thesis
    using assms setItemFromJsonStr_wf [OF assms(1) m] copyElevation_wf [of m]
    by (auto simp: servByte_def m split: if_splits sum.splits)
qed

lemma servRead_wf:
  "map_wf (rmap r) \<Longrightarrow> servRead J bytes r = Inr r' \<Longrightarrow> map_wf (rmap r') \<and> map fst (rmap r') = map fst (rmap r)"
proof (induction bytes arbitrary: r)
  case (Cons c cs)
  then obtain r2 where r2: "servByte J c r = Inr r2" "servRead J cs r2 = Inr r'"
    by (cases "servByte J c r") auto
  then show ?case using Cons.IH [of r2] servByte_wf [OF Cons.prems(1) r2(1)] by simp
qed simp

lemma freshItem_wf: "item_wf (freshItem cls) \<and> ti_id (freshItem cls) = itemId cls"
  by (simp add: freshItem_def item_wf_def insertValues_wf)

end
