(* ===== verification/TelemetryStream.thy ===== *)
theory TelemetryStream
  imports TelemetryProps
begin

text \<open>
  The telemetry stream: what a reader makes of the bytes a sender writes, that the items keep
  their form whatever arrives, and the messages that the readers do not expect.
\<close>

section \<open>The map of the constructor\<close>

lemma foldl_map_insert:
  assumes "sorted_keys m" and "distinct cs" and "\<forall>c \<in> set cs. map_of m (itemId c) = None"
  shows "sorted_keys (foldl (\<lambda>m c. map_insert (itemId c) (freshItem c) m) m cs) \<and>
    set (foldl (\<lambda>m c. map_insert (itemId c) (freshItem c) m) m cs) = set m \<union> (\<lambda>c. (itemId c, freshItem c)) ` set cs"
  using assms
proof (induction cs arbitrary: m)
  case (Cons c cs)
  have "map_of (map_insert (itemId c) (freshItem c) m) (itemId d) = None" if "d \<in> set cs" for d
    using that Cons.prems by (auto simp: map_of_map_insert itemId_inj)
  then show ?case using Cons by (simp add: sorted_keys_insert set_map_insert)
qed simp

lemma telemetryClasses_all: "c \<in> set telemetryClasses" "distinct telemetryClasses"
  by (cases c; simp add: telemetryClasses_def) (simp add: telemetryClasses_def)

lemma telemetryMap0_wf: "map_wf telemetryMap0"
proof -
  let ?m = "foldl (\<lambda>m c. map_insert (itemId c) (freshItem c) m) [] telemetryClasses"
  have m: "sorted_keys ?m" "set ?m = (\<lambda>c. (itemId c, freshItem c)) ` set telemetryClasses"
    using foldl_map_insert [of "[]" telemetryClasses] telemetryClasses_all(2) by (simp_all add: sorted_keys_def)
  then have wf: "map_wf ?m" using freshItem_wf by (auto simp: map_wf_def)
  have "item_wf (setDoNotSend True item) \<and> ti_id (setDoNotSend True item) = i" if "map_of ?m i = Some item" for i item
    using map_wf_item [OF wf that] by (auto simp: setDoNotSend_def item_wf_def)
  then show ?thesis unfolding telemetryMap0_def by (intro map_wf_map_modify wf)
qed

lemma telemetryMap0_item:
  "map_of telemetryMap0 (itemId c) =
     Some (if c = TItemTelElevation then setDoNotSend True (freshItem c) else freshItem c)"
proof -
  let ?m = "foldl (\<lambda>m c. map_insert (itemId c) (freshItem c) m) [] telemetryClasses"
  have m: "sorted_keys ?m" "set ?m = (\<lambda>c. (itemId c, freshItem c)) ` set telemetryClasses"
    using foldl_map_insert [of "[]" telemetryClasses] telemetryClasses_all(2) by (simp_all add: sorted_keys_def)
  have "map_of ?m (itemId c) = Some (freshItem c)"
    using m telemetryClasses_all(1) by (intro map_of_is_SomeI) (auto simp: sorted_keys_distinct)
  then show ?thesis by (auto simp: telemetryMap0_def map_of_map_modify itemId_inj simp del: itemId.simps)
qed


section \<open>Messages in the stream\<close>

lemma servRead_text:
  "CHR 0x0A \<notin> set s \<Longrightarrow> servRead J (s @ rest) r = servRead J rest (r \<lparr> inMsg := inMsg r @ s \<rparr>)"
  by (induction s arbitrary: r) (auto simp: servByte_def)

lemma clientRead_text:
  "CHR 0x0A \<notin> set s \<Longrightarrow> clientRead J (s @ rest) r = clientRead J rest (r \<lparr> inMsg := inMsg r @ s \<rparr>)"
  by (induction s arbitrary: r) (auto simp: clientByte_def)

lemma servRead_message:
  assumes "CHR 0x0A \<notin> set s"
  shows "servRead J (s @ TERMINATOR @ rest) \<lparr> inMsg = [], rmap = m \<rparr> =
    (case setItemFromJsonStr J s m of
       (Inl e, _) \<Rightarrow> Inl e
     | (Inr u, m') \<Rightarrow> servRead J rest \<lparr> inMsg = [],
         rmap = (if u = Some (itemId TItemTelElevation) then copyElevation m' else m') \<rparr>)"
  using assms by (simp add: servRead_text) (simp add: TERMINATOR_def servByte_def split: prod.splits sum.splits)

lemma clientRead_message:
  assumes "CHR 0x0A \<notin> set s"
  shows "clientRead J (s @ TERMINATOR @ rest) \<lparr> inMsg = [], rmap = m \<rparr> =
    (case setItemFromJsonStr J s m of
       (Inl e, _) \<Rightarrow> Inl e
     | (Inr u, m') \<Rightarrow> clientRead J rest \<lparr> inMsg = [], rmap = m' \<rparr>)"
  using assms by (simp add: clientRead_text) (simp add: TERMINATOR_def clientByte_def split: prod.splits sum.splits)

section \<open>A pass of the sender\<close>

text \<open>The reader's map after it has read the items of \<open>s\<close>.\<close>

definition copySent :: "telem_map \<Rightarrow> telem_map \<Rightarrow> telem_map" where
  "copySent s c = map (\<lambda>(i, b). (i,
     case map_of s i of
       None \<Rightarrow> b
     | Some a \<Rightarrow> if doNotSend a then b else b \<lparr> tiMap := tiMap a \<rparr>)) c"

text \<open>
  What a pass needs of the json library: the text of each document that is sent parses to the
  document and has no line feed, which \<open>dump\<close> without indentation escapes.
\<close>

definition sentTexts :: "'j json_ops \<Rightarrow> telem_map \<Rightarrow> bool" where
  "sentTexts J s \<longleftrightarrow>
     (\<forall>(i, a) \<in> set s. \<not> doNotSend a \<longrightarrow>
        j_parse J (j_dump J (buildJsonFromMap J a)) = Inr (buildJsonFromMap J a) \<and>
        CHR 0x0A \<notin> set (j_dump J (buildJsonFromMap J a)))"

lemma setItemFromJson_build:
  assumes "json_laws J" and "item_wf a" and "map_wf c" and "map_of c (ti_id a) = Some b"
  shows "setItemFromJson J (buildJsonFromMap J a) c =
    (Inr (Some (ti_id a)), map_modify (ti_id a) (\<lambda>b. b \<lparr> tiMap := tiMap a \<rparr>) c)"
proof -
  have wf: "values_wf (tiMap a)" using assms(2) by (simp add: item_wf_def)
  have b: "item_wf b" "ti_id b = ti_id a" using map_wf_item [OF assms(3, 4)] by simp_all
  have "ti_class b = ti_class a" using b assms(2) by (simp add: item_wf_def itemId_inj)
  then have sh: "shapes (tiMap b) = shapes (tiMap a)" using b(1) assms(2) by (simp add: item_wf_def)
  have "map_modify (ti_id a) (\<lambda>_. b \<lparr> tiMap := tiMap a \<rparr>) c = map_modify (ti_id a) (\<lambda>b. b \<lparr> tiMap := tiMap a \<rparr>) c"
  proof -
    have d: "distinct (map fst c)" using assms(3) by (simp add: map_wf_def sorted_keys_distinct)
    have "y = b" if "(ti_id a, y) \<in> set c" for y using map_of_is_SomeI [OF d that] assms(4) by simp
    then show ?thesis by (auto simp: map_modify_def)
  qed
  then show ?thesis
    using buildJsonFromMap_at(1) [OF assms(1) wf] setFromJson_build [OF assms(1) wf b(2) sh] assms(4)
    by (simp add: setItemFromJson_def j_get_def json_laws_simps [OF assms(1)])
qed

lemma copySent_step:
  assumes "i \<notin> fst ` set s"
  shows "copySent s (if doNotSend a then c else map_modify i (\<lambda>b. b \<lparr> tiMap := tiMap a \<rparr>) c) = copySent ((i, a) # s) c"
proof -
  have "map_of s i = None" using assms by (simp add: map_of_eq_None_iff)
  then show ?thesis by (auto simp: copySent_def map_modify_def split: option.splits)
qed

lemma compareMaps_refl:
  assumes "distinct (map fst m)"
  shows "compareMapsBy (\<lambda>x y. compareItemValue ([], x) ([], y)) m m"
proof -
  have "compareItemValue ([], x) ([], x)" for x by (cases x) simp_all
  then show ?thesis using assms by (auto simp: compareMapsBy_def list_all_iff)
qed

lemma clientRead_pass:
  assumes J: "json_laws J"
    and "\<forall>(i, a) \<in> set s. item_wf a \<and> i = ti_id a" and "distinct (map fst s)" and "sentTexts J s"
    and "map_wf c" and "fst ` set s \<subseteq> fst ` set c"
  shows "clientRead J (sendPass J s) \<lparr> inMsg = [], rmap = c \<rparr> = Inr \<lparr> inMsg = [], rmap = copySent s c \<rparr>"
  using assms(2-)
proof (induction s arbitrary: c)
  case Nil
  then show ?case by (simp add: sendPass_def copySent_def)
next
  case (Cons p s)
  obtain i a where p: "p = (i, a)" by (cases p)
  let ?c = "if doNotSend a then c else map_modify i (\<lambda>b. b \<lparr> tiMap := tiMap a \<rparr>) c"
  have a: "item_wf a" "i = ti_id a" using Cons.prems(1) by (auto simp: p)
  obtain b where b: "map_of c (ti_id a) = Some b"
    using Cons.prems(5) a(2) by (metis p fst_conv image_eqI list.set_intros(1) map_of_eq_None_iff option.exhaust subsetD)
  have "item_wf (x \<lparr> tiMap := tiMap a \<rparr>)" if "map_of c (ti_id a) = Some x" for x
  proof -
    have "ti_class x = ti_class a"
      using a(1) map_wf_item [OF Cons.prems(4) that] by (metis item_wf_def itemId_inj)
    then show ?thesis using a(1) map_wf_item [OF Cons.prems(4) that] by (simp add: item_wf_def)
  qed
  then have wf: "map_wf ?c"
    using map_wf_item [OF Cons.prems(4)] by (auto intro!: map_wf_map_modify Cons.prems(4) simp: a(2))
  have keys: "fst ` set s \<subseteq> fst ` set ?c"
  proof -
    have "map fst ?c = map fst c" by simp
    then have "fst ` set ?c = fst ` set c" by (metis (no_types) list.set_map)
    then show ?thesis using Cons.prems(5) by auto
  qed
  have IH: "clientRead J (sendPass J s) \<lparr> inMsg = [], rmap = ?c \<rparr> = Inr \<lparr> inMsg = [], rmap = copySent s ?c \<rparr>"
    using Cons.prems(1-3) wf keys by (intro Cons.IH) (auto simp: sentTexts_def)
  have "clientRead J (sendPass J (p # s)) \<lparr> inMsg = [], rmap = c \<rparr> = clientRead J (sendPass J s) \<lparr> inMsg = [], rmap = ?c \<rparr>"
    using Cons.prems(3) setItemFromJson_build [OF J a(1) Cons.prems(4) b]
    by (auto simp: p sentTexts_def sendPass_def sendItem_def clientRead_message setItemFromJsonStr_def a(2))
  then show ?case using IH copySent_step [of i s a c] Cons.prems(2) by (simp add: p)
qed

text \<open>C28: a client that reads one pass of the telemetry server ends with an empty buffer and with every item that is sent equal to the server's; items that are not sent, and everything but the values, stay as they were.\<close>

theorem client_copies_server:
  assumes "json_laws J" and "sentTexts J s"
    and "map_wf s" and "map_wf c" and "map fst c = map fst s"
  shows "\<exists>c'. clientRead J (sendPass J s) \<lparr> inMsg = [], rmap = c \<rparr> = Inr \<lparr> inMsg = [], rmap = c' \<rparr> \<and>
    map fst c' = map fst c \<and>
    (\<forall>i a b. map_of s i = Some a \<longrightarrow> map_of c i = Some b \<longrightarrow>
      map_of c' i = Some (if doNotSend a then b else b \<lparr> tiMap := tiMap a \<rparr>)) \<and>
    (\<forall>i a. map_of s i = Some a \<longrightarrow> \<not> doNotSend a \<longrightarrow> (\<exists>b'. map_of c' i = Some b' \<and> compareItem a b'))"
proof (intro exI conjI)
  have s: "\<forall>(i, a) \<in> set s. item_wf a \<and> i = ti_id a" "distinct (map fst s)"
    using assms(3) by (auto simp: map_wf_def sorted_keys_distinct)
  have "fst ` set s \<subseteq> fst ` set c" using assms(5) by (metis list.set_map order_refl)
  then show "clientRead J (sendPass J s) \<lparr> inMsg = [], rmap = c \<rparr> = Inr \<lparr> inMsg = [], rmap = copySent s c \<rparr>"
    using clientRead_pass [OF assms(1) s assms(2, 4)] by simp
  show "map fst (copySent s c) = map fst c" by (simp add: copySent_def case_prod_unfold)
  have at: "map_of (copySent s c) i = Some (if doNotSend a then b else b \<lparr> tiMap := tiMap a \<rparr>)"
    if "map_of s i = Some a" "map_of c i = Some b" for i a b
    using that by (simp add: copySent_def map_of_map_key)
  then show "\<forall>i a b. map_of s i = Some a \<longrightarrow> map_of c i = Some b \<longrightarrow>
      map_of (copySent s c) i = Some (if doNotSend a then b else b \<lparr> tiMap := tiMap a \<rparr>)" by blast
  show "\<forall>i a. map_of s i = Some a \<longrightarrow> \<not> doNotSend a \<longrightarrow>
      (\<exists>b'. map_of (copySent s c) i = Some b' \<and> compareItem a b')"
  proof (intro allI impI)
    fix i a assume a: "map_of s i = Some a" "\<not> doNotSend a"
    obtain b where b: "map_of c i = Some b"
      using a(1) assms(5) by (metis list.set_map map_of_eq_None_iff not_Some_eq)
    have wf: "item_wf a" "ti_id a = i" "item_wf b" "ti_id b = i"
      using map_wf_item [OF assms(3) a(1)] map_wf_item [OF assms(4) b] by simp_all
    then have "ti_class a = ti_class b" by (simp add: item_wf_def flip: itemId_inj)
    moreover have "distinct (map fst (tiMap a))"
      using wf(1) by (simp add: item_wf_def values_wf_def sorted_keys_distinct)
    ultimately have "compareItem a (b \<lparr> tiMap := tiMap a \<rparr>)" by (simp add: compareItem_def compareMaps_refl)
    then show "\<exists>b'. map_of (copySent s c) i = Some b' \<and> compareItem a b'" using at [OF a(1) b] a(2) by simp
  qed
qed

text \<open>
  An example: the server has a new zenith angle, the client still has the map of its constructor.
  The text of a document is its id, which \<open>parse\<close> looks up.
\<close>

definition exDoc :: "telem_item \<Rightarrow> jval" where
  "exDoc item = buildJsonFromMap (jval_ops Map.empty (\<lambda>_. [])) item"

definition exDump :: "jval \<Rightarrow> string" where
  "exDump j = (case jval_at ''id'' j of Inr (JString s) \<Rightarrow> s | _ \<Rightarrow> [])"

definition exJson :: "telem_map \<Rightarrow> jval json_ops" where
  "exJson s = jval_ops (\<lambda>i. map_option exDoc (map_of s i)) exDump"

definition exServer :: telem_map where
  "exServer = map_modify (itemId TItemZenithAngle) (setDouble ''measured'' 5) telemetryMap0"

lemma exDoc: "buildJsonFromMap (exJson s) item = exDoc item"
proof -
  have "valueJson (exJson s) v = valueJson (jval_ops Map.empty (\<lambda>_. [])) v" for v
    by (cases v) (simp_all add: exJson_def jval_ops_def)
  then show ?thesis
    by (simp add: exDoc_def buildJsonFromMap_def getJsonValue_def) (simp add: exJson_def jval_ops_def)
qed

lemma exJson_ops:
  "j_at (exJson s) = jval_at" "j_ofString (exJson s) = JString" "j_dump (exJson s) = exDump"
  by (simp_all add: exJson_def jval_ops_def)

lemma exJson_texts:
  assumes "map_wf s"
  shows "sentTexts (exJson s) s"
  unfolding sentTexts_def
proof (intro ballI, clarify, intro conjI)
  fix i a assume a: "(i, a) \<in> set s"
  have wf: "item_wf a" "ti_id a = i" "map_of s i = Some a"
    using assms a by (auto simp: map_wf_def sorted_keys_distinct)
  then have "j_at (exJson s) ''id'' (buildJsonFromMap (exJson s) a) = Inr (j_ofString (exJson s) i)"
    using buildJsonFromMap_at(1) [of "exJson s" a] by (simp add: item_wf_def exJson_def jval_laws)
  then have d: "j_dump (exJson s) (exDoc a) = i"
    by (simp add: exDoc exDump_def exJson_ops)
  then show "j_parse (exJson s) (j_dump (exJson s) (buildJsonFromMap (exJson s) a)) = Inr (buildJsonFromMap (exJson s) a)"
    by (simp add: exDoc) (simp add: exJson_def jval_ops_def wf)
  have "CHR 0x0A \<notin> set (itemId c)" for c by (cases c) simp_all
  then show "CHR 0x0A \<notin> set (j_dump (exJson s) (buildJsonFromMap (exJson s) a))"
    using wf(1, 2) by (simp add: exDoc d item_wf_def)
qed

lemma exServer_wf: "map_wf exServer"
proof -
  have "item_wf (setDouble ''measured'' r item) \<and> ti_id (setDouble ''measured'' r item) = itemId TItemZenithAngle"
    if "map_of telemetryMap0 (itemId TItemZenithAngle) = Some item" for item r
    using that setDouble_wf [of item "''measured''" r] freshItem_wf [of TItemZenithAngle]
    unfolding telemetryMap0_item by (auto simp: freshItem_def insertValues_def shapes_def item_defs)
  then show ?thesis unfolding exServer_def by (intro map_wf_map_modify telemetryMap0_wf)
qed

theorem client_copies_server_witness:
  "\<exists>c'. clientRead (exJson exServer) (sendPass (exJson exServer) exServer) \<lparr> inMsg = [], rmap = telemetryMap0 \<rparr>
      = Inr \<lparr> inMsg = [], rmap = c' \<rparr> \<and>
    map_option (getDouble ''measured'') (map_of c' ''zenithAngle'') = Some 5 \<and>
    map_of telemetryMap0 ''zenithAngle'' = Some (freshItem TItemZenithAngle) \<and>
    getDouble ''measured'' (freshItem TItemZenithAngle) = 0"
proof -
  have J: "json_laws (exJson exServer)" by (simp add: exJson_def jval_laws)
  have keys: "map fst telemetryMap0 = map fst exServer" by (simp add: exServer_def)
  have z: "map_of telemetryMap0 ''zenithAngle'' = Some (freshItem TItemZenithAngle)"
    using telemetryMap0_item [of TItemZenithAngle] by simp
  then have "map_of exServer ''zenithAngle'' = Some (setDouble ''measured'' 5 (freshItem TItemZenithAngle))"
    by (simp add: exServer_def map_of_map_modify)
  moreover have "getDouble ''measured'' (freshItem TItemZenithAngle) = 0"
    by (simp add: getDouble_def freshItem_def insertValues_def item_defs)
  moreover have "getDouble ''measured'' (freshItem TItemZenithAngle \<lparr> tiMap := tiMap (setDouble ''measured'' 5 (freshItem TItemZenithAngle)) \<rparr>) = 5"
    by (simp add: getDouble_def setDouble_def freshItem_def insertValues_def item_defs)
  moreover have "\<not> doNotSend (setDouble ''measured'' 5 (freshItem TItemZenithAngle))"
    by (simp add: setDouble_def freshItem_def)
  moreover obtain c' where "clientRead (exJson exServer) (sendPass (exJson exServer) exServer) \<lparr> inMsg = [], rmap = telemetryMap0 \<rparr>
      = Inr \<lparr> inMsg = [], rmap = c' \<rparr>"
    "\<And>i a b. map_of exServer i = Some a \<Longrightarrow> map_of telemetryMap0 i = Some b \<Longrightarrow>
      map_of c' i = Some (if doNotSend a then b else b \<lparr> tiMap := tiMap a \<rparr>)"
    using client_copies_server [OF J exJson_texts [OF exServer_wf] exServer_wf telemetryMap0_wf keys] by blast
  ultimately show ?thesis using z by (intro exI [of _ c']) simp
qed



section \<open>Messages of the wrong form\<close>

lemma setAllFromJson_throws:
  "(k, v) \<in> set vs \<Longrightarrow> setValueFromJson J js k v = Inl e \<Longrightarrow> \<exists>e' vs'. setAllFromJson J js vs = (Inl e', vs')"
proof (induction vs)
  case (Cons u vs)
  show ?case
  proof (cases "setFromJsonValue J js False u")
    case (Inl e')
    then show ?thesis by simp
  next
    case (Inr p)
    obtain ok u' where p: "p = (ok, u')" by (cases p)
    have "(k, v) \<in> set vs" using Cons.prems Inr by (auto simp: setFromJsonValue_def)
    then obtain e' vs' where "setAllFromJson J js vs = (Inl e', vs')" using Cons by blast
    then show ?thesis using Inr p by simp
  qed
qed simp

text \<open>a telemetry message that names an item and has a value of the wrong json type for one of its numbers throws out of the reader, whatever else it holds, so nothing after it is read.\<close>

theorem wrong_type_stops_reader:
  assumes "json_laws J" and "CHR 0x0A \<notin> set msg" and "j_parse J msg = Inr js"
    and "j_at J ''id'' js = Inr (j_ofString J i)" and "map_wf m" and "map_of m i = Some item"
    and "(k, TDouble r) \<in> set (tiMap item)" and "j_at J k js = Inr v" and "j_toReal J v = Inl (TypeError w)"
  shows "\<exists>e. servRead J (msg @ TERMINATOR @ rest) \<lparr> inMsg = [], rmap = m \<rparr> = Inl e"
proof -
  have "setValueFromJson J js k (TDouble r) = Inl (JsonException w)"
    by (simp add: j_get_def assms(8, 9) caught_def)
  then obtain e vs where "setAllFromJson J js (tiMap item) = (Inl e, vs)"
    using setAllFromJson_throws [OF assms(7)] by meson
  moreover have "ti_id item = i" using map_wf_item [OF assms(5, 6)] by simp
  ultimately have "setItemFromJsonStr J msg m = (Inl e, map_modify i (\<lambda>_. item \<lparr> tiMap := vs \<rparr>) m)"
    using assms(3, 4, 6)
    by (simp add: setItemFromJsonStr_def setItemFromJson_def j_get_def setFromJson_def checkIdCorrect_def
        json_laws_simps [OF assms(1)])
  then show ?thesis by (simp add: servRead_message [OF assms(2)])
qed

lemma elevation_values:
  assumes "map_wf m" and "map_of m (itemId TItemTelElevation) = Some tel"
  shows "\<exists>p n. tiMap tel = [(''actualPosition'', TDouble p), (''compName'', TString n)]"
proof -
  have "shapes (tiMap tel) = [(''actualPosition'', TDouble 0), (''compName'', TString [])]"
    using map_wf_item [OF assms] item_wf_class [of tel TItemTelElevation]
    by (simp add: insertValues_def shapes_def item_defs)
  then obtain v w where t: "tiMap tel = [(''actualPosition'', v), (''compName'', w)]"
      "shape v = TDouble 0" "shape w = TString []"
    by (auto simp: shapes_def map_eq_Cons_conv)
  then show ?thesis by (cases v; cases w) simp_all
qed

text \<open>an elevation message with a position and a component name sets both and copies the position to the inclinometer item; without the name the position is set all the same, but not copied.\<close>

theorem elevation_message:
  assumes "json_laws J" and "CHR 0x0A \<notin> set msg" and "j_parse J msg = Inr js"
    and "j_at J ''id'' js = Inr (j_ofString J ''tel_elevation'')" and "map_wf m"
    and "map_of m ''tel_elevation'' = Some tel" and "map_of m ''inclinometerAngleTma'' = Some incl"
    and "j_get (j_toReal J) J ''actualPosition'' js = Inr x"
    and "j_get (j_toString J) J ''compName'' js = name" and "\<forall>e. name = Inl e \<longrightarrow> (\<exists>w. e = OutOfRange w)"
  shows "\<exists>m'. servRead J (msg @ TERMINATOR) \<lparr> inMsg = [], rmap = m \<rparr> = Inr \<lparr> inMsg = [], rmap = m' \<rparr> \<and>
    map_option (getDouble ''actualPosition'') (map_of m' ''tel_elevation'') = Some x \<and>
    map_of m' ''inclinometerAngleTma'' =
      Some (if isl name then incl else setDouble ''inclinometer'' x incl)"
proof -
  obtain p n where tel: "tiMap tel = [(''actualPosition'', TDouble p), (''compName'', TString n)]"
    using elevation_values [OF assms(5)] assms(6) by auto
  have i: "ti_id tel = ''tel_elevation''" using map_wf_item [OF assms(5, 6)] by simp
  let ?n = "case name of Inl _ \<Rightarrow> n | Inr s \<Rightarrow> s"
  let ?tel = "tel \<lparr> tiMap := [(''actualPosition'', TDouble x), (''compName'', TString ?n)] \<rparr>"
  let ?m = "map_modify ''tel_elevation'' (\<lambda>_. ?tel) m"
  have "setAllFromJson J js (tiMap tel) = (Inr (\<not> isl name), tiMap ?tel)"
    using assms(8-10) by (cases name) (auto simp: tel setFromJsonValue_def caught_def)
  then have "setItemFromJsonStr J msg m = (Inr (if isl name then None else Some ''tel_elevation''), ?m)"
    using assms(3, 4, 6) i
    by (simp add: setItemFromJsonStr_def setItemFromJson_def j_get_def setFromJson_def checkIdCorrect_def
        json_laws_simps [OF assms(1)])
  then have read: "servRead J (msg @ TERMINATOR) \<lparr> inMsg = [], rmap = m \<rparr> =
      Inr \<lparr> inMsg = [], rmap = (if isl name then ?m else copyElevation ?m) \<rparr>"
    using servRead_message [OF assms(2), of J "[]" m] by simp
  have "getDouble ''actualPosition'' ?tel = x" by (simp add: getDouble_def)
  then show ?thesis
    using assms(6, 7) read
    by (intro exI [of _ "if isl name then ?m else copyElevation ?m"]) (simp add: map_of_map_modify copyElevation_def)
qed

text \<open>Documents as texts: a table gives each text its document.\<close>

definition exMessages :: "string \<Rightarrow> jval option" where
  "exMessages s =
     (if s = ''full'' then Some (JObject [(''id'', JString ''tel_elevation''), (''actualPosition'', JReal 45), (''compName'', JString ''MT'')])
      else if s = ''part'' then Some (JObject [(''id'', JString ''tel_elevation''), (''actualPosition'', JReal 45)])
      else if s = ''text'' then Some (JObject [(''id'', JString ''tel_elevation''), (''actualPosition'', JString ''45'')])
      else None)"

definition exReader :: "jval json_ops" where
  "exReader = jval_ops exMessages exDump"

lemma exReader_ops:
  "json_laws exReader" "j_at exReader = jval_at" "j_ofString exReader = JString"
  "j_toReal exReader (JReal x) = Inr x" "j_toString exReader (JString s) = Inr s"
  "j_toReal exReader (JString s) = Inl (TypeError ''type must be number'')"
  "j_parse exReader s = (case exMessages s of Some j \<Rightarrow> Inr j | None \<Rightarrow> Inl (ParseError ''parse error''))"
  by (simp_all add: exReader_def jval_laws) (simp_all add: jval_ops_def)

lemma exReader_items:
  "map_of telemetryMap0 ''tel_elevation'' = Some (setDoNotSend True (freshItem TItemTelElevation))"
  "map_of telemetryMap0 ''inclinometerAngleTma'' = Some (freshItem TItemInclinometerAngleTma)"
  "tiMap (setDoNotSend True (freshItem TItemTelElevation)) = [(''actualPosition'', TDouble 0), (''compName'', TString [])]"
  using telemetryMap0_item [of TItemTelElevation] telemetryMap0_item [of TItemInclinometerAngleTma]
  by (simp_all add: setDoNotSend_def freshItem_def insertValues_def item_defs)

theorem wrong_type_stops_reader_witness:
  "\<exists>e. servRead exReader (''text'' @ TERMINATOR @ ''full'' @ TERMINATOR) \<lparr> inMsg = [], rmap = telemetryMap0 \<rparr> = Inl e"
  by (rule wrong_type_stops_reader
      [where js = "JObject [(''id'', JString ''tel_elevation''), (''actualPosition'', JString ''45'')]"
        and i = "''tel_elevation''" and item = "setDoNotSend True (freshItem TItemTelElevation)"
        and k = "''actualPosition''" and r = 0 and v = "JString ''45''"])
    (simp_all add: exReader_ops exReader_items exMessages_def telemetryMap0_wf)

theorem elevation_message_witness:
  "(\<exists>m'. servRead exReader (''full'' @ TERMINATOR) \<lparr> inMsg = [], rmap = telemetryMap0 \<rparr> = Inr \<lparr> inMsg = [], rmap = m' \<rparr> \<and>
      map_of m' ''inclinometerAngleTma'' = Some (setDouble ''inclinometer'' 45 (freshItem TItemInclinometerAngleTma))) \<and>
   (\<exists>m'. servRead exReader (''part'' @ TERMINATOR) \<lparr> inMsg = [], rmap = telemetryMap0 \<rparr> = Inr \<lparr> inMsg = [], rmap = m' \<rparr> \<and>
      map_option (getDouble ''actualPosition'') (map_of m' ''tel_elevation'') = Some 45 \<and>
      map_of m' ''inclinometerAngleTma'' = Some (freshItem TItemInclinometerAngleTma))"
proof -
  note facts = exReader_ops exReader_items exMessages_def telemetryMap0_wf j_get_def
  have full: "j_parse exReader ''full'' = Inr (JObject [(''id'', JString ''tel_elevation''), (''actualPosition'', JReal 45), (''compName'', JString ''MT'')])"
    and part: "j_parse exReader ''part'' = Inr (JObject [(''id'', JString ''tel_elevation''), (''actualPosition'', JReal 45)])"
    by (simp_all add: facts)
  show ?thesis
    using elevation_message [OF exReader_ops(1) _ full _ telemetryMap0_wf exReader_items(1, 2), of 45 "Inr ''MT''"]
      elevation_message [OF exReader_ops(1) _ part _ telemetryMap0_wf exReader_items(1, 2), of 45
        "Inl (OutOfRange ''key not found'')"]
    by (simp add: facts) blast
qed

end
