(* ===== verification/EventThread.thy ===== *)
theory EventThread
  imports M2Prelude
begin

text \<open>
  \<open>util/Command\<close> and \<open>util/EventThread\<close>: a queue of commands and the thread that runs them. A
  command is its number, or the message of \<open>queEnd\<close>; what a command does is not modelled, only that
  it is run. The steps are those between two accesses to shared data: reading \<open>eLoop\<close>, taking a
  command off the queue, finishing it.
\<close>

section \<open>Commands and the queue\<close>

datatype cmd = Work nat | MsgEnd

definition queCmdQ :: "cmd \<Rightarrow> cmd list \<Rightarrow> cmd list" where
  "queCmdQ cmd qu = qu @ [cmd]"

text \<open>\<open>getCmd(false)\<close>; with \<open>wait\<close> set the thread sleeps as long as the queue is empty.\<close>

fun getCmd :: "cmd list \<Rightarrow> cmd option \<times> cmd list" where
  "getCmd [] = (None, [])"
| "getCmd (cmd # qu) = (Some cmd, qu)"

section \<open>The thread\<close>

text \<open>
  Where the thread is in \<open>_handleCmds\<close>: before the test of \<open>eLoop\<close>, in \<open>getCmd\<close>, in \<open>runAction\<close> of
  the current command, in \<open>leavePool\<close> called by that command, or past \<open>finishup\<close>.
\<close>

datatype pc = Top | Waiting | Running cmd | Leaving cmd | Done

record event_thread =
  pc :: pc
  eLoop :: bool
  commandFinishCalled :: bool
  finishupOnce :: bool

definition newThread :: event_thread where
  "newThread = \<lparr> pc = Top, eLoop = True, commandFinishCalled = False, finishupOnce = False \<rparr>"

fun getCurrentCommand :: "event_thread \<Rightarrow> cmd option" where
  "getCurrentCommand th = (case pc th of Running c \<Rightarrow> Some c | Leaving c \<Rightarrow> Some c | _ \<Rightarrow> None)"

definition takeCmd :: "cmd \<Rightarrow> event_thread \<Rightarrow> event_thread" where
  "takeCmd c th = th \<lparr> pc := Running c, commandFinishCalled := False \<rparr>"

text \<open>\<open>MsgEnd::action\<close>; any other command leaves the thread alone.\<close>

definition runAction :: "cmd \<Rightarrow> event_thread \<Rightarrow> event_thread" where
  "runAction c th = (if c = MsgEnd then th \<lparr> eLoop := False \<rparr> else th)"

text \<open>The commands for which \<open>commandFinish\<close> of the queue is called.\<close>

definition callCommandFinish :: "cmd \<Rightarrow> event_thread \<Rightarrow> cmd list \<times> event_thread" where
  "callCommandFinish c th =
     (if commandFinishCalled th then [] else [c], th \<lparr> commandFinishCalled := True \<rparr>)"

definition finishCmd :: "cmd \<Rightarrow> event_thread \<Rightarrow> cmd list \<times> event_thread" where
  "finishCmd c th = (let (f, th1) = callCommandFinish c (runAction c th) in (f, th1 \<lparr> pc := Top \<rparr>))"

section \<open>A thread with its own queue\<close>

record event_loop =
  elQueue :: "cmd list"
  elThread :: event_thread
  elRun :: "cmd list"

definition newEventThread :: event_loop where
  "newEventThread = \<lparr> elQueue = [], elThread = newThread, elRun = [] \<rparr>"

text \<open>\<open>None\<close> as long as the thread has nothing to do. \<open>elRun\<close> records the commands it has run.\<close>

definition handleCmdsStep :: "event_loop \<Rightarrow> event_loop option" where
  "handleCmdsStep s =
     (case pc (elThread s) of
        Top \<Rightarrow> Some (s \<lparr> elThread := elThread s \<lparr> pc := (if eLoop (elThread s) then Waiting else Done) \<rparr> \<rparr>)
      | Waiting \<Rightarrow>
          (case getCmd (elQueue s) of
             (None, _) \<Rightarrow> None
           | (Some c, qu) \<Rightarrow> Some (s \<lparr> elQueue := qu, elThread := takeCmd c (elThread s) \<rparr>))
      | Running c \<Rightarrow> Some (s \<lparr> elThread := snd (finishCmd c (elThread s)), elRun := elRun s @ [c] \<rparr>)
      | _ \<Rightarrow> None)"

datatype loop_event = QueCmd nat | QueEnd | LoopStep

fun loopEvent :: "loop_event \<Rightarrow> event_loop \<Rightarrow> event_loop" where
  "loopEvent (QueCmd n) s = s \<lparr> elQueue := queCmdQ (Work n) (elQueue s) \<rparr>"
| "loopEvent QueEnd s = s \<lparr> elQueue := queCmdQ MsgEnd (elQueue s) \<rparr>"
| "loopEvent LoopStep s = (case handleCmdsStep s of Some s' \<Rightarrow> s' | None \<Rightarrow> s)"

fun cmdOfEvent :: "loop_event \<Rightarrow> cmd list" where
  "cmdOfEvent (QueCmd n) = [Work n]"
| "cmdOfEvent QueEnd = [MsgEnd]"
| "cmdOfEvent LoopStep = []"

subsection \<open>In order, until the end\<close>

text \<open>The command in hand, then the queue, are what is left of everything that was queued.\<close>

definition loop_inv :: "cmd list \<Rightarrow> event_loop \<Rightarrow> bool" where
  "loop_inv sent s \<longleftrightarrow>
     (let th = elThread s; hand = (case pc th of Running c \<Rightarrow> [c] | _ \<Rightarrow> []) in
      sent = elRun s @ hand @ elQueue s \<and>
      (\<forall>c. pc th \<noteq> Leaving c) \<and> (pc th = Done \<longrightarrow> \<not> eLoop th) \<and>
      (if eLoop th then MsgEnd \<notin> set (elRun s)
       else (\<exists>xs. elRun s = xs @ [MsgEnd] \<and> MsgEnd \<notin> set xs) \<and> pc th \<in> {Top, Done}))"

lemma loop_inv_event:
  assumes "loop_inv sent s"
  shows "loop_inv (sent @ cmdOfEvent e) (loopEvent e s)"
proof (cases e)
  case LoopStep
  show ?thesis
  proof (cases "pc (elThread s)")
    case (Running c)
    then show ?thesis using assms LoopStep
      by (cases c) (auto simp: loop_inv_def handleCmdsStep_def finishCmd_def callCommandFinish_def runAction_def Let_def
          split: if_splits)
  next
    case Waiting
    then show ?thesis using assms LoopStep
      by (cases "elQueue s") (auto simp: loop_inv_def handleCmdsStep_def takeCmd_def Let_def split: if_splits)
  qed (use assms LoopStep in \<open>auto simp: loop_inv_def handleCmdsStep_def Let_def split: if_splits\<close>)
qed (use assms in \<open>auto simp: loop_inv_def queCmdQ_def Let_def split: if_splits pc.splits\<close>)

lemma loop_inv_run:
  "loop_inv sent s \<Longrightarrow> loop_inv (sent @ concat (map cmdOfEvent es)) (fold loopEvent es s)"
proof (induction es arbitrary: sent s)
  case (Cons e es)
  then show ?case using Cons.IH [OF loop_inv_event [OF Cons.prems]] by simp
qed simp

lemma loop_inv_new: "loop_inv [] newEventThread"
  by (simp add: loop_inv_def newEventThread_def newThread_def)

text \<open>
  The commands are run in the order they were queued, none twice, and none after the first end
  message.
\<close>

lemma event_thread_in_order:
  assumes "s = fold loopEvent es newEventThread"
  shows "\<exists>rest. concat (map cmdOfEvent es) = elRun s @ rest" and "MsgEnd \<notin> set (butlast (elRun s))"
proof -
  have inv: "loop_inv (concat (map cmdOfEvent es)) s" using loop_inv_run [OF loop_inv_new, of es] assms by simp
  then show "\<exists>rest. concat (map cmdOfEvent es) = elRun s @ rest" by (auto simp: loop_inv_def Let_def)
  show "MsgEnd \<notin> set (butlast (elRun s))"
    using inv by (auto simp: loop_inv_def Let_def dest: in_set_butlastD split: if_splits)
qed

end
