(* ===== verification/ThreadPool.thy ===== *)
theory ThreadPool
  imports EventThread
begin

text \<open>
  \<open>util/ThreadPool\<close>: a pool of event threads on one queue. \<open>threads\<close> are all threads ever created,
  in that order, and a thread is known by its place there. Each step is one locked section or one
  access to a queue; \<open>pendingResize\<close> counts the calls of \<open>_resize\<close> that are still to come, each of
  which a thread makes after it has released another lock.
\<close>

record pool =
  queue :: "cmd list"
  threads :: "event_thread list"
  poolIds :: "nat list"
  target :: nat
  shutdown :: bool
  poolThreadCount :: nat
  maxThreadCount :: nat
  joiner :: "nat list"
  jContinue :: bool
  jRunning :: bool
  pendingResize :: nat
  cmdThread :: "nat \<Rightarrow> nat option"
  sent :: "cmd list"
  taken :: "cmd list"
  finished :: "cmd list"

text \<open>
  \<open>cmdThread\<close> is \<open>_poolEventThread\<close> of the commands; \<open>sent\<close>, \<open>taken\<close> and \<open>finished\<close> record what was
  queued, what a thread took, and what \<open>commandFinish\<close> was called for.
\<close>

section \<open>Operations\<close>

definition updThread :: "nat \<Rightarrow> (event_thread \<Rightarrow> event_thread) \<Rightarrow> pool \<Rightarrow> pool" where
  "updThread t f p = p \<lparr> threads := (threads p)[t := f (threads p ! t)] \<rparr>"

definition queCmd :: "cmd \<Rightarrow> pool \<Rightarrow> pool" where
  "queCmd c p = p \<lparr> queue := queCmdQ c (queue p), sent := sent p @ [c] \<rparr>"

text \<open>The constructor of the thread counts it; \<open>_resize\<close> puts it into the pool and starts it.\<close>

definition addPoolEventThread :: "pool \<Rightarrow> pool" where
  "addPoolEventThread p =
     p \<lparr> threads := threads p @ [newThread], poolIds := poolIds p @ [length (threads p)],
         poolThreadCount := poolThreadCount p + 1 \<rparr>"

text \<open>
  \<open>_resize\<close>: threads are added in a loop as long as the pool is too small; if it is too big, one
  end message is queued for whichever thread takes it.
\<close>

definition resizePool :: "pool \<Rightarrow> pool" where
  "resizePool p =
     (let p1 = (addPoolEventThread ^^ (target p - length (poolIds p))) p
      in if target p1 < length (poolIds p1) then queCmd MsgEnd p1 else p1)"

text \<open>\<open>resize\<close> up to its call of \<open>_resize\<close>.\<close>

definition setTarget :: "nat \<Rightarrow> pool \<Rightarrow> pool" where
  "setTarget targetThrdCount p =
     p \<lparr> maxThreadCount := (if targetThrdCount \<ge> maxThreadCount p then targetThrdCount + 1 else maxThreadCount p),
         target := (if shutdown p then 0 else targetThrdCount),
         pendingResize := pendingResize p + 1 \<rparr>"

definition release :: "nat \<Rightarrow> pool \<Rightarrow> bool \<times> pool" where
  "release t p =
     (if t \<in> set (poolIds p)
      then (True, p \<lparr> poolIds := remove1 t (poolIds p), joiner := joiner p @ [t],
                      pendingResize := pendingResize p + 1 \<rparr>)
      else (False, p))"

definition finishup :: "nat \<Rightarrow> pool \<Rightarrow> pool" where
  "finishup t p =
     (if finishupOnce (threads p ! t) then p
      else snd (release t (updThread t (\<lambda>th. th \<lparr> finishupOnce := True \<rparr>) p)))"

text \<open>\<open>leavePool(cmd)\<close>, which another thread may call.\<close>

definition leavePoolCmd :: "nat \<Rightarrow> cmd option \<Rightarrow> pool \<Rightarrow> bool \<times> pool" where
  "leavePoolCmd t cmd p =
     (let p1 = updThread t (\<lambda>th. th \<lparr> eLoop := False \<rparr>) p in
      if cmd \<noteq> getCurrentCommand (threads p1 ! t) then (False, p1)
      else case cmd of
        None \<Rightarrow> (True, finishup t p1)
      | Some c \<Rightarrow>
          (let (f, th) = callCommandFinish c (threads p1 ! t)
           in (True, finishup t (updThread t (\<lambda>_. th) (p1 \<lparr> finished := finished p1 @ f \<rparr>)))))"

definition atMaxThreadPoolCount :: "pool \<Rightarrow> bool" where
  "atMaxThreadPoolCount p \<longleftrightarrow> poolThreadCount p > maxThreadCount p"

text \<open>\<open>specialActions\<close>, called when a thread takes a command.\<close>

definition setPoolEventThread :: "cmd \<Rightarrow> nat \<Rightarrow> pool \<Rightarrow> pool" where
  "setPoolEventThread c t p =
     (case c of Work n \<Rightarrow> p \<lparr> cmdThread := (cmdThread p)(n := Some t) \<rparr> | MsgEnd \<Rightarrow> p)"

definition getAndNullPoolEventThread :: "nat \<Rightarrow> pool \<Rightarrow> nat option \<times> pool" where
  "getAndNullPoolEventThread n p = (cmdThread p n, p \<lparr> cmdThread := (cmdThread p)(n := None) \<rparr>)"

text \<open>\<open>CommandForThreadPool::atMaxThreadCount\<close>.\<close>

definition cmdAtMaxThreadCount :: "nat \<Rightarrow> pool \<Rightarrow> bool" where
  "cmdAtMaxThreadCount n p \<longleftrightarrow> cmdThread p n = None \<or> atMaxThreadPoolCount p"

definition newPool :: "nat \<Rightarrow> nat \<Rightarrow> pool" where
  "newPool thrdCount maxThreads =
     \<lparr> queue = [], threads = [], poolIds = [], target = thrdCount, shutdown = False, poolThreadCount = 0,
       maxThreadCount = maxThreads, joiner = [], jContinue = True, jRunning = True, pendingResize = 0,
       cmdThread = (\<lambda>_. None), sent = [], taken = [], finished = [] \<rparr>"

definition newThreadPoolMax :: "nat \<Rightarrow> nat \<Rightarrow> pool" where
  "newThreadPoolMax thrdCount maxThreads = resizePool (newPool thrdCount maxThreads)"

definition newThreadPool :: "nat \<Rightarrow> pool" where
  "newThreadPool thrdCount = resizePool (newPool thrdCount (thrdCount + 1))"

section \<open>The steps of the pool's own threads\<close>

text \<open>
  A thread tests \<open>eLoop\<close>, takes a command, finishes it, or comes back from the wait in
  \<open>leavePool()\<close>; a pending \<open>_resize\<close> is made; the joiner thread joins the first thread on its list,
  whose destructor lowers the count, or ends.
\<close>

definition loopTop :: "nat \<Rightarrow> pool \<Rightarrow> pool" where
  "loopTop t p =
     (if eLoop (threads p ! t) then updThread t (\<lambda>th. th \<lparr> pc := Waiting \<rparr>) p
      else updThread t (\<lambda>th. th \<lparr> pc := Done \<rparr>) (finishup t p))"

definition takeNext :: "nat \<Rightarrow> pool \<Rightarrow> pool" where
  "takeNext t p =
     (case getCmd (queue p) of
        (None, _) \<Rightarrow> p
      | (Some c, qu) \<Rightarrow>
          setPoolEventThread c t (updThread t (takeCmd c) (p \<lparr> queue := qu, taken := taken p @ [c] \<rparr>)))"

definition finishRun :: "nat \<Rightarrow> cmd \<Rightarrow> pool \<Rightarrow> pool" where
  "finishRun t c p =
     (let (f, th) = finishCmd c (threads p ! t)
      in updThread t (\<lambda>_. th) (p \<lparr> finished := finished p @ f \<rparr>))"

definition leaveAfterWait :: "nat \<Rightarrow> cmd \<Rightarrow> pool \<Rightarrow> pool" where
  "leaveAfterWait t c p = updThread t (\<lambda>th. th \<lparr> pc := Running c \<rparr>) (snd (leavePoolCmd t (Some c) p))"

inductive tick :: "pool \<Rightarrow> pool \<Rightarrow> bool" where
  top: "t < length (threads p) \<Longrightarrow> pc (threads p ! t) = Top \<Longrightarrow> tick p (loopTop t p)"
| take: "t < length (threads p) \<Longrightarrow> pc (threads p ! t) = Waiting \<Longrightarrow> queue p \<noteq> [] \<Longrightarrow> tick p (takeNext t p)"
| finish: "t < length (threads p) \<Longrightarrow> pc (threads p ! t) = Running c \<Longrightarrow> tick p (finishRun t c p)"
| leave: "t < length (threads p) \<Longrightarrow> pc (threads p ! t) = Leaving c \<Longrightarrow> poolThreadCount p \<le> maxThreadCount p \<Longrightarrow>
    tick p (leaveAfterWait t c p)"
| resize: "0 < pendingResize p \<Longrightarrow> tick p (resizePool (p \<lparr> pendingResize := pendingResize p - 1 \<rparr>))"
| join: "jRunning p \<Longrightarrow> joiner p = t # ts \<Longrightarrow> pc (threads p ! t) = Done \<Longrightarrow>
    tick p (p \<lparr> joiner := ts, poolThreadCount := poolThreadCount p - 1 \<rparr>)"
| joinExit: "jRunning p \<Longrightarrow> joiner p = [] \<Longrightarrow> \<not> jContinue p \<Longrightarrow> tick p (p \<lparr> jRunning := False \<rparr>)"

section \<open>What other threads and the commands do\<close>

text \<open>
  Any thread queues commands and resizes. \<open>shutdownPool\<close> sets the flag and resizes to 0, waits for
  the pool to be empty, and stops the joiner. A command leaves the pool on its own thread, or
  another thread makes it leave. End messages come from \<open>_resize\<close> only.
\<close>

definition leaveBegin :: "nat \<Rightarrow> nat \<Rightarrow> pool \<Rightarrow> pool" where
  "leaveBegin t n p = updThread t (\<lambda>th. th \<lparr> eLoop := False, pc := Leaving (Work n) \<rparr>) p"

definition shutdownBegin :: "pool \<Rightarrow> pool" where
  "shutdownBegin p = setTarget 0 (p \<lparr> shutdown := True \<rparr>)"

inductive outside :: "pool \<Rightarrow> pool \<Rightarrow> bool" where
  queCmd: "outside p (queCmd (Work n) p)"
| setTarget: "outside p (setTarget n p)"
| shutdownBegin: "outside p (shutdownBegin p)"
| shutdownJoin: "shutdown p \<Longrightarrow> target p = length (poolIds p) \<Longrightarrow> outside p (p \<lparr> jContinue := False \<rparr>)"
| getAndNull: "outside p (snd (getAndNullPoolEventThread n p))"
| leaveBegin: "t < length (threads p) \<Longrightarrow> pc (threads p ! t) = Running (Work n) \<Longrightarrow> outside p (leaveBegin t n p)"
| leaveOther: "t < length (threads p) \<Longrightarrow> pc (threads p ! t) \<noteq> Done \<Longrightarrow>
    outside p (snd (leavePoolCmd t (Some (Work n)) p))"

inductive pool_reach :: "pool \<Rightarrow> bool" where
  start: "thrdCount < maxThreads \<Longrightarrow> pool_reach (newThreadPoolMax thrdCount maxThreads)"
| tick: "pool_reach p \<Longrightarrow> tick p p' \<Longrightarrow> pool_reach p'"
| outside: "pool_reach p \<Longrightarrow> outside p p' \<Longrightarrow> pool_reach p'"

end
