(* ===== verification/ThreadPoolInv.thy ===== *)
theory ThreadPoolInv
  imports ThreadPool "HOL-Library.Multiset"
begin

text \<open>
  Invariants of the thread pool: which threads are in it, that every command is taken and finished
  once, and that a pool of the wrong size is on its way to the right one.
\<close>

section \<open>The invariants\<close>

definition thread_ok :: "event_thread \<Rightarrow> bool" where
  "thread_ok th \<longleftrightarrow>
     (finishupOnce th \<longrightarrow> \<not> eLoop th \<and> pc th \<noteq> Waiting \<and> pc th \<noteq> Running MsgEnd) \<and>
     (pc th = Done \<longrightarrow> finishupOnce th) \<and>
     (\<forall>c. pc th = Leaving c \<longrightarrow> \<not> eLoop th \<and> c \<noteq> MsgEnd)"

definition threads_inv :: "pool \<Rightarrow> bool" where
  "threads_inv p \<longleftrightarrow>
     (\<forall>th \<in> set (threads p). thread_ok th) \<and> distinct (poolIds p) \<and>
     set (poolIds p) = {t. t < length (threads p) \<and> \<not> finishupOnce (threads p ! t)} \<and>
     (\<forall>t \<in> set (joiner p). t < length (threads p) \<and> finishupOnce (threads p ! t)) \<and>
     poolThreadCount p = length (poolIds p) + length (joiner p)"

text \<open>The command a thread has taken and not yet reported as finished.\<close>

definition in_hand :: "event_thread \<Rightarrow> cmd multiset" where
  "in_hand th =
     (if commandFinishCalled th then {#}
      else case getCurrentCommand th of Some c \<Rightarrow> {#c#} | None \<Rightarrow> {#})"

definition commands_inv :: "pool \<Rightarrow> bool" where
  "commands_inv p \<longleftrightarrow>
     sent p = taken p @ queue p \<and> mset (taken p) = mset (finished p) + sum_list (map in_hand (threads p))"

text \<open>A thread of the pool that will come to \<open>finishup\<close> without a further command.\<close>

definition ending :: "event_thread \<Rightarrow> bool" where
  "ending th \<longleftrightarrow> pc th = Running MsgEnd \<or> \<not> eLoop th \<and> pc th \<noteq> Waiting"

definition shrinking :: "pool \<Rightarrow> bool" where
  "shrinking p \<longleftrightarrow> MsgEnd \<in> set (queue p) \<or> (\<exists>t \<in> set (poolIds p). ending (threads p ! t))"

definition size_inv :: "pool \<Rightarrow> bool" where
  "size_inv p \<longleftrightarrow>
     (target p < length (poolIds p) \<longrightarrow> 0 < pendingResize p \<or> shrinking p) \<and>
     (length (poolIds p) < target p \<longrightarrow> 0 < pendingResize p) \<and>
     target p < maxThreadCount p \<and> length (poolIds p) < maxThreadCount p"

definition stop_inv :: "pool \<Rightarrow> bool" where
  "stop_inv p \<longleftrightarrow>
     (shutdown p \<longrightarrow> target p = 0) \<and> (\<not> jContinue p \<longrightarrow> shutdown p \<and> poolIds p = []) \<and>
     (\<not> jRunning p \<longrightarrow> \<not> jContinue p \<and> joiner p = [])"

definition pool_inv :: "pool \<Rightarrow> bool" where
  "pool_inv p \<longleftrightarrow> threads_inv p \<and> commands_inv p \<and> size_inv p \<and> stop_inv p"

section \<open>How the operations change the state\<close>

lemma updThread_simps [simp]:
  "threads (updThread t f p) = (threads p)[t := f (threads p ! t)]"
  "queue (updThread t f p) = queue p" "poolIds (updThread t f p) = poolIds p"
  "target (updThread t f p) = target p" "shutdown (updThread t f p) = shutdown p"
  "poolThreadCount (updThread t f p) = poolThreadCount p" "maxThreadCount (updThread t f p) = maxThreadCount p"
  "joiner (updThread t f p) = joiner p" "jContinue (updThread t f p) = jContinue p"
  "jRunning (updThread t f p) = jRunning p" "pendingResize (updThread t f p) = pendingResize p"
  "sent (updThread t f p) = sent p" "taken (updThread t f p) = taken p" "finished (updThread t f p) = finished p"
  by (simp_all add: updThread_def)

lemma setPoolEventThread_simps [simp]:
  "threads (setPoolEventThread c t p) = threads p" "queue (setPoolEventThread c t p) = queue p"
  "poolIds (setPoolEventThread c t p) = poolIds p" "target (setPoolEventThread c t p) = target p"
  "shutdown (setPoolEventThread c t p) = shutdown p" "poolThreadCount (setPoolEventThread c t p) = poolThreadCount p"
  "maxThreadCount (setPoolEventThread c t p) = maxThreadCount p" "joiner (setPoolEventThread c t p) = joiner p"
  "jContinue (setPoolEventThread c t p) = jContinue p" "jRunning (setPoolEventThread c t p) = jRunning p"
  "pendingResize (setPoolEventThread c t p) = pendingResize p" "sent (setPoolEventThread c t p) = sent p"
  "taken (setPoolEventThread c t p) = taken p" "finished (setPoolEventThread c t p) = finished p"
  by (simp_all add: setPoolEventThread_def split: cmd.splits)

lemma pool_mem:
  "threads_inv p \<Longrightarrow> t \<in> set (poolIds p) \<longleftrightarrow> t < length (threads p) \<and> \<not> finishupOnce (threads p ! t)"
  by (simp add: threads_inv_def)

text \<open>\<open>finishup\<close> always finds its thread in the pool, so its warning is never logged.\<close>

lemma finishup_eq:
  assumes "threads_inv p" and "t < length (threads p)"
  shows "finishup t p =
    (if finishupOnce (threads p ! t) then p
     else p \<lparr> threads := (threads p)[t := (threads p ! t) \<lparr> finishupOnce := True \<rparr>],
              poolIds := remove1 t (poolIds p), joiner := joiner p @ [t], pendingResize := pendingResize p + 1 \<rparr>)"
  using pool_mem [OF assms(1), of t] assms(2) by (simp add: finishup_def release_def updThread_def)

lemma set_remove1_pool: "threads_inv p \<Longrightarrow> set (remove1 t (poolIds p)) = set (poolIds p) - {t}"
  by (simp add: threads_inv_def set_remove1_eq)

lemma length_remove1_pool:
  "t \<in> set (poolIds p) \<Longrightarrow> length (poolIds p) = Suc (length (remove1 t (poolIds p)))"
  by (simp add: length_remove1) (metis Suc_pred length_pos_if_in_set)

lemma thread_ok_nth: "threads_inv p \<Longrightarrow> t < length (threads p) \<Longrightarrow> thread_ok (threads p ! t)"
  by (simp add: threads_inv_def)

lemma all_set_list_update: "(\<forall>x \<in> set xs. P x) \<Longrightarrow> P y \<Longrightarrow> \<forall>x \<in> set (xs[i := y]). P x"
  using set_update_subset_insert [of xs i y] by blast

text \<open>Changing a thread without taking it out of the pool, and taking it out.\<close>

lemma threads_inv_upd:
  assumes "threads_inv p" and "t < length (threads p)" and "thread_ok th"
    and "finishupOnce th = finishupOnce (threads p ! t)"
    and "threads p' = (threads p)[t := th]" "poolIds p' = poolIds p" "joiner p' = joiner p"
      "poolThreadCount p' = poolThreadCount p"
  shows "threads_inv p'"
  using assms all_set_list_update [of "threads p" thread_ok th t]
  by (auto simp: threads_inv_def nth_list_update)

lemma threads_inv_out:
  assumes "threads_inv p" and "t < length (threads p)" and "thread_ok th"
    and "\<not> finishupOnce (threads p ! t)" and "finishupOnce th"
    and "threads p' = (threads p)[t := th]" "poolIds p' = remove1 t (poolIds p)" "joiner p' = joiner p @ [t]"
      "poolThreadCount p' = poolThreadCount p"
  shows "threads_inv p'"
proof -
  have "t \<in> set (poolIds p)" using pool_mem [OF assms(1)] assms(2, 4) by simp
  then show ?thesis
    using assms all_set_list_update [of "threads p" thread_ok th t] length_remove1_pool [of t p]
    by (auto simp: threads_inv_def nth_list_update set_remove1_eq)
qed

lemma sum_list_update:
  fixes f :: "'a \<Rightarrow> 'b::comm_monoid_add"
  assumes "i < length xs"
  shows "sum_list (map f (xs[i := y])) + f (xs ! i) = sum_list (map f xs) + f y"
  using assms by (induction xs arbitrary: i) (auto simp: nth_Cons ac_simps split: nat.splits)

section \<open>The effect of each step\<close>

definition moveOut :: "nat \<Rightarrow> event_thread \<Rightarrow> pool \<Rightarrow> pool" where
  "moveOut t th p =
     p \<lparr> threads := (threads p)[t := th], poolIds := remove1 t (poolIds p), joiner := joiner p @ [t],
         pendingResize := pendingResize p + 1 \<rparr>"

lemma loopTop_eq:
  assumes "threads_inv p" and "t < length (threads p)"
  shows "loopTop t p =
    (if eLoop (threads p ! t) then p \<lparr> threads := (threads p)[t := (threads p ! t) \<lparr> pc := Waiting \<rparr>] \<rparr>
     else if finishupOnce (threads p ! t) then p \<lparr> threads := (threads p)[t := (threads p ! t) \<lparr> pc := Done \<rparr>] \<rparr>
     else moveOut t ((threads p ! t) \<lparr> pc := Done, finishupOnce := True \<rparr>) p)"
  using assms by (cases "threads p ! t"; cases p) (auto simp: loopTop_def finishup_eq moveOut_def updThread_def)

lemma finishRun_eq:
  "finishRun t c p = p \<lparr>
     threads := (threads p)[t := (threads p ! t) \<lparr> pc := Top, commandFinishCalled := True,
       eLoop := eLoop (threads p ! t) \<and> c \<noteq> MsgEnd \<rparr>],
     finished := finished p @ (if commandFinishCalled (threads p ! t) then [] else [c]) \<rparr>"
  by (cases "threads p ! t"; cases p)
    (auto simp: finishRun_def finishCmd_def callCommandFinish_def runAction_def updThread_def)

lemma takeNext_eq:
  assumes "queue p = c # qu"
  shows "takeNext t p = setPoolEventThread c t (p \<lparr> queue := qu, taken := taken p @ [c],
    threads := (threads p)[t := (threads p ! t) \<lparr> pc := Running c, commandFinishCalled := False \<rparr>] \<rparr>)"
  using assms by (simp add: takeNext_def takeCmd_def updThread_def)

text \<open>Leaving the pool with the current command \<open>c\<close>; \<open>g\<close> is what becomes of the thread otherwise.\<close>

definition leaveWith :: "nat \<Rightarrow> cmd \<Rightarrow> event_thread \<Rightarrow> pool \<Rightarrow> pool" where
  "leaveWith t c th p =
     (let p1 = p \<lparr> finished := finished p @ (if commandFinishCalled (threads p ! t) then [] else [c]) \<rparr>;
          th1 = th \<lparr> eLoop := False, commandFinishCalled := True, finishupOnce := True \<rparr>
      in if finishupOnce (threads p ! t) then p1 \<lparr> threads := (threads p)[t := th1] \<rparr> else moveOut t th1 p1)"

lemma leavePoolCmd_eq:
  assumes "threads_inv p" and "t < length (threads p)" and "getCurrentCommand (threads p ! t) = Some c"
    and "c \<noteq> MsgEnd"
  shows "snd (leavePoolCmd t (Some c) p) = leaveWith t c (threads p ! t) p"
proof -
  let ?th = "threads p ! t"
  let ?th1 = "?th \<lparr> eLoop := False, commandFinishCalled := True \<rparr>"
  let ?p1 = "p \<lparr> threads := (threads p)[t := ?th1],
    finished := finished p @ (if commandFinishCalled ?th then [] else [c]) \<rparr>"
  have ok: "thread_ok ?th" using thread_ok_nth [OF assms(1, 2)] .
  have "pc ?th \<noteq> Waiting" "pc ?th \<noteq> Running MsgEnd" "pc ?th \<noteq> Done"
    using assms(3, 4) by (auto split: pc.splits)
  then have "thread_ok ?th1" using ok by (auto simp: thread_ok_def)
  then have inv: "threads_inv ?p1" by (rule threads_inv_upd [OF assms(1, 2)]) simp_all
  have "snd (leavePoolCmd t (Some c) p) = finishup t ?p1"
  proof -
    have "getCurrentCommand (?th \<lparr> eLoop := False \<rparr>) = Some c" using assms(3) by simp
    then have "snd (leavePoolCmd t (Some c) p) = finishup t (updThread t
        (\<lambda>_. snd (callCommandFinish c (?th \<lparr> eLoop := False \<rparr>)))
        ((updThread t (\<lambda>th. th \<lparr> eLoop := False \<rparr>) p) \<lparr> finished := finished p @ fst (callCommandFinish c (?th \<lparr> eLoop := False \<rparr>)) \<rparr>))"
      using assms(2) by (simp add: leavePoolCmd_def case_prod_unfold Let_def del: getCurrentCommand.simps)
    also have "\<dots> = finishup t ?p1"
      by (rule arg_cong [where f = "finishup t"], cases ?th, cases p) (simp add: callCommandFinish_def updThread_def)
    finally show ?thesis .
  qed
  also have "\<dots> = leaveWith t c ?th p"
  proof -
    have th: "threads ?p1 ! t = ?th1" "t < length (threads ?p1)" using assms(2) by simp_all
    show ?thesis unfolding finishup_eq [OF inv th(2)] th(1)
      by (cases ?th; cases p) (simp add: leaveWith_def moveOut_def Let_def)
  qed
  finally show ?thesis .
qed

lemma leavePoolCmd_other:
  "getCurrentCommand (threads p ! t) \<noteq> Some c \<Longrightarrow> t < length (threads p) \<Longrightarrow>
    snd (leavePoolCmd t (Some c) p) = p \<lparr> threads := (threads p)[t := (threads p ! t) \<lparr> eLoop := False \<rparr>] \<rparr>"
  by (auto simp: leavePoolCmd_def updThread_def Let_def)

lemma leaveAfterWait_eq:
  assumes "threads_inv p" and "t < length (threads p)" and "pc (threads p ! t) = Leaving c"
  shows "leaveAfterWait t c p = leaveWith t c ((threads p ! t) \<lparr> pc := Running c \<rparr>) p"
proof -
  have "c \<noteq> MsgEnd" using thread_ok_nth [OF assms(1, 2)] assms(3) by (simp add: thread_ok_def)
  then have "snd (leavePoolCmd t (Some c) p) = leaveWith t c (threads p ! t) p"
    using leavePoolCmd_eq [OF assms(1, 2)] assms(3) by simp
  then have "leaveAfterWait t c p = updThread t (\<lambda>th. th \<lparr> pc := Running c \<rparr>) (leaveWith t c (threads p ! t) p)"
    by (simp add: leaveAfterWait_def)
  also have "\<dots> = leaveWith t c ((threads p ! t) \<lparr> pc := Running c \<rparr>) p"
    using assms(2) by (cases "threads p ! t"; cases p) (simp add: leaveWith_def moveOut_def updThread_def Let_def)
  finally show ?thesis .
qed

lemma addPoolEventThread_funpow:
  "(addPoolEventThread ^^ n) p =
     p \<lparr> threads := threads p @ replicate n newThread,
         poolIds := poolIds p @ [length (threads p)..<length (threads p) + n],
         poolThreadCount := poolThreadCount p + n \<rparr>"
  by (induction n) (simp_all add: addPoolEventThread_def replicate_append_same)

lemma resizePool_eq:
  "resizePool p =
    (let n = target p - length (poolIds p);
         p1 = p \<lparr> threads := threads p @ replicate n newThread,
           poolIds := poolIds p @ [length (threads p)..<length (threads p) + n],
           poolThreadCount := poolThreadCount p + n \<rparr>
     in if target p < length (poolIds p)
        then p \<lparr> queue := queue p @ [MsgEnd], sent := sent p @ [MsgEnd] \<rparr> else p1)"
  by (simp add: resizePool_def addPoolEventThread_funpow queCmd_def queCmdQ_def Let_def)

section \<open>Who is in the pool\<close>

lemma thread_ok_newThread [simp]: "thread_ok newThread"
  by (simp add: thread_ok_def newThread_def)

lemma newThread_finishup: "\<not> finishupOnce newThread"
  by (simp add: newThread_def)

lemma threads_inv_grow:
  assumes "threads_inv p"
  shows "threads_inv (p \<lparr> threads := threads p @ replicate n newThread,
      poolIds := poolIds p @ [length (threads p)..<length (threads p) + n],
      poolThreadCount := poolThreadCount p + n \<rparr>)"
proof -
  have "t < length (threads p)" if "t \<in> set (poolIds p)" for t using assms that by (simp add: threads_inv_def)
  then show ?thesis
    using assms newThread_finishup by (auto simp: threads_inv_def nth_append)
qed

lemma threads_inv_fields:
  assumes "threads_inv p" and "threads p' = threads p" "poolIds p' = poolIds p" "joiner p' = joiner p"
    "poolThreadCount p' = poolThreadCount p"
  shows "threads_inv p'"
  using assms by (simp add: threads_inv_def)

lemma threads_inv_leaveWith:
  assumes "threads_inv p" and "t < length (threads p)" and "thread_ok th"
    and "finishupOnce th = finishupOnce (threads p ! t)" and "pc th = Running c \<or> pc th = Leaving c" and "c \<noteq> MsgEnd"
  shows "threads_inv (leaveWith t c th p)"
proof -
  let ?th = "th \<lparr> eLoop := False, commandFinishCalled := True, finishupOnce := True \<rparr>"
  have "thread_ok ?th" using assms(3-) by (auto simp: thread_ok_def)
  then show ?thesis
    using threads_inv_upd [OF assms(1, 2), of ?th] threads_inv_out [OF assms(1, 2), of ?th]
    by (simp add: leaveWith_def moveOut_def Let_def)
qed

lemma threads_inv_resizePool:
  assumes "threads_inv p"
  shows "threads_inv (resizePool p)"
proof (cases "target p < length (poolIds p)")
  case True
  then show ?thesis by (auto simp: resizePool_eq intro!: threads_inv_fields [OF assms])
next
  case False
  then show ?thesis by (simp only: resizePool_eq Let_def if_False threads_inv_grow [OF assms])
qed

lemma threads_inv_tick:
  assumes "tick p p'" and inv: "threads_inv p"
  shows "threads_inv p'"
  using assms(1)
proof cases
  case (top t)
  note ok = thread_ok_nth [OF inv top(2)]
  consider (loop) "eLoop (threads p ! t)" | (gone) "\<not> eLoop (threads p ! t)" "finishupOnce (threads p ! t)"
    | (out) "\<not> eLoop (threads p ! t)" "\<not> finishupOnce (threads p ! t)" by blast
  then show ?thesis
  proof cases
    case loop
    then have "thread_ok ((threads p ! t) \<lparr> pc := Waiting \<rparr>)" using ok by (simp add: thread_ok_def)
    then show ?thesis using loop unfolding top(1) loopTop_eq [OF inv top(2)]
      by (simp add: threads_inv_upd [OF inv top(2)])
  next
    case gone
    then have "thread_ok ((threads p ! t) \<lparr> pc := Done \<rparr>)" by (simp add: thread_ok_def)
    then show ?thesis using gone unfolding top(1) loopTop_eq [OF inv top(2)]
      by (simp add: threads_inv_upd [OF inv top(2)])
  next
    case out
    then have "thread_ok ((threads p ! t) \<lparr> pc := Done, finishupOnce := True \<rparr>)" by (simp add: thread_ok_def)
    then show ?thesis using out unfolding top(1) loopTop_eq [OF inv top(2)] moveOut_def
      by (simp add: threads_inv_out [OF inv top(2)])
  qed
next
  case (take t)
  obtain c qu where q: "queue p = c # qu" using take(4) by (cases "queue p") auto
  have "\<not> finishupOnce (threads p ! t)" using thread_ok_nth [OF inv take(2)] take(3) by (auto simp: thread_ok_def)
  then have "thread_ok ((threads p ! t) \<lparr> pc := Running c, commandFinishCalled := False \<rparr>)"
    by (simp add: thread_ok_def)
  then show ?thesis unfolding take(1) takeNext_eq [OF q] by (rule threads_inv_upd [OF inv take(2)]) simp_all
next
  case (finish t c)
  have "thread_ok ((threads p ! t) \<lparr> pc := Top, commandFinishCalled := True, eLoop := eLoop (threads p ! t) \<and> c \<noteq> MsgEnd \<rparr>)"
    using thread_ok_nth [OF inv finish(2)] by (auto simp: thread_ok_def)
  then show ?thesis unfolding finish(1) finishRun_eq by (rule threads_inv_upd [OF inv finish(2)]) simp_all
next
  case (leave t c)
  have ok: "c \<noteq> MsgEnd" "thread_ok ((threads p ! t) \<lparr> pc := Running c \<rparr>)"
    using thread_ok_nth [OF inv leave(2)] leave(3) by (auto simp: thread_ok_def)
  show ?thesis unfolding leave(1) leaveAfterWait_eq [OF inv leave(2, 3)]
    by (rule threads_inv_leaveWith [OF inv leave(2) ok(2) _ _ ok(1)]) simp_all
next
  case resize
  then show ?thesis by (auto intro!: threads_inv_resizePool threads_inv_fields [OF inv])
next
  case join
  then show ?thesis using inv by (auto simp: threads_inv_def)
next
  case joinExit
  then show ?thesis by (auto intro!: threads_inv_fields [OF inv])
qed

lemma threads_inv_outside:
  assumes "outside p p'" and inv: "threads_inv p"
  shows "threads_inv p'"
  using assms(1)
proof cases
  case (leaveBegin t n)
  have "thread_ok ((threads p ! t) \<lparr> eLoop := False, pc := Leaving (Work n) \<rparr>)"
    using thread_ok_nth [OF inv leaveBegin(2)] by (auto simp: thread_ok_def)
  then show ?thesis unfolding leaveBegin(1) leaveBegin_def by (rule threads_inv_upd [OF inv leaveBegin(2)]) simp_all
next
  case (leaveOther t n)
  show ?thesis
  proof (cases "getCurrentCommand (threads p ! t) = Some (Work n)")
    case True
    then have "pc (threads p ! t) = Running (Work n) \<or> pc (threads p ! t) = Leaving (Work n)" by (auto split: pc.splits)
    then show ?thesis
      unfolding leaveOther(1) leavePoolCmd_eq [OF inv leaveOther(2) True cmd.distinct(1)]
      using thread_ok_nth [OF inv leaveOther(2)] by (intro threads_inv_leaveWith [OF inv leaveOther(2)]) simp_all
  next
    case False
    have "thread_ok ((threads p ! t) \<lparr> eLoop := False \<rparr>)"
      using thread_ok_nth [OF inv leaveOther(2)] by (auto simp: thread_ok_def)
    then show ?thesis unfolding leaveOther(1) leavePoolCmd_other [OF False leaveOther(2)]
      by (rule threads_inv_upd [OF inv leaveOther(2)]) simp_all
  qed
qed (auto simp: queCmd_def setTarget_def shutdownBegin_def getAndNullPoolEventThread_def
    intro!: threads_inv_fields [OF inv])


section \<open>Commands\<close>

lemma commands_inv_upd:
  assumes "commands_inv p" and "t < length (threads p)" and "in_hand (threads p ! t) = mset f + in_hand th"
    and "threads p' = (threads p)[t := th]" "queue p' = queue p" "sent p' = sent p" "taken p' = taken p"
      "finished p' = finished p @ f"
  shows "commands_inv p'"
proof -
  have "sum_list (map in_hand (threads p')) + (mset f + in_hand th) = sum_list (map in_hand (threads p)) + in_hand th"
    using sum_list_update [OF assms(2), of in_hand th] assms(3, 4) by simp
  then have "sum_list (map in_hand (threads p')) + mset f = sum_list (map in_hand (threads p))"
    by (simp add: add.assoc [symmetric])
  then show ?thesis using assms(1, 5-8) by (simp add: commands_inv_def add.commute add.left_commute)
qed

lemma commands_inv_fields:
  assumes "commands_inv p" and "threads p' = threads p" "queue p' = queue p" "sent p' = sent p" "taken p' = taken p"
    "finished p' = finished p"
  shows "commands_inv p'"
  using assms by (simp add: commands_inv_def)

lemma in_hand_newThread: "in_hand newThread = {#}"
  by (simp add: in_hand_def newThread_def)

lemma commands_inv_resizePool:
  assumes "commands_inv p"
  shows "commands_inv (resizePool p)"
proof -
  have "sum_list (map in_hand (replicate n newThread)) = {#}" for n
    by (induction n) (simp_all add: in_hand_newThread)
  then show ?thesis using assms by (simp add: resizePool_eq commands_inv_def Let_def)
qed

lemma commands_inv_leaveWith:
  assumes "commands_inv p" and "t < length (threads p)" and "getCurrentCommand (threads p ! t) = Some c"
  shows "commands_inv (leaveWith t c th p)"
proof -
  have "in_hand (threads p ! t) = mset (if commandFinishCalled (threads p ! t) then [] else [c]) + {#}"
    using assms(3) by (simp add: in_hand_def)
  moreover have "in_hand (th \<lparr> eLoop := False, commandFinishCalled := True, finishupOnce := True \<rparr>) = {#}"
    by (simp add: in_hand_def)
  ultimately show ?thesis
    by (intro commands_inv_upd [OF assms(1, 2)]) (auto simp: leaveWith_def moveOut_def Let_def)
qed

lemma loopTop_thread:
  assumes "threads_inv p" and "t < length (threads p)"
  shows "\<exists>th. threads (loopTop t p) = (threads p)[t := th] \<and> getCurrentCommand th = None \<and>
    queue (loopTop t p) = queue p \<and> sent (loopTop t p) = sent p \<and> taken (loopTop t p) = taken p \<and>
    finished (loopTop t p) = finished p"
proof -
  consider (loop) "eLoop (threads p ! t)" | (gone) "\<not> eLoop (threads p ! t)" "finishupOnce (threads p ! t)"
    | (out) "\<not> eLoop (threads p ! t)" "\<not> finishupOnce (threads p ! t)" by blast
  then show ?thesis
  proof cases
    case loop
    then show ?thesis unfolding loopTop_eq [OF assms]
      by (intro exI [of _ "(threads p ! t) \<lparr> pc := Waiting \<rparr>"]) simp
  next
    case gone
    then show ?thesis unfolding loopTop_eq [OF assms]
      by (intro exI [of _ "(threads p ! t) \<lparr> pc := Done \<rparr>"]) simp
  next
    case out
    then show ?thesis unfolding loopTop_eq [OF assms]
      by (intro exI [of _ "(threads p ! t) \<lparr> pc := Done, finishupOnce := True \<rparr>"]) (simp add: moveOut_def)
  qed
qed

lemma commands_inv_tick:
  assumes "tick p p'" and inv: "threads_inv p" and cmds: "commands_inv p"
  shows "commands_inv p'"
  using assms(1)
proof cases
  case (top t)
  obtain th where th: "threads (loopTop t p) = (threads p)[t := th]" "getCurrentCommand th = None"
      "queue (loopTop t p) = queue p" "sent (loopTop t p) = sent p" "taken (loopTop t p) = taken p"
      "finished (loopTop t p) = finished p"
    using loopTop_thread [OF inv top(2)] by blast
  show ?thesis unfolding top(1)
    by (rule commands_inv_upd [OF cmds top(2), where f = "[]", OF _ th(1, 3-5)])
      (use th(2, 6) top(3) in \<open>simp_all add: in_hand_def\<close>)
next
  case (take t)
  obtain c qu where q: "queue p = c # qu" using take(4) by (cases "queue p") auto
  have "in_hand (threads p ! t) = {#}" using take(3) by (simp add: in_hand_def)
  then show ?thesis unfolding take(1) takeNext_eq [OF q]
    using sum_list_update [OF take(2), of in_hand "(threads p ! t) \<lparr> pc := Running c, commandFinishCalled := False \<rparr>"] cmds
    by (simp add: commands_inv_def q in_hand_def)
next
  case (finish t c)
  show ?thesis unfolding finish(1) finishRun_eq
    by (rule commands_inv_upd [OF cmds finish(2)]) (auto simp: in_hand_def finish(3))
next
  case (leave t c)
  show ?thesis unfolding leave(1) leaveAfterWait_eq [OF inv leave(2, 3)]
    using leave(3) by (intro commands_inv_leaveWith [OF cmds leave(2)]) simp
qed (auto intro!: commands_inv_resizePool commands_inv_fields [OF cmds])

lemma commands_inv_outside:
  assumes "outside p p'" and inv: "threads_inv p" and cmds: "commands_inv p"
  shows "commands_inv p'"
  using assms(1)
proof cases
  case queCmd
  then show ?thesis using cmds by (simp add: commands_inv_def queCmd_def queCmdQ_def)
next
  case (leaveBegin t n)
  show ?thesis unfolding leaveBegin(1) leaveBegin_def
    by (rule commands_inv_upd [OF cmds leaveBegin(2), of "[]"]) (auto simp: in_hand_def leaveBegin(3))
next
  case (leaveOther t n)
  show ?thesis
  proof (cases "getCurrentCommand (threads p ! t) = Some (Work n)")
    case True
    show ?thesis unfolding leaveOther(1) leavePoolCmd_eq [OF inv leaveOther(2) True cmd.distinct(1)]
      by (rule commands_inv_leaveWith [OF cmds leaveOther(2) True])
  next
    case False
    show ?thesis unfolding leaveOther(1) leavePoolCmd_other [OF False leaveOther(2)]
      by (rule commands_inv_upd [OF cmds leaveOther(2), of "[]"]) (auto simp: in_hand_def)
  qed
qed (auto simp: setTarget_def shutdownBegin_def getAndNullPoolEventThread_def intro!: commands_inv_fields [OF cmds])

section \<open>The size\<close>

lemma size_inv_pending:
  "0 < pendingResize p \<Longrightarrow> target p < maxThreadCount p \<Longrightarrow> length (poolIds p) < maxThreadCount p \<Longrightarrow> size_inv p"
  by (simp add: size_inv_def)

lemma size_inv_same:
  assumes "size_inv p" and "shrinking p \<Longrightarrow> shrinking p'"
    and "poolIds p' = poolIds p" "target p' = target p" "pendingResize p' = pendingResize p"
      "maxThreadCount p' = maxThreadCount p"
  shows "size_inv p'"
  using assms by (auto simp: size_inv_def)

text \<open>A change of a thread that keeps it ending keeps the pool shrinking.\<close>

lemma shrinking_upd:
  assumes "shrinking p" and "t < length (threads p)"
    and "t \<in> set (poolIds p) \<Longrightarrow> ending (threads p ! t) \<Longrightarrow> ending th"
    and "threads p' = (threads p)[t := th]" "set (queue p) \<subseteq> set (queue p')" "poolIds p' = poolIds p"
  shows "shrinking p'"
proof -
  consider "MsgEnd \<in> set (queue p)" | u where "u \<in> set (poolIds p)" "ending (threads p ! u)"
    using assms(1) by (auto simp: shrinking_def)
  then show ?thesis
  proof cases
    case 2
    then have "ending (threads p' ! u)" using assms(2-4) by (cases "u = t") simp_all
    then show ?thesis using 2(1) assms(6) by (auto simp: shrinking_def)
  qed (use assms(5) in \<open>auto simp: shrinking_def\<close>)
qed

lemma size_inv_upd:
  assumes "size_inv p" and "t < length (threads p)" and "threads p' = (threads p)[t := th]"
    and "t \<in> set (poolIds p) \<Longrightarrow> ending (threads p ! t) \<Longrightarrow> ending th"
    and "queue p' = queue p" "poolIds p' = poolIds p"
      "target p' = target p" "pendingResize p' = pendingResize p" "maxThreadCount p' = maxThreadCount p"
  shows "size_inv p'"
proof (rule size_inv_same [OF assms(1) _ assms(6-9)])
  assume "shrinking p"
  then show "shrinking p'" using shrinking_upd [OF _ assms(2) assms(4) assms(3) _ assms(6)] assms(5) by simp
qed

lemma size_inv_moveOut:
  assumes "size_inv p"
  shows "size_inv (moveOut t th p)"
proof -
  have "length (remove1 t (poolIds p)) \<le> length (poolIds p)" by (simp add: length_remove1)
  then show ?thesis using assms by (intro size_inv_pending) (simp_all add: moveOut_def size_inv_def)
qed

lemma size_inv_leaveWith:
  assumes "threads_inv p" and "size_inv p" and "t < length (threads p)"
  shows "size_inv (leaveWith t c th p)"
proof (cases "finishupOnce (threads p ! t)")
  case True
  then have "t \<notin> set (poolIds p)" using pool_mem [OF assms(1)] by simp
  then show ?thesis using True
    by (intro size_inv_upd [OF assms(2) assms(3), of _ "th \<lparr> eLoop := False, commandFinishCalled := True, finishupOnce := True \<rparr>"]) (simp_all add: leaveWith_def Let_def)
next
  case False
  have "size_inv (p \<lparr> finished := f \<rparr>)" for f by (rule size_inv_same [OF assms(2)]) (simp_all add: shrinking_def)
  then show ?thesis using False by (simp add: leaveWith_def size_inv_moveOut Let_def)
qed

lemma size_inv_resizePool:
  assumes "threads_inv p" and "target p < maxThreadCount p" and "length (poolIds p) < maxThreadCount p"
  shows "size_inv (resizePool p)"
  using assms by (auto simp: resizePool_eq size_inv_def shrinking_def Let_def)

lemma size_inv_loopTop:
  assumes inv: "threads_inv p" and s: "size_inv p" and t: "t < length (threads p)" "pc (threads p ! t) = Top"
  shows "size_inv (loopTop t p)"
proof -
  consider (loop) "eLoop (threads p ! t)" | (gone) "\<not> eLoop (threads p ! t)" "finishupOnce (threads p ! t)"
    | (out) "\<not> eLoop (threads p ! t)" "\<not> finishupOnce (threads p ! t)" by blast
  then show ?thesis
  proof cases
    case loop
    then have "\<not> ending (threads p ! t)" using t(2) by (simp add: ending_def)
    then show ?thesis using loop unfolding loopTop_eq [OF inv t(1)]
      by (intro size_inv_upd [OF s t(1), of _ "(threads p ! t) \<lparr> pc := Waiting \<rparr>"]) simp_all
  next
    case gone
    then have "t \<notin> set (poolIds p)" using pool_mem [OF inv] by simp
    then show ?thesis using gone unfolding loopTop_eq [OF inv t(1)]
      by (intro size_inv_upd [OF s t(1), of _ "(threads p ! t) \<lparr> pc := Done \<rparr>"]) simp_all
  next
    case out
    then show ?thesis using s unfolding loopTop_eq [OF inv t(1)] by (simp add: size_inv_moveOut)
  qed
qed

lemma size_inv_take:
  assumes inv: "threads_inv p" and s: "size_inv p" and t: "t < length (threads p)" "pc (threads p ! t) = Waiting"
    and q: "queue p = c # qu"
  shows "size_inv (takeNext t p)"
proof -
  let ?th = "(threads p ! t) \<lparr> pc := Running c, commandFinishCalled := False \<rparr>"
  have t_in: "t \<in> set (poolIds p)"
    using thread_ok_nth [OF inv t(1)] t(2) by (auto simp: pool_mem [OF inv] t(1) thread_ok_def)
  have "shrinking (takeNext t p)" if "shrinking p"
  proof (cases "c = MsgEnd")
    case True
    then have "ending (threads (takeNext t p) ! t)" using t(1) by (simp add: takeNext_eq [OF q] ending_def)
    then show ?thesis using t_in by (auto simp: shrinking_def takeNext_eq [OF q])
  next
    case False
    have "\<not> ending (threads p ! t)" using t(2) by (simp add: ending_def)
    then show ?thesis using that False t(1)
      by (auto simp: shrinking_def takeNext_eq [OF q] q nth_list_update)
  qed
  then show ?thesis by (rule size_inv_same [OF s]) (simp_all add: takeNext_eq [OF q])
qed

lemma size_inv_tick:
  assumes "tick p p'" and inv: "threads_inv p" and s: "size_inv p"
  shows "size_inv p'"
  using assms(1)
proof cases
  case (top t)
  then show ?thesis using size_inv_loopTop [OF inv s] by simp
next
  case (take t)
  obtain c qu where q: "queue p = c # qu" using take(4) by (cases "queue p") auto
  show ?thesis unfolding take(1) by (rule size_inv_take [OF inv s take(2, 3) q])
next
  case (finish t c)
  show ?thesis unfolding finish(1) finishRun_eq
    by (rule size_inv_upd [OF s finish(2)], simp) (use finish(3) in \<open>cases "threads p ! t", auto simp: ending_def\<close>)
next
  case (leave t c)
  show ?thesis unfolding leave(1) leaveAfterWait_eq [OF inv leave(2, 3)] by (rule size_inv_leaveWith [OF inv s leave(2)])
next
  case resize
  have "threads_inv (p \<lparr> pendingResize := pendingResize p - 1 \<rparr>)" by (rule threads_inv_fields [OF inv]) simp_all
  then show ?thesis unfolding resize(1) using s by (intro size_inv_resizePool) (simp_all add: size_inv_def)
next
  case (join t ts)
  then show ?thesis by (auto intro!: size_inv_same [OF s] simp: shrinking_def)
next
  case joinExit
  then show ?thesis by (auto intro!: size_inv_same [OF s] simp: shrinking_def)
qed

lemma size_inv_outside:
  assumes "outside p p'" and inv: "threads_inv p" and s: "size_inv p"
  shows "size_inv p'"
  using assms(1)
proof cases
  case queCmd
  then show ?thesis
    by (auto intro!: size_inv_same [OF s] simp: shrinking_def queCmd_def queCmdQ_def)
next
  case (leaveBegin t n)
  show ?thesis unfolding leaveBegin(1) leaveBegin_def
    by (rule size_inv_upd [OF s leaveBegin(2), where th = "(threads p ! t) \<lparr> eLoop := False, pc := Leaving (Work n) \<rparr>"])
      (simp_all add: ending_def)
next
  case (leaveOther t n)
  show ?thesis
  proof (cases "getCurrentCommand (threads p ! t) = Some (Work n)")
    case True
    show ?thesis unfolding leaveOther(1) leavePoolCmd_eq [OF inv leaveOther(2) True cmd.distinct(1)]
      by (rule size_inv_leaveWith [OF inv s leaveOther(2)])
  next
    case False
    show ?thesis unfolding leaveOther(1) leavePoolCmd_other [OF False leaveOther(2)]
      by (rule size_inv_upd [OF s leaveOther(2), where th = "(threads p ! t) \<lparr> eLoop := False \<rparr>"])
        (auto simp: ending_def)
  qed
next
  case shutdownJoin
  then show ?thesis by (auto intro!: size_inv_same [OF s] simp: shrinking_def)
next
  case getAndNull
  then show ?thesis by (auto intro!: size_inv_same [OF s] simp: shrinking_def getAndNullPoolEventThread_def)
qed (use s in \<open>auto simp: size_inv_def setTarget_def shutdownBegin_def\<close>)

section \<open>Shutting down\<close>

lemma stop_inv_fields:
  assumes "stop_inv p" and "target p' = target p" "shutdown p' = shutdown p" "poolIds p' = poolIds p"
    "joiner p' = joiner p" "jContinue p' = jContinue p" "jRunning p' = jRunning p"
  shows "stop_inv p'"
  using assms by (simp add: stop_inv_def)

lemma stop_inv_moveOut:
  assumes "stop_inv p" and "t \<in> set (poolIds p)"
  shows "stop_inv (moveOut t th p)"
  using assms by (auto simp: stop_inv_def moveOut_def)

lemma stop_inv_leaveWith:
  assumes "threads_inv p" and "stop_inv p" and "t < length (threads p)"
  shows "stop_inv (leaveWith t c th p)"
proof (cases "finishupOnce (threads p ! t)")
  case True
  then show ?thesis by (auto simp: leaveWith_def Let_def intro!: stop_inv_fields [OF assms(2)])
next
  case False
  have "stop_inv (p \<lparr> finished := f \<rparr>)" for f by (rule stop_inv_fields [OF assms(2)]) simp_all
  moreover have "t \<in> set (poolIds p)" using pool_mem [OF assms(1)] assms(3) False by simp
  ultimately show ?thesis using False assms(2) by (auto simp: leaveWith_def Let_def intro!: stop_inv_moveOut)
qed

lemma stop_inv_tick:
  assumes "tick p p'" and inv: "threads_inv p" and s: "stop_inv p"
  shows "stop_inv p'"
  using assms(1)
proof cases
  case (top t)
  have "t \<in> set (poolIds p)" if "\<not> finishupOnce (threads p ! t)" using that pool_mem [OF inv] top(2) by simp
  then show ?thesis unfolding top(1) loopTop_eq [OF inv top(2)]
    by (auto intro!: stop_inv_moveOut [OF s] intro: stop_inv_fields [OF s])
next
  case (take t)
  obtain c qu where q: "queue p = c # qu" using take(4) by (cases "queue p") auto
  show ?thesis unfolding take(1) takeNext_eq [OF q] by (rule stop_inv_fields [OF s]) simp_all
next
  case (finish t c)
  show ?thesis unfolding finish(1) finishRun_eq by (rule stop_inv_fields [OF s]) simp_all
next
  case (leave t c)
  show ?thesis unfolding leave(1) leaveAfterWait_eq [OF inv leave(2, 3)] by (rule stop_inv_leaveWith [OF inv s leave(2)])
next
  case resize
  then show ?thesis using s by (auto simp: stop_inv_def resizePool_eq Let_def)
qed (use s in \<open>auto simp: stop_inv_def\<close>)

lemma stop_inv_outside:
  assumes "outside p p'" and inv: "threads_inv p" and s: "stop_inv p"
  shows "stop_inv p'"
  using assms(1)
proof cases
  case (leaveOther t n)
  show ?thesis
  proof (cases "getCurrentCommand (threads p ! t) = Some (Work n)")
    case True
    show ?thesis unfolding leaveOther(1) leavePoolCmd_eq [OF inv leaveOther(2) True cmd.distinct(1)]
      by (rule stop_inv_leaveWith [OF inv s leaveOther(2)])
  next
    case False
    show ?thesis unfolding leaveOther(1) leavePoolCmd_other [OF False leaveOther(2)]
      by (rule stop_inv_fields [OF s]) simp_all
  qed
next
  case (leaveBegin t n)
  show ?thesis unfolding leaveBegin(1) leaveBegin_def by (rule stop_inv_fields [OF s]) simp_all
qed (use s in \<open>auto simp: stop_inv_def queCmd_def setTarget_def shutdownBegin_def getAndNullPoolEventThread_def\<close>)

section \<open>Every reachable pool\<close>

lemma pool_inv_start:
  assumes "n < m"
  shows "pool_inv (newThreadPoolMax n m)"
proof -
  have inv: "threads_inv (newPool n m)" by (simp add: threads_inv_def newPool_def)
  have cmds: "commands_inv (newPool n m)" by (simp add: commands_inv_def newPool_def)
  have "stop_inv (newThreadPoolMax n m)"
    by (simp add: newThreadPoolMax_def resizePool_eq stop_inv_def newPool_def Let_def)
  then show ?thesis
    using threads_inv_resizePool [OF inv] commands_inv_resizePool [OF cmds] size_inv_resizePool [OF inv] assms
    by (simp add: pool_inv_def newThreadPoolMax_def) (simp add: newPool_def)
qed

lemma pool_inv_tick: "pool_inv p \<Longrightarrow> tick p p' \<Longrightarrow> pool_inv p'"
  unfolding pool_inv_def using threads_inv_tick commands_inv_tick size_inv_tick stop_inv_tick by blast

lemma pool_inv_outside: "pool_inv p \<Longrightarrow> outside p p' \<Longrightarrow> pool_inv p'"
  unfolding pool_inv_def using threads_inv_outside commands_inv_outside size_inv_outside stop_inv_outside by blast

lemma pool_reach_inv: "pool_reach p \<Longrightarrow> pool_inv p"
  by (induction rule: pool_reach.induct) (blast intro: pool_inv_start pool_inv_tick pool_inv_outside)+

end
