(* ===== verification/ThreadPoolProps.thy ===== *)
theory ThreadPoolProps
  imports ThreadPoolInv
begin

text \<open>
  What the thread pool promises: its queue is a fifo, it comes to rest at the size it was asked for,
  and a shutdown runs what was queued before it, unless an end message was still on its way.
\<close>

section \<open>The queue\<close>

text \<open>The abstract queue: what was taken so far, and what is waiting.\<close>

inductive fifo_step :: "cmd list \<times> cmd list \<Rightarrow> cmd list \<times> cmd list \<Rightarrow> bool" where
  enqueue: "fifo_step (out, q) (out, q @ [c])"
| dequeue: "fifo_step (out, c # q) (out @ [c], q)"
| stutter: "fifo_step (out, q) (out, q)"

definition abs_queue :: "pool \<Rightarrow> cmd list \<times> cmd list" where
  "abs_queue p = (taken p, queue p)"

lemma abs_leaveWith: "abs_queue (leaveWith t c th p) = abs_queue p"
  by (simp add: abs_queue_def leaveWith_def moveOut_def Let_def)

lemma fifo_tick:
  assumes "tick p p'" and inv: "threads_inv p"
  shows "fifo_step (abs_queue p) (abs_queue p')"
  using assms(1)
proof cases
  case (top t)
  then show ?thesis using loopTop_thread [OF inv top(2)] by (auto simp: abs_queue_def fifo_step.stutter)
next
  case (take t)
  obtain c qu where q: "queue p = c # qu" using take(4) by (cases "queue p") auto
  show ?thesis unfolding take(1) takeNext_eq [OF q] using q by (simp add: abs_queue_def fifo_step.dequeue)
next
  case (finish t c)
  show ?thesis unfolding finish(1) finishRun_eq by (simp add: abs_queue_def fifo_step.stutter)
next
  case (leave t c)
  show ?thesis unfolding leave(1) leaveAfterWait_eq [OF inv leave(2, 3)] abs_leaveWith by (cases "abs_queue p") (simp add: fifo_step.stutter)
next
  case resize
  then show ?thesis by (simp add: abs_queue_def resizePool_eq Let_def fifo_step.enqueue fifo_step.stutter)
qed (auto simp: abs_queue_def fifo_step.stutter)

lemma fifo_outside:
  assumes "outside p p'" and inv: "threads_inv p"
  shows "fifo_step (abs_queue p) (abs_queue p')"
  using assms(1)
proof cases
  case (leaveOther t n)
  show ?thesis
  proof (cases "getCurrentCommand (threads p ! t) = Some (Work n)")
    case True
    show ?thesis unfolding leaveOther(1) leavePoolCmd_eq [OF inv leaveOther(2) True cmd.distinct(1)] abs_leaveWith
      by (cases "abs_queue p") (simp add: fifo_step.stutter)
  next
    case False
    show ?thesis unfolding leaveOther(1) leavePoolCmd_other [OF False leaveOther(2)]
      by (simp add: abs_queue_def fifo_step.stutter)
  qed
qed (simp_all add: abs_queue_def queCmd_def queCmdQ_def setTarget_def shutdownBegin_def leaveBegin_def
    getAndNullPoolEventThread_def fifo_step.enqueue fifo_step.stutter)

text \<open>C21: however many threads a pool has, and whichever of them take commands, leave or end, its queue behaves as one fifo: every step takes the oldest waiting command, adds one at the end, or changes neither; and what was taken was reported finished once or is in the hands of one thread.\<close>

theorem pool_refines_fifo:
  assumes "pool_reach p"
  shows "(tick p p' \<or> outside p p' \<longrightarrow> fifo_step (abs_queue p) (abs_queue p')) \<and>
    sent p = taken p @ queue p \<and> mset (taken p) = mset (finished p) + sum_list (map in_hand (threads p))"
  using pool_reach_inv [OF assms] fifo_tick [of p p'] fifo_outside [of p p']
  by (auto simp: pool_inv_def commands_inv_def)

section \<open>Coming to rest\<close>

definition thread_weight :: "event_thread \<Rightarrow> nat" where
  "thread_weight th =
     (case pc th of Top \<Rightarrow> 2 | Waiting \<Rightarrow> 1 | Running c \<Rightarrow> (if c = MsgEnd then 6 else 3) | Leaving _ \<Rightarrow> 5 | Done \<Rightarrow> 0)
     + (if eLoop th \<or> finishupOnce th then 0 else 3)"

definition cmd_weight :: "cmd \<Rightarrow> nat" where
  "cmd_weight c = (if c = MsgEnd then 7 else 4)"

definition surplus :: "pool \<Rightarrow> nat" where
  "surplus p = length (poolIds p) - target p"

definition work_left :: "pool \<Rightarrow> nat" where
  "work_left p =
     sum_list (map thread_weight (threads p)) + sum_list (map cmd_weight (queue p)) +
     (if surplus p = 0 then 1 else 20) * pendingResize p + 2 * (target p - length (poolIds p)) +
     length (joiner p) + (if jRunning p then 1 else 0)"

definition tick_order :: "(pool \<times> pool) set" where
  "tick_order = inv_image (less_than <*lex*> less_than) (\<lambda>p. (surplus p, work_left p))"

lemma wf_tick_order: "wf tick_order"
  unfolding tick_order_def by (intro wf_inv_image wf_lex_prod wf_less_than)

lemma thread_weight_upd:
  assumes "t < length (threads p)"
  shows "sum_list (map thread_weight ((threads p)[t := th])) + thread_weight (threads p ! t) =
    sum_list (map thread_weight (threads p)) + thread_weight th"
  using assms by (rule sum_list_update)

lemma tick_order_upd:
  assumes "t < length (threads p)" and "threads p' = (threads p)[t := th]" and "poolIds p' = poolIds p" "target p' = target p"
    "pendingResize p' = pendingResize p" "joiner p' = joiner p" "jRunning p' = jRunning p"
    and "thread_weight th + sum_list (map cmd_weight (queue p')) < thread_weight (threads p ! t) + sum_list (map cmd_weight (queue p))"
  shows "(p', p) \<in> tick_order"
  using thread_weight_upd [OF assms(1), of th] assms(2-)
  by (simp add: tick_order_def work_left_def surplus_def)

lemma tick_order_moveOut:
  assumes "t < length (threads p)" and "t \<in> set (poolIds p)" and "thread_weight th + 4 < thread_weight (threads p ! t)"
  shows "(moveOut t th p, p) \<in> tick_order"
  using thread_weight_upd [OF assms(1), of th] length_remove1_pool [OF assms(2)] assms(3)
  by (auto simp: tick_order_def work_left_def surplus_def moveOut_def)


lemma tick_order_leaveWith:
  assumes "threads_inv p" and "t < length (threads p)" and "pc (threads p ! t) = Leaving c"
  shows "(leaveWith t c ((threads p ! t) \<lparr> pc := Running c \<rparr>) p, p) \<in> tick_order"
proof -
  have ok: "c \<noteq> MsgEnd" "\<not> eLoop (threads p ! t)"
    using thread_ok_nth [OF assms(1, 2)] assms(3) by (auto simp: thread_ok_def)
  let ?th = "(threads p ! t) \<lparr> pc := Running c, eLoop := False, commandFinishCalled := True, finishupOnce := True \<rparr>"
  show ?thesis
  proof (cases "finishupOnce (threads p ! t)")
    case True
    then show ?thesis
      using ok assms(3) by (intro tick_order_upd [OF assms(2), of _ ?th]) (simp_all add: leaveWith_def Let_def thread_weight_def)
  next
    case False
    let ?p = "p \<lparr> finished := finished p @ (if commandFinishCalled (threads p ! t) then [] else [c]) \<rparr>"
    have "t \<in> set (poolIds ?p)" using pool_mem [OF assms(1)] assms(2) False by simp
    then have "(moveOut t ?th ?p, ?p) \<in> tick_order"
      using ok assms(2, 3) False by (intro tick_order_moveOut) (simp_all add: thread_weight_def)
    then show ?thesis using False by (simp add: leaveWith_def tick_order_def work_left_def surplus_def Let_def)
  qed
qed

lemma tick_order_loopTop:
  assumes "threads_inv p" and "t < length (threads p)" and "pc (threads p ! t) = Top"
  shows "(loopTop t p, p) \<in> tick_order"
proof -
  consider (loop) "eLoop (threads p ! t)" | (gone) "\<not> eLoop (threads p ! t)" "finishupOnce (threads p ! t)"
    | (out) "\<not> eLoop (threads p ! t)" "\<not> finishupOnce (threads p ! t)" by blast
  then show ?thesis
  proof cases
    case loop
    then show ?thesis using assms(3) unfolding loopTop_eq [OF assms(1, 2)]
      by (intro tick_order_upd [OF assms(2), of _ "(threads p ! t) \<lparr> pc := Waiting \<rparr>"]) (simp_all add: thread_weight_def)
  next
    case gone
    then show ?thesis using assms(3) unfolding loopTop_eq [OF assms(1, 2)]
      by (intro tick_order_upd [OF assms(2), of _ "(threads p ! t) \<lparr> pc := Done \<rparr>"]) (simp_all add: thread_weight_def)
  next
    case out
    then have "t \<in> set (poolIds p)" using pool_mem [OF assms(1)] assms(2) by simp
    then show ?thesis using out assms(2, 3) unfolding loopTop_eq [OF assms(1, 2)]
      by (simp add: tick_order_moveOut thread_weight_def)
  qed
qed

lemma tick_order_resizePool:
  assumes "0 < pendingResize p"
  shows "(resizePool (p \<lparr> pendingResize := pendingResize p - 1 \<rparr>), p) \<in> tick_order"
proof -
  obtain k where k: "pendingResize p = Suc k" using assms by (cases "pendingResize p") auto
  have w: "sum_list (map thread_weight (replicate n newThread)) = 2 * n" for n
    by (simp add: map_replicate_const sum_list_replicate thread_weight_def newThread_def)
  show ?thesis
  proof (cases "target p < length (poolIds p)")
    case True
    then show ?thesis by (simp add: tick_order_def work_left_def surplus_def resizePool_eq cmd_weight_def k)
  next
    case False
    then show ?thesis using w by (simp add: tick_order_def work_left_def surplus_def resizePool_eq k Let_def)
  qed
qed

lemma tick_decreases:
  assumes "tick p p'" and inv: "threads_inv p"
  shows "(p', p) \<in> tick_order"
  using assms(1)
proof cases
  case (top t)
  then show ?thesis using tick_order_loopTop [OF inv] by simp
next
  case (take t)
  obtain c qu where q: "queue p = c # qu" using take(4) by (cases "queue p") auto
  show ?thesis unfolding take(1) takeNext_eq [OF q]
    by (rule tick_order_upd [OF take(2), of _ "(threads p ! t) \<lparr> pc := Running c, commandFinishCalled := False \<rparr>"])
      (use take(3) q in \<open>auto simp: thread_weight_def cmd_weight_def\<close>)
next
  case (finish t c)
  have "\<not> finishupOnce (threads p ! t)" if "c = MsgEnd"
    using thread_ok_nth [OF inv finish(2)] finish(3) that by (auto simp: thread_ok_def)
  then show ?thesis unfolding finish(1) finishRun_eq
    using finish(3)
    by (intro tick_order_upd [OF finish(2), of _ "(threads p ! t) \<lparr> pc := Top, commandFinishCalled := True,
        eLoop := eLoop (threads p ! t) \<and> c \<noteq> MsgEnd \<rparr>"]) (auto simp: thread_weight_def)
next
  case (leave t c)
  then show ?thesis using tick_order_leaveWith [OF inv] leaveAfterWait_eq [OF inv] by simp
next
  case resize
  then show ?thesis using tick_order_resizePool by simp
qed (auto simp: tick_order_def work_left_def surplus_def)


subsection \<open>At rest\<close>

definition at_rest :: "pool \<Rightarrow> bool" where
  "at_rest p \<longleftrightarrow> (\<nexists>p'. tick p p')"

text \<open>No thread that is out of the pool already waits in \<open>leavePool()\<close>.\<close>

definition leaves_once :: "pool \<Rightarrow> bool" where
  "leaves_once p \<longleftrightarrow> (\<forall>th \<in> set (threads p). finishupOnce th \<longrightarrow> (\<forall>c. pc th \<noteq> Leaving c))"

lemma rest_threads:
  assumes rest: "at_rest p" and inv: "pool_inv p" and once: "leaves_once p"
  shows "joiner p = []"
    and "t \<in> set (poolIds p) \<Longrightarrow> pc (threads p ! t) = Waiting \<and> queue p = []"
    and "t < length (threads p) \<Longrightarrow> t \<notin> set (poolIds p) \<Longrightarrow> pc (threads p ! t) = Done"
proof -
  have ti: "threads_inv p" using inv by (simp add: pool_inv_def)
  have no_tick: "\<not> tick p p'" for p' using rest by (simp add: at_rest_def)
  have no: "pc (threads p ! t) \<noteq> Top" "pc (threads p ! t) \<noteq> Running c"
      "pc (threads p ! t) = Waiting \<Longrightarrow> queue p = []" if "t < length (threads p)" for t c
    using no_tick that tick.top [of t p] tick.take [of t p] tick.finish [of t p c] by blast+
  have no_leave: "maxThreadCount p < poolThreadCount p" if "t < length (threads p)" "pc (threads p ! t) = Leaving c" for t c
    using no_tick tick.leave [OF that] not_le by blast
  have out: "pc (threads p ! t) = Done" if "t < length (threads p)" "finishupOnce (threads p ! t)" for t
  proof -
    have "pc (threads p ! t) \<noteq> Leaving c" for c using once that by (simp add: leaves_once_def)
    moreover have "pc (threads p ! t) \<noteq> Waiting" using thread_ok_nth [OF ti that(1)] that(2) by (simp add: thread_ok_def)
    ultimately show ?thesis using no(1, 2) [OF that(1)] by (cases "pc (threads p ! t)") auto
  qed
  show j: "joiner p = []"
  proof (rule ccontr)
    assume "joiner p \<noteq> []"
    then obtain u us where u: "joiner p = u # us" by (cases "joiner p") auto
    then have "jRunning p" using inv by (auto simp: pool_inv_def stop_inv_def)
    moreover have "pc (threads p ! u) = Done" using ti u by (intro out) (simp_all add: threads_inv_def)
    ultimately show False using rest tick.join [OF _ u] by (auto simp: at_rest_def)
  qed
  show "pc (threads p ! t) = Waiting \<and> queue p = []" if "t \<in> set (poolIds p)"
  proof -
    have t: "t < length (threads p)" "\<not> finishupOnce (threads p ! t)" using that pool_mem [OF ti] by simp_all
    have "poolThreadCount p < maxThreadCount p" using ti j inv by (simp add: threads_inv_def pool_inv_def size_inv_def)
    then have "pc (threads p ! t) \<noteq> Leaving c" for c using no_leave [OF t(1), of c] by auto
    moreover have "pc (threads p ! t) \<noteq> Done" using thread_ok_nth [OF ti t(1)] t(2) by (auto simp: thread_ok_def)
    ultimately show ?thesis using no [OF t(1)] by (cases "pc (threads p ! t)") auto
  qed
  show "pc (threads p ! t) = Done" if "t < length (threads p)" "t \<notin> set (poolIds p)"
    using that pool_mem [OF ti] by (intro out) auto
qed

lemma rest_size:
  assumes rest: "at_rest p" and inv: "pool_inv p" and once: "leaves_once p"
  shows "length (poolIds p) = target p \<and> poolThreadCount p = target p"
proof -
  note th = rest_threads [OF assms]
  have s: "size_inv p" "threads_inv p" using inv by (simp_all add: pool_inv_def)
  have "pendingResize p = 0" using rest tick.resize [of p] by (auto simp: at_rest_def)
  moreover have "\<not> shrinking p" if "poolIds p \<noteq> []"
  proof -
    have "queue p = []" using that th(2) [of "hd (poolIds p)"] by simp
    then show ?thesis using th(2) by (auto simp: shrinking_def ending_def)
  qed
  ultimately have "length (poolIds p) = target p"
    using s(1) by (cases "poolIds p = []") (auto simp: size_inv_def)
  then show ?thesis using s(2) th(1) by (simp add: threads_inv_def)
qed

lemma sum_list_empty: "(\<And>x. x \<in> set xs \<Longrightarrow> f x = {#}) \<Longrightarrow> sum_list (map f xs) = {#}"
  by (induction xs) auto

lemma rest_finished:
  assumes rest: "at_rest p" and inv: "pool_inv p" and once: "leaves_once p"
  shows "mset (taken p) = mset (finished p)"
proof -
  have "in_hand th = {#}" if th: "th \<in> set (threads p)" for th
  proof -
    obtain t where t: "t < length (threads p)" "threads p ! t = th" using th unfolding in_set_conv_nth by blast
    then have "pc th = Waiting \<or> pc th = Done" using rest_threads(2, 3) [OF assms] by (cases "t \<in> set (poolIds p)") auto
    then show ?thesis by (auto simp: in_hand_def)
  qed
  then have "sum_list (map in_hand (threads p)) = {#}" by (rule sum_list_empty)
  then show ?thesis using inv by (simp add: pool_inv_def commands_inv_def)
qed


lemma comes_to_rest:
  assumes "pool_inv p"
  shows "\<exists>q. tick\<^sup>*\<^sup>* p q \<and> at_rest q"
  using wf_tick_order assms
proof (induction p rule: wf_induct_rule)
  case (less p)
  show ?case
  proof (cases "at_rest p")
    case False
    then obtain p' where p': "tick p p'" by (auto simp: at_rest_def)
    have "(p', p) \<in> tick_order" using tick_decreases [OF p'] less.prems by (simp add: pool_inv_def)
    then obtain q where "tick\<^sup>*\<^sup>* p' q" "at_rest q" using less.IH pool_inv_tick [OF less.prems p'] by blast
    then show ?thesis using p' by (meson converse_rtranclp_into_rtranclp)
  qed blast
qed



section \<open>Shutting down\<close>

text \<open>
  What may happen while a pool shuts down: its own steps, and any command, resize or
  \<open>shutdownPool\<close> from outside, but no thread leaves the pool by \<open>leavePool\<close>.
\<close>

inductive draining :: "pool \<Rightarrow> pool \<Rightarrow> bool" where
  tick: "tick p p' \<Longrightarrow> draining p p'"
| queCmd: "draining p (queCmd (Work n) p)"
| setTarget: "draining p (setTarget n p)"
| shutdownJoin: "shutdown p \<Longrightarrow> target p = length (poolIds p) \<Longrightarrow> draining p (p \<lparr> jContinue := False \<rparr>)"

lemma draining_cases: "draining p p' \<Longrightarrow> tick p p' \<or> outside p p'"
  by (induction rule: draining.induct) (auto intro: outside.intros)

text \<open>No thread is about to end, and no end message is among the first \<open>n\<close> commands to be taken.\<close>

definition all_looping :: "pool \<Rightarrow> bool" where
  "all_looping p \<longleftrightarrow> poolIds p \<noteq> [] \<and> (\<forall>t \<in> set (poolIds p). eLoop (threads p ! t) \<and> pc (threads p ! t) \<noteq> Running MsgEnd)"

definition none_leaving :: "pool \<Rightarrow> bool" where
  "none_leaving p \<longleftrightarrow> (\<forall>th \<in> set (threads p). \<forall>c. pc th \<noteq> Leaving c)"

definition drain_inv :: "nat \<Rightarrow> pool \<Rightarrow> bool" where
  "drain_inv n p \<longleftrightarrow>
     none_leaving p \<and> shutdown p \<and>
     (length (taken p) < n \<longrightarrow> all_looping p \<and> MsgEnd \<notin> set (take (n - length (taken p)) (queue p)) \<and>
        n \<le> length (taken p) + length (queue p))"

lemma all_looping_upd:
  assumes "all_looping p" and "t < length (threads p)" and "threads p' = (threads p)[t := th]" and "poolIds p' = poolIds p"
    and "t \<in> set (poolIds p) \<Longrightarrow> eLoop th \<and> pc th \<noteq> Running MsgEnd"
  shows "all_looping p'"
  using assms by (auto simp: all_looping_def nth_list_update)

lemma none_leaving_upd:
  assumes "none_leaving p" and "threads p' = (threads p)[t := th]" and "\<forall>c. pc th \<noteq> Leaving c"
  shows "none_leaving p'"
  using assms all_set_list_update [of "threads p" "\<lambda>th. \<forall>c. pc th \<noteq> Leaving c" th t] by (simp add: none_leaving_def)

lemma drain_inv_same:
  assumes "drain_inv n p" and "threads p' = threads p" "poolIds p' = poolIds p" "taken p' = taken p"
    "queue p' = queue p @ cs" "shutdown p' = shutdown p"
  shows "drain_inv n p'"
  using assms by (auto simp: drain_inv_def none_leaving_def all_looping_def)

lemma drain_inv_loopTop:
  assumes inv: "pool_inv p" and d: "drain_inv n p" and t: "t < length (threads p)" "pc (threads p ! t) = Top"
  shows "drain_inv n (loopTop t p)"
proof -
  have ti: "threads_inv p" using inv by (simp add: pool_inv_def)
  consider (loop) "eLoop (threads p ! t)" | (gone) "\<not> eLoop (threads p ! t)" "finishupOnce (threads p ! t)"
    | (out) "\<not> eLoop (threads p ! t)" "\<not> finishupOnce (threads p ! t)" by blast
  then show ?thesis
  proof cases
    case loop
    let ?p = "p \<lparr> threads := (threads p)[t := (threads p ! t) \<lparr> pc := Waiting \<rparr>] \<rparr>"
    have "none_leaving ?p" by (rule none_leaving_upd [of p _ t]) (use d in \<open>auto simp: drain_inv_def\<close>)
    moreover have "all_looping ?p" if "all_looping p" using that loop
      by (intro all_looping_upd [OF that t(1), of _ "(threads p ! t) \<lparr> pc := Waiting \<rparr>"]) simp_all
    ultimately show ?thesis using d loop by (simp add: loopTop_eq [OF ti t(1)] drain_inv_def)
  next
    case gone
    let ?p = "p \<lparr> threads := (threads p)[t := (threads p ! t) \<lparr> pc := Done \<rparr>] \<rparr>"
    have "none_leaving ?p" by (rule none_leaving_upd [of p _ t]) (use d in \<open>auto simp: drain_inv_def\<close>)
    moreover have "t \<notin> set (poolIds p)" using gone pool_mem [OF ti] by simp
    then have "all_looping ?p" if "all_looping p" using that
      by (intro all_looping_upd [OF that t(1), of _ "(threads p ! t) \<lparr> pc := Done \<rparr>"]) simp_all
    ultimately show ?thesis using d gone by (simp add: loopTop_eq [OF ti t(1)] drain_inv_def)
  next
    case out
    let ?th = "(threads p ! t) \<lparr> pc := Done, finishupOnce := True \<rparr>"
    have "t \<in> set (poolIds p)" using out pool_mem [OF ti] t(1) by simp
    then have "\<not> all_looping p" using out by (auto simp: all_looping_def)
    moreover have "none_leaving (moveOut t ?th p)"
      by (rule none_leaving_upd [of p _ t]) (use d in \<open>auto simp: drain_inv_def moveOut_def\<close>)
    ultimately show ?thesis using d out by (simp add: loopTop_eq [OF ti t(1)] drain_inv_def) (simp add: moveOut_def)
  qed
qed

lemma drain_inv_tick:
  assumes "tick p p'" and inv: "pool_inv p" and d: "drain_inv n p"
  shows "drain_inv n p'"
  using assms(1)
proof cases
  case (top t)
  then show ?thesis using drain_inv_loopTop [OF inv d] by simp
next
  case (take t)
  obtain c qu where q: "queue p = c # qu" using take(4) by (cases "queue p") auto
  let ?th = "(threads p ! t) \<lparr> pc := Running c, commandFinishCalled := False \<rparr>"
  have "none_leaving (takeNext t p)" by (rule none_leaving_upd [of p _ t ?th]) (use d in \<open>simp_all add: drain_inv_def takeNext_eq [OF q]\<close>)
  moreover have "all_looping (takeNext t p)" if "all_looping p" "c \<noteq> MsgEnd"
    using that by (intro all_looping_upd [OF that(1) take(2), of _ ?th]) (auto simp: takeNext_eq [OF q] all_looping_def)
  ultimately show ?thesis unfolding take(1)
    using d by (auto simp: drain_inv_def takeNext_eq [OF q] q take_Cons' split: if_splits)
next
  case (finish t c)
  let ?th = "(threads p ! t) \<lparr> pc := Top, commandFinishCalled := True, eLoop := eLoop (threads p ! t) \<and> c \<noteq> MsgEnd \<rparr>"
  have "none_leaving (finishRun t c p)" by (rule none_leaving_upd [of p _ t ?th]) (use d in \<open>simp_all add: drain_inv_def finishRun_eq\<close>)
  moreover have "all_looping (finishRun t c p)" if "all_looping p"
    using that finish(3) by (intro all_looping_upd [OF that finish(2), of _ ?th]) (auto simp: finishRun_eq all_looping_def)
  ultimately show ?thesis unfolding finish(1) using d by (simp add: drain_inv_def finishRun_eq)
next
  case (leave t c)
  then show ?thesis using d by (auto simp: drain_inv_def none_leaving_def)
next
  case resize
  have "target p = 0" using d inv by (simp add: drain_inv_def pool_inv_def stop_inv_def)
  then show ?thesis unfolding resize(1)
    by (intro drain_inv_same [OF d, of _ "if poolIds p = [] then [] else [MsgEnd]"]) (auto simp: resizePool_eq)
qed (auto intro!: drain_inv_same [OF d, of _ "[]"])

lemma drain_inv_draining:
  assumes "draining p p'" and inv: "pool_inv p" and d: "drain_inv n p"
  shows "drain_inv n p'"
  using assms(1)
proof cases
  case tick
  then show ?thesis using drain_inv_tick [OF _ inv d] by simp
next
  case (queCmd m)
  then show ?thesis by (auto intro!: drain_inv_same [OF d, of _ "[Work m]"] simp: queCmd_def queCmdQ_def)
next
  case setTarget
  then show ?thesis by (auto intro!: drain_inv_same [OF d, of _ "[]"] simp: setTarget_def)
next
  case shutdownJoin
  then show ?thesis by (auto intro!: drain_inv_same [OF d, of _ "[]"])
qed

lemma draining_run:
  assumes "draining\<^sup>*\<^sup>* p q" and "pool_inv p" and "drain_inv n p"
  shows "pool_inv q \<and> drain_inv n q \<and> (\<exists>more. sent q = sent p @ more)"
  using assms
proof (induction rule: rtranclp_induct)
  case (step y z)
  have inv_y: "pool_inv y" using step by blast
  have inv_z: "pool_inv z" using draining_cases [OF step.hyps(2)] pool_inv_tick pool_inv_outside inv_y by blast
  have "\<exists>more. sent z = sent y @ more"
  proof -
    have "fifo_step (abs_queue y) (abs_queue z)"
      using draining_cases [OF step.hyps(2)] fifo_tick fifo_outside inv_y unfolding pool_inv_def by blast
    moreover have "sent y = taken y @ queue y" "sent z = taken z @ queue z"
      using inv_y inv_z by (simp_all add: pool_inv_def commands_inv_def)
    ultimately show ?thesis by (auto simp: abs_queue_def elim!: fifo_step.cases)
  qed
  then show ?case using step.IH [OF step.prems] drain_inv_draining [OF step.hyps(2) inv_y] inv_z by auto
qed simp

text \<open>if no thread is ending or leaving and no end message is waiting when a pool with threads is shut down, then once nothing can go on every command queued before the shutdown has been finished, whatever is queued or resized meanwhile.\<close>

theorem shutdown_drains:
  assumes "pool_reach p" and "all_looping p" and "none_leaving p" and "MsgEnd \<notin> set (queue p)"
    and "draining\<^sup>*\<^sup>* (shutdownBegin p) q" and "at_rest q"
  shows "poolIds q = [] \<and> mset (sent p) \<subseteq># mset (finished q)"
proof -
  have inv: "pool_inv (shutdownBegin p)" by (rule pool_inv_outside [OF pool_reach_inv [OF assms(1)] outside.shutdownBegin])
  have sent: "sent p = taken p @ queue p" using pool_reach_inv [OF assms(1)] by (simp add: pool_inv_def commands_inv_def)
  have "drain_inv (length (sent p)) (shutdownBegin p)"
    using assms(2-4) sent by (auto simp: drain_inv_def shutdownBegin_def setTarget_def all_looping_def none_leaving_def)
  then have run: "pool_inv q" "drain_inv (length (sent p)) q" "\<exists>more. sent q = sent p @ more"
    using draining_run [OF assms(5) inv] by (auto simp: shutdownBegin_def setTarget_def)
  have once: "leaves_once q" using run(2) by (simp add: drain_inv_def none_leaving_def leaves_once_def)
  have "target q = 0" using run(1, 2) by (simp add: drain_inv_def pool_inv_def stop_inv_def)
  then have empty: "poolIds q = []" using rest_size [OF assms(6) run(1) once] by simp
  then have "length (sent p) \<le> length (taken q)" using run(2) by (auto simp: drain_inv_def all_looping_def not_less)
  moreover have "sent q = taken q @ queue q" using run(1) by (simp add: pool_inv_def commands_inv_def)
  ultimately obtain rest where "taken q = sent p @ rest" using run(3) by (metis append_eq_append_conv_if append_eq_append_conv2 append_take_drop_id)
  then have "mset (sent p) \<subseteq># mset (finished q)" using rest_finished [OF assms(6) run(1) once] by (metis mset_append mset_subset_eq_add_left)
  then show ?thesis using empty by simp
qed

section \<open>Examples\<close>

text \<open>
  A pool of one thread, which waits for its first command, the same pool with a command, and its
  shutdown.
\<close>

definition idlePool :: pool where
  "idlePool = loopTop 0 (newThreadPool 1)"

definition busyPool :: pool where
  "busyPool = queCmd (Work 7) idlePool"

lemmas pool_defs = newThreadPool_def newPool_def resizePool_eq loopTop_def takeNext_def takeCmd_def finishRun_eq
  finishup_def release_def queCmd_def queCmdQ_def setTarget_def shutdownBegin_def updThread_def newThread_def
  setPoolEventThread_def Let_def

lemma idlePool_eq:
  "idlePool = \<lparr> queue = [], threads = [newThread \<lparr> pc := Waiting \<rparr>], poolIds = [0], target = 1, shutdown = False,
    poolThreadCount = 1, maxThreadCount = 2, joiner = [], jContinue = True, jRunning = True, pendingResize = 0,
    cmdThread = (\<lambda>_. None), sent = [], taken = [], finished = [] \<rparr>"
  by (simp add: idlePool_def pool_defs)

lemma idlePool_reach: "pool_reach idlePool"
proof -
  have "pool_reach (newThreadPool 1)"
    unfolding newThreadPool_def using pool_reach.start [of 1 "1 + 1"] unfolding newThreadPoolMax_def by simp
  moreover have "tick (newThreadPool 1) idlePool" unfolding idlePool_def by (rule tick.top) (simp_all add: pool_defs)
  ultimately show ?thesis by (rule pool_reach.tick)
qed

lemma busyPool_reach: "pool_reach busyPool"
  unfolding busyPool_def by (rule pool_reach.outside [OF idlePool_reach outside.queCmd])

theorem pool_refines_fifo_witness:
  "fifo_step (abs_queue busyPool) (abs_queue (takeNext 0 busyPool)) \<and>
   abs_queue busyPool = ([], [Work 7]) \<and> abs_queue (takeNext 0 busyPool) = ([Work 7], [])"
proof -
  have "tick busyPool (takeNext 0 busyPool)"
    by (rule tick.take) (simp_all add: busyPool_def idlePool_eq queCmd_def queCmdQ_def)
  then show ?thesis using pool_refines_fifo [OF busyPool_reach, of "takeNext 0 busyPool"]
    by (simp add: abs_queue_def busyPool_def idlePool_eq pool_defs)
qed



lemma ticks_draining: "tick\<^sup>*\<^sup>* p q \<Longrightarrow> draining\<^sup>*\<^sup>* p q"
  by (induction rule: rtranclp_induct) (auto intro: draining.tick rtranclp.rtrancl_into_rtrancl)

theorem shutdown_drains_witness:
  "\<exists>q. draining\<^sup>*\<^sup>* (shutdownBegin busyPool) q \<and> at_rest q \<and> poolIds q = [] \<and> Work 7 \<in># mset (finished q)"
proof -
  have "pool_inv (shutdownBegin busyPool)"
    by (rule pool_inv_outside [OF pool_reach_inv [OF busyPool_reach] outside.shutdownBegin])
  then obtain q where q: "draining\<^sup>*\<^sup>* (shutdownBegin busyPool) q" "at_rest q"
    using comes_to_rest ticks_draining by blast
  have facts: "all_looping busyPool" "none_leaving busyPool" "MsgEnd \<notin> set (queue busyPool)" "sent busyPool = [Work 7]"
    by (simp_all add: all_looping_def none_leaving_def busyPool_def idlePool_eq queCmd_def queCmdQ_def newThread_def)
  show ?thesis using shutdown_drains [OF busyPool_reach facts(1-3) q] q facts(4) by auto
qed

subsection \<open>A command that is lost\<close>

text \<open>
  The pool is resized to 0 and back to 1 before its thread takes the end message; then a command is
  queued and the pool is shut down. The thread takes the end message and leaves, and since the
  target is 0 by then, nobody takes the command.
\<close>

definition lostPool :: pool where
  "lostPool =
     queCmd (Work 7) (resizePool (setTarget 1 (resizePool (setTarget 0 idlePool \<lparr> pendingResize := 0 \<rparr>))
       \<lparr> pendingResize := 0 \<rparr>))"

lemma lostPool_eq:
  "lostPool = idlePool \<lparr> queue := [MsgEnd, Work 7], sent := [MsgEnd, Work 7] \<rparr>"
  by (simp add: lostPool_def idlePool_eq pool_defs)

lemma lostPool_reach: "pool_reach lostPool"
proof -
  let ?p1 = "setTarget 0 idlePool" let ?p2 = "resizePool (?p1 \<lparr> pendingResize := 0 \<rparr>)"
  let ?p3 = "setTarget 1 ?p2" let ?p4 = "resizePool (?p3 \<lparr> pendingResize := 0 \<rparr>)"
  have "tick ?p1 ?p2" using tick.resize [of ?p1] by (simp add: setTarget_def idlePool_eq)
  moreover have "pendingResize ?p3 = 1" by (simp add: idlePool_eq pool_defs)
  then have "tick ?p3 ?p4" using tick.resize [of ?p3] by simp
  ultimately show ?thesis unfolding lostPool_def
    by (meson idlePool_reach outside.queCmd outside.setTarget pool_reach.outside pool_reach.tick)
qed

definition lostEnd :: pool where
  "lostEnd = loopTop 0 (finishRun 0 MsgEnd (takeNext 0 (shutdownBegin lostPool)))"

lemma empty_pool_stays:
  assumes "tick\<^sup>*\<^sup>* p q" and "\<forall>th \<in> set (threads p). pc th = Done" and "poolIds p = []" and "target p = 0"
  shows "(\<forall>th \<in> set (threads q). pc th = Done) \<and> poolIds q = [] \<and> target q = 0 \<and> finished q = finished p"
  using assms
proof (induction rule: rtranclp_induct)
  case (step y z)
  from step.hyps(2) show ?case
    by cases (use step.IH [OF step.prems] in \<open>auto simp: resizePool_eq\<close>)
qed simp

lemma lost_command:
  "\<exists>q. draining\<^sup>*\<^sup>* (shutdownBegin lostPool) q \<and> at_rest q \<and> Work 7 \<in> set (sent lostPool) \<and> Work 7 \<notin> set (finished q)"
proof -
  let ?p0 = "shutdownBegin lostPool" let ?p1 = "takeNext 0 ?p0" let ?p2 = "finishRun 0 MsgEnd ?p1"
  have 1: "tick ?p0 ?p1" by (rule tick.take) (simp_all add: lostPool_eq idlePool_eq pool_defs)
  have 2: "tick ?p1 ?p2" by (rule tick.finish) (simp_all add: lostPool_eq idlePool_eq pool_defs)
  have 3: "tick ?p2 lostEnd" unfolding lostEnd_def by (rule tick.top) (simp_all add: lostPool_eq idlePool_eq pool_defs)
  have end_state: "poolIds lostEnd = []" "target lostEnd = 0" "finished lostEnd = [MsgEnd]"
    by (simp_all add: lostEnd_def lostPool_eq idlePool_eq pool_defs)
  have all_done: "\<forall>th \<in> set (threads lostEnd). pc th = Done"
    by (simp add: lostEnd_def lostPool_eq idlePool_eq pool_defs)
  have inv: "pool_inv lostEnd"
    using pool_inv_outside [OF pool_reach_inv [OF lostPool_reach] outside.shutdownBegin] 1 2 3 pool_inv_tick by blast
  obtain q where q: "tick\<^sup>*\<^sup>* lostEnd q" "at_rest q" using comes_to_rest [OF inv] by blast
  have "finished q = [MsgEnd]" using empty_pool_stays [OF q(1) all_done end_state(1, 2)] end_state(3) by simp
  moreover have "tick\<^sup>*\<^sup>* ?p0 q" using 1 2 3 q(1) by (meson converse_rtranclp_into_rtranclp)
  then have "draining\<^sup>*\<^sup>* ?p0 q" by (rule ticks_draining)
  moreover have "Work 7 \<in> set (sent lostPool)" by (simp add: lostPool_eq)
  ultimately show ?thesis using q(2) by (intro exI [of _ q]) simp
qed

text \<open>
  The constructor does not compare the two sizes: in a pool with more threads than the maximum, a
  command that leaves the pool can wait for ever, since nobody lowers the count.
\<close>

lemma small_pool_blocks:
  "at_rest (leaveBegin 0 7 (takeNext 0 (queCmd (Work 7) (loopTop 0 (newThreadPoolMax 1 0)))))"
  unfolding at_rest_def
  by (auto simp: newThreadPoolMax_def leaveBegin_def pool_defs less_Suc_eq elim!: tick.cases)

end
