(* ===== verification/CsvFile.thy ===== *)
theory CsvFile
  imports StdMap
begin

text \<open>
  \<open>util/CsvFile\<close>: reading a table of strings, looking up a value by column and row, and writing
  the table out. The content of the file is a parameter, \<open>None\<close> if it cannot be opened.
\<close>

section \<open>Lines and values\<close>

text \<open>\<open>std::getline\<close> until it fails: nothing follows a delimiter at the very end.\<close>

function getlines :: "char \<Rightarrow> string \<Rightarrow> string list" where
  "getlines d s =
     (if s = [] then []
      else takeWhile (\<lambda>c. c \<noteq> d) s # getlines d (tl (dropWhile (\<lambda>c. c \<noteq> d) s)))"
  by auto

termination getlines
proof (relation "measure (\<lambda>(d, s). length s)")
  fix d and s :: string
  assume "s \<noteq> []"
  then have "0 < length s" by simp
  then have "length (tl (dropWhile (\<lambda>c. c \<noteq> d) s)) < length s"
    using length_dropWhile_le [of "\<lambda>c. c \<noteq> d" s] unfolding length_tl by linarith
  then show "((d, tl (dropWhile (\<lambda>c. c \<noteq> d) s)), d, s) \<in> measure (\<lambda>(d, s). length s)" by simp
qed simp

declare getlines.simps [simp del]

definition readRow :: "string \<Rightarrow> string list" where
  "readRow line = getlines (CHR '','') line"

section \<open>The table\<close>

record csv_file =
  fileName :: string
  columnNames :: "string list"
  columnCount :: nat
  rowStrings :: "string list list"
  rowCount :: nat
  colIndex :: "(string \<times> nat) list"

text \<open>\<open>_columnCount\<close> has no initial value in the code; it is only used after \<open>read\<close> has set it.\<close>

definition mkCsvFile :: "string \<Rightarrow> csv_file" where
  "mkCsvFile name = \<lparr> fileName = name, columnNames = [], columnCount = 0, rowStrings = [], rowCount = 0, colIndex = [] \<rparr>"

text \<open>The loop over the data rows; \<open>True\<close> if it stopped at an empty row and \<open>read\<close> returns there.\<close>

fun readRows :: "nat \<Rightarrow> string list \<Rightarrow> csv_file \<Rightarrow> bool result \<times> csv_file" where
  "readRows n [] f = (Inr False, f)"
| "readRows n (line # lines) f =
     (let row = readRow line in
      if length row = 0 then (Inr True, f)
      else if length row < length (columnNames f)
      then (Inl (RuntimeError (''CsvFile::read() '' @ fileName f @ '' incomplete row '' @ to_string (int n))), f)
      else readRows (n + 1) lines (f \<lparr> rowStrings := rowStrings f @ [row] \<rparr>))"

fun organizeFrom :: "nat \<Rightarrow> string list \<Rightarrow> csv_file \<Rightarrow> unit result \<times> csv_file" where
  "organizeFrom j [] f = (Inr (), f)"
| "organizeFrom j (col # cols) f =
     (case map_of (colIndex f) col of
        Some _ \<Rightarrow> (Inl (RuntimeError (''CsvFile::_organize duplicate column name '' @ col @ '' in '' @ fileName f)), f)
      | None \<Rightarrow> organizeFrom (j + 1) cols (f \<lparr> colIndex := map_insert col j (colIndex f) \<rparr>))"

definition organize :: "csv_file \<Rightarrow> unit result \<times> csv_file" where
  "organize f = organizeFrom 0 (take (columnCount f) (columnNames f)) f"

definition readCsv :: "string option \<Rightarrow> csv_file \<Rightarrow> unit result \<times> csv_file" where
  "readCsv content f =
     (case content of
        None \<Rightarrow> (Inl (RuntimeError (''CsvFile::read() could not open file '' @ fileName f)), f)
      | Some s \<Rightarrow>
          (let lines = getlines (CHR 0x0A) s;
               f1 = f \<lparr> columnNames := columnNames f @ readRow (case lines of [] \<Rightarrow> [] | l # _ \<Rightarrow> l) \<rparr>;
               f2 = f1 \<lparr> columnCount := length (columnNames f1) \<rparr>
           in case readRows 0 (tl lines) f2 of
                (Inl e, f3) \<Rightarrow> (Inl e, f3)
              | (Inr True, f3) \<Rightarrow> (Inr (), f3)
              | (Inr False, f3) \<Rightarrow> organize (f3 \<lparr> rowCount := length (rowStrings f3) \<rparr>)))"

definition getValue :: "string \<Rightarrow> int \<Rightarrow> csv_file \<Rightarrow> string result" where
  "getValue col row f =
     (if row < 0 \<or> row \<ge> int (rowCount f)
      then Inl (RuntimeError (''CsvFile::getValue row '' @ to_string row @ '' is out of range for '' @ fileName f @ '':'' @ col))
      else case map_of (colIndex f) col of
        None \<Rightarrow> Inl (RuntimeError (''CsvFile::getValue col '' @ col @ '' is out of range for '' @ fileName f))
      | Some j \<Rightarrow> Inr (rowStrings f ! nat row ! j))"

fun appendRow :: "string list \<Rightarrow> string" where
  "appendRow [] = [CHR 0x0A]"
| "appendRow [val] = val @ [CHR 0x0A]"
| "appendRow (val # vals) = val @ CHR '','' # appendRow vals"

definition dumpCsv :: "csv_file \<Rightarrow> string" where
  "dumpCsv f = appendRow (columnNames f) @ concat (map appendRow (rowStrings f))"

section \<open>Writing and reading\<close>

lemma getlines_Nil [simp]: "getlines d [] = []"
  by (simp add: getlines.simps)

lemma getlines_cell:
  assumes "d \<notin> set s"
  shows "getlines d (s @ d # rest) = s # getlines d rest"
proof -
  have "takeWhile (\<lambda>c. c \<noteq> d) (s @ d # rest) = s" "dropWhile (\<lambda>c. c \<noteq> d) (s @ d # rest) = d # rest"
    using assms by (induction s) auto
  then show ?thesis by (subst getlines.simps) simp
qed

lemma getlines_last:
  assumes "d \<notin> set s" and "s \<noteq> []"
  shows "getlines d s = [s]"
proof -
  have "takeWhile (\<lambda>c. c \<noteq> d) s = s" "dropWhile (\<lambda>c. c \<noteq> d) s = []"
    using assms(1) by (auto simp: takeWhile_eq_all_conv dropWhile_eq_Nil_conv)
  moreover have "getlines d s = takeWhile (\<lambda>c. c \<noteq> d) s # getlines d (tl (dropWhile (\<lambda>c. c \<noteq> d) s))"
    using assms(2) by (subst getlines.simps) simp
  ultimately show ?thesis by (simp only: list.sel getlines_Nil)
qed

text \<open>A row that survives: no delimiter in a value, and something in the last one.\<close>

definition row_ok :: "string list \<Rightarrow> bool" where
  "row_ok row \<longleftrightarrow> row \<noteq> [] \<and> last row \<noteq> [] \<and> (\<forall>v \<in> set row. CHR '','' \<notin> set v \<and> CHR 0x0A \<notin> set v)"

fun joinRow :: "string list \<Rightarrow> string" where
  "joinRow [] = []"
| "joinRow [val] = val"
| "joinRow (val # vals) = val @ CHR '','' # joinRow vals"

lemma appendRow_join: "appendRow row = joinRow row @ [CHR 0x0A]"
  by (induction row rule: joinRow.induct) simp_all

lemma readRow_join: "row_ok row \<Longrightarrow> readRow (joinRow row) = row"
proof (induction row rule: joinRow.induct)
  case (2 val)
  then show ?case by (simp add: readRow_def row_ok_def getlines_last)
next
  case (3 val v vals)
  then show ?case by (simp add: readRow_def row_ok_def getlines_cell)
qed (simp add: row_ok_def)

lemma joinRow_no_newline: "row_ok row \<Longrightarrow> CHR 0x0A \<notin> set (joinRow row)"
  by (induction row rule: joinRow.induct) (auto simp: row_ok_def)

lemma lines_of_rows:
  "\<forall>row \<in> set rows. row_ok row \<Longrightarrow> getlines (CHR 0x0A) (concat (map appendRow rows)) = map joinRow rows"
  by (induction rows) (simp_all add: appendRow_join getlines_cell joinRow_no_newline)

lemma readRows_join:
  "\<forall>row \<in> set rows. row_ok row \<and> length row \<ge> length (columnNames f) \<Longrightarrow>
    readRows n (map joinRow rows) f = (Inr False, f \<lparr> rowStrings := rowStrings f @ rows \<rparr>)"
proof (induction rows arbitrary: n f)
  case (Cons row rows)
  have "readRow (joinRow row) = row" "row \<noteq> []" using Cons.prems readRow_join by (auto simp: row_ok_def)
  moreover have "length (columnNames f) \<le> length row" using Cons.prems by simp
  ultimately show ?case
    using Cons.IH [of "f \<lparr> rowStrings := rowStrings f @ [row] \<rparr>" "n + 1"] Cons.prems by (simp add: Let_def)
qed simp

lemma organizeFrom_ok:
  assumes "distinct cols" and "\<forall>col \<in> set cols. map_of (colIndex f) col = None"
  shows "\<exists>idx. organizeFrom j cols f = (Inr (), f \<lparr> colIndex := idx \<rparr>) \<and>
    (\<forall>col. map_of idx col =
      (if col \<in> set cols then Some (j + length (takeWhile (\<lambda>c. c \<noteq> col) cols)) else map_of (colIndex f) col))"
  using assms
proof (induction cols arbitrary: j f)
  case Nil
  then show ?case by (intro exI [of _ "colIndex f"]) simp
next
  case (Cons c cols)
  let ?f = "f \<lparr> colIndex := map_insert c j (colIndex f) \<rparr>"
  have c: "map_of (colIndex f) c = None" using Cons.prems(2) by simp
  have "\<forall>col \<in> set cols. map_of (colIndex ?f) col = None"
    using Cons.prems c by (auto simp: map_of_map_insert)
  then obtain idx where idx: "organizeFrom (j + 1) cols ?f = (Inr (), ?f \<lparr> colIndex := idx \<rparr>)"
    "\<forall>col. map_of idx col =
      (if col \<in> set cols then Some (j + 1 + length (takeWhile (\<lambda>c. c \<noteq> col) cols)) else map_of (colIndex ?f) col)"
    using Cons.IH [of ?f "j + 1"] Cons.prems(1) by auto
  then show ?case using c Cons.prems(1)
    by (intro exI [of _ idx]) (auto simp: map_of_map_insert)
qed

text \<open>
  A table that is written and read again is the same, with every value under its column, if no
  value has a comma or line feed, the last value of each row is not empty, the rows have the
  length of the header and the column names differ.
\<close>

lemma csv_round_trip:
  assumes "row_ok cols" and "distinct cols" and "\<forall>row \<in> set rows. row_ok row \<and> length row = length cols"
    and "f = mkCsvFile name \<lparr> columnNames := cols, rowStrings := rows \<rparr>"
  shows "\<exists>g. readCsv (Some (dumpCsv f)) (mkCsvFile name) = (Inr (), g) \<and> columnNames g = cols \<and> rowStrings g = rows \<and>
    rowCount g = length rows \<and> dumpCsv g = dumpCsv f \<and>
    (\<forall>r < length rows. \<forall>c < length cols. getValue (cols ! c) (int r) g = Inr (rows ! r ! c))"
proof -
  let ?g = "mkCsvFile name \<lparr> columnNames := cols, columnCount := length cols, rowStrings := rows, rowCount := length rows \<rparr>"
  have dump: "dumpCsv f = concat (map appendRow (cols # rows))" using assms(4) by (simp add: dumpCsv_def)
  have lines: "getlines (CHR 0x0A) (dumpCsv f) = joinRow cols # map joinRow rows"
    unfolding dump using lines_of_rows [of "cols # rows"] assms(1, 3) by simp
  let ?h = "mkCsvFile name \<lparr> columnNames := cols, columnCount := length cols \<rparr>"
  have rows: "readRows 0 (map joinRow rows) ?h = (Inr False, ?h \<lparr> rowStrings := rows \<rparr>)"
    using readRows_join [of rows ?h 0] assms(3) by (simp add: mkCsvFile_def)
  obtain idx where idx: "organizeFrom 0 cols ?g = (Inr (), ?g \<lparr> colIndex := idx \<rparr>)"
    "\<forall>col \<in> set cols. map_of idx col = Some (length (takeWhile (\<lambda>c. c \<noteq> col) cols))"
    using organizeFrom_ok [OF assms(2), of ?g 0] by (auto simp: mkCsvFile_def)
  have "readCsv (Some (dumpCsv f)) (mkCsvFile name) = (Inr (), ?g \<lparr> colIndex := idx \<rparr>)"
    using rows idx(1) readRow_join [OF assms(1)]
    by (simp add: readCsv_def lines Let_def) (simp add: mkCsvFile_def organize_def)
  moreover have "getValue (cols ! c) (int r) (?g \<lparr> colIndex := idx \<rparr>) = Inr (rows ! r ! c)"
    if "r < length rows" "c < length cols" for r c
  proof -
    have "takeWhile (\<lambda>x. x \<noteq> cols ! c) cols = take c cols"
      by (rule takeWhile_eq_take_P_nth) (use assms(2) that(2) in \<open>simp_all add: nth_eq_iff_index_eq\<close>)
    then have "length (takeWhile (\<lambda>x. x \<noteq> cols ! c) cols) = c" using that(2) by simp
    then show ?thesis using that idx(2) by (simp add: getValue_def)
  qed
  ultimately show ?thesis using assms(4)
    by (intro exI [of _ "?g \<lparr> colIndex := idx \<rparr>"]) (simp add: dumpCsv_def)
qed

text \<open>
  An empty line among the rows ends \<open>read\<close> before it counts the rows and indexes the columns: no
  value can be read, and no error is reported.
\<close>

lemma blank_line_hides_rows:
  assumes "row_ok cols" and "\<forall>row \<in> set rows. row_ok row \<and> length row = length cols"
    and "readCsv (Some (concat (map appendRow (cols # rows)) @ CHR 0x0A # rest)) (mkCsvFile name) = (r, g)"
  shows "r = Inr ()" and "rowStrings g = rows" and "\<exists>e. getValue col row g = Inl e"
proof -
  let ?h = "mkCsvFile name \<lparr> columnNames := cols, columnCount := length cols \<rparr>"
  have split: "getlines (CHR 0x0A) (concat (map appendRow ls) @ CHR 0x0A # rest) = map joinRow ls @ [] # getlines (CHR 0x0A) rest"
    if "\<forall>l \<in> set ls. row_ok l" for ls
    using that by (induction ls) (simp_all add: appendRow_join getlines_cell joinRow_no_newline getlines_cell [of _ "[]", simplified])
  have stop: "readRows n (map joinRow rs @ [] # xs) f = (Inr True, f \<lparr> rowStrings := rowStrings f @ rs \<rparr>)"
    if "\<forall>row \<in> set rs. row_ok row \<and> length row = length (columnNames f)" for rs n xs f
    using that
  proof (induction rs arbitrary: n f)
    case Nil
    then show ?case by (simp add: readRow_def)
  next
    case (Cons row rs)
    have "readRow (joinRow row) = row" "row \<noteq> []" using Cons.prems readRow_join by (auto simp: row_ok_def)
    then show ?case
      using Cons.IH [of "f \<lparr> rowStrings := rowStrings f @ [row] \<rparr>" "n + 1"] Cons.prems by (simp add: Let_def)
  qed
  have "readRows 0 (map joinRow rows @ [] # getlines (CHR 0x0A) rest) ?h = (Inr True, ?h \<lparr> rowStrings := rows \<rparr>)"
    using stop [of rows ?h 0] assms(2) by (simp add: mkCsvFile_def)
  then have "readCsv (Some (concat (map appendRow (cols # rows)) @ CHR 0x0A # rest)) (mkCsvFile name) = (Inr (), ?h \<lparr> rowStrings := rows \<rparr>)"
    using split [of "cols # rows"] assms(1, 2) readRow_join [OF assms(1)]
    by (simp add: readCsv_def Let_def) (simp add: mkCsvFile_def)
  then show "r = Inr ()" "rowStrings g = rows" "\<exists>e. getValue col row g = Inl e"
    using assms(3) by (auto simp: getValue_def mkCsvFile_def)
qed

end
