(* ===== verification/NamedValue.thy ===== *)
theory NamedValue
  imports CsvFile Registry
begin

text \<open>
  \<open>util/NamedValue\<close>: values with a name that are set from strings and compared with what was read,
  and angles. A \<open>double\<close> is a real number, so rounding is not modelled; \<open>strtod\<close> is a parameter that
  gives the number and the rest of the string. The text of an exception leaves out the number that
  was converted.
\<close>

section \<open>Conversions\<close>

definition toupper :: "char \<Rightarrow> char" where
  "toupper c = (let n = of_char c :: nat in if 97 \<le> n \<and> n \<le> 122 then char_of (n - 32) else c)"

definition isspace :: "char \<Rightarrow> bool" where
  "isspace c \<longleftrightarrow> (let n = of_char c :: nat in n = 32 \<or> 9 \<le> n \<and> n \<le> 13)"

definition isdigit :: "char \<Rightarrow> bool" where
  "isdigit c \<longleftrightarrow> (let n = of_char c :: nat in 48 \<le> n \<and> n \<le> 57)"

text \<open>\<open>strtol\<close> to base 10: the value, held within \<open>long\<close>, and what follows the number.\<close>

definition clampLong :: "int \<Rightarrow> int" where
  "clampLong i = max (- (2 ^ 63)) (min (2 ^ 63 - 1) i)"

definition strtol10 :: "string \<Rightarrow> int \<times> string" where
  "strtol10 s =
     (let s1 = dropWhile isspace s;
          neg = (s1 \<noteq> [] \<and> hd s1 = CHR ''-'');
          s2 = (if s1 \<noteq> [] \<and> (hd s1 = CHR ''-'' \<or> hd s1 = CHR ''+'') then tl s1 else s1);
          ds = takeWhile isdigit s2
      in if ds = [] then (0, s)
         else (clampLong (if neg then - int (digits_value 0 ds) else int (digits_value 0 ds)), drop (length ds) s2))"

text \<open>Storing a \<open>long\<close> in an \<open>int\<close> keeps the low 32 bits.\<close>

definition toInt :: "int \<Rightarrow> int" where
  "toInt i = sint (word_of_int i :: 32 word)"

text \<open>\<open>*endPtr == '\0'\<close>.\<close>

definition atEnd :: "string \<Rightarrow> bool" where
  "atEnd s \<longleftrightarrow> s = [] \<or> hd s = CHR 0x00"

section \<open>Angles\<close>

definition PI2 :: real where
  "PI2 = pi * 2"

definition RADPERDEG :: real where
  "RADPERDEG = pi / 180"

definition DEGPERRAD :: real where
  "DEGPERRAD = 180 / pi"

text \<open>\<open>std::fmod\<close>: the quotient is cut off towards zero.\<close>

definition fmod :: "real \<Rightarrow> real \<Rightarrow> real" where
  "fmod x y = x - y * of_int (if 0 \<le> x / y then \<lfloor>x / y\<rfloor> else \<lceil>x / y\<rceil>)"

function addWhileBelow :: "real \<Rightarrow> real \<Rightarrow> real" where
  "addWhileBelow low radians = (if radians < low then addWhileBelow low (radians + PI2) else radians)"
  by auto

lemma PI2_pos: "0 < PI2"
  by (simp add: PI2_def)

termination addWhileBelow
proof (relation "measure (\<lambda>(low, r). nat \<lceil>(low - r) / PI2\<rceil>)")
  fix low radians :: real
  assume "radians < low"
  then have "0 < (low - radians) / PI2" using PI2_pos by simp
  moreover have "(low - (radians + PI2)) / PI2 = (low - radians) / PI2 - 1" using PI2_pos by (simp add: field_simps)
  ultimately have "nat \<lceil>(low - (radians + PI2)) / PI2\<rceil> < nat \<lceil>(low - radians) / PI2\<rceil>"
    by (simp add: nat_less_eq_zless zless_nat_conj)
  then show "((low, radians + PI2), low, radians) \<in> measure (\<lambda>(low, r). nat \<lceil>(low - r) / PI2\<rceil>)" by simp
qed simp

function subWhileFrom :: "real \<Rightarrow> real \<Rightarrow> real" where
  "subWhileFrom high radians = (if radians \<ge> high then subWhileFrom high (radians - PI2) else radians)"
  by auto

termination subWhileFrom
proof (relation "measure (\<lambda>(high, r). nat (\<lfloor>(r - high) / PI2\<rfloor> + 1))")
  fix high radians :: real
  assume "high \<le> radians"
  then have "0 \<le> (radians - high) / PI2" using PI2_pos by simp
  moreover have "(radians - PI2 - high) / PI2 = (radians - high) / PI2 - 1" using PI2_pos by (simp add: field_simps)
  ultimately have "nat (\<lfloor>(radians - PI2 - high) / PI2\<rfloor> + 1) < nat (\<lfloor>(radians - high) / PI2\<rfloor> + 1)"
    by (simp add: nat_less_eq_zless)
  then show "((high, radians - PI2), high, radians) \<in> measure (\<lambda>(high, r). nat (\<lfloor>(r - high) / PI2\<rfloor> + 1))" by simp
qed simp

declare addWhileBelow.simps [simp del] subWhileFrom.simps [simp del]

definition constrain :: "real \<Rightarrow> real" where
  "constrain radians = subWhileFrom pi (addWhileBelow (- pi) (fmod radians PI2))"

definition constrain0to2Pi :: "real \<Rightarrow> real" where
  "constrain0to2Pi radians = subWhileFrom PI2 (addWhileBelow 0 (fmod radians PI2))"

section \<open>Named values\<close>

datatype nval = VString string | VBool bool | VInt int | VDouble real

datatype unit_type = RADIAN | DEGREE

text \<open>The child classes, with the members they add.\<close>

datatype nv_class = NamedString | NamedBool | NamedInt | NamedDouble real | NamedAngle unit_type real

record named_value =
  nvName :: string
  nvClass :: nv_class
  nvVal :: nval
  nvRead :: nval

definition TOLERANCE :: real where
  "TOLERANCE = 1 / 1000000"

text \<open>The constructors, with their default values.\<close>

definition newNamedString :: "string \<Rightarrow> named_value" where
  "newNamedString name = \<lparr> nvName = name, nvClass = NamedString, nvVal = VString [], nvRead = VString [] \<rparr>"

definition newNamedBool :: "string \<Rightarrow> named_value" where
  "newNamedBool name = \<lparr> nvName = name, nvClass = NamedBool, nvVal = VBool False, nvRead = VBool False \<rparr>"

definition newNamedInt :: "string \<Rightarrow> named_value" where
  "newNamedInt name = \<lparr> nvName = name, nvClass = NamedInt, nvVal = VInt 0, nvRead = VInt 0 \<rparr>"

definition newNamedDouble :: "string \<Rightarrow> real \<Rightarrow> named_value" where
  "newNamedDouble name tolerance =
     \<lparr> nvName = name, nvClass = NamedDouble tolerance, nvVal = VDouble 0, nvRead = VDouble 0 \<rparr>"

definition newNamedAngle :: "string \<Rightarrow> unit_type \<Rightarrow> real \<Rightarrow> named_value" where
  "newNamedAngle name units tolerance =
     \<lparr> nvName = name, nvClass = NamedAngle units tolerance, nvVal = VDouble 0, nvRead = VDouble 0 \<rparr>"

subsection \<open>Reading\<close>

definition setValueRead :: "nval \<Rightarrow> named_value \<Rightarrow> named_value" where
  "setValueRead v nv = nv \<lparr> nvVal := v, nvRead := v \<rparr>"

definition setValFromValueRead :: "named_value \<Rightarrow> named_value" where
  "setValFromValueRead nv = nv \<lparr> nvVal := nvRead nv \<rparr>"

definition setRadRead :: "real \<Rightarrow> named_value \<Rightarrow> named_value" where
  "setRadRead radians = setValueRead (VDouble radians)"

definition setDegRead :: "real \<Rightarrow> named_value \<Rightarrow> named_value" where
  "setDegRead degrees = setRadRead (degrees * RADPERDEG)"

fun realOf :: "nval \<Rightarrow> real" where
  "realOf (VDouble x) = x"
| "realOf _ = 0"

definition getRadRead :: "named_value \<Rightarrow> real" where
  "getRadRead nv = realOf (nvRead nv)"

definition getDegRead :: "named_value \<Rightarrow> real" where
  "getDegRead nv = getRadRead nv * DEGPERRAD"

definition getValOfString :: "(string \<Rightarrow> real \<times> string) \<Rightarrow> string \<Rightarrow> named_value \<Rightarrow> real result" where
  "getValOfString strtod str nv =
     (let (v, rest) = strtod str
      in if \<not> atEnd rest
         then Inl (RuntimeError (''NamedDouble::setFromString '' @ str @ '' did not convert properly.'' @ nvName nv))
         else Inr v)"

definition setBoolFromString :: "string \<Rightarrow> named_value \<Rightarrow> named_value result" where
  "setBoolFromString str nv =
     (let upper = map toupper str
      in if upper = ''TRUE'' then Inr (setValueRead (VBool True) nv)
         else if upper = ''FALSE'' then Inr (setValueRead (VBool False) nv)
         else Inl (RuntimeError (''NamedBool::setFromString '' @ str @
                '' is not an acceptable variant of true or false.'' @ nvName nv)))"

definition setIntFromString :: "string \<Rightarrow> named_value \<Rightarrow> named_value result" where
  "setIntFromString str nv =
     (let (v, rest) = strtol10 str
      in if \<not> atEnd rest
         then Inl (RuntimeError (''NamedInt::setFromString '' @ str @ '' did not convert properly.'' @ nvName nv))
         else Inr (setValueRead (VInt (toInt v)) nv))"

definition setDoubleFromString :: "(string \<Rightarrow> real \<times> string) \<Rightarrow> string \<Rightarrow> named_value \<Rightarrow> named_value result" where
  "setDoubleFromString strtod str nv =
     bind_result (getValOfString strtod str nv) (\<lambda>v. Inr (setValueRead (VDouble v) nv))"

definition setAngleFromString :: "(string \<Rightarrow> real \<times> string) \<Rightarrow> unit_type \<Rightarrow> string \<Rightarrow> named_value \<Rightarrow> named_value result" where
  "setAngleFromString strtod units str nv =
     bind_result (getValOfString strtod str nv) (\<lambda>v.
       case units of RADIAN \<Rightarrow> Inr (setRadRead v nv) | DEGREE \<Rightarrow> Inr (setDegRead v nv))"

definition setFromString :: "(string \<Rightarrow> real \<times> string) \<Rightarrow> string \<Rightarrow> named_value \<Rightarrow> named_value result" where
  "setFromString strtod str nv =
     (case nvClass nv of
        NamedString \<Rightarrow> Inr (setValueRead (VString str) nv)
      | NamedBool \<Rightarrow> setBoolFromString str nv
      | NamedInt \<Rightarrow> setIntFromString str nv
      | NamedDouble _ \<Rightarrow> setDoubleFromString strtod str nv
      | NamedAngle units _ \<Rightarrow> setAngleFromString strtod units str nv)"

subsection \<open>Comparing\<close>

definition getDelta :: "real \<Rightarrow> named_value \<Rightarrow> real" where
  "getDelta inV nv = realOf (nvRead nv) - inV"

definition approxEqualDouble :: "real \<Rightarrow> real \<Rightarrow> named_value \<Rightarrow> bool" where
  "approxEqualDouble tolerance inV nv \<longleftrightarrow> getDelta inV nv * getDelta inV nv \<le> tolerance * tolerance"

definition approxEqualDeg :: "real \<Rightarrow> real \<Rightarrow> named_value \<Rightarrow> bool" where
  "approxEqualDeg tolerance inV nv \<longleftrightarrow> approxEqualDouble tolerance (inV * RADPERDEG) nv"

text \<open>\<open>approxEqual\<close> as each class overrides it; an angle takes its argument in its own units.\<close>

definition approxEqual :: "nval \<Rightarrow> named_value \<Rightarrow> bool" where
  "approxEqual v nv =
     (case nvClass nv of
        NamedDouble tol \<Rightarrow> approxEqualDouble tol (realOf v) nv
      | NamedAngle RADIAN tol \<Rightarrow> approxEqualDouble tol (realOf v) nv
      | NamedAngle DEGREE tol \<Rightarrow> approxEqualDeg tol (realOf v) nv
      | _ \<Rightarrow> nvRead nv = v)"

text \<open>\<open>check\<close> of an angle compares in radians, whatever its units.\<close>

definition checkNv :: "named_value \<Rightarrow> bool" where
  "checkNv nv =
     (case nvClass nv of
        NamedAngle _ tol \<Rightarrow> approxEqualDouble tol (realOf (nvVal nv)) nv
      | _ \<Rightarrow> approxEqual (nvVal nv) nv)"

definition voidNvForTest :: "named_value \<Rightarrow> named_value" where
  "voidNvForTest nv = nv \<lparr> nvVal :=
     (case nvClass nv of
        NamedString \<Rightarrow> VString []
      | NamedBool \<Rightarrow> VBool (nvRead nv \<noteq> VBool True)
      | NamedInt \<Rightarrow> VInt (- 987654)
      | _ \<Rightarrow> VDouble (- 9876543210)) \<rparr>"

section \<open>Maps of named values\<close>

type_synonym nv_map = "(string \<times> named_value) list"

definition setupNv :: "named_value \<Rightarrow> nv_map \<Rightarrow> nv_map result" where
  "setupNv obj nvMap =
     (case map_of nvMap (nvName obj) of
        Some _ \<Rightarrow> Inl (RuntimeError (''NamedValue::setup duplicate entry '' @ nvName obj))
      | None \<Rightarrow> Inr (map_insert (nvName obj) obj nvMap))"

fun insertMapElements :: "nv_map \<Rightarrow> nv_map \<Rightarrow> nv_map result" where
  "insertMapElements [] dest = Inr dest"
| "insertMapElements ((k, nv) # src) dest =
     (case map_of dest k of
        Some _ \<Rightarrow> Inl (RuntimeError (''NamedValue::insertMapElements duplicate entry '' @ nvName nv))
      | None \<Rightarrow> insertMapElements src (map_insert k nv dest))"

text \<open>The values before the first one that cannot be set keep what they were given.\<close>

fun setMapValuesFromFile ::
  "(string \<Rightarrow> real \<times> string) \<Rightarrow> csv_file \<Rightarrow> int \<Rightarrow> nv_map \<Rightarrow> unit result \<times> nv_map" where
  "setMapValuesFromFile strtod f row [] = (Inr (), [])"
| "setMapValuesFromFile strtod f row ((k, nv) # nvs) =
     (case bind_result (getValue (nvName nv) row f) (\<lambda>str. setFromString strtod str nv) of
        Inl e \<Rightarrow> (Inl e, (k, nv) # nvs)
      | Inr nv' \<Rightarrow> (let (r, nvs') = setMapValuesFromFile strtod f row nvs in (r, (k, nv') # nvs')))"

definition voidValForTest :: "string list \<Rightarrow> nv_map \<Rightarrow> nv_map" where
  "voidValForTest names m = map (\<lambda>(k, nv). (k, if k \<in> set names then voidNvForTest nv else nv)) m"

interpretation nv: registry nvName setupNv "\<lambda>m. map_of m"
  by unfold_locales (auto simp: setupNv_def map_of_map_insert)

section \<open>Angles are held in range\<close>

lemma fmod_range: "0 < y \<Longrightarrow> - y < fmod x y \<and> fmod x y < y \<and> (\<exists>k :: int. fmod x y = x + y * of_int k)"
proof -
  assume y: "0 < y"
  have "x - y * of_int q = y * (x / y - of_int q)" for q :: int using y by (simp add: field_simps)
  moreover have "\<bar>x / y - of_int (if 0 \<le> x / y then \<lfloor>x / y\<rfloor> else \<lceil>x / y\<rceil>)\<bar> < 1" by simp linarith
  ultimately have "\<bar>fmod x y\<bar> < y" using y
    unfolding fmod_def by (simp only: abs_mult) (metis abs_of_pos mult.right_neutral mult_strict_left_mono)
  moreover have "\<exists>k :: int. fmod x y = x + y * of_int k"
    unfolding fmod_def by (metis minus_mult_right of_int_minus uminus_add_conv_diff add.commute)
  ultimately show ?thesis by auto
qed

lemma addWhileBelow_spec:
  "low \<le> addWhileBelow low r \<and> (\<exists>k :: int. addWhileBelow low r = r + PI2 * of_int k) \<and>
   (r < b \<and> low + PI2 \<le> b \<longrightarrow> addWhileBelow low r < b)"
proof (induction low r rule: addWhileBelow.induct)
  case (1 low r)
  show ?case
  proof (cases "r < low")
    case True
    have eq: "addWhileBelow low r = addWhileBelow low (r + PI2)" using True by (subst addWhileBelow.simps) simp
    obtain k :: int where k: "addWhileBelow low (r + PI2) = r + PI2 + PI2 * of_int k" using 1 True by blast
    have "addWhileBelow low (r + PI2) = r + PI2 * of_int (k + 1)" unfolding k by (simp add: algebra_simps)
    then have "\<exists>k :: int. addWhileBelow low (r + PI2) = r + PI2 * of_int k" ..
    moreover have "r + PI2 < b" if "low + PI2 \<le> b" using that True by simp
    ultimately show ?thesis using 1 True unfolding eq by blast
  next
    case False
    then show ?thesis by (subst (1 2 3) addWhileBelow.simps) (auto intro: exI [of _ 0])
  qed
qed

lemma subWhileFrom_spec:
  "subWhileFrom high r < high \<and> (\<exists>k :: int. subWhileFrom high r = r + PI2 * of_int k) \<and>
   (a \<le> r \<and> a \<le> high - PI2 \<longrightarrow> a \<le> subWhileFrom high r)"
proof (induction high r rule: subWhileFrom.induct)
  case (1 high r)
  show ?case
  proof (cases "r \<ge> high")
    case True
    have eq: "subWhileFrom high r = subWhileFrom high (r - PI2)" using True by (subst subWhileFrom.simps) simp
    obtain k :: int where k: "subWhileFrom high (r - PI2) = r - PI2 + PI2 * of_int k" using 1 True by blast
    have "subWhileFrom high (r - PI2) = r + PI2 * of_int (k - 1)" unfolding k by (simp add: algebra_simps)
    then have "\<exists>k :: int. subWhileFrom high (r - PI2) = r + PI2 * of_int k" ..
    moreover have "a \<le> r - PI2" if "a \<le> high - PI2" using that True by simp
    ultimately show ?thesis using 1 True unfolding eq by blast
  next
    case False
    then show ?thesis by (subst (1 2 3) subWhileFrom.simps) (auto intro: exI [of _ 0])
  qed
qed

lemma into_range:
  fixes low x :: real
  defines "y \<equiv> subWhileFrom (low + PI2) (addWhileBelow low (fmod x PI2))"
  shows "low \<le> y \<and> y < low + PI2 \<and> (\<exists>k :: int. y = x + PI2 * of_int k)"
proof -
  let ?z = "addWhileBelow low (fmod x PI2)"
  obtain i :: int where i: "fmod x PI2 = x + PI2 * of_int i" using fmod_range [OF PI2_pos] by blast
  obtain j :: int where j: "?z = fmod x PI2 + PI2 * of_int j" using addWhileBelow_spec by blast
  obtain k :: int where k: "y = ?z + PI2 * of_int k" using subWhileFrom_spec unfolding y_def by blast
  have "y = x + PI2 * of_int (i + j + k)" using i j k by (simp add: algebra_simps)
  then have "\<exists>k :: int. y = x + PI2 * of_int k" ..
  moreover have "low \<le> ?z" using addWhileBelow_spec by blast
  then have "low \<le> y" "y < low + PI2" using subWhileFrom_spec [of "low + PI2" ?z low] unfolding y_def by auto
  ultimately show ?thesis by simp
qed

text \<open>
  \<open>constrain\<close> gives the one angle in its half-open range that differs by full turns; so sine and
  cosine are those of the argument.
\<close>

lemma constrain_spec: "- pi \<le> constrain x \<and> constrain x < pi \<and> (\<exists>k :: int. constrain x = x + 2 * pi * of_int k)"
  using into_range [of "- pi" x] by (simp add: constrain_def PI2_def mult.commute)

lemma constrain0to2Pi_spec:
  "0 \<le> constrain0to2Pi x \<and> constrain0to2Pi x < 2 * pi \<and> (\<exists>k :: int. constrain0to2Pi x = x + 2 * pi * of_int k)"
  using into_range [of 0 x] by (simp add: constrain0to2Pi_def PI2_def mult.commute)

lemma sin_cos_constrain: "sin (constrain x) = sin x" "cos (constrain x) = cos x"
proof -
  obtain k :: int where k: "constrain x = x + 2 * pi * of_int k" using constrain_spec by blast
  show "sin (constrain x) = sin x" "cos (constrain x) = cos x"
    unfolding k sin_add cos_add by (simp_all add: sin_int_2pin cos_int_2pin)
qed

end
