(* ===== verification/ConfigFile.thy ===== *)
theory ConfigFile
  imports M2Prelude
begin

text \<open>
  \<open>system/Config\<close>: the values of the yaml file, with their checks. The yaml library is a parameter:
  \<open>y_node\<close> is \<open>_yaml[section][key]\<close>, which is an exception if the section is a plain value and
  \<open>None\<close> if there is no such entry; the conversions throw or give the value. The text of an
  exception leaves out the numbers it contains.
\<close>

record 'n yaml =
  y_node :: "string \<Rightarrow> string \<Rightarrow> string + 'n option"
  y_int :: "'n \<Rightarrow> string + int"
  y_double :: "'n \<Rightarrow> string + real"
  y_string :: "'n \<Rightarrow> string + string"

section \<open>Reading a value\<close>

text \<open>What the three readers have in common: the test for the entry, and the conversion in a \<open>try\<close>.\<close>

definition sectionKey :: "('n \<Rightarrow> string + 'a) \<Rightarrow> string \<Rightarrow> 'n yaml \<Rightarrow> string \<Rightarrow> string \<Rightarrow> 'a result" where
  "sectionKey conv failed y sec k =
     (case y_node y sec k of
        Inl what \<Rightarrow> Inl (RuntimeError what)
      | Inr None \<Rightarrow> Inl (ConfigException (''Config'' @ sec @ '': '' @ k @ '' is missing''))
      | Inr (Some n) \<Rightarrow>
          (case conv n of
             Inl what \<Rightarrow> Inl (ConfigException (''Config'' @ sec @ '': '' @ k @ failed @ what))
           | Inr v \<Rightarrow> Inr v))"

definition getSectionKeyAsInt :: "'n yaml \<Rightarrow> string \<Rightarrow> string \<Rightarrow> int result" where
  "getSectionKeyAsInt y = sectionKey (y_int y) '' failed int '' y"

definition getSectionKeyAsDouble :: "'n yaml \<Rightarrow> string \<Rightarrow> string \<Rightarrow> real result" where
  "getSectionKeyAsDouble y = sectionKey (y_double y) '' failed double '' y"

definition getSectionKeyAsString :: "'n yaml \<Rightarrow> string \<Rightarrow> string \<Rightarrow> string result" where
  "getSectionKeyAsString y = sectionKey (y_string y) '' failed string '' y"

definition getSectionKeyAsIntRange :: "'n yaml \<Rightarrow> string \<Rightarrow> string \<Rightarrow> int \<Rightarrow> int \<Rightarrow> int result" where
  "getSectionKeyAsIntRange y sec k minVal maxVal =
     bind_result (getSectionKeyAsInt y sec k) (\<lambda>val.
       if val < minVal \<or> val > maxVal then Inl (ConfigException (sec @ '':'' @ k @ '' must be between ''))
       else Inr val)"

definition getSectionKeyAsDoubleRange :: "'n yaml \<Rightarrow> string \<Rightarrow> string \<Rightarrow> real \<Rightarrow> real \<Rightarrow> real result" where
  "getSectionKeyAsDoubleRange y sec k minVal maxVal =
     bind_result (getSectionKeyAsDouble y sec k) (\<lambda>val.
       if val < minVal \<or> val > maxVal then Inl (ConfigException (sec @ '':'' @ k @ '' must be between ''))
       else Inr val)"

section \<open>The required values\<close>

definition getControlServerPort :: "'n yaml \<Rightarrow> int result" where
  "getControlServerPort y = getSectionKeyAsIntRange y ''ControlServer'' ''port'' 1 65535"

definition getControlServerThreads :: "'n yaml \<Rightarrow> int result" where
  "getControlServerThreads y = getSectionKeyAsIntRange y ''ControlServer'' ''threads'' 1 3000"

definition getControlServerHost :: "'n yaml \<Rightarrow> string result" where
  "getControlServerHost y = getSectionKeyAsString y ''ControlServer'' ''host''"

definition getLogFileName :: "'n yaml \<Rightarrow> string result" where
  "getLogFileName y = getSectionKeyAsString y ''Log'' ''fileName''"

definition getLogFileSizeMB :: "'n yaml \<Rightarrow> int result" where
  "getLogFileSizeMB y = getSectionKeyAsInt y ''Log'' ''fileSizeMB''"

definition getLogMaxFiles :: "'n yaml \<Rightarrow> int result" where
  "getLogMaxFiles y = getSectionKeyAsInt y ''Log'' ''maxFiles''"

definition getTelemetryServerPort :: "'n yaml \<Rightarrow> int result" where
  "getTelemetryServerPort y = getSectionKeyAsIntRange y ''TelemetryServer'' ''port'' 1 65535"

definition getTelemetryServerThreads :: "'n yaml \<Rightarrow> int result" where
  "getTelemetryServerThreads y = getSectionKeyAsIntRange y ''TelemetryServer'' ''threads'' 1 3000"

definition getTelemetryServerHost :: "'n yaml \<Rightarrow> string result" where
  "getTelemetryServerHost y = getSectionKeyAsString y ''TelemetryServer'' ''host''"

definition verifyRequiredElements :: "'n yaml \<Rightarrow> unit result" where
  "verifyRequiredElements y =
     bind_result (getControlServerHost y) (\<lambda>_.
     bind_result (getControlServerPort y) (\<lambda>_.
     bind_result (getControlServerThreads y) (\<lambda>_.
     bind_result (getTelemetryServerHost y) (\<lambda>_.
     bind_result (getTelemetryServerPort y) (\<lambda>_.
     bind_result (getTelemetryServerThreads y) (\<lambda>_.
     bind_result (getLogFileName y) (\<lambda>_.
     bind_result (getLogFileSizeMB y) (\<lambda>_.
     bind_result (getLogMaxFiles y) (\<lambda>_. Inr ())))))))))"

section \<open>The global instance\<close>

text \<open>\<open>None\<close> before \<open>setup\<close>. \<open>LoadFile\<close> is a parameter, the source names the file.\<close>

definition mkConfig :: "(string \<Rightarrow> string + 'n yaml) \<Rightarrow> string \<Rightarrow> 'n yaml result" where
  "mkConfig loadFile src =
     (case loadFile src of
        Inl what \<Rightarrow> Inl (ConfigException (''YAML::BadFile '' @ what))
      | Inr y \<Rightarrow> bind_result (verifyRequiredElements y) (\<lambda>_. Inr y))"

definition setupConfig ::
  "(string \<Rightarrow> string + 'n yaml) \<Rightarrow> string \<Rightarrow> 'n yaml option \<Rightarrow> unit result \<times> 'n yaml option" where
  "setupConfig loadFile src thisPtr =
     (case thisPtr of
        Some _ \<Rightarrow> (Inr (), thisPtr)
      | None \<Rightarrow>
          (case mkConfig loadFile src of
             Inl e \<Rightarrow> (Inl e, None)
           | Inr y \<Rightarrow> (Inr (), Some y)))"

definition resetConfig :: "'n yaml option \<Rightarrow> 'n yaml option" where
  "resetConfig _ = None"

definition getConfig :: "'n yaml option \<Rightarrow> 'n yaml result" where
  "getConfig thisPtr =
     (case thisPtr of
        None \<Rightarrow> Inl (ConfigException ''Config has not been setup.'')
      | Some y \<Rightarrow> Inr y)"

definition getEnvironmentCfgPath :: "string option \<Rightarrow> string \<Rightarrow> string" where
  "getEnvironmentCfgPath env defaultPath = (case env of None \<Rightarrow> defaultPath | Some path \<Rightarrow> path) @ ''/''"

section \<open>What a configuration guarantees\<close>

lemma bind_result_ok: "bind_result r f = Inr y \<Longrightarrow> \<exists>x. r = Inr x \<and> f x = Inr y"
  by (cases r) auto

lemma getSectionKeyAsIntRange_bounds:
  "getSectionKeyAsIntRange y sec k a b = Inr v \<Longrightarrow> a \<le> v \<and> v \<le> b"
  by (auto simp: getSectionKeyAsIntRange_def dest!: bind_result_ok split: if_splits)

text \<open>
  Once \<open>setup\<close> succeeded, every required value can be read, ports and thread counts are in range,
  and no later \<open>setup\<close> changes any of it.
\<close>

lemma config_complete:
  assumes "setupConfig loadFile src None = (Inr (), c)"
  shows "\<exists>y. getConfig c = Inr y \<and>
    (\<exists>p. getControlServerPort y = Inr p \<and> 1 \<le> p \<and> p \<le> 65535) \<and>
    (\<exists>n. getControlServerThreads y = Inr n \<and> 1 \<le> n \<and> n \<le> 3000) \<and>
    (\<exists>p. getTelemetryServerPort y = Inr p \<and> 1 \<le> p \<and> p \<le> 65535) \<and>
    (\<exists>n. getTelemetryServerThreads y = Inr n \<and> 1 \<le> n \<and> n \<le> 3000) \<and>
    (\<exists>h. getControlServerHost y = Inr h) \<and> (\<exists>h. getTelemetryServerHost y = Inr h) \<and>
    (\<exists>f. getLogFileName y = Inr f) \<and> (\<exists>n. getLogFileSizeMB y = Inr n) \<and> (\<exists>n. getLogMaxFiles y = Inr n)"
proof -
  obtain y where y: "mkConfig loadFile src = Inr y" "c = Some y"
    using assms by (auto simp: setupConfig_def split: sum.splits)
  then have "verifyRequiredElements y = Inr ()"
    by (auto simp: mkConfig_def split: sum.splits dest!: bind_result_ok)
  then show ?thesis using y(2)
    by (auto simp: verifyRequiredElements_def getConfig_def getControlServerPort_def getControlServerThreads_def
        getTelemetryServerPort_def getTelemetryServerThreads_def
        dest!: bind_result_ok dest: getSectionKeyAsIntRange_bounds)
qed

lemma setup_once: "setupConfig l s (Some y) = (Inr (), Some y)"
  by (simp add: setupConfig_def)

end
