(* ===== verification/LabViewVI.thy ===== *)
theory LabViewVI
  imports NamedValue ConfigFile
begin

text \<open>
  \<open>vis/LabViewVI\<close> and \<open>vis/TangentLoadCellFaultDetection\<close>: the tests of a VI against the rows of a
  file, its constants from the configuration, and the detection of unsafe loads on the tangential
  actuators. The named values are shared by the maps of the class; here \<open>completeMap\<close> holds them
  and the other maps are lists of names.
\<close>

section \<open>The base class\<close>

record labview_vi =
  viName :: string
  viId :: string
  completeMap :: nv_map
  inMap :: "string list"
  outMap :: "string list"
  constMap :: "string list"
  testFile :: "csv_file option"

definition getViNameId :: "labview_vi \<Rightarrow> string" where
  "getViNameId vi = (if viId vi = [] then viName vi else viName vi @ ''_'' @ viId vi)"

definition readTestFile :: "string option \<Rightarrow> string \<Rightarrow> labview_vi \<Rightarrow> unit result \<times> labview_vi" where
  "readTestFile content name vi =
     (let (r, f) = readCsv content (mkCsvFile name) in (r, vi \<lparr> testFile := Some f \<rparr>))"

definition checkMap :: "string list \<Rightarrow> nv_map \<Rightarrow> bool" where
  "checkMap names m \<longleftrightarrow> list_all (\<lambda>k. case map_of m k of Some nv \<Rightarrow> checkNv nv | None \<Rightarrow> True) names"

text \<open>One row; \<open>run\<close> is what the child class does with the values.\<close>

definition runTestRow ::
  "(string \<Rightarrow> real \<times> string) \<Rightarrow> (nv_map \<Rightarrow> nv_map) \<Rightarrow> csv_file \<Rightarrow> int \<Rightarrow> labview_vi \<Rightarrow> bool result \<times> labview_vi" where
  "runTestRow strtod run f row vi =
     (case setMapValuesFromFile strtod f row (completeMap vi) of
        (Inl e, m) \<Rightarrow> (Inl e, vi \<lparr> completeMap := m \<rparr>)
      | (Inr _, m) \<Rightarrow>
          (let m1 = run (voidValForTest (outMap vi) m)
           in (Inr (checkMap (inMap vi) m1 \<and> checkMap (constMap vi) m1 \<and> checkMap (outMap vi) m1),
               vi \<lparr> completeMap := m1 \<rparr>)))"

fun runTestRows ::
  "(string \<Rightarrow> real \<times> string) \<Rightarrow> (nv_map \<Rightarrow> nv_map) \<Rightarrow> csv_file \<Rightarrow> nat list \<Rightarrow> labview_vi \<Rightarrow> bool result \<times> labview_vi" where
  "runTestRows strtod run f [] vi = (Inr True, vi)"
| "runTestRows strtod run f (j # js) vi =
     (case runTestRow strtod run f (int j) vi of
        (Inr True, vi') \<Rightarrow> runTestRows strtod run f js vi'
      | (r, vi') \<Rightarrow> (r, vi'))"

definition runTest ::
  "(string \<Rightarrow> real \<times> string) \<Rightarrow> (nv_map \<Rightarrow> nv_map) \<Rightarrow> labview_vi \<Rightarrow> bool result \<times> labview_vi" where
  "runTest strtod run vi =
     (case testFile vi of
        None \<Rightarrow> (Inr False, vi)
      | Some f \<Rightarrow>
          (if rowCount f = 0 then (Inr False, vi)
           else runTestRows strtod run f [0..<rowCount f] vi))"

text \<open>\<open>_searchConfig\<close>: the names that are still undefined, and the values set so far.\<close>

fun searchConfig ::
  "'n yaml \<Rightarrow> (string \<Rightarrow> real \<times> string) \<Rightarrow> string \<Rightarrow> string list \<Rightarrow> nv_map \<Rightarrow> (string list \<times> nv_map) result" where
  "searchConfig y strtod sec [] m = Inr ([], m)"
| "searchConfig y strtod sec (key # undef) m =
     (case getSectionKeyAsString y sec key of
        Inl (ConfigException _) \<Rightarrow>
          bind_result (searchConfig y strtod sec undef m) (\<lambda>(ks, m'). Inr (key # ks, m'))
      | Inl e \<Rightarrow> Inl e
      | Inr str \<Rightarrow>
          (case map_of m key of
             None \<Rightarrow> searchConfig y strtod sec undef m
           | Some nv \<Rightarrow>
               bind_result (setFromString strtod str nv) (\<lambda>nv'.
                 searchConfig y strtod sec undef (map_modify key (\<lambda>_. nv') m))))"

definition setConstFromConfig ::
  "'n yaml \<Rightarrow> (string \<Rightarrow> real \<times> string) \<Rightarrow> labview_vi \<Rightarrow> labview_vi result" where
  "setConstFromConfig y strtod vi =
     bind_result (searchConfig y strtod (getViNameId vi) (constMap vi) (completeMap vi)) (\<lambda>(undef, m).
     bind_result (searchConfig y strtod ''Globals'' undef m) (\<lambda>(undef', m').
       if undef' \<noteq> []
       then Inl (ConfigException (''LabViewVI::setConstFromConfig() undefined constants for '' @ getViNameId vi @ '': '' @
              concat (map (\<lambda>k. k @ '', '') undef')))
       else Inr (vi \<lparr> completeMap := m' \<rparr>)))"

section \<open>Tangential loads\<close>

definition tlInputs :: "named_value list" where
  "tlInputs =
     [newNamedDouble ''inFa1N'' TOLERANCE, newNamedDouble ''inFa2N'' TOLERANCE, newNamedDouble ''inFa3N'' TOLERANCE,
      newNamedDouble ''inFa4N'' TOLERANCE, newNamedDouble ''inFa5N'' TOLERANCE, newNamedDouble ''inFa6N'' TOLERANCE,
      newNamedAngle ''inElevationAngleD'' DEGREE TOLERANCE]"

definition tlConstants :: "named_value list" where
  "tlConstants =
     [newNamedDouble ''constTanWeightErrorN'' TOLERANCE, newNamedDouble ''constLoadBearingErrorN'' TOLERANCE,
      newNamedDouble ''constNetMomentErrorN'' TOLERANCE, newNamedDouble ''constNotLoadBearingErrorN'' TOLERANCE,
      newNamedDouble ''constMirrorWeightN'' TOLERANCE]"

definition tlOutputs :: "named_value list" where
  "tlOutputs =
     [newNamedDouble ''outTangentialTotalWeightN'' (1 / 20), newNamedDouble ''outLoadBearingFa2N'' (1 / 20),
      newNamedDouble ''outLoadBearingFa3N'' (1 / 20), newNamedDouble ''outLoadBearingFa5N'' (1 / 20),
      newNamedDouble ''outLoadBearingFa6N'' (1 / 20), newNamedDouble ''outNetMomentForcesN'' (1 / 20),
      newNamedDouble ''outFa1N'' TOLERANCE, newNamedDouble ''outFa4N'' TOLERANCE,
      newNamedBool ''outTanWeightBool'', newNamedBool ''outLoadBearingBool'', newNamedBool ''outNetMomentBool'',
      newNamedBool ''outNonLoadBearingBool'', newNamedBool ''outTanLoadCellBool'']"

definition mkTangentLoad :: "'n yaml \<Rightarrow> (string \<Rightarrow> real \<times> string) \<Rightarrow> labview_vi result" where
  "mkTangentLoad y strtod =
     bind_result (insertAll setupNv tlInputs []) (\<lambda>inM.
     bind_result (insertAll setupNv tlConstants []) (\<lambda>constM.
     bind_result (insertAll setupNv tlOutputs []) (\<lambda>outM.
     bind_result (insertMapElements inM []) (\<lambda>m1.
     bind_result (insertMapElements outM m1) (\<lambda>m2.
     bind_result (insertMapElements constM m2) (\<lambda>m3.
       setConstFromConfig y strtod
         \<lparr> viName = ''TangentLoadCellFaultDetection'', viId = [], completeMap = m3,
           inMap = map fst inM, outMap = map fst outM, constMap = map fst constM, testFile = None \<rparr>))))))"

definition dval :: "string \<Rightarrow> nv_map \<Rightarrow> real" where
  "dval k m = (case map_of m k of Some nv \<Rightarrow> realOf (nvVal nv) | None \<Rightarrow> 0)"

definition bval :: "string \<Rightarrow> nv_map \<Rightarrow> bool" where
  "bval k m = (case map_of m k of Some nv \<Rightarrow> nvVal nv = VBool True | None \<Rightarrow> False)"

definition setNvVal :: "string \<Rightarrow> nval \<Rightarrow> nv_map \<Rightarrow> nv_map" where
  "setNvVal k v m = map_modify k (\<lambda>nv. nv \<lparr> nvVal := v \<rparr>) m"

definition cos30Deg :: real where
  "cos30Deg = cos (30 * pi / 180)"

definition elevationComp :: "nv_map \<Rightarrow> real" where
  "elevationComp m = sin (pi / 2 - dval ''inElevationAngleD'' m) * dval ''constMirrorWeightN'' m"

text \<open>
  The four parts of \<open>run\<close>, then the sum of their faults. An output that was just set is read as
  the value it was set to.
\<close>

definition runTangentWeight :: "nv_map \<Rightarrow> nv_map" where
  "runTangentWeight m =
     (let fa2W = - dval ''inFa2N'' m * cos30Deg;
          fa3W = - dval ''inFa3N'' m * cos30Deg;
          fa5W = dval ''inFa5N'' m * cos30Deg;
          fa6W = dval ''inFa6N'' m * cos30Deg;
          total = fa2W + fa3W + fa5W + fa6W - elevationComp m
      in setNvVal ''outTanWeightBool'' (VBool (\<bar>total\<bar> \<ge> dval ''constTanWeightErrorN'' m))
           (setNvVal ''outTangentialTotalWeightN'' (VDouble total) m))"

definition runLoadBearing :: "nv_map \<Rightarrow> nv_map" where
  "runLoadBearing m =
     (let mirrorWeightCompDiv4 = elevationComp m / 4;
          limit = dval ''constLoadBearingErrorN'' m;
          fa2 = cos30Deg * dval ''inFa2N'' m + mirrorWeightCompDiv4;
          fa3 = cos30Deg * dval ''inFa3N'' m + mirrorWeightCompDiv4;
          fa5 = cos30Deg * dval ''inFa5N'' m - mirrorWeightCompDiv4;
          fa6 = cos30Deg * dval ''inFa6N'' m - mirrorWeightCompDiv4
      in setNvVal ''outLoadBearingBool''
           (VBool (\<bar>fa2\<bar> \<ge> limit \<or> \<bar>fa3\<bar> \<ge> limit \<or> \<bar>fa5\<bar> \<ge> limit \<or> \<bar>fa6\<bar> \<ge> limit))
           (setNvVal ''outLoadBearingFa6N'' (VDouble fa6) (setNvVal ''outLoadBearingFa5N'' (VDouble fa5)
             (setNvVal ''outLoadBearingFa3N'' (VDouble fa3) (setNvVal ''outLoadBearingFa2N'' (VDouble fa2) m)))))"

definition runNetMoment :: "nv_map \<Rightarrow> nv_map" where
  "runNetMoment m =
     (let total = dval ''inFa1N'' m + dval ''inFa2N'' m + dval ''inFa3N'' m + dval ''inFa4N'' m +
                  dval ''inFa5N'' m + dval ''inFa6N'' m
      in setNvVal ''outNetMomentBool'' (VBool (\<bar>total\<bar> > dval ''constNetMomentErrorN'' m))
           (setNvVal ''outNetMomentForcesN'' (VDouble total) m))"

definition runNonLoadBearing :: "nv_map \<Rightarrow> nv_map" where
  "runNonLoadBearing m =
     (let fa1 = dval ''inFa1N'' m; fa4 = dval ''inFa4N'' m; limit = dval ''constNotLoadBearingErrorN'' m
      in setNvVal ''outNonLoadBearingBool'' (VBool (\<bar>fa1\<bar> > limit \<or> \<bar>fa4\<bar> > limit))
           (setNvVal ''outFa4N'' (VDouble fa4) (setNvVal ''outFa1N'' (VDouble fa1) m)))"

definition runTangentLoad :: "nv_map \<Rightarrow> nv_map" where
  "runTangentLoad m =
     (let m1 = runNonLoadBearing (runNetMoment (runLoadBearing (runTangentWeight m)))
      in setNvVal ''outTanLoadCellBool''
           (VBool (bval ''outTanWeightBool'' m1 \<or> bval ''outLoadBearingBool'' m1 \<or>
                   bval ''outNonLoadBearingBool'' m1 \<or> bval ''outNetMomentBool'' m1)) m1)"

section \<open>What run computes\<close>

lemma map_of_setNvVal:
  "map_of (setNvVal k v m) k' = (if k' = k then map_option (\<lambda>nv. nv \<lparr> nvVal := v \<rparr>) (map_of m k') else map_of m k')"
  by (simp add: setNvVal_def map_of_map_modify)

lemma keys_setNvVal [simp]: "map fst (setNvVal k v m) = map fst m"
  by (simp add: setNvVal_def)

lemma map_of_None_setNvVal [simp]: "map_of (setNvVal k v m) k' = None \<longleftrightarrow> map_of m k' = None"
  by (simp add: map_of_setNvVal)

definition tlNames :: "string list" where
  "tlNames =
     [''inFa1N'', ''inFa2N'', ''inFa3N'', ''inFa4N'', ''inFa5N'', ''inFa6N'', ''inElevationAngleD'',
      ''constTanWeightErrorN'', ''constLoadBearingErrorN'', ''constNetMomentErrorN'', ''constNotLoadBearingErrorN'',
      ''constMirrorWeightN'',
      ''outTangentialTotalWeightN'', ''outLoadBearingFa2N'', ''outLoadBearingFa3N'', ''outLoadBearingFa5N'',
      ''outLoadBearingFa6N'', ''outNetMomentForcesN'', ''outFa1N'', ''outFa4N'', ''outTanWeightBool'',
      ''outLoadBearingBool'', ''outNetMomentBool'', ''outNonLoadBearingBool'', ''outTanLoadCellBool'']"

lemma tlNames_values: "tlNames = map nvName (tlInputs @ tlConstants @ tlOutputs)"
  by (simp add: tlNames_def tlInputs_def tlConstants_def tlOutputs_def newNamedDouble_def newNamedAngle_def newNamedBool_def)

definition tl_ready :: "nv_map \<Rightarrow> bool" where
  "tl_ready m \<longleftrightarrow> (\<forall>k \<in> set tlNames. map_of m k \<noteq> None)"

text \<open>Each part writes its own outputs, and each of its values depends on the others only.\<close>

lemma map_of_setNvVal_other: "k' \<noteq> k \<Longrightarrow> map_of (setNvVal k v m) k' = map_of m k'"
  by (simp add: map_of_setNvVal)

lemma runTangentWeight_other:
  "k \<noteq> ''outTangentialTotalWeightN'' \<Longrightarrow> k \<noteq> ''outTanWeightBool'' \<Longrightarrow> map_of (runTangentWeight m) k = map_of m k"
  unfolding runTangentWeight_def Let_def by (intro trans [OF map_of_setNvVal_other] refl)

lemma runLoadBearing_other:
  "k \<noteq> ''outLoadBearingFa2N'' \<Longrightarrow> k \<noteq> ''outLoadBearingFa3N'' \<Longrightarrow> k \<noteq> ''outLoadBearingFa5N'' \<Longrightarrow>
    k \<noteq> ''outLoadBearingFa6N'' \<Longrightarrow> k \<noteq> ''outLoadBearingBool'' \<Longrightarrow> map_of (runLoadBearing m) k = map_of m k"
  unfolding runLoadBearing_def Let_def by (intro trans [OF map_of_setNvVal_other] refl)

lemma runNetMoment_other:
  "k \<noteq> ''outNetMomentForcesN'' \<Longrightarrow> k \<noteq> ''outNetMomentBool'' \<Longrightarrow> map_of (runNetMoment m) k = map_of m k"
  unfolding runNetMoment_def Let_def by (intro trans [OF map_of_setNvVal_other] refl)

lemma runNonLoadBearing_other:
  "k \<noteq> ''outFa1N'' \<Longrightarrow> k \<noteq> ''outFa4N'' \<Longrightarrow> k \<noteq> ''outNonLoadBearingBool'' \<Longrightarrow>
    map_of (runNonLoadBearing m) k = map_of m k"
  unfolding runNonLoadBearing_def Let_def by (intro trans [OF map_of_setNvVal_other] refl)

lemma val_cong:
  "map_of m k = map_of m' k \<Longrightarrow> dval k m = dval k m'" "map_of m k = map_of m' k \<Longrightarrow> bval k m = bval k m'"
  by (simp_all add: dval_def bval_def)

lemma val_same:
  "map_of m k \<noteq> None \<Longrightarrow> dval k (setNvVal k (VDouble x) m) = x"
  "map_of m k \<noteq> None \<Longrightarrow> bval k (setNvVal k (VBool b) m) = b"
  by (auto simp: dval_def bval_def map_of_setNvVal)

lemma runTangentWeight_bool:
  assumes "map_of m ''outTanWeightBool'' \<noteq> None"
  shows "bval ''outTanWeightBool'' (runTangentWeight m) \<longleftrightarrow>
    \<bar>cos30Deg * (dval ''inFa5N'' m + dval ''inFa6N'' m - dval ''inFa2N'' m - dval ''inFa3N'' m) - elevationComp m\<bar>
      \<ge> dval ''constTanWeightErrorN'' m"
proof -
  have "bval ''outTanWeightBool'' (runTangentWeight m) \<longleftrightarrow>
    \<bar>- dval ''inFa2N'' m * cos30Deg + - dval ''inFa3N'' m * cos30Deg + dval ''inFa5N'' m * cos30Deg +
      dval ''inFa6N'' m * cos30Deg - elevationComp m\<bar> \<ge> dval ''constTanWeightErrorN'' m"
    unfolding runTangentWeight_def Let_def by (rule val_same(2)) (simp add: map_of_None_setNvVal assms)
  then show ?thesis by (simp add: algebra_simps)
qed

lemma runLoadBearing_bool:
  assumes "map_of m ''outLoadBearingBool'' \<noteq> None"
  shows "bval ''outLoadBearingBool'' (runLoadBearing m) \<longleftrightarrow>
      \<bar>cos30Deg * dval ''inFa2N'' m + elevationComp m / 4\<bar> \<ge> dval ''constLoadBearingErrorN'' m \<or>
      \<bar>cos30Deg * dval ''inFa3N'' m + elevationComp m / 4\<bar> \<ge> dval ''constLoadBearingErrorN'' m \<or>
      \<bar>cos30Deg * dval ''inFa5N'' m - elevationComp m / 4\<bar> \<ge> dval ''constLoadBearingErrorN'' m \<or>
      \<bar>cos30Deg * dval ''inFa6N'' m - elevationComp m / 4\<bar> \<ge> dval ''constLoadBearingErrorN'' m"
  unfolding runLoadBearing_def Let_def by (rule val_same(2)) (simp add: map_of_None_setNvVal assms)

lemma runNetMoment_bool:
  assumes "map_of m ''outNetMomentBool'' \<noteq> None"
  shows "bval ''outNetMomentBool'' (runNetMoment m) \<longleftrightarrow>
    \<bar>dval ''inFa1N'' m + dval ''inFa2N'' m + dval ''inFa3N'' m + dval ''inFa4N'' m + dval ''inFa5N'' m + dval ''inFa6N'' m\<bar>
      > dval ''constNetMomentErrorN'' m"
  unfolding runNetMoment_def Let_def by (rule val_same(2)) (simp add: map_of_None_setNvVal assms)

lemma runNonLoadBearing_bool:
  assumes "map_of m ''outNonLoadBearingBool'' \<noteq> None"
  shows "bval ''outNonLoadBearingBool'' (runNonLoadBearing m) \<longleftrightarrow>
    \<bar>dval ''inFa1N'' m\<bar> > dval ''constNotLoadBearingErrorN'' m \<or> \<bar>dval ''inFa4N'' m\<bar> > dval ''constNotLoadBearingErrorN'' m"
  unfolding runNonLoadBearing_def Let_def by (rule val_same(2)) (simp add: map_of_None_setNvVal assms)


lemma tl_ready_bools:
  assumes "tl_ready m"
  shows "map_of m ''outTanWeightBool'' \<noteq> None" "map_of m ''outLoadBearingBool'' \<noteq> None"
    "map_of m ''outNetMomentBool'' \<noteq> None" "map_of m ''outNonLoadBearingBool'' \<noteq> None"
    "map_of m ''outTanLoadCellBool'' \<noteq> None"
  using assms unfolding tl_ready_def tlNames_def by simp_all

lemmas tl_other = runTangentWeight_other runLoadBearing_other runNetMoment_other runNonLoadBearing_other

text \<open>The forces are read as they came in, whichever part runs first.\<close>

lemma tl_inputs:
  assumes "k \<in> set (map nvName (tlInputs @ tlConstants))"
  shows "dval k (runTangentWeight m) = dval k m" "dval k (runLoadBearing m) = dval k m"
    "dval k (runNetMoment m) = dval k m"
proof -
  have ne: "k \<noteq> ''outTangentialTotalWeightN''" "k \<noteq> ''outTanWeightBool''" "k \<noteq> ''outLoadBearingFa2N''"
      "k \<noteq> ''outLoadBearingFa3N''" "k \<noteq> ''outLoadBearingFa5N''" "k \<noteq> ''outLoadBearingFa6N''" "k \<noteq> ''outLoadBearingBool''"
      "k \<noteq> ''outNetMomentForcesN''" "k \<noteq> ''outNetMomentBool''"
    using assms by (auto simp: tlInputs_def tlConstants_def newNamedDouble_def newNamedAngle_def)
  show "dval k (runTangentWeight m) = dval k m" by (rule val_cong(1), rule runTangentWeight_other; fact ne)
  show "dval k (runLoadBearing m) = dval k m" by (rule val_cong(1), rule runLoadBearing_other; fact ne)
  show "dval k (runNetMoment m) = dval k m" by (rule val_cong(1), rule runNetMoment_other; fact ne)
qed

text \<open>The share of the mirror's weight on each load bearing actuator, and how far its force is from it.\<close>

definition weightShare :: "nv_map \<Rightarrow> real" where
  "weightShare m = elevationComp m / (4 * cos30Deg)"

definition deviations :: "nv_map \<Rightarrow> real list" where
  "deviations m =
     [dval ''inFa2N'' m + weightShare m, dval ''inFa3N'' m + weightShare m,
      dval ''inFa5N'' m - weightShare m, dval ''inFa6N'' m - weightShare m]"

definition tangentFault :: "nv_map \<Rightarrow> bool" where
  "tangentFault m \<longleftrightarrow>
     (\<exists>d \<in> set (deviations m). cos30Deg * \<bar>d\<bar> \<ge> dval ''constLoadBearingErrorN'' m) \<or>
     (case deviations m of [d2, d3, d5, d6] \<Rightarrow> cos30Deg * \<bar>d5 + d6 - d2 - d3\<bar> \<ge> dval ''constTanWeightErrorN'' m) \<or>
     \<bar>dval ''inFa1N'' m + dval ''inFa2N'' m + dval ''inFa3N'' m + dval ''inFa4N'' m + dval ''inFa5N'' m + dval ''inFa6N'' m\<bar>
       > dval ''constNetMomentErrorN'' m \<or>
     \<bar>dval ''inFa1N'' m\<bar> > dval ''constNotLoadBearingErrorN'' m \<or> \<bar>dval ''inFa4N'' m\<bar> > dval ''constNotLoadBearingErrorN'' m"

lemma cos30_pos: "0 < cos30Deg"
  unfolding cos30Deg_def by (rule cos_gt_zero) simp_all

lemma deviation_abs:
  "cos30Deg * \<bar>f + weightShare m\<bar> = \<bar>cos30Deg * f + elevationComp m / 4\<bar>"
  "cos30Deg * \<bar>f - weightShare m\<bar> = \<bar>cos30Deg * f - elevationComp m / 4\<bar>"
  "cos30Deg * \<bar>(f5 - weightShare m) + (f6 - weightShare m) - (f2 + weightShare m) - (f3 + weightShare m)\<bar> =
    \<bar>cos30Deg * (f5 + f6 - f2 - f3) - elevationComp m\<bar>"
proof -
  have c: "cos30Deg * weightShare m = elevationComp m / 4" using cos30_pos by (simp add: weightShare_def)
  have abs: "cos30Deg * \<bar>x\<bar> = \<bar>cos30Deg * x\<bar>" for x using cos30_pos by (simp add: abs_mult)
  show "cos30Deg * \<bar>f + weightShare m\<bar> = \<bar>cos30Deg * f + elevationComp m / 4\<bar>"
    "cos30Deg * \<bar>f - weightShare m\<bar> = \<bar>cos30Deg * f - elevationComp m / 4\<bar>"
    by (simp_all add: abs distrib_left right_diff_distrib c)
  have "cos30Deg * ((f5 - weightShare m) + (f6 - weightShare m) - (f2 + weightShare m) - (f3 + weightShare m)) =
      cos30Deg * (f5 + f6 - f2 - f3) - 4 * (cos30Deg * weightShare m)" by (simp add: algebra_simps)
  then show "cos30Deg * \<bar>(f5 - weightShare m) + (f6 - weightShare m) - (f2 + weightShare m) - (f3 + weightShare m)\<bar> =
    \<bar>cos30Deg * (f5 + f6 - f2 - f3) - elevationComp m\<bar>" by (simp add: abs c)
qed

lemma runTangentLoad_parts:
  assumes "tl_ready m"
  defines "m1 \<equiv> runTangentWeight m" defines "m2 \<equiv> runLoadBearing m1" defines "m3 \<equiv> runNetMoment m2"
  shows "bval ''outTanLoadCellBool'' (runTangentLoad m) \<longleftrightarrow>
    bval ''outTanWeightBool'' m1 \<or> bval ''outLoadBearingBool'' m2 \<or>
    bval ''outNonLoadBearingBool'' (runNonLoadBearing m3) \<or> bval ''outNetMomentBool'' m3"
proof -
  let ?m4 = "runNonLoadBearing m3"
  have "map_of ?m4 ''outTanLoadCellBool'' = map_of m ''outTanLoadCellBool''"
    unfolding m1_def m2_def m3_def
    by (subst runNonLoadBearing_other, simp, simp, simp, subst runNetMoment_other, simp, simp,
        subst runLoadBearing_other, simp, simp, simp, simp, simp, subst runTangentWeight_other, simp, simp, rule refl)
  then have "map_of ?m4 ''outTanLoadCellBool'' \<noteq> None" using tl_ready_bools(5) [OF assms(1)] by simp
  then have "bval ''outTanLoadCellBool'' (runTangentLoad m) \<longleftrightarrow>
      bval ''outTanWeightBool'' ?m4 \<or> bval ''outLoadBearingBool'' ?m4 \<or> bval ''outNonLoadBearingBool'' ?m4 \<or>
      bval ''outNetMomentBool'' ?m4"
    unfolding runTangentLoad_def Let_def m1_def m2_def m3_def by (rule val_same(2))
  moreover have "bval ''outNetMomentBool'' ?m4 = bval ''outNetMomentBool'' m3"
    by (rule val_cong(2), rule runNonLoadBearing_other) simp_all
  moreover have "bval ''outLoadBearingBool'' ?m4 = bval ''outLoadBearingBool'' m2"
    unfolding m3_def
    by (rule val_cong(2), subst runNonLoadBearing_other, simp, simp, simp, rule runNetMoment_other) simp_all
  moreover have "bval ''outTanWeightBool'' ?m4 = bval ''outTanWeightBool'' m1"
    unfolding m3_def m2_def
    by (rule val_cong(2), subst runNonLoadBearing_other, simp, simp, simp, subst runNetMoment_other, simp, simp,
        rule runLoadBearing_other) simp_all
  ultimately show ?thesis by simp
qed


lemma tl_inputs_elevation:
  "elevationComp (runTangentWeight m) = elevationComp m" "elevationComp (runLoadBearing m) = elevationComp m"
  unfolding elevationComp_def
  by (simp_all add: tl_inputs tlInputs_def tlConstants_def newNamedDouble_def newNamedAngle_def)

lemma tl_ready_others:
  assumes "tl_ready m"
  defines "m1 \<equiv> runTangentWeight m" defines "m2 \<equiv> runLoadBearing m1" defines "m3 \<equiv> runNetMoment m2"
  shows "map_of m1 ''outLoadBearingBool'' \<noteq> None" "map_of m2 ''outNetMomentBool'' \<noteq> None"
    "map_of m3 ''outNonLoadBearingBool'' \<noteq> None"
proof -
  have "map_of m1 ''outLoadBearingBool'' = map_of m ''outLoadBearingBool''"
    unfolding m1_def by (rule runTangentWeight_other) simp_all
  then show "map_of m1 ''outLoadBearingBool'' \<noteq> None" using tl_ready_bools(2) [OF assms(1)] by simp
  have "map_of m2 ''outNetMomentBool'' = map_of m ''outNetMomentBool''" unfolding m2_def m1_def
    by (subst runLoadBearing_other, simp, simp, simp, simp, simp, rule runTangentWeight_other) simp_all
  then show "map_of m2 ''outNetMomentBool'' \<noteq> None" using tl_ready_bools(3) [OF assms(1)] by simp
  have "map_of m3 ''outNonLoadBearingBool'' = map_of m ''outNonLoadBearingBool''" unfolding m3_def m2_def m1_def
    by (subst runNetMoment_other, simp, simp, subst runLoadBearing_other, simp, simp, simp, simp, simp,
        rule runTangentWeight_other) simp_all
  then show "map_of m3 ''outNonLoadBearingBool'' \<noteq> None" using tl_ready_bools(4) [OF assms(1)] by simp
qed

lemma tl_input_names:
  "''inFa1N'' \<in> set (map nvName (tlInputs @ tlConstants))" "''inFa2N'' \<in> set (map nvName (tlInputs @ tlConstants))"
  "''inFa3N'' \<in> set (map nvName (tlInputs @ tlConstants))" "''inFa4N'' \<in> set (map nvName (tlInputs @ tlConstants))"
  "''inFa5N'' \<in> set (map nvName (tlInputs @ tlConstants))" "''inFa6N'' \<in> set (map nvName (tlInputs @ tlConstants))"
  "''constLoadBearingErrorN'' \<in> set (map nvName (tlInputs @ tlConstants))"
  "''constNetMomentErrorN'' \<in> set (map nvName (tlInputs @ tlConstants))"
  "''constNotLoadBearingErrorN'' \<in> set (map nvName (tlInputs @ tlConstants))"
  by (simp_all add: tlInputs_def tlConstants_def newNamedDouble_def newNamedAngle_def)

lemmas tl_reads = tl_input_names [THEN tl_inputs(1)] tl_input_names [THEN tl_inputs(2)] tl_input_names [THEN tl_inputs(3)]

text \<open>C37: run() reports a tangential load fault exactly if a load bearing actuator is off its share of the mirror's weight by the limit, all of them together are off the weight by the limit, or the sum of the six forces or a force that should bear nothing is over its limit.\<close>

theorem tangent_fault_iff:
  assumes "tl_ready m"
  shows "bval ''outTanLoadCellBool'' (runTangentLoad m) \<longleftrightarrow> tangentFault m"
proof -
  note ready = tl_ready_bools(1) [OF assms] tl_ready_others [OF assms]
  have "bval ''outTanLoadCellBool'' (runTangentLoad m) \<longleftrightarrow>
      \<bar>cos30Deg * (dval ''inFa5N'' m + dval ''inFa6N'' m - dval ''inFa2N'' m - dval ''inFa3N'' m) - elevationComp m\<bar>
        \<ge> dval ''constTanWeightErrorN'' m \<or>
      (\<bar>cos30Deg * dval ''inFa2N'' m + elevationComp m / 4\<bar> \<ge> dval ''constLoadBearingErrorN'' m \<or>
       \<bar>cos30Deg * dval ''inFa3N'' m + elevationComp m / 4\<bar> \<ge> dval ''constLoadBearingErrorN'' m \<or>
       \<bar>cos30Deg * dval ''inFa5N'' m - elevationComp m / 4\<bar> \<ge> dval ''constLoadBearingErrorN'' m \<or>
       \<bar>cos30Deg * dval ''inFa6N'' m - elevationComp m / 4\<bar> \<ge> dval ''constLoadBearingErrorN'' m) \<or>
      (\<bar>dval ''inFa1N'' m\<bar> > dval ''constNotLoadBearingErrorN'' m \<or> \<bar>dval ''inFa4N'' m\<bar> > dval ''constNotLoadBearingErrorN'' m) \<or>
      \<bar>dval ''inFa1N'' m + dval ''inFa2N'' m + dval ''inFa3N'' m + dval ''inFa4N'' m + dval ''inFa5N'' m + dval ''inFa6N'' m\<bar>
        > dval ''constNetMomentErrorN'' m"
    unfolding runTangentLoad_parts [OF assms] runTangentWeight_bool [OF ready(1)] runLoadBearing_bool [OF ready(2)]
      runNetMoment_bool [OF ready(3)] runNonLoadBearing_bool [OF ready(4)] tl_reads tl_inputs_elevation ..
  then show ?thesis by (simp only: tangentFault_def deviations_def list.set list.case deviation_abs bex_simps) blast
qed

text \<open>A mirror that lies flat and is borne by nobody, and one with a force on the first actuator.\<close>

definition exLoads :: "real \<Rightarrow> nv_map" where
  "exLoads fa1 = map (\<lambda>(k, x). (k, \<lparr> nvName = k, nvClass = NamedDouble TOLERANCE, nvVal = x, nvRead = x \<rparr>))
     ([(''inFa1N'', VDouble fa1), (''inElevationAngleD'', VDouble (pi / 2)),
       (''constTanWeightErrorN'', VDouble 2000), (''constLoadBearingErrorN'', VDouble 1000),
       (''constNetMomentErrorN'', VDouble 1000), (''constNotLoadBearingErrorN'', VDouble 2500)] @
      map (\<lambda>k. (k, VDouble 0)) tlNames)"

lemma exLoads_facts:
  "tl_ready (exLoads x)" "deviations (exLoads x) = [0, 0, 0, 0]" "dval ''inFa1N'' (exLoads x) = x"
  "dval ''inFa2N'' (exLoads x) = 0" "dval ''inFa3N'' (exLoads x) = 0" "dval ''inFa4N'' (exLoads x) = 0"
  "dval ''inFa5N'' (exLoads x) = 0" "dval ''inFa6N'' (exLoads x) = 0"
  "dval ''constTanWeightErrorN'' (exLoads x) = 2000" "dval ''constLoadBearingErrorN'' (exLoads x) = 1000"
  "dval ''constNetMomentErrorN'' (exLoads x) = 1000" "dval ''constNotLoadBearingErrorN'' (exLoads x) = 2500"
  by (simp_all add: exLoads_def tl_ready_def dval_def deviations_def weightShare_def elevationComp_def)
    (simp_all add: tlNames_def)

theorem tangent_fault_iff_witness:
  "\<not> bval ''outTanLoadCellBool'' (runTangentLoad (exLoads 1000)) \<and>
   bval ''outTanLoadCellBool'' (runTangentLoad (exLoads (- 1001)))"
  unfolding tangent_fault_iff [OF exLoads_facts(1)] by (simp add: tangentFault_def exLoads_facts)

section \<open>Testing a VI\<close>

lemma checkNv_read: "nvVal nv = nvRead nv \<Longrightarrow> checkNv nv"
  by (cases "nvClass nv") (auto simp: checkNv_def approxEqual_def approxEqualDouble_def getDelta_def)

lemma setFromString_read: "setFromString strtod str nv = Inr nv' \<Longrightarrow> nvVal nv' = nvRead nv' \<and> nvClass nv' = nvClass nv"
  by (auto simp: setFromString_def setBoolFromString_def setIntFromString_def setDoubleFromString_def
      setAngleFromString_def setValueRead_def setRadRead_def setDegRead_def Let_def
      split: nv_class.splits if_splits prod.splits unit_type.splits dest!: bind_result_ok)

lemma setMapValuesFromFile_read:
  "setMapValuesFromFile strtod f row m = (Inr (), m') \<Longrightarrow> map_of m' k = Some nv \<Longrightarrow> nvVal nv = nvRead nv"
proof (induction m arbitrary: m')
  case (Cons a m)
  obtain k' nv0 where a: "a = (k', nv0)" by (cases a)
  obtain nv1 where nv1: "bind_result (getValue (nvName nv0) row f) (\<lambda>str. setFromString strtod str nv0) = Inr nv1"
    using Cons.prems(1) a by (cases "bind_result (getValue (nvName nv0) row f) (\<lambda>str. setFromString strtod str nv0)") auto
  obtain r m1 where m1: "setMapValuesFromFile strtod f row m = (r, m1)" by fastforce
  have m': "m' = (k', nv1) # m1" "r = Inr ()" using Cons.prems(1) a nv1 m1 by auto
  have "nvVal nv1 = nvRead nv1" using bind_result_ok [OF nv1] setFromString_read by blast
  then show ?case using Cons.IH [OF m1 [unfolded m'(2)]] Cons.prems(2) m'(1) by (auto split: if_splits)
qed simp

text \<open>
  If \<open>run\<close> changes outputs only, the inputs and constants pass every check: a row passes exactly if
  the outputs do.
\<close>

lemma runTestRow_outputs:
  assumes "setMapValuesFromFile strtod f row (completeMap vi) = (Inr (), m)"
    and "\<And>m k. k \<notin> set (outMap vi) \<Longrightarrow> map_of (run m) k = map_of m k"
    and "set (outMap vi) \<inter> set (inMap vi @ constMap vi) = {}"
  shows "fst (runTestRow strtod run f row vi) = Inr (checkMap (outMap vi) (run (voidValForTest (outMap vi) m)))"
proof -
  have keep: "checkNv nv" if "k \<notin> set (outMap vi)" "map_of (run (voidValForTest (outMap vi) m)) k = Some nv" for k nv
  proof -
    have "map_of (voidValForTest (outMap vi) m) k = map_of m k"
      using that(1) by (simp add: voidValForTest_def map_of_map_key option.map_ident)
    then have "map_of m k = Some nv" using that assms(2) [OF that(1)] by simp
    then show ?thesis using setMapValuesFromFile_read [OF assms(1)] checkNv_read by blast
  qed
  then have "checkMap names (run (voidValForTest (outMap vi) m))" if "set names \<inter> set (outMap vi) = {}" for names
    using that by (auto simp: checkMap_def list_all_iff split: option.splits)
  then have "checkMap (inMap vi) (run (voidValForTest (outMap vi) m))" "checkMap (constMap vi) (run (voidValForTest (outMap vi) m))"
    using assms(3) by auto
  then show ?thesis using assms(1) by (simp add: runTestRow_def Let_def)
qed

end
