(* ===== verification/DaqMock.thy ===== *)
theory DaqMock
  imports ConfigFile StdMap Registry
begin

text \<open>
  \<open>control/DaqInMock\<close>, \<open>control/FpgaIoOld\<close> and \<open>control/Ilc\<close>: the mock inputs and outputs of the
  FPGA, which can be linked so that what is written comes back as a reading, and the status bytes
  of the ILCs. The objects are known by their names in the four maps. A \<open>double\<close> is a real number; a
  scale of 0, for which C++ gives an infinite value, is not modelled.
\<close>

section \<open>Inputs and outputs\<close>

record daq_in =
  di_scale :: real
  di_raw :: real
  di_lastRead :: timepoint
  di_adjusted :: real

record daq_out =
  do_scale :: real
  do_outVal :: real
  do_lastWrite :: timepoint
  do_source :: real
  do_linkStr :: string
  do_link :: "string option"

record daq_bool_in =
  bi_lastRead :: timepoint
  bi_val :: bool

record daq_bool_out =
  bo_lastWrite :: timepoint
  bo_val :: bool
  bo_linkBoolInStr :: string
  bo_linkBoolIn :: "string option"
  bo_linkCurrentOutStr :: string
  bo_linkCurrentOut :: "string option"
  bo_linkCurrentOutVal :: real
  bo_linkVoltageOutStr :: string
  bo_linkVoltageOut :: "string option"
  bo_linkVoltageOutVal :: real

text \<open>
  The constructors read optional values of the configuration: only a \<open>ConfigException\<close> is caught.
\<close>

fun orDefault :: "'a result \<Rightarrow> 'a \<Rightarrow> 'a result" where
  "orDefault (Inl (ConfigException _)) d = Inr d"
| "orDefault r d = r"

definition mkDaqIn :: "'n yaml \<Rightarrow> string \<Rightarrow> daq_in result" where
  "mkDaqIn y name =
     bind_result (orDefault (getSectionKeyAsDouble y name ''scale'') 1) (\<lambda>scale.
       Inr \<lparr> di_scale = scale, di_raw = 0, di_lastRead = 0, di_adjusted = 0 \<rparr>)"

definition mkDaqOut :: "'n yaml \<Rightarrow> string \<Rightarrow> daq_out result" where
  "mkDaqOut y name =
     bind_result (orDefault (getSectionKeyAsDouble y name ''scale'') 1) (\<lambda>scale.
     bind_result (orDefault (getSectionKeyAsString y name ''link'') []) (\<lambda>link.
       Inr \<lparr> do_scale = scale, do_outVal = 0, do_lastWrite = 0, do_source = 0, do_linkStr = link, do_link = None \<rparr>))"

definition mkDaqBoolIn :: daq_bool_in where
  "mkDaqBoolIn = \<lparr> bi_lastRead = 0, bi_val = False \<rparr>"

text \<open>A linked output without the value to send is an error that is not caught.\<close>

definition linkedValue :: "'n yaml \<Rightarrow> string \<Rightarrow> string \<Rightarrow> (string \<times> real) result" where
  "linkedValue y name key =
     (case getSectionKeyAsString y name key of
        Inl (ConfigException _) \<Rightarrow> Inr ([], 0)
      | Inl e \<Rightarrow> Inl e
      | Inr link \<Rightarrow>
          (case getSectionKeyAsDouble y name (key @ ''Val'') of
             Inl (ConfigException _) \<Rightarrow>
               Inl (Bug (''If '' @ key @ '' is defined for '' @ name @ '' '' @ key @ ''Val must be defined''))
           | Inl e \<Rightarrow> Inl e
           | Inr v \<Rightarrow> Inr (link, v)))"

definition mkDaqBoolOut :: "'n yaml \<Rightarrow> string \<Rightarrow> daq_bool_out result" where
  "mkDaqBoolOut y name =
     bind_result (orDefault (getSectionKeyAsString y name ''linkBoolIn'') []) (\<lambda>linkBoolIn.
     bind_result (linkedValue y name ''linkCurrentOut'') (\<lambda>(cur, curVal).
     bind_result (linkedValue y name ''linkVoltageOut'') (\<lambda>(vol, volVal).
       Inr \<lparr> bo_lastWrite = 0, bo_val = False, bo_linkBoolInStr = linkBoolIn, bo_linkBoolIn = None,
             bo_linkCurrentOutStr = cur, bo_linkCurrentOut = None, bo_linkCurrentOutVal = curVal,
             bo_linkVoltageOutStr = vol, bo_linkVoltageOut = None, bo_linkVoltageOutVal = volVal \<rparr>)))"

text \<open>The insertion of the four \<open>create\<close> functions.\<close>

definition insertDaq :: "string \<Rightarrow> string \<times> 'd \<Rightarrow> (string \<times> 'd) list \<Rightarrow> (string \<times> 'd) list result" where
  "insertDaq mapName nd m =
     (case map_of m (fst nd) of
        Some _ \<Rightarrow> Inl (Bug (fst nd @ '' already in '' @ mapName))
      | None \<Rightarrow> Inr (map_insert (fst nd) (snd nd) m))"

interpretation daq: registry fst "insertDaq mapName" "\<lambda>m k. map_option (Pair k) (map_of m k)"
  for mapName :: string
  by unfold_locales (auto simp: insertDaq_def map_of_map_insert fun_eq_iff)

subsection \<open>Values\<close>

definition setRaw :: "timepoint \<Rightarrow> real \<Rightarrow> daq_in \<Rightarrow> daq_in" where
  "setRaw now v d = d \<lparr> di_raw := v, di_lastRead := now, di_adjusted := v * di_scale d \<rparr>"

definition setSource :: "real \<Rightarrow> daq_out \<Rightarrow> daq_out" where
  "setSource v d = d \<lparr> do_source := v, do_outVal := v / do_scale d \<rparr>"

definition setBoolIn :: "timepoint \<Rightarrow> bool \<Rightarrow> daq_bool_in \<Rightarrow> daq_bool_in" where
  "setBoolIn now v d = d \<lparr> bi_lastRead := now, bi_val := v \<rparr>"

definition setBoolOut :: "bool \<Rightarrow> daq_bool_out \<Rightarrow> daq_bool_out" where
  "setBoolOut v d = d \<lparr> bo_val := v \<rparr>"

section \<open>ILCs\<close>

record ilc =
  ilc_name :: string
  ilc_id :: int
  rawStatus :: "8 word"

definition ilcBit :: "nat \<Rightarrow> 8 word \<Rightarrow> bool" where
  "ilcBit b byt \<longleftrightarrow> push_bit b 1 AND byt \<noteq> 0"

definition getFault :: "ilc \<Rightarrow> bool" where
  "getFault i = ilcBit 0 (rawStatus i)"

definition getCWLimit :: "ilc \<Rightarrow> bool" where
  "getCWLimit i = ilcBit 2 (rawStatus i)"

definition getCCWLimit :: "ilc \<Rightarrow> bool" where
  "getCCWLimit i = ilcBit 3 (rawStatus i)"

definition setStatus :: "8 word \<Rightarrow> ilc \<Rightarrow> ilc" where
  "setStatus v i = i \<lparr> rawStatus := v \<rparr>"

definition getBroadcastCommCount :: "ilc \<Rightarrow> 8 word" where
  "getBroadcastCommCount i = drop_bit 4 (0xf0 AND rawStatus i)"

definition allIlcs :: "ilc list" where
  "allIlcs = map (\<lambda>j. \<lparr> ilc_name = (if j \<le> 72 then ''Axial_'' else ''Tangent_'') @ to_string j, ilc_id = j, rawStatus = 0 \<rparr>)
     [1..78]"

text \<open>The number is an \<open>unsigned int\<close>, so a negative one is far out of range.\<close>

definition getIlc :: "ilc list \<Rightarrow> 32 word \<Rightarrow> ilc result" where
  "getIlc ilcs idNum =
     (if idNum < 1 \<or> length ilcs < unat idNum
      then Inl (RangeError (''_getIlcPtr invalid val '' @ to_string (uint idNum)))
      else Inr (ilcs ! (unat idNum - 1)))"

section \<open>The collection\<close>

record fpga_io_old =
  mapDaqIn :: "(string \<times> daq_in) list"
  mapDaqOut :: "(string \<times> daq_out) list"
  mapDaqBoolIn :: "(string \<times> daq_bool_in) list"
  mapDaqBoolOut :: "(string \<times> daq_bool_out) list"
  ilcs :: "ilc list"

text \<open>\<open>finalSetup\<close>: the links are looked up once all objects exist.\<close>

definition findLink :: "string \<Rightarrow> string \<Rightarrow> (string \<times> 'd) list \<Rightarrow> string option result" where
  "findLink msg name m =
     (if name = [] then Inr None
      else case map_of m name of
        Some _ \<Rightarrow> Inr (Some name)
      | None \<Rightarrow> Inl (Bug (msg @ name)))"

definition finalSetupOut :: "(string \<times> daq_in) list \<Rightarrow> string \<Rightarrow> daq_out \<Rightarrow> daq_out result" where
  "finalSetupOut ins name d =
     bind_result (findLink (''DaqOutMock::finalSetup '' @ name @ '' couldn'' @ [CHR 0x27] @ ''t find DaqInMock '') (do_linkStr d) ins) (\<lambda>l.
       Inr (d \<lparr> do_link := l \<rparr>))"

definition finalSetupBoolOut ::
  "(string \<times> daq_bool_in) list \<Rightarrow> (string \<times> daq_out) list \<Rightarrow> string \<Rightarrow> daq_bool_out \<Rightarrow> daq_bool_out result" where
  "finalSetupBoolOut boolIns outs name d =
     bind_result (findLink (''DaqBoolOutMock::finalSetup '' @ name @ '' couldn'' @ [CHR 0x27] @ ''t find DaqBoolInMock '') (bo_linkBoolInStr d) boolIns) (\<lambda>b.
     bind_result (findLink (''DaqOutMock::finalSetup '' @ name @ '' couldn'' @ [CHR 0x27] @ ''t find DaqOutMock '') (bo_linkCurrentOutStr d) outs) (\<lambda>c.
     bind_result (findLink (''DaqOutMock::finalSetup '' @ name @ '' couldn'' @ [CHR 0x27] @ ''t find DaqOutMock '') (bo_linkVoltageOutStr d) outs) (\<lambda>v.
       Inr (d \<lparr> bo_linkBoolIn := b, bo_linkCurrentOut := c, bo_linkVoltageOut := v \<rparr>))))"

fun mapResult :: "(string \<Rightarrow> 'a \<Rightarrow> 'b result) \<Rightarrow> (string \<times> 'a) list \<Rightarrow> (string \<times> 'b) list result" where
  "mapResult f [] = Inr []"
| "mapResult f ((k, v) # m) = bind_result (f k v) (\<lambda>v'. bind_result (mapResult f m) (\<lambda>m'. Inr ((k, v') # m')))"

text \<open>\<open>create\<close> of each object of a map, in the order of the constructor.\<close>

definition createAll :: "string \<Rightarrow> (string \<Rightarrow> 'd result) \<Rightarrow> string list \<Rightarrow> (string \<times> 'd) list result" where
  "createAll mapName mk names =
     insertAll (\<lambda>n m. bind_result (mk n) (\<lambda>d. insertDaq mapName (n, d) m)) names []"

definition daqInNames :: "string list" where
  "daqInNames = [''ILC_Motor_Current'', ''ILC_Comm_Current'', ''ILC_Motor_Voltage'', ''ILC_Comm_Voltage'']"

definition daqBoolOutNames :: "string list" where
  "daqBoolOutNames = [''ILC_Motor_Power_On_out'', ''ILC_Comm_Power_On_out'', ''cRIO_Interlock_Enable_out'']"

definition daqBoolInNames :: "string list" where
  "daqBoolInNames = [''ILC_Motor_Power_On_in'', ''ILC_Comm_Power_On_in'', ''cRIO_Interlock_Enable_in'']"

definition daqOutNames :: "string list" where
  "daqOutNames =
     [''ILC_Motor_Current_test'', ''ILC_Comm_Current_test'', ''ILC_Motor_Voltage_test'', ''ILC_Comm_Voltage_test'']"

definition mkFpgaIoOld :: "'n yaml \<Rightarrow> bool \<Rightarrow> fpga_io_old result" where
  "mkFpgaIoOld y useMocks =
     (if \<not> useMocks then Inl (Bug ''Only Mock instances available.'')
      else
        bind_result (createAll ''mapDaqIn'' (mkDaqIn y) daqInNames) (\<lambda>ins.
        bind_result (createAll ''mapDaqBoolOut'' (mkDaqBoolOut y) daqBoolOutNames) (\<lambda>boolOuts.
        bind_result (createAll ''mapDaqBoolIn'' (\<lambda>_. Inr mkDaqBoolIn) daqBoolInNames) (\<lambda>boolIns.
        bind_result (createAll ''mapDaqOut'' (mkDaqOut y) daqOutNames) (\<lambda>outs.
        bind_result (mapResult (finalSetupOut ins) outs) (\<lambda>outs'.
        bind_result (mapResult (finalSetupBoolOut boolIns outs) boolOuts) (\<lambda>boolOuts'.
          Inr \<lparr> mapDaqIn = ins, mapDaqOut = outs', mapDaqBoolIn = boolIns, mapDaqBoolOut = boolOuts', ilcs = allIlcs \<rparr>)))))))"

text \<open>\<open>write\<close> of the outputs. All readings of the clock in one call are \<open>now\<close>.\<close>

fun toLink :: "string option \<Rightarrow> ('d \<Rightarrow> 'd) \<Rightarrow> (string \<times> 'd) list \<Rightarrow> (string \<times> 'd) list" where
  "toLink None f m = m"
| "toLink (Some k) f m = map_modify k f m"

definition writeBoolOut :: "timepoint \<Rightarrow> string \<Rightarrow> fpga_io_old \<Rightarrow> fpga_io_old" where
  "writeBoolOut now name s =
     (case map_of (mapDaqBoolOut s) name of
        None \<Rightarrow> s
      | Some d \<Rightarrow>
          s \<lparr> mapDaqBoolOut := map_modify name (\<lambda>d. d \<lparr> bo_lastWrite := now \<rparr>) (mapDaqBoolOut s),
              mapDaqBoolIn := toLink (bo_linkBoolIn d) (setBoolIn now (bo_val d)) (mapDaqBoolIn s),
              mapDaqOut :=
                toLink (bo_linkVoltageOut d) (setSource (if bo_val d then bo_linkVoltageOutVal d else 0))
                  (toLink (bo_linkCurrentOut d) (setSource (if bo_val d then bo_linkCurrentOutVal d else 0)) (mapDaqOut s)) \<rparr>)"

definition writeOut :: "timepoint \<Rightarrow> string \<Rightarrow> fpga_io_old \<Rightarrow> fpga_io_old" where
  "writeOut now name s =
     (case map_of (mapDaqOut s) name of
        None \<Rightarrow> s
      | Some d \<Rightarrow>
          s \<lparr> mapDaqOut := map_modify name (\<lambda>d. d \<lparr> do_lastWrite := now \<rparr>) (mapDaqOut s),
              mapDaqIn := toLink (do_link d) (setRaw now (do_outVal d)) (mapDaqIn s) \<rparr>)"

definition writeAllOutputs :: "timepoint \<Rightarrow> fpga_io_old \<Rightarrow> fpga_io_old" where
  "writeAllOutputs now s =
     fold (writeOut now) (map fst (mapDaqOut s)) (fold (writeBoolOut now) (map fst (mapDaqBoolOut s)) s)"

section \<open>What is written comes back\<close>

definition linkedTo :: "string \<Rightarrow> daq_bool_out \<Rightarrow> bool" where
  "linkedTo ou d \<longleftrightarrow> bo_linkCurrentOut d = Some ou \<or> bo_linkVoltageOut d = Some ou"

text \<open>What a boolean output sends to the analog output \<open>ou\<close>; the voltage is set last.\<close>

definition sentTo :: "string \<Rightarrow> daq_bool_out \<Rightarrow> real" where
  "sentTo ou d =
     (if \<not> bo_val d then 0 else if bo_linkVoltageOut d = Some ou then bo_linkVoltageOutVal d else bo_linkCurrentOutVal d)"

lemma map_of_toLink: "map_of (toLink l f m) k = (if l = Some k then map_option f (map_of m k) else map_of m k)"
  by (cases l) (auto simp: map_of_map_modify)

lemma keys_toLink [simp]: "map fst (toLink l f m) = map fst m"
  by (cases l) simp_all

lemma writeBoolOut_frame:
  "mapDaqIn (writeBoolOut now n s) = mapDaqIn s" "map fst (mapDaqOut (writeBoolOut now n s)) = map fst (mapDaqOut s)"
  "map fst (mapDaqBoolOut (writeBoolOut now n s)) = map fst (mapDaqBoolOut s)"
  by (simp_all add: writeBoolOut_def split: option.splits)

text \<open>Apart from the time of its last write, a boolean output stays as it is.\<close>

definition untimed :: "fpga_io_old \<Rightarrow> string \<Rightarrow> daq_bool_out option" where
  "untimed s k = map_option (\<lambda>d. d \<lparr> bo_lastWrite := 0 \<rparr>) (map_of (mapDaqBoolOut s) k)"

lemma untimed_writeBoolOut: "untimed (writeBoolOut now n s) = untimed s"
  by (rule ext) (simp add: untimed_def writeBoolOut_def map_of_map_modify option.map_comp o_def split: option.splits)

lemma untimed_sends:
  "map_of (mapDaqBoolOut s) k = Some d \<Longrightarrow> untimed s k = Some d' \<Longrightarrow> linkedTo ou d = linkedTo ou d' \<and> sentTo ou d = sentTo ou d'"
  by (auto simp: untimed_def linkedTo_def sentTo_def)

lemma writeBoolOut_other:
  assumes "\<And>d. untimed s n = Some d \<Longrightarrow> \<not> linkedTo ou d"
  shows "map_of (mapDaqOut (writeBoolOut now n s)) ou = map_of (mapDaqOut s) ou"
proof (cases "map_of (mapDaqBoolOut s) n")
  case (Some d)
  then have "\<not> linkedTo ou d" using assms [of "d \<lparr> bo_lastWrite := 0 \<rparr>"] by (simp add: untimed_def linkedTo_def)
  then show ?thesis by (simp add: writeBoolOut_def Some map_of_toLink linkedTo_def)
qed (simp add: writeBoolOut_def)

lemma writeBoolOut_linked:
  assumes "untimed s n = Some d" and "linkedTo ou d" and "map_of (mapDaqOut s) ou = Some e"
  shows "map_of (mapDaqOut (writeBoolOut now n s)) ou = Some (setSource (sentTo ou d) e)"
proof -
  obtain d' where d': "map_of (mapDaqBoolOut s) n = Some d'" "d = d' \<lparr> bo_lastWrite := 0 \<rparr>"
    using assms(1) by (auto simp: untimed_def)
  then show ?thesis
    using assms(2, 3) by (auto simp: writeBoolOut_def map_of_toLink linkedTo_def sentTo_def setSource_def)
qed

lemma writeBoolOuts:
  assumes "untimed s b = Some d" and "linkedTo ou d" and "\<And>k d'. k \<noteq> b \<Longrightarrow> untimed s k = Some d' \<Longrightarrow> \<not> linkedTo ou d'"
    and "map_of (mapDaqOut s) ou = Some e"
  shows "\<exists>e'. map_of (mapDaqOut (fold (writeBoolOut now) ns s)) ou = Some e' \<and> do_scale e' = do_scale e \<and> do_link e' = do_link e \<and>
    do_outVal e' = (if b \<in> set ns then sentTo ou d / do_scale e else do_outVal e)"
  using assms
proof (induction ns arbitrary: s e)
  case (Cons n ns)
  let ?s = "writeBoolOut now n s"
  obtain e1 where e1: "map_of (mapDaqOut ?s) ou = Some e1" "do_scale e1 = do_scale e" "do_link e1 = do_link e"
    "do_outVal e1 = (if n = b then sentTo ou d / do_scale e else do_outVal e)"
    using writeBoolOut_linked [of s n d ou e now] writeBoolOut_other [of s n ou now] Cons.prems
    by (cases "n = b") (auto simp: setSource_def)
  then show ?case using Cons.IH [of ?s e1] Cons.prems by (auto simp: untimed_writeBoolOut)
qed simp

lemma writeOut_input:
  assumes "map_of (mapDaqIn s) i = Some a"
    and "map_of (mapDaqOut s) ou = Some e" and "do_link e = Some i"
    and "\<And>k e'. k \<noteq> ou \<Longrightarrow> map_of (mapDaqOut s) k = Some e' \<Longrightarrow> do_link e' \<noteq> Some i"
  shows "map_of (mapDaqIn (writeOut now n s)) i = Some (if n = ou then setRaw now (do_outVal e) a else a)"
  using assms by (auto simp: writeOut_def map_of_toLink map_of_map_modify split: option.splits)

text \<open>Writing an analog output does not change what any output is linked to or has to write.\<close>

lemma writeOut_outs:
  "map_option (\<lambda>d. d \<lparr> do_lastWrite := 0 \<rparr>) (map_of (mapDaqOut (writeOut now n s)) k) =
   map_option (\<lambda>d. d \<lparr> do_lastWrite := 0 \<rparr>) (map_of (mapDaqOut s) k)"
  by (auto simp: writeOut_def map_of_map_modify option.map_comp o_def split: option.splits)

definition feeds :: "string \<Rightarrow> string \<Rightarrow> real \<Rightarrow> fpga_io_old \<Rightarrow> bool" where
  "feeds ou i v s \<longleftrightarrow>
     (\<exists>e. map_of (mapDaqOut s) ou = Some e \<and> do_link e = Some i \<and> do_outVal e = v) \<and>
     (\<forall>k e. k \<noteq> ou \<longrightarrow> map_of (mapDaqOut s) k = Some e \<longrightarrow> do_link e \<noteq> Some i)"

lemma feeds_writeOut:
  assumes "feeds ou i v s"
  shows "feeds ou i v (writeOut now n s)"
proof -
  have eq: "(\<exists>e. map_of (mapDaqOut (writeOut now n s)) k = Some e \<and> do_link e = l \<and> do_outVal e = x) \<longleftrightarrow>
      (\<exists>e. map_of (mapDaqOut s) k = Some e \<and> do_link e = l \<and> do_outVal e = x)" for k l x
    by (auto simp: writeOut_def map_of_map_modify split: option.splits)
  show ?thesis using assms eq unfolding feeds_def by metis
qed

lemma writeOuts:
  assumes "feeds ou i v s" and "map_of (mapDaqIn s) i = Some a"
  shows "map_of (mapDaqIn (fold (writeOut now) ns s)) i = Some (if ou \<in> set ns then setRaw now v a else a)"
  using assms
proof (induction ns arbitrary: s a)
  case (Cons n ns)
  let ?a = "if n = ou then setRaw now v a else a"
  have "map_of (mapDaqIn (writeOut now n s)) i = Some ?a"
    using Cons.prems writeOut_input [of s i a ou] unfolding feeds_def by blast
  then have "map_of (mapDaqIn (fold (writeOut now) ns (writeOut now n s))) i = Some (if ou \<in> set ns then setRaw now v ?a else ?a)"
    by (rule Cons.IH [OF feeds_writeOut [OF Cons.prems(1)]])
  then show ?case by (auto simp: setRaw_def)
qed simp

text \<open>if a boolean output is the only one linked to an analog output, and that the only one linked to an input, then after writeAllOutputs() the input reads the linked value if the boolean is set and 0 if not, divided by the scale of the output, and its adjusted value is that times its own scale.\<close>

theorem outputs_come_back:
  assumes "map_of (mapDaqBoolOut s) b = Some d" and "linkedTo ou d"
    and "\<And>k d'. k \<noteq> b \<Longrightarrow> map_of (mapDaqBoolOut s) k = Some d' \<Longrightarrow> \<not> linkedTo ou d'"
    and "map_of (mapDaqOut s) ou = Some e" and "do_link e = Some i" and "do_scale e \<noteq> 0"
    and "\<And>k e'. k \<noteq> ou \<Longrightarrow> map_of (mapDaqOut s) k = Some e' \<Longrightarrow> do_link e' \<noteq> Some i"
    and "map_of (mapDaqIn s) i = Some a"
  shows "\<exists>a'. map_of (mapDaqIn (writeAllOutputs now s)) i = Some a' \<and> di_lastRead a' = now \<and>
    di_raw a' * do_scale e = sentTo ou d \<and> di_adjusted a' = di_raw a' * di_scale a"
proof -
  let ?s = "fold (writeBoolOut now) (map fst (mapDaqBoolOut s)) s"
  have links: "map_option do_link (map_of (mapDaqOut (fold (writeBoolOut now) ns s)) k) = map_option do_link (map_of (mapDaqOut s) k)"
    for ns k
  proof (induction ns arbitrary: s)
    case (Cons n ns)
    have "map_option do_link (map_of (mapDaqOut (writeBoolOut now n s)) k) = map_option do_link (map_of (mapDaqOut s) k)" for s
      by (auto simp: writeBoolOut_def map_of_toLink option.map_comp o_def setSource_def split: option.splits)
    then show ?case using Cons.IH [of "writeBoolOut now n s"] by simp
  qed simp
  have "mapDaqIn (fold (writeBoolOut now) ns s) = mapDaqIn s" for ns
    by (induction ns arbitrary: s) (simp_all add: writeBoolOut_frame)
  then have a: "map_of (mapDaqIn ?s) i = Some a" using assms(8) by simp
  have "untimed s b = Some (d \<lparr> bo_lastWrite := 0 \<rparr>)" using assms(1) by (simp add: untimed_def)
  moreover have "linkedTo ou (d \<lparr> bo_lastWrite := 0 \<rparr>)" "sentTo ou (d \<lparr> bo_lastWrite := 0 \<rparr>) = sentTo ou d"
    using assms(2) by (simp_all add: linkedTo_def sentTo_def)
  moreover have "\<not> linkedTo ou d'" if "k \<noteq> b" "untimed s k = Some d'" for k d'
    using assms(3) [OF that(1)] that(2) by (auto simp: untimed_def linkedTo_def)
  moreover have "b \<in> set (map fst (mapDaqBoolOut s))" using map_of_SomeD [OF assms(1)] by force
  ultimately obtain e' where e': "map_of (mapDaqOut ?s) ou = Some e'" "do_link e' = Some i" "do_outVal e' = sentTo ou d / do_scale e"
    using writeBoolOuts [of s b "d \<lparr> bo_lastWrite := 0 \<rparr>" ou e now "map fst (mapDaqBoolOut s)"] assms(4, 5) by auto
  have "do_link e2 \<noteq> Some i" if "k \<noteq> ou" "map_of (mapDaqOut ?s) k = Some e2" for k e2
    using assms(7) [OF that(1)] links [of "map fst (mapDaqBoolOut s)" k] that(2)
    by (cases "map_of (mapDaqOut s) k") auto
  then have "feeds ou i (sentTo ou d / do_scale e) ?s" using e' by (auto simp: feeds_def)
  moreover have "ou \<in> set (map fst (mapDaqOut s))" using map_of_SomeD [OF assms(4)] by force
  ultimately have "map_of (mapDaqIn (writeAllOutputs now s)) i = Some (setRaw now (sentTo ou d / do_scale e) a)"
    unfolding writeAllOutputs_def using writeOuts [OF _ a, of ou "sentTo ou d / do_scale e" now "map fst (mapDaqOut s)"] by simp
  then show ?thesis using assms(6) by (simp add: setRaw_def)
qed

text \<open>The motor current of the test configuration: 0.5 when the motor power is on, both scales 2.\<close>

definition exMotorOut :: daq_bool_out where
  "exMotorOut = \<lparr> bo_lastWrite = 0, bo_val = True, bo_linkBoolInStr = [], bo_linkBoolIn = None,
     bo_linkCurrentOutStr = ''ILC_Motor_Current_test'', bo_linkCurrentOut = Some ''ILC_Motor_Current_test'',
     bo_linkCurrentOutVal = 1 / 2, bo_linkVoltageOutStr = [], bo_linkVoltageOut = None, bo_linkVoltageOutVal = 0 \<rparr>"

definition exFpga :: fpga_io_old where
  "exFpga = \<lparr>
     mapDaqIn = [(''ILC_Motor_Current'', \<lparr> di_scale = 2, di_raw = 0, di_lastRead = 0, di_adjusted = 0 \<rparr>)],
     mapDaqOut = [(''ILC_Motor_Current_test'', \<lparr> do_scale = 2, do_outVal = 0, do_lastWrite = 0, do_source = 0,
       do_linkStr = ''ILC_Motor_Current'', do_link = Some ''ILC_Motor_Current'' \<rparr>)],
     mapDaqBoolIn = [], mapDaqBoolOut = [(''ILC_Motor_Power_On_out'', exMotorOut)], ilcs = [] \<rparr>"

theorem outputs_come_back_witness:
  "\<exists>a. map_of (mapDaqIn (writeAllOutputs 5 exFpga)) ''ILC_Motor_Current'' = Some a \<and> di_lastRead a = 5 \<and>
    di_raw a = 1 / 4 \<and> di_adjusted a = 1 / 2"
proof -
  have "\<exists>a'. map_of (mapDaqIn (writeAllOutputs 5 exFpga)) ''ILC_Motor_Current'' = Some a' \<and> di_lastRead a' = 5 \<and>
      di_raw a' * do_scale (snd (hd (mapDaqOut exFpga))) = sentTo ''ILC_Motor_Current_test'' exMotorOut \<and>
      di_adjusted a' = di_raw a' * di_scale (snd (hd (mapDaqIn exFpga)))"
    by (rule outputs_come_back [where b = "''ILC_Motor_Power_On_out''"])
      (auto simp: exFpga_def exMotorOut_def linkedTo_def split: if_splits)
  then show ?thesis by (auto simp: exFpga_def exMotorOut_def sentTo_def)
qed

section \<open>Numbers and bits of an ILC\<close>

lemma getIlc_spec: "getIlc allIlcs n = (if 1 \<le> uint n \<and> uint n \<le> 78
    then Inr \<lparr> ilc_name = (if uint n \<le> 72 then ''Axial_'' else ''Tangent_'') @ to_string (uint n), ilc_id = uint n, rawStatus = 0 \<rparr>
    else Inl (RangeError (''_getIlcPtr invalid val '' @ to_string (uint n))))"
proof -
  have low: "n < 1 \<longleftrightarrow> \<not> 1 \<le> uint n" by (auto simp: word_less_def)
  have len: "length allIlcs = 78" by (simp add: allIlcs_def)
  have at: "allIlcs ! (unat n - 1) = \<lparr> ilc_name = (if uint n \<le> 72 then ''Axial_'' else ''Tangent_'') @ to_string (uint n),
      ilc_id = uint n, rawStatus = 0 \<rparr>" if "1 \<le> uint n" "uint n \<le> 78"
  proof -
    have u: "uint n = int (unat n)" by simp
    then have "1 \<le> unat n" "unat n \<le> 78" using that by linarith+
    then have "[1..78] ! (unat n - 1) = uint n" using that by (subst nth_upto) auto
    moreover have "unat n - 1 < length [1..78]" using \<open>1 \<le> unat n\<close> \<open>unat n \<le> 78\<close> by simp
    ultimately show ?thesis unfolding allIlcs_def by (simp only: nth_map)
  qed
  have high: "78 < unat n \<longleftrightarrow> \<not> uint n \<le> 78"
  proof -
    have "uint n = int (unat n)" by simp
    then show ?thesis by linarith
  qed
  show ?thesis
  proof (cases "1 \<le> uint n \<and> uint n \<le> 78")
    case True
    then have "getIlc allIlcs n = Inr (allIlcs ! (unat n - 1))" by (simp only: getIlc_def low len high) simp
    then show ?thesis using True at by simp
  next
    case False
    then have "getIlc allIlcs n = Inl (RangeError (''_getIlcPtr invalid val '' @ to_string (uint n)))"
      by (simp only: getIlc_def low len high de_Morgan_conj if_True)
    then show ?thesis using False by (simp only: if_False)
  qed
qed

lemma ilc_bits: "ilcBit b w \<longleftrightarrow> bit w b" if "b < 8"
proof -
  have "push_bit b 1 AND w = (if bit w b then push_bit b 1 else 0)" by (rule bit_word_eqI) (auto simp: bit_simps)
  moreover have "push_bit b (1 :: 8 word) \<noteq> 0" using that by (simp add: push_bit_eq_mult)
  ultimately show ?thesis by (simp add: ilcBit_def)
qed

lemma commCount_range: "uint (getBroadcastCommCount i) < 16"
proof -
  have less: "uint (0xf0 AND rawStatus i) < 2 ^ 8" using uint_lt2p [of "0xf0 AND rawStatus i"] by simp
  have "uint (getBroadcastCommCount i) = uint (0xf0 AND rawStatus i) div 16"
    unfolding getBroadcastCommCount_def unsigned_drop_bit_eq
    by (simp add: drop_bit_eq_div take_bit_int_eq_self [OF _ less])
  moreover have "uint (0xf0 AND rawStatus i) < 256" using uint_lt2p [of "0xf0 AND rawStatus i"] by simp
  ultimately show ?thesis by linarith
qed

end
