(* ===== verification/TelemetryServer.thy ===== *)
theory TelemetryServer
  imports TelemetryStream
begin

text \<open>
  The server of the telemetry (\<open>system/TelemetryCom\<close>): the thread that accepts connections, and for
  each connection a \<open>ServerConnectionHandler\<close> with a thread that sends and one that reads. The
  threads run in any order, one step of \<open>srvStep\<close> at a time; the answers of the operating system
  (the descriptor of \<open>accept\<close>, the result of \<open>send\<close> and \<open>read\<close>) come with the event. The descriptors of the
  process are a table, so that closing one twice, or using one that was closed, has its effect.
\<close>

section \<open>State\<close>

datatype fd_owner = TeleConn nat | OtherFile

datatype sender_pc = SendTest | Sending "string list" | SendClosed | SendEnded

datatype reader_pc = ReadTest | Reading | ReadClosed | ReadEnded

record conn_handler =
  servConnHSock :: int
  connLoop :: bool
  senderPc :: sender_pc
  readerPc :: reader_pc
  connMsg :: string
  readyToJoinHandler :: bool
  joinedHandler :: bool
  readyToJoinReader :: bool
  joinedReader :: bool

definition newConnHandler :: "int \<Rightarrow> conn_handler" where
  "newConnHandler sock = \<lparr> servConnHSock = sock, connLoop = True, senderPc = SendTest, readerPc = ReadTest,
     connMsg = [], readyToJoinHandler = False, joinedHandler = False, readyToJoinReader = False, joinedReader = False \<rparr>"

datatype server_pc = NotStarted | Starting | Accepting | Sweeping "nat list" | ServerEnded

datatype shutdown_pc = ShutIdle | ShutJoining | ShutDone

text \<open>
  \<open>connObjects\<close> are all handlers that were made, \<open>handlerThreads\<close> the vector with their numbers.
  \<open>sendLog\<close> has for each \<open>send\<close> the handler, the item, where the bytes went and what they were.
  \<open>crashed\<close> is an exception that nothing catches, or undefined behaviour.
\<close>

record tele_server =
  connObjects :: "conn_handler list"
  handlerThreads :: "nat list"
  fds :: "int \<rightharpoonup> fd_owner"
  shutConns :: "fd_owner set"
  sendLog :: "(nat \<times> string \<times> fd_owner \<times> string) list"
  teleMap :: telem_map
  acceptLoop :: bool
  shutdownComCalled :: bool
  serverRunning :: bool
  serverPc :: server_pc
  serverJoined :: bool
  shutdownPc :: shutdown_pc
  crashed :: "cpp_error option"

definition mkTelemetryCom :: "telem_map \<Rightarrow> tele_server" where
  "mkTelemetryCom m = \<lparr> connObjects = [], handlerThreads = [], fds = Map.empty, shutConns = {}, sendLog = [],
     teleMap = m, acceptLoop = True, shutdownComCalled = False, serverRunning = False, serverPc = NotStarted,
     serverJoined = False, shutdownPc = ShutIdle, crashed = None \<rparr>"

definition modObject :: "nat \<Rightarrow> (conn_handler \<Rightarrow> conn_handler) \<Rightarrow> tele_server \<Rightarrow> tele_server" where
  "modObject k f s = s \<lparr> connObjects := (connObjects s)[k := f (connObjects s ! k)] \<rparr>"

section \<open>Joining the threads of a handler\<close>

text \<open>\<open>None\<close> is a call that waits because the thread has not ended.\<close>

definition joinHandler :: "conn_handler \<Rightarrow> conn_handler option" where
  "joinHandler h =
     (if joinedHandler h then Some h
      else if senderPc h = SendEnded then Some (h \<lparr> joinedHandler := True \<rparr>) else None)"

definition joinReader :: "conn_handler \<Rightarrow> conn_handler option" where
  "joinReader h =
     (if joinedReader h then Some h
      else if readerPc h = ReadEnded then Some (h \<lparr> joinedReader := True \<rparr>) else None)"

definition joinAll :: "conn_handler \<Rightarrow> conn_handler option" where
  "joinAll h = Option.bind (joinHandler h) joinReader"

text \<open>A thread is joinable until it was joined.\<close>

definition checkJoinReader :: "conn_handler \<Rightarrow> (bool \<times> conn_handler) option" where
  "checkJoinReader h =
     (if joinedReader h then Some (True, h)
      else if \<not> readyToJoinReader h then Some (False, h)
      else map_option (Pair True) (joinReader h))"

definition checkJoinAll :: "conn_handler \<Rightarrow> (bool \<times> conn_handler) option" where
  "checkJoinAll h =
     (if joinedHandler h then checkJoinReader h
      else if \<not> readyToJoinHandler h then Some (False, h)
      else Option.bind (joinHandler h) checkJoinReader)"

definition getJoinedAll :: "conn_handler \<Rightarrow> bool" where
  "getJoinedAll h \<longleftrightarrow> joinedHandler h \<and> joinedReader h"

section \<open>The system calls\<close>

definition sysClose :: "int \<Rightarrow> tele_server \<Rightarrow> tele_server" where
  "sysClose fd s = s \<lparr> fds := (fds s)(fd := None) \<rparr>"

definition sysShutdown :: "int \<Rightarrow> tele_server \<Rightarrow> tele_server" where
  "sysShutdown fd s = (case fds s fd of None \<Rightarrow> s | Some c \<Rightarrow> s \<lparr> shutConns := insert c (shutConns s) \<rparr>)"

text \<open>\<open>send\<close> fails on a descriptor that is not open and on a connection that was shut down.\<close>

definition sysSend :: "nat \<Rightarrow> string \<Rightarrow> int \<Rightarrow> int \<Rightarrow> string \<Rightarrow> tele_server \<Rightarrow> int \<times> tele_server" where
  "sysSend k i status fd msg s =
     (case fds s fd of
        None \<Rightarrow> (- 1, s)
      | Some c \<Rightarrow>
          if c \<in> shutConns s \<or> status < 0 then (- 1, s)
          else (status, s \<lparr> sendLog := sendLog s @ [(k, i, c, take (nat status) msg)] \<rparr>))"

definition servConnHShutdown :: "nat \<Rightarrow> tele_server \<Rightarrow> tele_server" where
  "servConnHShutdown k s =
     (let fd = servConnHSock (connObjects s ! k)
      in sysClose fd (sysShutdown fd (modObject k (connLoop_update (\<lambda>_. False)) s)))"

section \<open>The threads of a handler\<close>

text \<open>
  The thread that sends, from one test of \<open>_connLoop\<close>, \<open>send\<close> or \<open>close\<close> to the next. \<open>copyMap\<close>
  copies pointers, so that the items have their values of the time they are sent.
\<close>

definition servConnHandler :: "'j json_ops \<Rightarrow> nat \<Rightarrow> int \<Rightarrow> tele_server \<Rightarrow> tele_server option" where
  "servConnHandler J k status s =
     (let h = connObjects s ! k; pc = (\<lambda>p. modObject k (senderPc_update (\<lambda>_. p)))
      in case senderPc h of
           SendTest \<Rightarrow>
             Some (if connLoop h then pc (Sending (map fst (teleMap s))) s
                   else pc SendClosed (sysClose (servConnHSock h) s))
         | Sending [] \<Rightarrow> Some (pc SendTest s)
         | Sending (i # is) \<Rightarrow>
             Some (case map_of (teleMap s) i of
                     None \<Rightarrow> pc (Sending is) s
                   | Some item \<Rightarrow>
                       if doNotSend item then pc (Sending is) s
                       else
                         (let (status, s) = sysSend k i status (servConnHSock h) (sendItem J item) s
                          in if status < 0 then pc SendTest (servConnHShutdown k s) else pc (Sending is) s))
         | SendClosed \<Rightarrow> Some (modObject k (\<lambda>h. h \<lparr> senderPc := SendEnded, readyToJoinHandler := True \<rparr>) s)
         | SendEnded \<Rightarrow> None)"

text \<open>The thread that reads; \<open>input\<close> is the byte that \<open>read\<close> returned, \<open>None\<close> a result below one.\<close>

definition servConnReader :: "'j json_ops \<Rightarrow> nat \<Rightarrow> char option \<Rightarrow> tele_server \<Rightarrow> tele_server option" where
  "servConnReader J k input s =
     (let h = connObjects s ! k; pc = (\<lambda>p. modObject k (readerPc_update (\<lambda>_. p)));
          leave = (\<lambda>s. pc ReadClosed (sysClose (servConnHSock h) s))
      in case readerPc h of
           ReadTest \<Rightarrow> Some (if connLoop h then pc Reading s else leave s)
         | Reading \<Rightarrow>
             Some (case (if fds s (servConnHSock h) = None then None else input) of
                     None \<Rightarrow> leave s
                   | Some inChar \<Rightarrow>
                       (case servByte J inChar \<lparr> inMsg = connMsg h, rmap = teleMap s \<rparr> of
                          Inl e \<Rightarrow> s \<lparr> crashed := Some e \<rparr>
                        | Inr r \<Rightarrow> pc ReadTest (modObject k (connMsg_update (\<lambda>_. inMsg r)) (s \<lparr> teleMap := rmap r \<rparr>))))
         | ReadClosed \<Rightarrow> Some (modObject k (\<lambda>h. h \<lparr> readerPc := ReadEnded, readyToJoinReader := True \<rparr>) s)
         | ReadEnded \<Rightarrow> None)"

section \<open>The server thread and the shutdown\<close>

definition acceptTest :: "tele_server \<Rightarrow> tele_server" where
  "acceptTest s = s \<lparr> serverPc := (if acceptLoop s then Accepting else ServerEnded) \<rparr>"

text \<open>\<open>_server\<close> up to the loop; \<open>ok\<close> tells whether \<open>socket\<close>, \<open>bind\<close> and \<open>listen\<close> succeeded.\<close>

definition serverListen :: "bool \<Rightarrow> tele_server \<Rightarrow> tele_server" where
  "serverListen ok s =
     (if shutdownComCalled s then s \<lparr> serverPc := ServerEnded \<rparr>
      else if \<not> ok then s \<lparr> crashed := Some (Bug ''TelemetryCom::server() failed'') \<rparr>
      else acceptTest (s \<lparr> serverRunning := True \<rparr>))"

text \<open>\<open>accept\<close> returned \<open>sock\<close>. A socket that is accepted after \<open>_acceptLoop\<close> was cleared is never closed.\<close>

definition serverAccept :: "int \<Rightarrow> tele_server \<Rightarrow> tele_server" where
  "serverAccept sock s =
     (let k = length (connObjects s)
      in if \<not> acceptLoop s
         then acceptTest (if sock < 0 then s else s \<lparr> fds := (fds s)(sock \<mapsto> OtherFile) \<rparr>)
         else if sock < 0 then acceptTest (s \<lparr> acceptLoop := False \<rparr>)
         else
           s \<lparr> fds := (fds s)(sock \<mapsto> TeleConn k), connObjects := connObjects s @ [newConnHandler sock],
               handlerThreads := handlerThreads s @ [k], serverPc := Sweeping (handlerThreads s @ [k]) \<rparr>)"

text \<open>
  The loop over the handlers, one at a time. \<open>erase\<close> invalidates the iterator behind the erased
  element, which the loop goes on to compare and use.
\<close>

definition serverSweep :: "tele_server \<Rightarrow> tele_server option" where
  "serverSweep s =
     (case serverPc s of
        Sweeping [] \<Rightarrow> Some (acceptTest s)
      | Sweeping (k # ks) \<Rightarrow>
          (case checkJoinAll (connObjects s ! k) of
             None \<Rightarrow> None
           | Some (needToErase, h) \<Rightarrow>
               (let s = modObject k (\<lambda>_. h) s
                in Some (if needToErase \<or> getJoinedAll h
                         then s \<lparr> handlerThreads := remove1 k (handlerThreads s),
                                  crashed := Some (UndefinedBehaviour ''iterator after vector::erase'') \<rparr>
                         else s \<lparr> serverPc := Sweeping ks \<rparr>)))
      | _ \<Rightarrow> None)"

definition shutdownCom :: "tele_server \<Rightarrow> tele_server" where
  "shutdownCom s =
     (let s = s \<lparr> acceptLoop := False \<rparr>
      in if shutdownComCalled s then s
         else
           (let s = s \<lparr> shutdownComCalled := True \<rparr>
            in if serverRunning s then s \<lparr> shutdownPc := ShutJoining \<rparr>
               else (fold servConnHShutdown (handlerThreads s) s) \<lparr> shutdownPc := ShutDone \<rparr>))"

definition shutdownJoin :: "tele_server \<Rightarrow> tele_server option" where
  "shutdownJoin s =
     (if shutdownPc s = ShutJoining \<and> serverPc s = ServerEnded
      then Some ((fold servConnHShutdown (handlerThreads s) s) \<lparr> serverJoined := True, shutdownPc := ShutDone \<rparr>)
      else None)"

text \<open>
  The destructor of \<open>TelemetryCom\<close> after its call of \<open>shutdownCom\<close> returned: every handler is shut
  down and joined, and \<open>_serverThread\<close> must not be joinable any more.
\<close>

fun destroyHandlers :: "nat list \<Rightarrow> tele_server \<Rightarrow> tele_server option" where
  "destroyHandlers [] s = Some s"
| "destroyHandlers (k # ks) s =
     (let s = servConnHShutdown k s
      in Option.bind (joinAll (connObjects s ! k)) (\<lambda>h. destroyHandlers ks (modObject k (\<lambda>_. h) s)))"

definition destroyTelemetryCom :: "tele_server \<Rightarrow> tele_server option" where
  "destroyTelemetryCom s =
     (if shutdownPc s \<noteq> ShutDone then None
      else
        map_option
          (\<lambda>s. if serverPc s = NotStarted \<or> serverJoined s then s
               else s \<lparr> crashed := Some (RuntimeError ''std::terminate'') \<rparr>)
          (destroyHandlers (handlerThreads s) s))"

section \<open>Steps\<close>

text \<open>\<open>OpenOther\<close> is another part of the program opening a file or a socket.\<close>

datatype srv_event =
    StartServer
  | Listen bool
  | Accept int
  | Sweep
  | ShutdownCom
  | ShutdownJoin
  | SenderStep nat int
  | ReaderStep nat "char option"
  | OpenOther int

definition guarded :: "bool \<Rightarrow> 'a \<Rightarrow> 'a option" where
  "guarded b x = (if b then Some x else None)"

fun srvStep :: "'j json_ops \<Rightarrow> srv_event \<Rightarrow> tele_server \<Rightarrow> tele_server option" where
  "srvStep J StartServer s = guarded (serverPc s = NotStarted) (s \<lparr> serverPc := Starting \<rparr>)"
| "srvStep J (Listen ok) s = guarded (serverPc s = Starting) (serverListen ok s)"
| "srvStep J (Accept sock) s = guarded (serverPc s = Accepting \<and> fds s sock = None) (serverAccept sock s)"
| "srvStep J Sweep s = serverSweep s"
| "srvStep J ShutdownCom s = Some (shutdownCom s)"
| "srvStep J ShutdownJoin s = shutdownJoin s"
| "srvStep J (SenderStep k status) s = (if k < length (connObjects s) then servConnHandler J k status s else None)"
| "srvStep J (ReaderStep k input) s = (if k < length (connObjects s) then servConnReader J k input s else None)"
| "srvStep J (OpenOther fd) s = guarded (0 \<le> fd \<and> fds s fd = None) (s \<lparr> fds := (fds s)(fd \<mapsto> OtherFile) \<rparr>)"

inductive srv_reach ::
  "'j json_ops \<Rightarrow> telem_map \<Rightarrow> (srv_event \<Rightarrow> tele_server \<Rightarrow> bool) \<Rightarrow> tele_server \<Rightarrow> bool"
  for J m allowed where
  init: "srv_reach J m allowed (mkTelemetryCom m)"
| step: "srv_reach J m allowed s \<Longrightarrow> crashed s = None \<Longrightarrow> allowed e s \<Longrightarrow> srvStep J e s = Some s' \<Longrightarrow>
    srv_reach J m allowed s'"

fun srvRun ::
  "'j json_ops \<Rightarrow> (srv_event \<Rightarrow> tele_server \<Rightarrow> bool) \<Rightarrow> srv_event list \<Rightarrow> tele_server \<Rightarrow> tele_server option" where
  "srvRun J allowed [] s = Some s"
| "srvRun J allowed (e # es) s =
     (if crashed s = None \<and> allowed e s then Option.bind (srvStep J e s) (srvRun J allowed es) else None)"

lemma srv_reach_run:
  "srv_reach J m allowed s \<Longrightarrow> srvRun J allowed es s = Some s' \<Longrightarrow> srv_reach J m allowed s'"
  by (induction es arbitrary: s) (auto split: if_splits simp: bind_eq_Some_conv intro: srv_reach.step)

end
