(* ===== verification/TelemetryServerProps.thy ===== *)
theory TelemetryServerProps
  imports TelemetryServer
begin

text \<open>
  What the server of the telemetry keeps in every interleaving of its threads: joins do not wait,
  a client sees the items in order, what happens to connections that ended, and the shutdown.
\<close>

section \<open>How the operations change the handlers\<close>

lemma modObject_simps [simp]:
  "shutdownComCalled (modObject k f s) = shutdownComCalled s" "serverRunning (modObject k f s) = serverRunning s"
  "length (connObjects (modObject k f s)) = length (connObjects s)"
  "handlerThreads (modObject k f s) = handlerThreads s" "fds (modObject k f s) = fds s"
  "shutConns (modObject k f s) = shutConns s" "sendLog (modObject k f s) = sendLog s"
  "teleMap (modObject k f s) = teleMap s" "acceptLoop (modObject k f s) = acceptLoop s"
  "serverPc (modObject k f s) = serverPc s" "shutdownPc (modObject k f s) = shutdownPc s"
  "crashed (modObject k f s) = crashed s" "serverJoined (modObject k f s) = serverJoined s"
  by (simp_all add: modObject_def)

lemma modObject_nth:
  "j < length (connObjects s) \<Longrightarrow>
     connObjects (modObject k f s) ! j = (if j = k then f (connObjects s ! j) else connObjects s ! j)"
  by (simp add: modObject_def nth_list_update)

lemma sys_simps [simp]:
  "shutdownComCalled (sysShutdown fd s) = shutdownComCalled s" "serverRunning (sysShutdown fd s) = serverRunning s"
  "shutdownComCalled (sysClose fd s) = shutdownComCalled s" "serverRunning (sysClose fd s) = serverRunning s"
  "connObjects (sysClose fd s) = connObjects s" "handlerThreads (sysClose fd s) = handlerThreads s"
  "sendLog (sysClose fd s) = sendLog s" "teleMap (sysClose fd s) = teleMap s" "serverPc (sysClose fd s) = serverPc s"
  "shutdownPc (sysClose fd s) = shutdownPc s" "crashed (sysClose fd s) = crashed s" "fds (sysClose fd s) = (fds s)(fd := None)"
  "serverJoined (sysClose fd s) = serverJoined s"
  "connObjects (sysShutdown fd s) = connObjects s" "handlerThreads (sysShutdown fd s) = handlerThreads s"
  "sendLog (sysShutdown fd s) = sendLog s" "teleMap (sysShutdown fd s) = teleMap s"
  "serverPc (sysShutdown fd s) = serverPc s" "shutdownPc (sysShutdown fd s) = shutdownPc s"
  "crashed (sysShutdown fd s) = crashed s" "fds (sysShutdown fd s) = fds s" "serverJoined (sysShutdown fd s) = serverJoined s"
  by (simp_all add: sysClose_def sysShutdown_def split: option.split)

lemma servConnHShutdown_simps [simp]:
  "shutdownComCalled (servConnHShutdown k s) = shutdownComCalled s" "serverRunning (servConnHShutdown k s) = serverRunning s"
  "length (connObjects (servConnHShutdown k s)) = length (connObjects s)"
  "handlerThreads (servConnHShutdown k s) = handlerThreads s" "sendLog (servConnHShutdown k s) = sendLog s"
  "teleMap (servConnHShutdown k s) = teleMap s" "serverPc (servConnHShutdown k s) = serverPc s"
  "shutdownPc (servConnHShutdown k s) = shutdownPc s" "crashed (servConnHShutdown k s) = crashed s"
  "serverJoined (servConnHShutdown k s) = serverJoined s"
  "fds (servConnHShutdown k s) = (fds s)(servConnHSock (connObjects s ! k) := None)"
  by (simp_all add: servConnHShutdown_def Let_def)

lemma servConnHShutdown_nth:
  "j < length (connObjects s) \<Longrightarrow>
     connObjects (servConnHShutdown k s) ! j =
       (if j = k then (connObjects s ! j) \<lparr> connLoop := False \<rparr> else connObjects s ! j)"
  by (simp add: servConnHShutdown_def Let_def modObject_nth)

lemma sysSend_simps:
  assumes "sysSend k i status fd msg s = (r, s')"
  shows "s' = s \<and> r < 0 \<or>
    (\<exists>c. fds s fd = Some c \<and> 0 \<le> r \<and> s' = s \<lparr> sendLog := sendLog s @ [(k, i, c, take (nat r) msg)] \<rparr>)"
  using assms by (auto simp: sysSend_def split: option.splits if_splits)

text \<open>What a step makes of one handler: the parts of the two threads and of the joins.\<close>

inductive handler_step :: "conn_handler \<Rightarrow> conn_handler \<Rightarrow> bool" where
  stop: "handler_step h (h \<lparr> connLoop := False \<rparr>)"
| send_begin: "senderPc h = SendTest \<Longrightarrow> connLoop h \<Longrightarrow> handler_step h (h \<lparr> senderPc := Sending is \<rparr>)"
| send_next: "senderPc h = Sending (i # is) \<Longrightarrow> handler_step h (h \<lparr> senderPc := Sending is \<rparr>)"
| send_pass: "senderPc h = Sending [] \<Longrightarrow> handler_step h (h \<lparr> senderPc := SendTest \<rparr>)"
| send_fail: "senderPc h = Sending (i # is) \<Longrightarrow> handler_step h (h \<lparr> connLoop := False, senderPc := SendTest \<rparr>)"
| send_close: "senderPc h = SendTest \<Longrightarrow> \<not> connLoop h \<Longrightarrow> handler_step h (h \<lparr> senderPc := SendClosed \<rparr>)"
| send_end: "senderPc h = SendClosed \<Longrightarrow> handler_step h (h \<lparr> senderPc := SendEnded, readyToJoinHandler := True \<rparr>)"
| read_begin: "readerPc h = ReadTest \<Longrightarrow> connLoop h \<Longrightarrow> handler_step h (h \<lparr> readerPc := Reading \<rparr>)"
| read_byte: "readerPc h = Reading \<Longrightarrow> handler_step h (h \<lparr> connMsg := msg, readerPc := ReadTest \<rparr>)"
| read_close: "readerPc h = ReadTest \<and> \<not> connLoop h \<or> readerPc h = Reading \<Longrightarrow> handler_step h (h \<lparr> readerPc := ReadClosed \<rparr>)"
| read_end: "readerPc h = ReadClosed \<Longrightarrow> handler_step h (h \<lparr> readerPc := ReadEnded, readyToJoinReader := True \<rparr>)"
| check: "checkJoinAll h = Some (b, h') \<Longrightarrow> handler_step h h'"

inductive_cases handler_stepE: "handler_step h h'"

text \<open>The flags of a handler agree with its threads.\<close>

definition flags_ok :: "conn_handler \<Rightarrow> bool" where
  "flags_ok h \<longleftrightarrow>
     (readyToJoinHandler h \<longleftrightarrow> senderPc h = SendEnded) \<and> (readyToJoinReader h \<longleftrightarrow> readerPc h = ReadEnded) \<and>
     (joinedHandler h \<longrightarrow> senderPc h = SendEnded) \<and> (joinedReader h \<longrightarrow> readerPc h = ReadEnded) \<and>
     (senderPc h = SendClosed \<or> senderPc h = SendEnded \<longrightarrow> \<not> connLoop h)"

lemmas join_defs = checkJoinAll_def checkJoinReader_def joinHandler_def joinReader_def

lemma checkJoinAll_cases:
  "checkJoinAll h = Some (b, h') \<Longrightarrow>
     \<exists>j r. h' = h \<lparr> joinedHandler := j, joinedReader := r \<rparr> \<and> (b \<longleftrightarrow> j \<and> r) \<and>
       (j \<longrightarrow> joinedHandler h \<or> senderPc h = SendEnded) \<and> (r \<longrightarrow> joinedReader h \<or> readerPc h = ReadEnded)"
  by (intro exI [of _ "joinedHandler h'"] exI [of _ "joinedReader h'"])
    (auto simp: join_defs bind_eq_Some_conv split: if_splits)

lemma checkJoinAll_ok:
  assumes "flags_ok h"
  shows "\<exists>h'. checkJoinAll h = Some (senderPc h = SendEnded \<and> readerPc h = ReadEnded, h') \<and>
    (getJoinedAll h' \<longleftrightarrow> senderPc h = SendEnded \<and> readerPc h = ReadEnded)"
  using assms by (auto simp: join_defs flags_ok_def getJoinedAll_def)

lemma flags_ok_new: "flags_ok (newConnHandler sock)"
  by (simp add: flags_ok_def newConnHandler_def)

lemma flags_ok_step: "handler_step h h' \<Longrightarrow> flags_ok h \<Longrightarrow> flags_ok h'"
proof (induction rule: handler_step.induct)
  case (check h b h')
  obtain j r where "h' = h \<lparr> joinedHandler := j, joinedReader := r \<rparr>"
    "j \<longrightarrow> joinedHandler h \<or> senderPc h = SendEnded" "r \<longrightarrow> joinedReader h \<or> readerPc h = ReadEnded"
    using checkJoinAll_cases [OF check.hyps] by blast
  then show ?case using check.prems unfolding flags_ok_def by simp blast
qed (simp_all add: flags_ok_def, elim disjE conjE, simp_all)

text \<open>A step changes every handler by one of these, and may add a new one.\<close>

definition objects_step :: "tele_server \<Rightarrow> tele_server \<Rightarrow> bool" where
  "objects_step s s' \<longleftrightarrow>
     length (connObjects s) \<le> length (connObjects s') \<and>
     (\<forall>j < length (connObjects s). connObjects s' ! j = connObjects s ! j \<or> handler_step (connObjects s ! j) (connObjects s' ! j)) \<and>
     (\<forall>j < length (connObjects s'). length (connObjects s) \<le> j \<longrightarrow> (\<exists>sock. connObjects s' ! j = newConnHandler sock))"

lemma objects_step_same: "connObjects s' = connObjects s \<Longrightarrow> objects_step s s'"
  by (simp add: objects_step_def)

lemma objects_step_one:
  assumes "length (connObjects s') = length (connObjects s)"
    and "\<And>j. j < length (connObjects s) \<Longrightarrow> j \<noteq> k \<Longrightarrow> connObjects s' ! j = connObjects s ! j"
    and "k < length (connObjects s) \<Longrightarrow>
      handler_step (connObjects s ! k) (connObjects s' ! k) \<or> connObjects s' ! k = connObjects s ! k"
  shows "objects_step s s'"
  using assms unfolding objects_step_def by (metis le_refl not_le)

text \<open>A thread of a handler changes no other handler.\<close>

lemma sender_others:
  assumes "servConnHandler J k status s = Some s'"
  shows "length (connObjects s') = length (connObjects s) \<and>
    (\<forall>j < length (connObjects s). j \<noteq> k \<longrightarrow> connObjects s' ! j = connObjects s ! j)"
  using assms
  by (auto simp: servConnHandler_def Let_def sysSend_def modObject_nth servConnHShutdown_nth
      split: sender_pc.splits list.splits option.splits if_splits prod.splits)

lemma reader_others:
  assumes "servConnReader J k input s = Some s'"
  shows "length (connObjects s') = length (connObjects s) \<and>
    (\<forall>j < length (connObjects s). j \<noteq> k \<longrightarrow> connObjects s' ! j = connObjects s ! j)"
  using assms
  by (auto simp: servConnReader_def Let_def modObject_nth split: reader_pc.splits option.splits if_splits sum.splits)

lemma objects_step_sender:
  assumes "servConnHandler J k status s = Some s'" and "k < length (connObjects s)"
  shows "objects_step s s'"
proof (rule objects_step_one [where k = k])
  show "handler_step (connObjects s ! k) (connObjects s' ! k) \<or> connObjects s' ! k = connObjects s ! k"
    using assms
    by (auto simp: servConnHandler_def Let_def sysSend_def modObject_nth servConnHShutdown_nth
        split: sender_pc.splits list.splits option.splits if_splits prod.splits
        intro: send_begin send_next send_pass send_fail send_close send_end)
qed (use sender_others [OF assms(1)] in simp_all)

lemma objects_step_reader:
  assumes "servConnReader J k input s = Some s'" and "k < length (connObjects s)"
  shows "objects_step s s'"
proof (rule objects_step_one [where k = k])
  show "handler_step (connObjects s ! k) (connObjects s' ! k) \<or> connObjects s' ! k = connObjects s ! k"
    using assms
    by (auto simp: servConnReader_def Let_def modObject_nth
        split: reader_pc.splits option.splits if_splits sum.splits
        intro: read_begin read_byte read_close read_end)
qed (use reader_others [OF assms(1)] in simp_all)

lemma fold_shutdown_simps [simp]:
  "shutdownComCalled (fold servConnHShutdown ks s) = shutdownComCalled s" "serverRunning (fold servConnHShutdown ks s) = serverRunning s"
  "length (connObjects (fold servConnHShutdown ks s)) = length (connObjects s)"
  "handlerThreads (fold servConnHShutdown ks s) = handlerThreads s" "sendLog (fold servConnHShutdown ks s) = sendLog s"
  "teleMap (fold servConnHShutdown ks s) = teleMap s" "serverPc (fold servConnHShutdown ks s) = serverPc s"
  "crashed (fold servConnHShutdown ks s) = crashed s"
  by (induction ks arbitrary: s) simp_all

lemma fold_shutdown_nth:
  "j < length (connObjects s) \<Longrightarrow> connObjects (fold servConnHShutdown ks s) ! j =
     (if j \<in> set ks then (connObjects s ! j) \<lparr> connLoop := False \<rparr> else connObjects s ! j)"
  by (induction ks arbitrary: s) (auto simp: servConnHShutdown_nth)


lemma objects_step_shutdown: "objects_step s (fold servConnHShutdown ks s)"
  by (simp add: objects_step_def fold_shutdown_nth handler_step.stop)

lemma objects_step_trivial:
  "objects_step s s" "objects_step s (s \<lparr> serverPc := p \<rparr>)" "objects_step s (acceptTest s)"
  by (simp_all add: objects_step_same acceptTest_def)

lemma srvStep_objects:
  assumes "srvStep J e s = Some s'" and "\<forall>ks. serverPc s = Sweeping ks \<longrightarrow> set ks \<subseteq> {..<length (connObjects s)}"
  shows "objects_step s s'"
proof (cases e)
  case (Accept sock)
  then show ?thesis
    using assms(1) by (auto simp: guarded_def serverAccept_def Let_def acceptTest_def objects_step_def nth_append split: if_splits)
next
  case Sweep
  show ?thesis
  proof (cases "\<exists>k ks. serverPc s = Sweeping (k # ks)")
    case True
    then obtain k ks where k: "serverPc s = Sweeping (k # ks)" "k < length (connObjects s)" using assms(2) by fastforce
    then obtain b h where h: "checkJoinAll (connObjects s ! k) = Some (b, h)"
      using assms(1) Sweep by (auto simp: serverSweep_def split: option.splits)
    have "connObjects s' = (connObjects s)[k := h]"
      using assms(1) Sweep k h by (auto simp: serverSweep_def Let_def modObject_def split: if_splits)
    then show ?thesis
      using k(2) handler_step.check [OF h] by (intro objects_step_one [where k = k]) auto
  next
    case False
    then show ?thesis
      using assms(1) Sweep by (auto simp: serverSweep_def objects_step_trivial split: server_pc.splits list.splits)
  qed
next
  case ShutdownCom
  then show ?thesis
    using assms(1) by (auto simp: shutdownCom_def Let_def objects_step_def fold_shutdown_nth intro: handler_step.stop split: if_splits)
next
  case ShutdownJoin
  then show ?thesis
    using assms(1) objects_step_shutdown [of s "handlerThreads s"]
    by (auto simp: shutdownJoin_def objects_step_def split: if_splits)
qed (use assms in \<open>auto simp: guarded_def serverListen_def acceptTest_def objects_step_same
      intro: objects_step_sender objects_step_reader split: if_splits\<close>)

section \<open>Joins and the list of clients\<close>

definition sweep_ok :: "tele_server \<Rightarrow> bool" where
  "sweep_ok s \<longleftrightarrow>
     (\<forall>ks. serverPc s = Sweeping ks \<longrightarrow> set ks \<subseteq> {..<length (connObjects s)}) \<and>
     (crashed s = None \<longrightarrow> handlerThreads s = [0..<length (connObjects s)])"

lemma sweep_ok_step:
  assumes "srvStep J e s = Some s'" and "sweep_ok s" and "crashed s = None"
  shows "sweep_ok s'"
proof -
  have "length (connObjects s) \<le> length (connObjects s')"
    using srvStep_objects [OF assms(1)] assms(2) by (simp add: sweep_ok_def objects_step_def)
  then show ?thesis
  proof (cases e)
    case (SenderStep k st)
    then show ?thesis
      using assms by (auto simp: sweep_ok_def servConnHandler_def Let_def sysSend_def
          split: sender_pc.splits list.splits option.splits if_splits prod.splits)
  next
    case (ReaderStep k st)
    then show ?thesis
      using assms by (auto simp: sweep_ok_def servConnReader_def Let_def
          split: reader_pc.splits option.splits if_splits sum.splits)
  next
    case Sweep
    then show ?thesis
      using assms by (auto simp: sweep_ok_def serverSweep_def acceptTest_def Let_def subset_eq
          split: server_pc.splits list.splits option.splits if_splits)
  next
    case (Accept sock)
    then show ?thesis
      using assms by (auto simp: sweep_ok_def guarded_def serverAccept_def acceptTest_def Let_def split: if_splits)
  qed (use assms in \<open>auto simp: sweep_ok_def guarded_def serverListen_def acceptTest_def shutdownCom_def shutdownJoin_def Let_def
      split: if_splits\<close>)
qed

lemma srv_inv:
  "srv_reach J m allowed s \<Longrightarrow> sweep_ok s \<and> (\<forall>h \<in> set (connObjects s). flags_ok h)"
proof (induction rule: srv_reach.induct)
  case init
  then show ?case by (simp add: mkTelemetryCom_def sweep_ok_def)
next
  case (step s e s')
  have "objects_step s s'" using srvStep_objects [OF step.hyps(4)] step.IH by (simp add: sweep_ok_def)
  then have "flags_ok (connObjects s' ! j)" if "j < length (connObjects s')" for j
    using that step.IH flags_ok_step flags_ok_new unfolding objects_step_def
    by (metis not_le nth_mem)
  then show ?case using sweep_ok_step [OF step.hyps(4)] step by (auto simp: in_set_conv_nth)
qed

text \<open>C31: The accept loop never waits for a thread of a client, and it never removes a client: as
  long as nothing went wrong, its list holds every client there ever was, and when it looks at a
  client whose two threads have ended, which it does at the next connection, it erases the client
  and goes on with an iterator that this made invalid. Any other client it leaves alone.\<close>

theorem finished_client_breaks_server:
  assumes "srv_reach J m allowed s" and "crashed s = None"
  shows "handlerThreads s = [0..<length (connObjects s)] \<and>
    (\<forall>k ks. serverPc s = Sweeping (k # ks) \<longrightarrow> (\<exists>s'. srvStep J Sweep s = Some s' \<and>
      (if senderPc (connObjects s ! k) = SendEnded \<and> readerPc (connObjects s ! k) = ReadEnded
       then crashed s' = Some (UndefinedBehaviour ''iterator after vector::erase'')
       else crashed s' = None \<and> serverPc s' = Sweeping ks \<and> handlerThreads s' = handlerThreads s)))"
proof (intro conjI allI impI)
  have inv: "sweep_ok s" "\<forall>h \<in> set (connObjects s). flags_ok h" using srv_inv [OF assms(1)] by auto
  then show "handlerThreads s = [0..<length (connObjects s)]" using assms(2) by (simp add: sweep_ok_def)
  fix k ks
  assume k: "serverPc s = Sweeping (k # ks)"
  let ?ended = "senderPc (connObjects s ! k) = SendEnded \<and> readerPc (connObjects s ! k) = ReadEnded"
  have "k < length (connObjects s)" using k inv(1) by (auto simp: sweep_ok_def)
  then obtain h where h: "checkJoinAll (connObjects s ! k) = Some (?ended, h)" "getJoinedAll h \<longleftrightarrow> ?ended"
    using checkJoinAll_ok [of "connObjects s ! k"] inv(2) by auto
  show "\<exists>s'. srvStep J Sweep s = Some s' \<and>
      (if ?ended then crashed s' = Some (UndefinedBehaviour ''iterator after vector::erase'')
       else crashed s' = None \<and> serverPc s' = Sweeping ks \<and> handlerThreads s' = handlerThreads s)"
    by (cases ?ended) (simp_all add: k h assms(2) serverSweep_def Let_def)
qed

section \<open>Descriptors\<close>

definition in_use :: "conn_handler \<Rightarrow> bool" where
  "in_use h \<longleftrightarrow> \<not> (senderPc h \<in> {SendClosed, SendEnded} \<and> readerPc h \<in> {ReadClosed, ReadEnded})"

text \<open>A descriptor that a thread of a handler still uses is not given to a new file.\<close>

fun no_reuse :: "srv_event \<Rightarrow> tele_server \<Rightarrow> bool" where
  "no_reuse (Accept sock) s = (\<forall>h \<in> set (connObjects s). servConnHSock h = sock \<longrightarrow> \<not> in_use h)"
| "no_reuse (OpenOther fd) s = (\<forall>h \<in> set (connObjects s). servConnHSock h = fd \<longrightarrow> \<not> in_use h)"
| "no_reuse _ s = True"






lemmas srv_run_simps =
  guarded_def serverListen_def acceptTest_def serverAccept_def newConnHandler_def serverSweep_def join_defs getJoinedAll_def
  servConnHandler_def servConnReader_def modObject_def sysSend_def sysClose_def sysShutdown_def mkTelemetryCom_def in_use_def

text \<open>The map has one item, and one client connects and is sent it.\<close>

definition oneItem :: telem_map where
  "oneItem = [(itemId TItemZenithAngle, freshItem TItemZenithAngle)]"

definition oneClient :: "srv_event list" where
  "oneClient = [StartServer, Listen True, Accept 5, Sweep, Sweep, SenderStep 0 0, SenderStep 0 100]"

lemma oneClient_run:
  "\<exists>s bytes. srvRun J no_reuse oneClient (mkTelemetryCom oneItem) = Some s \<and>
     sendLog s = [(0, ''zenithAngle'', TeleConn 0, bytes)]"
  by (simp add: oneClient_def oneItem_def srv_run_simps Let_def freshItem_def)


theorem finished_client_breaks_server_witness:
  "\<exists>s. srv_reach (exJson exServer) oneItem (\<lambda>_ _. True) s \<and> handlerThreads s = [0, 1] \<and>
     (\<exists>s'. srvStep (exJson exServer) Sweep s = Some s' \<and>
        crashed s' = Some (UndefinedBehaviour ''iterator after vector::erase''))"
proof -
  let ?es = "[StartServer, Listen True, Accept 5, Sweep, Sweep, ReaderStep 0 None, ReaderStep 0 None, ReaderStep 0 None,
     SenderStep 0 0, SenderStep 0 0, SenderStep 0 0, SenderStep 0 0, Accept 5]"
  have "\<exists>s. srvRun (exJson exServer) (\<lambda>_ _. True) ?es (mkTelemetryCom oneItem) = Some s \<and> crashed s = None \<and>
      serverPc s = Sweeping [0, 1] \<and> length (connObjects s) = 2 \<and>
      senderPc (connObjects s ! 0) = SendEnded \<and> readerPc (connObjects s ! 0) = ReadEnded"
    by (simp add: oneItem_def srv_run_simps servConnHShutdown_def Let_def freshItem_def)
  then obtain s where s: "srvRun (exJson exServer) (\<lambda>_ _. True) ?es (mkTelemetryCom oneItem) = Some s" "crashed s = None"
      "serverPc s = Sweeping [0, 1]" "length (connObjects s) = 2"
      "senderPc (connObjects s ! 0) = SendEnded" "readerPc (connObjects s ! 0) = ReadEnded"
    by blast
  have reach: "srv_reach (exJson exServer) oneItem (\<lambda>_ _. True) s" by (rule srv_reach_run [OF srv_reach.init s(1)])
  show ?thesis
    using finished_client_breaks_server [OF reach s(2)] reach s(3-6) by (intro exI [of _ s]) (auto simp: numeral_2_eq_2)
qed

text \<open>Without that, telemetry reaches the wrong client, whatever the items: the first client goes
  away, its reader closes the descriptor, the next client gets the same one before the sender of
  the first has noticed, and then the first item goes to the second client twice, once from the
  sender of the first.\<close>

theorem reused_descriptor_mixes_clients:
  assumes "m = (i, item) # rest" and "\<not> doNotSend item"
  shows "\<exists>s bytes. srv_reach J m (\<lambda>_ _. True) s \<and> length (connObjects s) = 2 \<and>
    sendLog s = [(0, i, TeleConn 1, bytes), (1, i, TeleConn 1, bytes)]"
proof -
  let ?es = "[StartServer, Listen True, Accept 5, Sweep, Sweep, ReaderStep 0 None, ReaderStep 0 None, Accept 5, Sweep, Sweep, Sweep,
     SenderStep 0 0, SenderStep 0 100, SenderStep 1 0, SenderStep 1 100]"
  have "\<exists>s bytes. srvRun J (\<lambda>_ _. True) ?es (mkTelemetryCom m) = Some s \<and> length (connObjects s) = 2 \<and>
      sendLog s = [(0, i, TeleConn 1, bytes), (1, i, TeleConn 1, bytes)]"
    using assms(2) by (simp add: assms(1) srv_run_simps Let_def)
  then show ?thesis using srv_reach_run [OF srv_reach.init] by blast
qed

theorem reused_descriptor_mixes_clients_witness:
  "\<exists>s bytes. srv_reach (exJson exServer) oneItem (\<lambda>_ _. True) s \<and> length (connObjects s) = 2 \<and>
    sendLog s = [(0, ''zenithAngle'', TeleConn 1, bytes), (1, ''zenithAngle'', TeleConn 1, bytes)]"
  using reused_descriptor_mixes_clients [of oneItem "''zenithAngle''" "freshItem TItemZenithAngle" "[]" "exJson exServer"]
  by (simp add: oneItem_def freshItem_def)

section \<open>Shutdown\<close>

definition shut_ok :: "tele_server \<Rightarrow> bool" where
  "shut_ok s \<longleftrightarrow>
     (\<not> serverRunning s \<longrightarrow> connObjects s = [] \<and> serverPc s \<in> {NotStarted, Starting, ServerEnded}) \<and>
     (shutdownPc s \<noteq> ShutIdle \<longrightarrow> shutdownComCalled s) \<and>
     (shutdownPc s = ShutDone \<longrightarrow> serverPc s \<in> {NotStarted, Starting, ServerEnded} \<and>
        (\<forall>h \<in> set (connObjects s). \<not> connLoop h))"

lemma handler_step_stopped: "handler_step h h' \<Longrightarrow> \<not> connLoop h \<Longrightarrow> \<not> connLoop h'"
proof (induction rule: handler_step.induct)
  case (check h b h')
  then show ?case using checkJoinAll_cases [OF check.hyps] by auto
qed auto

lemma objects_step_stopped:
  assumes "objects_step s s'" and "length (connObjects s') = length (connObjects s)" and "\<forall>h \<in> set (connObjects s). \<not> connLoop h"
  shows "\<forall>h \<in> set (connObjects s'). \<not> connLoop h"
proof -
  have "\<not> connLoop (connObjects s' ! j)" if "j < length (connObjects s)" for j
    using assms(1,3) that unfolding objects_step_def by (metis handler_step_stopped nth_mem)
  then show ?thesis using assms(2) by (auto simp: in_set_conv_nth)
qed

lemma shut_ok_frame:
  assumes "shut_ok s" and "objects_step s s'" and "length (connObjects s') = length (connObjects s)" and "serverPc s' = serverPc s"
    and "serverRunning s' = serverRunning s" and "shutdownComCalled s' = shutdownComCalled s" and "shutdownPc s' = shutdownPc s"
  shows "shut_ok s'"
  using assms objects_step_stopped [OF assms(2,3)] unfolding shut_ok_def by auto

lemma shut_ok_reach: "srv_reach J m allowed s \<Longrightarrow> shut_ok s"
proof (induction rule: srv_reach.induct)
  case init
  then show ?case by (simp add: shut_ok_def mkTelemetryCom_def)
next
  case (step s e s')
  have sw: "sweep_ok s" using srv_inv [OF step.hyps(1)] by simp
  then have os: "objects_step s s'" using srvStep_objects [OF step.hyps(4)] by (simp add: sweep_ok_def)
  show ?case
  proof (cases e)
    case (SenderStep k st)
    show ?thesis
      by (rule shut_ok_frame [OF step.IH os]; use step.hyps(4) SenderStep in \<open>auto simp: servConnHandler_def Let_def sysSend_def
            split: sender_pc.splits list.splits option.splits if_splits prod.splits\<close>)
  next
    case (ReaderStep k st)
    show ?thesis
      by (rule shut_ok_frame [OF step.IH os]; use step.hyps(4) ReaderStep in \<open>auto simp: servConnReader_def Let_def
            split: reader_pc.splits option.splits if_splits sum.splits\<close>)
  next
    case Sweep
    then show ?thesis
      using step.hyps(4) step.IH
      by (auto simp: shut_ok_def serverSweep_def Let_def acceptTest_def split: server_pc.splits list.splits option.splits if_splits)
  next
    case ShutdownCom
    have "serverPc s \<in> {NotStarted, Starting, ServerEnded} \<and> connObjects s = []" if "\<not> serverRunning s"
      using step.IH that by (simp add: shut_ok_def)
    moreover have "connObjects (fold servConnHShutdown ks t) = []" if "connObjects t = []" for ks t
      using that by (metis fold_shutdown_simps(3) length_0_conv)
    ultimately show ?thesis
      using step.hyps(4) step.IH ShutdownCom by (auto simp: shut_ok_def shutdownCom_def Let_def split: if_splits)
  next
    case ShutdownJoin
    then have s': "s' = (fold servConnHShutdown (handlerThreads s) s) \<lparr> serverJoined := True, shutdownPc := ShutDone \<rparr>"
      "shutdownPc s = ShutJoining" "serverPc s = ServerEnded"
      using step.hyps(4) by (auto simp: shutdownJoin_def split: if_splits)
    have "handlerThreads s = [0..<length (connObjects s)]" using sw step.hyps(2) by (simp add: sweep_ok_def)
    then have "\<forall>h \<in> set (connObjects s'). \<not> connLoop h"
      by (auto simp: s' in_set_conv_nth fold_shutdown_nth)
    then show ?thesis using step.IH s'(2,3) by (simp add: shut_ok_def s'(1) flip: length_0_conv)
  next
    case (Accept sock)
    then show ?thesis
      using step.hyps(4) step.IH by (auto simp: shut_ok_def guarded_def serverAccept_def acceptTest_def Let_def split: if_splits)
  qed (use step.hyps(4) step.IH in \<open>auto simp: shut_ok_def guarded_def serverListen_def acceptTest_def split: if_splits\<close>)
qed

text \<open>The steps that the threads of a handler have left once \<open>_connLoop\<close> is false.\<close>

definition handler_work :: "conn_handler \<Rightarrow> nat" where
  "handler_work h =
     (case senderPc h of SendTest \<Rightarrow> 2 | Sending is \<Rightarrow> length is + 3 | SendClosed \<Rightarrow> 1 | SendEnded \<Rightarrow> 0) +
     (case readerPc h of ReadTest \<Rightarrow> 2 | Reading \<Rightarrow> 3 | ReadClosed \<Rightarrow> 1 | ReadEnded \<Rightarrow> 0)"

definition thread_work :: "tele_server \<Rightarrow> nat" where
  "thread_work s = sum_list (map handler_work (connObjects s))"

fun thread_event :: "srv_event \<Rightarrow> bool" where
  "thread_event (SenderStep k status) = True"
| "thread_event (ReaderStep k input) = True"
| "thread_event _ = False"

lemma handler_work_less:
  assumes "servConnHandler J k status s = Some s'" and "k < length (connObjects s)" and "\<not> connLoop (connObjects s ! k)"
  shows "handler_work (connObjects s' ! k) < handler_work (connObjects s ! k)"
  using assms
  by (auto simp: servConnHandler_def Let_def sysSend_def modObject_nth servConnHShutdown_nth handler_work_def
      split: sender_pc.splits list.splits option.splits if_splits prod.splits)

lemma handler_work_less_reader:
  assumes "servConnReader J k input s = Some s'" and "k < length (connObjects s)" and "\<not> connLoop (connObjects s ! k)"
    and "crashed s = None" and "crashed s' = None"
  shows "handler_work (connObjects s' ! k) < handler_work (connObjects s ! k)"
  using assms
  by (auto simp: servConnReader_def Let_def modObject_nth handler_work_def
      split: reader_pc.splits option.splits if_splits sum.splits)

lemma sum_list_one_less:
  assumes "length ys = length xs" and "k < length xs" and "f (ys ! k) < (f (xs ! k) :: nat)"
    and "\<And>j. j < length xs \<Longrightarrow> j \<noteq> k \<Longrightarrow> ys ! j = xs ! j"
  shows "sum_list (map f ys) < sum_list (map f xs)"
proof -
  have "ys = xs[k := ys ! k]" using assms(1,2,4) by (intro nth_equalityI) (auto simp: nth_list_update)
  moreover have "sum_list (map f (xs[k := y])) + f (xs ! k) = sum_list (map f xs) + f y" for y
    using assms(2) sum_list_update [of k "map f xs" "f y"] member_le_sum_list [of "f (xs ! k)" "map f xs"]
    by (simp add: map_update)
  ultimately show ?thesis using assms(3) by (metis add_less_cancel_right add_strict_left_mono)
qed

lemma thread_step_work:
  assumes "srvStep J e s = Some s'" and "thread_event e" and "\<forall>h \<in> set (connObjects s). \<not> connLoop h"
    and "crashed s = None"
  shows "thread_work s \<noteq> 0 \<and> length (connObjects s') = length (connObjects s) \<and> (\<forall>h \<in> set (connObjects s'). \<not> connLoop h) \<and>
    (crashed s' = None \<longrightarrow> thread_work s' < thread_work s)"
proof -
  obtain k where k: "k < length (connObjects s)" "handler_work (connObjects s ! k) \<noteq> 0"
    "length (connObjects s') = length (connObjects s)" "objects_step s s'"
    "\<forall>j < length (connObjects s). j \<noteq> k \<longrightarrow> connObjects s' ! j = connObjects s ! j"
    "crashed s' = None \<longrightarrow> handler_work (connObjects s' ! k) < handler_work (connObjects s ! k)"
  proof (cases e)
    case (SenderStep k status)
    then have h: "servConnHandler J k status s = Some s'" "k < length (connObjects s)" using assms(1) by (auto split: if_splits)
    have "handler_work (connObjects s' ! k) < handler_work (connObjects s ! k)"
      using handler_work_less [OF h] assms(3) h(2) by simp
    then show ?thesis using that [of k] h sender_others [OF h(1)] objects_step_sender [OF h] by auto
  next
    case (ReaderStep k input)
    then have h: "servConnReader J k input s = Some s'" "k < length (connObjects s)" using assms(1) by (auto split: if_splits)
    have "readerPc (connObjects s ! k) \<noteq> ReadEnded" using h(1) by (auto simp: servConnReader_def)
    then have "handler_work (connObjects s ! k) \<noteq> 0" by (auto simp: handler_work_def split: reader_pc.splits)
    moreover have "crashed s' = None \<longrightarrow> handler_work (connObjects s' ! k) < handler_work (connObjects s ! k)"
      using handler_work_less_reader [OF h _ assms(4)] assms(3) h(2) by simp
    ultimately show ?thesis using that [of k] h reader_others [OF h(1)] objects_step_reader [OF h] by auto
  qed (use assms(2) in simp_all)
  have "handler_work (connObjects s ! k) \<le> thread_work s"
    unfolding thread_work_def using k(1) by (intro member_le_sum_list) auto
  moreover have "crashed s' = None \<longrightarrow> thread_work s' < thread_work s"
    unfolding thread_work_def using sum_list_one_less [OF k(3,1), of handler_work] k(5,6) by simp
  ultimately show ?thesis using k(2,3) objects_step_stopped [OF k(4,3) assms(3)] by auto
qed

lemma threads_end:
  assumes "srvRun J allowed es s = Some s'" and "\<forall>e \<in> set es. thread_event e" and "\<forall>h \<in> set (connObjects s). \<not> connLoop h"
  shows "length es \<le> thread_work s"
  using assms
proof (induction es arbitrary: s)
  case (Cons e es)
  obtain t where t: "crashed s = None" "srvStep J e s = Some t" "srvRun J allowed es t = Some s'"
    using Cons.prems(1) by (auto simp: bind_eq_Some_conv split: if_splits)
  note w = thread_step_work [OF t(2) _ Cons.prems(3) t(1)]
  show ?case
  proof (cases "crashed t = None")
    case True
    then show ?thesis using Cons.IH [OF t(3)] Cons.prems(2) w by force
  next
    case False
    then have "es = []" using t(3) by (cases es) auto
    then show ?thesis using w Cons.prems(2) by simp
  qed
qed simp

definition threads_ended :: "tele_server \<Rightarrow> bool" where
  "threads_ended s \<longleftrightarrow> (\<forall>h \<in> set (connObjects s). senderPc h = SendEnded \<and> readerPc h = ReadEnded)"

lemma no_thread_step_iff:
  "(\<forall>e. thread_event e \<longrightarrow> srvStep J e s = None) \<longleftrightarrow> threads_ended s"
proof
  assume none: "\<forall>e. thread_event e \<longrightarrow> srvStep J e s = None"
  show "threads_ended s"
    unfolding threads_ended_def
  proof
    fix h
    assume "h \<in> set (connObjects s)"
    then obtain k where k: "k < length (connObjects s)" "h = connObjects s ! k" by (auto simp: in_set_conv_nth)
    have "servConnHandler J k 0 s = None" "servConnReader J k None s = None"
      using none [rule_format, of "SenderStep k 0"] none [rule_format, of "ReaderStep k None"] k(1) by auto
    then show "senderPc h = SendEnded \<and> readerPc h = ReadEnded"
      by (auto simp: k(2) servConnHandler_def servConnReader_def Let_def split: sender_pc.splits list.splits reader_pc.splits option.splits)
  qed
next
  assume ended: "threads_ended s"
  show "\<forall>e. thread_event e \<longrightarrow> srvStep J e s = None"
  proof (intro allI impI)
    fix e
    assume "thread_event e"
    then show "srvStep J e s = None"
      using ended by (cases e) (simp_all add: threads_ended_def servConnHandler_def servConnReader_def)
  qed
qed

lemma joinAll_ended:
  assumes "senderPc h = SendEnded" and "readerPc h = ReadEnded"
  shows "\<exists>h'. joinAll h = Some h' \<and> senderPc h' = SendEnded \<and> readerPc h' = ReadEnded"
  using assms by (cases "joinedHandler h"; cases "joinedReader h") (simp_all add: joinAll_def joinHandler_def joinReader_def)

lemma destroyHandlers_ended:
  assumes "threads_ended s" and "set ks \<subseteq> {..<length (connObjects s)}"
  shows "\<exists>t. destroyHandlers ks s = Some t \<and> serverPc t = serverPc s \<and> serverJoined t = serverJoined s \<and> crashed t = crashed s"
  using assms
proof (induction ks arbitrary: s)
  case (Cons k ks)
  let ?s = "servConnHShutdown k s"
  have k: "k < length (connObjects s)" using Cons.prems(2) by simp
  then have "senderPc (connObjects ?s ! k) = SendEnded" "readerPc (connObjects ?s ! k) = ReadEnded"
    using Cons.prems(1) by (simp_all add: servConnHShutdown_nth threads_ended_def)
  then obtain h where h: "joinAll (connObjects ?s ! k) = Some h" "senderPc h = SendEnded" "readerPc h = ReadEnded"
    using joinAll_ended by blast
  have "connObjects (modObject k (\<lambda>_. h) ?s) ! j = (if j = k then h else connObjects s ! j)" if "j < length (connObjects s)" for j
    using that by (simp add: modObject_nth servConnHShutdown_nth)
  then have "threads_ended (modObject k (\<lambda>_. h) ?s)"
    using Cons.prems(1) h(2,3) by (simp add: threads_ended_def all_set_conv_all_nth)
  then show ?case using Cons.IH [of "modObject k (\<lambda>_. h) ?s"] Cons.prems(2) h(1) by (simp add: Let_def)
qed simp

text \<open>C30: Once \<open>shutdownCom\<close> has returned, the threads of the clients end by themselves: they take no
  more steps than \<open>thread_work\<close>, whatever the system answers. When none of them can go on, every one
  of them has ended, and the joins of the destructor return; what the destructor then finds is a
  server thread that was joined, was never started, or, if the shutdown came between its start and
  its first \<open>listen\<close>, one that is still joinable, which ends the program.\<close>

theorem shutdown_ends:
  assumes "srv_reach J m allowed s" and "shutdownPc s = ShutDone" and "crashed s = None"
    and "srvRun J allowed es s = Some s'" and "\<forall>e \<in> set es. thread_event e"
  shows "length es \<le> thread_work s \<and>
    (crashed s' = None \<and> (\<forall>e. thread_event e \<longrightarrow> srvStep J e s' = None) \<longrightarrow>
      (\<exists>t. destroyTelemetryCom s' = Some t \<and>
         crashed t = (if serverPc s' = NotStarted \<or> serverJoined s' then None else Some (RuntimeError ''std::terminate''))))"
proof -
  have stopped: "\<forall>h \<in> set (connObjects s). \<not> connLoop h" using shut_ok_reach [OF assms(1)] assms(2) by (simp add: shut_ok_def)
  have "\<exists>t. destroyTelemetryCom s' = Some t \<and>
      crashed t = (if serverPc s' = NotStarted \<or> serverJoined s' then None else Some (RuntimeError ''std::terminate''))"
    if c: "crashed s' = None" and none: "\<forall>e. thread_event e \<longrightarrow> srvStep J e s' = None"
  proof -
    have reach: "srv_reach J m allowed s'" by (rule srv_reach_run [OF assms(1,4)])
    have pc: "shutdownPc s' = shutdownPc s" using assms(4,5)
    proof (induction es arbitrary: s)
      case (Cons e es)
      obtain t where t: "srvStep J e s = Some t" "srvRun J allowed es t = Some s'"
        using Cons.prems(1) by (auto simp: bind_eq_Some_conv split: if_splits)
      have "shutdownPc t = shutdownPc s"
        using t(1) Cons.prems(2)
        by (cases e) (auto simp: servConnHandler_def servConnReader_def Let_def sysSend_def
            split: if_splits sender_pc.splits list.splits option.splits prod.splits reader_pc.splits sum.splits)
      then show ?case using Cons.IH [OF t(2)] Cons.prems(2) by simp
    qed simp
    have "handlerThreads s' = [0..<length (connObjects s')]" using srv_inv [OF reach] c by (simp add: sweep_ok_def)
    moreover have "threads_ended s'" using none no_thread_step_iff by blast
    ultimately obtain t where t: "destroyHandlers (handlerThreads s') s' = Some t" "serverPc t = serverPc s'"
      "serverJoined t = serverJoined s'" "crashed t = crashed s'"
      using destroyHandlers_ended [of s' "handlerThreads s'"] by (auto simp: atLeast0LessThan)
    then show ?thesis using pc assms(2) c by (auto simp: destroyTelemetryCom_def)
  qed
  then show ?thesis using threads_end [OF assms(4,5) stopped] by blast
qed

theorem shutdown_ends_witness:
  "\<exists>s s' t. srv_reach (exJson exServer) oneItem (\<lambda>_ _. True) s \<and> thread_work s = 6 \<and>
     srvRun (exJson exServer) (\<lambda>_ _. True) [SenderStep 0 0, SenderStep 0 0, SenderStep 0 0, ReaderStep 0 None, ReaderStep 0 None] s = Some s' \<and>
     destroyTelemetryCom s' = Some t \<and> crashed t = None"
proof -
  let ?J = "exJson exServer"
  let ?es = "[StartServer, Listen True, Accept 5, Sweep, Sweep, SenderStep 0 0, SenderStep 0 0, ReaderStep 0 None,
     ShutdownCom, Accept 6, ShutdownJoin]"
  let ?ts = "[SenderStep 0 0, SenderStep 0 0, SenderStep 0 0, ReaderStep 0 None, ReaderStep 0 None]"
  have "\<exists>s s'. srvRun ?J (\<lambda>_ _. True) ?es (mkTelemetryCom oneItem) = Some s \<and> shutdownPc s = ShutDone \<and> crashed s = None \<and>
      thread_work s = 6 \<and> srvRun ?J (\<lambda>_ _. True) ?ts s = Some s' \<and> crashed s' = None \<and> serverJoined s' \<and> threads_ended s'"
    by (simp add: oneItem_def srv_run_simps shutdownCom_def shutdownJoin_def servConnHShutdown_def Let_def freshItem_def
        thread_work_def handler_work_def threads_ended_def)
  then obtain s s' where s: "srvRun ?J (\<lambda>_ _. True) ?es (mkTelemetryCom oneItem) = Some s" "shutdownPc s = ShutDone" "crashed s = None"
    "thread_work s = 6" "srvRun ?J (\<lambda>_ _. True) ?ts s = Some s'" "crashed s' = None" "serverJoined s'" "threads_ended s'"
    by blast
  have reach: "srv_reach ?J oneItem (\<lambda>_ _. True) s" by (rule srv_reach_run [OF srv_reach.init s(1)])
  have events: "\<forall>e \<in> set ?ts. thread_event e" by simp
  show ?thesis
    using shutdown_ends [OF reach s(2,3,5) events] reach s(4-8) no_thread_step_iff [of ?J s'] by metis
qed

section \<open>The order of the items\<close>

definition sendFlags :: "telem_map \<Rightarrow> (string \<times> bool) list" where
  "sendFlags m = map (\<lambda>(i, item). (i, doNotSend item)) m"

definition sendKeys :: "telem_map \<Rightarrow> string list" where
  "sendKeys m = map fst (filter (\<lambda>(i, item). \<not> doNotSend item) m)"

lemma sendKeys_flags: "sendKeys m = map fst (filter (\<lambda>(i, b). \<not> b) (sendFlags m))"
  by (induction m) (auto simp: sendKeys_def sendFlags_def)

lemma sendFlags_keys: "map fst m = map fst (sendFlags m)"
  by (induction m) (auto simp: sendFlags_def)

lemma sendFlags_modify:
  "(\<And>item. map_of m i = Some item \<Longrightarrow> doNotSend (f item) = doNotSend item) \<Longrightarrow> distinct (map fst m) \<Longrightarrow>
     sendFlags (map_modify i f m) = sendFlags m"
  by (auto simp: sendFlags_def map_modify_def split: if_splits)

lemma setItemFromJson_flags:
  assumes "setItemFromJson J js m = (r, m')" and "distinct (map fst m)"
  shows "sendFlags m' = sendFlags m"
proof -
  have "doNotSend item' = doNotSend item" if "setFromJson J js x item = (q, item')" for x item q item'
    using that by (auto simp: setFromJson_def split: sum.splits bool.splits prod.splits)
  then show ?thesis
    using assms by (auto simp: setItemFromJson_def Let_def intro!: sendFlags_modify
        split: sum.splits option.splits prod.splits json_exception.splits)
qed

lemma servByte_flags:
  assumes "servByte J c r = Inr r'" and "distinct (map fst (rmap r))"
  shows "sendFlags (rmap r') = sendFlags (rmap r)"
proof -
  have copy: "sendFlags (copyElevation m) = sendFlags m" if "distinct (map fst m)" for m
    using that by (auto simp: copyElevation_def setDouble_def intro!: sendFlags_modify split: option.splits)
  have set: "sendFlags m' = sendFlags (rmap r) \<and> distinct (map fst m')"
    if "setItemFromJsonStr J t (rmap r) = (q, m')" for t q m'
  proof -
    have "sendFlags m' = sendFlags (rmap r)"
      using that setItemFromJson_flags [OF _ assms(2)] by (auto simp: setItemFromJsonStr_def split: sum.splits)
    then show ?thesis using assms(2) sendFlags_keys [of m'] sendFlags_keys [of "rmap r"] by simp
  qed
  show ?thesis
    using assms(1) copy by (auto simp: servByte_def dest!: set split: if_splits prod.splits sum.splits)
qed

text \<open>The items that the sender of client \<open>k\<close> has sent.\<close>

definition sentItems :: "nat \<Rightarrow> tele_server \<Rightarrow> string list" where
  "sentItems k s = map (\<lambda>(_, i, _). i) (filter (\<lambda>(k', _). k' = k) (sendLog s))"

definition order_ok :: "string list \<Rightarrow> conn_handler \<Rightarrow> string list \<Rightarrow> bool" where
  "order_ok keys h sent \<longleftrightarrow>
     (\<exists>n pre post. sent = concat (replicate n keys) @ pre \<and> keys = pre @ post \<and>
        (case senderPc h of
           SendTest \<Rightarrow> connLoop h \<longrightarrow> pre = []
         | Sending is \<Rightarrow> filter (\<lambda>i. i \<in> set keys) is = post
         | _ \<Rightarrow> True))"

lemma sendKeys_iff:
  "distinct (map fst m) \<Longrightarrow> map_of m i = Some item \<Longrightarrow> i \<in> set (sendKeys m) \<longleftrightarrow> \<not> doNotSend item"
  by (force simp: sendKeys_def dest: eq_key_imp_eq_value)

lemma sendKeys_filter:
  assumes "distinct (map fst m)"
  shows "filter (\<lambda>i. i \<in> set (sendKeys m)) (map fst m) = sendKeys m"
proof -
  have "filter (\<lambda>p. fst p \<in> set (sendKeys m)) m = filter (\<lambda>(i, item). \<not> doNotSend item) m"
    using sendKeys_iff [OF assms] assms by (intro filter_cong) auto
  then show ?thesis by (simp add: filter_map comp_def) (simp add: sendKeys_def)
qed

lemma order_okI:
  assumes "sent = concat (replicate n keys) @ pre" and "keys = pre @ post"
    and "case senderPc h of SendTest \<Rightarrow> connLoop h \<longrightarrow> pre = [] | Sending is \<Rightarrow> filter (\<lambda>i. i \<in> set keys) is = post | _ \<Rightarrow> True"
  shows "order_ok keys h sent"
  using assms unfolding order_ok_def by blast

text \<open>The sender at an item: it is not to be sent, or it is sent, or the connection failed.\<close>

lemma sending_step:
  assumes "servConnHandler J k status s = Some s'" and "k < length (connObjects s)" and "distinct (map fst (teleMap s))"
    and "senderPc (connObjects s ! k) = Sending (i # js)"
  shows "i \<notin> set (sendKeys (teleMap s)) \<and> sentItems k s' = sentItems k s \<and> senderPc (connObjects s' ! k) = Sending js \<or>
    i \<in> set (sendKeys (teleMap s)) \<and> sentItems k s' = sentItems k s @ [i] \<and> senderPc (connObjects s' ! k) = Sending js \<or>
    sentItems k s' = sentItems k s \<and> senderPc (connObjects s' ! k) = SendTest \<and> \<not> connLoop (connObjects s' ! k)"
proof (cases "map_of (teleMap s) i")
  case None
  then have "i \<notin> set (sendKeys (teleMap s))" by (auto simp: sendKeys_def map_of_eq_None_iff)
  then show ?thesis using assms None by (auto simp: servConnHandler_def Let_def sentItems_def modObject_nth)
next
  case (Some item)
  note step = assms(1) [unfolded servConnHandler_def Let_def] and K = sendKeys_iff [OF assms(3) Some]
  show ?thesis
  proof (cases "doNotSend item")
    case True
    then show ?thesis using step assms(2,4) Some K by (auto simp: sentItems_def modObject_nth)
  next
    case False
    obtain r t where r: "sysSend k i status (servConnHSock (connObjects s ! k)) (sendItem J item) s = (r, t)" by fastforce
    then have s': "s' = (if r < 0 then modObject k (senderPc_update (\<lambda>_. SendTest)) (servConnHShutdown k t)
        else modObject k (senderPc_update (\<lambda>_. Sending js)) t)"
      using step assms(4) Some False by simp
    show ?thesis
    proof (cases "r < 0")
      case True
      then have "t = s" using sysSend_simps [OF r] by auto
      then show ?thesis using True s' assms(2) by (simp add: sentItems_def modObject_nth servConnHShutdown_nth)
    next
      case ok: False
      then obtain c where "t = s \<lparr> sendLog := sendLog s @ [(k, i, c, take (nat r) (sendItem J item))] \<rparr>"
        using sysSend_simps [OF r] by auto
      then show ?thesis using ok s' assms(2) K False by (simp add: sentItems_def modObject_nth)
    qed
  qed
qed

lemma order_ok_step:
  assumes "servConnHandler J k status s = Some s'" and "k < length (connObjects s)" and "distinct (map fst (teleMap s))"
    and "order_ok (sendKeys (teleMap s)) (connObjects s ! k) (sentItems k s)"
  shows "order_ok (sendKeys (teleMap s)) (connObjects s' ! k) (sentItems k s')"
proof -
  let ?K = "sendKeys (teleMap s)" and ?h = "connObjects s ! k"
  obtain n pre post where o: "sentItems k s = concat (replicate n ?K) @ pre" "?K = pre @ post"
    "case senderPc ?h of SendTest \<Rightarrow> connLoop ?h \<longrightarrow> pre = [] | Sending is \<Rightarrow> filter (\<lambda>i. i \<in> set ?K) is = post | _ \<Rightarrow> True"
    using assms(4) by (auto simp: order_ok_def)
  note step = assms(1) [unfolded servConnHandler_def Let_def]
  show ?thesis
  proof (cases "senderPc ?h")
    case SendTest
    then have "sentItems k s' = sentItems k s"
      "senderPc (connObjects s' ! k) = (if connLoop ?h then Sending (map fst (teleMap s)) else SendClosed)"
      using step assms(2) by (auto simp: sentItems_def modObject_nth)
    then show ?thesis
      using o SendTest sendKeys_filter [OF assms(3)] by (intro order_okI [where n = n and pre = pre and post = post]) auto
  next
    case (Sending xs)
    show ?thesis
    proof (cases xs)
      case Nil
      then have "sentItems k s' = sentItems k s" "senderPc (connObjects s' ! k) = SendTest" "post = []"
        using step assms(2) Sending o(3) by (auto simp: sentItems_def modObject_nth)
      moreover have "concat (replicate n ?K) @ ?K = concat (replicate (Suc n) ?K)" by (induction n) auto
      ultimately show ?thesis
        using o(1,2) by (intro order_okI [where n = "Suc n" and pre = "[]" and post = ?K]) simp_all
    next
      case (Cons i js)
      let ?post = "filter (\<lambda>i. i \<in> set ?K) js"
      have post: "post = filter (\<lambda>i. i \<in> set ?K) (i # js)" using o(3) Sending Cons by simp
      then have K: "?K = pre @ (if i \<in> set ?K then [i] else []) @ ?post"
        by (intro trans [OF o(2)]) simp
      consider (skip) "i \<notin> set ?K" "sentItems k s' = sentItems k s" "senderPc (connObjects s' ! k) = Sending js"
        | (sent) "i \<in> set ?K" "sentItems k s' = sentItems k s @ [i]" "senderPc (connObjects s' ! k) = Sending js"
        | (failed) "sentItems k s' = sentItems k s" "senderPc (connObjects s' ! k) = SendTest" "\<not> connLoop (connObjects s' ! k)"
        using sending_step [OF assms(1-3) Sending [unfolded Cons]] by blast
      then show ?thesis
      proof cases
        case skip
        show ?thesis
          by (rule order_okI [of _ n ?K pre ?post]) (use K skip o(1) in \<open>simp_all split: if_splits\<close>)
      next
        case sent
        show ?thesis
          by (rule order_okI [of _ n ?K "pre @ [i]" ?post]) (use K sent o(1) in \<open>simp_all split: if_splits\<close>)
      next
        case failed
        show ?thesis by (rule order_okI [OF _ o(2), of _ n]) (use failed o(1) in simp_all)
      qed
    qed
  next
    case SendClosed
    then have "sentItems k s' = sentItems k s" "senderPc (connObjects s' ! k) = SendEnded"
      using step assms(2) by (auto simp: sentItems_def modObject_nth)
    then show ?thesis using o(1) by (intro order_okI [OF _ o(2), of _ n]) simp_all
  next
    case SendEnded
    then show ?thesis using step by simp
  qed
qed

lemma order_ok_mono:
  "order_ok keys h sent \<Longrightarrow> senderPc h' = senderPc h \<Longrightarrow> (connLoop h' \<longrightarrow> connLoop h) \<Longrightarrow> order_ok keys h' sent"
  by (auto simp: order_ok_def split: sender_pc.splits)

lemma order_ok_new: "order_ok keys (newConnHandler sock) []"
  by (auto simp: order_ok_def newConnHandler_def intro!: exI [of _ 0])

text \<open>Nothing but the thread that sends changes where it is and what was sent.\<close>

lemma other_steps_order:
  assumes "srvStep J e s = Some s'" and "\<forall>k st. e \<noteq> SenderStep k st" and "sweep_ok s"
  shows "sendLog s' = sendLog s \<and>
    (\<forall>j < length (connObjects s). senderPc (connObjects s' ! j) = senderPc (connObjects s ! j) \<and>
       (connLoop (connObjects s' ! j) \<longrightarrow> connLoop (connObjects s ! j)))"
proof (cases e)
  case (ReaderStep k input)
  then show ?thesis
    using assms(1) by (auto simp: servConnReader_def Let_def modObject_nth
        split: reader_pc.splits option.splits if_splits sum.splits)
next
  case Sweep
  have "senderPc h' = senderPc h \<and> connLoop h' = connLoop h" if "checkJoinAll h = Some (b, h')" for h b h'
    using checkJoinAll_cases [OF that] by auto
  then show ?thesis
    using assms(1,3) Sweep
    by (auto simp: serverSweep_def acceptTest_def Let_def modObject_nth sweep_ok_def
        split: server_pc.splits list.splits option.splits if_splits)
next
  case (Accept sock)
  then show ?thesis
    using assms(1) by (auto simp: guarded_def serverAccept_def acceptTest_def Let_def nth_append split: if_splits)
next
  case ShutdownCom
  then show ?thesis using assms(1) by (auto simp: shutdownCom_def Let_def fold_shutdown_nth split: if_splits)
next
  case ShutdownJoin
  then show ?thesis using assms(1) by (auto simp: shutdownJoin_def fold_shutdown_nth split: if_splits)
qed (use assms(1,2) in \<open>auto simp: guarded_def serverListen_def acceptTest_def split: if_splits\<close>)

lemma srvStep_flags:
  assumes "srvStep J e s = Some s'" and "distinct (map fst (teleMap s))"
  shows "sendFlags (teleMap s') = sendFlags (teleMap s)"
proof (cases e)
  case (ReaderStep k input)
  have "sendFlags (rmap r) = sendFlags (teleMap s)" if "servByte J c \<lparr> inMsg = t, rmap = teleMap s \<rparr> = Inr r" for c t r
    using servByte_flags [OF that] assms(2) by simp
  then show ?thesis
    using assms(1) ReaderStep by (auto simp: servConnReader_def Let_def
        split: reader_pc.splits option.splits if_splits sum.splits)
next
  case (SenderStep k st)
  then show ?thesis
    using assms(1) by (auto simp: servConnHandler_def Let_def sysSend_def
        split: sender_pc.splits list.splits option.splits if_splits prod.splits)
qed (use assms(1) in \<open>auto simp: guarded_def serverListen_def acceptTest_def serverAccept_def serverSweep_def shutdownCom_def shutdownJoin_def Let_def
      split: if_splits server_pc.splits list.splits option.splits\<close>)

definition items_ok :: "telem_map \<Rightarrow> tele_server \<Rightarrow> bool" where
  "items_ok m s \<longleftrightarrow>
     sendFlags (teleMap s) = sendFlags m \<and>
     (\<forall>k < length (connObjects s). order_ok (sendKeys m) (connObjects s ! k) (sentItems k s)) \<and>
     (\<forall>k. length (connObjects s) \<le> k \<longrightarrow> sentItems k s = [])"

lemma items_ok_step:
  assumes "srvStep J e s = Some s'" and "items_ok m s" and "sweep_ok s" and "distinct (map fst m)"
  shows "items_ok m s'"
proof -
  have keys: "distinct (map fst (teleMap s))" "sendKeys (teleMap s) = sendKeys m"
    using assms(2,4) sendFlags_keys [of m] sendFlags_keys [of "teleMap s"] by (simp_all add: items_ok_def sendKeys_flags)
  have flags: "sendFlags (teleMap s') = sendFlags m"
    using srvStep_flags [OF assms(1) keys(1)] assms(2) by (simp add: items_ok_def)
  show ?thesis
  proof (cases "\<exists>k st. e = SenderStep k st")
    case True
    then obtain k st where k: "k < length (connObjects s)" "servConnHandler J k st s = Some s'"
      using assms(1) by (auto split: if_splits)
    have others: "sentItems j s' = sentItems j s" if "j \<noteq> k" for j
      using k(2) that by (auto simp: servConnHandler_def Let_def sysSend_def sentItems_def
          split: sender_pc.splits list.splits option.splits if_splits prod.splits)
    have "order_ok (sendKeys m) (connObjects s' ! k) (sentItems k s')"
      using order_ok_step [OF k(2,1) keys(1)] assms(2) k(1) by (simp add: keys(2) items_ok_def)
    then show ?thesis
      using flags others sender_others [OF k(2)] assms(2) k(1) unfolding items_ok_def by (metis not_le)
  next
    case False
    then have o: "sendLog s' = sendLog s" "\<And>j. j < length (connObjects s) \<Longrightarrow>
        senderPc (connObjects s' ! j) = senderPc (connObjects s ! j) \<and> (connLoop (connObjects s' ! j) \<longrightarrow> connLoop (connObjects s ! j))"
      using other_steps_order [OF assms(1) _ assms(3)] by auto
    have os: "objects_step s s'" using srvStep_objects [OF assms(1)] assms(3) by (simp add: sweep_ok_def)
    have "order_ok (sendKeys m) (connObjects s' ! k) (sentItems k s')" if k: "k < length (connObjects s')" for k
    proof (cases "k < length (connObjects s)")
      case True
      have "sentItems k s' = sentItems k s" using o(1) by (simp add: sentItems_def)
      then show ?thesis
        using order_ok_mono [of "sendKeys m" "connObjects s ! k" "sentItems k s" "connObjects s' ! k"] o(2) [OF True] assms(2) True
        by (simp add: items_ok_def)
    next
      case False
      then obtain sock where "connObjects s' ! k = newConnHandler sock"
        using os k unfolding objects_step_def by (metis not_le)
      moreover have "sentItems k s' = []" using assms(2) False o(1) by (simp add: items_ok_def sentItems_def)
      ultimately show ?thesis using order_ok_new by simp
    qed
    then show ?thesis using flags assms(2) o(1) os by (simp add: items_ok_def sentItems_def objects_step_def)
  qed
qed

text \<open>C29: What a client is sent is in order: pass after pass over the map that the constructor
  built, all items that are to be sent, in the order of their ids, none skipped and none twice,
  whatever the clients send meanwhile, up to where its connection failed or has come so far.\<close>

theorem items_in_order:
  assumes "srv_reach J m allowed s" and "distinct (map fst m)"
  shows "\<exists>n pre post. sentItems k s = concat (replicate n (sendKeys m)) @ pre \<and> sendKeys m = pre @ post"
proof -
  have "items_ok m s"
    using assms(1)
  proof (induction rule: srv_reach.induct)
    case init
    then show ?case by (simp add: mkTelemetryCom_def sentItems_def items_ok_def)
  next
    case (step s e s')
    then show ?case using items_ok_step assms(2) srv_inv by blast
  qed
  then have "order_ok (sendKeys m) (connObjects s ! k) (sentItems k s) \<or> sentItems k s = []"
    unfolding items_ok_def by (metis not_le)
  then show ?thesis
  proof
    assume "order_ok (sendKeys m) (connObjects s ! k) (sentItems k s)"
    then show ?thesis unfolding order_ok_def by blast
  next
    assume "sentItems k s = []"
    then show ?thesis by (intro exI [of _ 0]) simp
  qed
qed

theorem items_in_order_witness:
  "\<exists>s. srv_reach (exJson exServer) oneItem no_reuse s \<and> sentItems 0 s = [''zenithAngle''] \<and>
     (\<exists>n pre post. sentItems 0 s = concat (replicate n (sendKeys oneItem)) @ pre \<and> sendKeys oneItem = pre @ post)"
proof -
  obtain s bytes where s: "srvRun (exJson exServer) no_reuse oneClient (mkTelemetryCom oneItem) = Some s"
    "sendLog s = [(0, ''zenithAngle'', TeleConn 0, bytes)]"
    using oneClient_run [of "exJson exServer"] by blast
  have reach: "srv_reach (exJson exServer) oneItem no_reuse s" by (rule srv_reach_run [OF srv_reach.init s(1)])
  have "distinct (map fst oneItem)" by (simp add: oneItem_def)
  from items_in_order [OF reach this, of 0] show ?thesis using reach s(2) by (intro exI [of _ s]) (simp add: sentItems_def)
qed

end
