(* ===== verification/Logging.thy ===== *)
theory Logging
  imports NamedValue ConfigFile
begin

text \<open>
  The log (\<open>util/Log\<close>) and how \<open>main\<close> sets it up. The loggers of the spdlog library are a parameter.
  A call that waits for ever, because its own thread holds \<open>_mtx\<close>, has the value \<open>None\<close>. The texts
  leave out the file, the line and the thread that stand in front of each message.
\<close>

section \<open>Levels and loggers\<close>

datatype log_lvl = LvlTrace | LvlDebug | LvlInfo | LvlWarn | LvlErr | LvlCritical | LvlOff

fun lvlVal :: "log_lvl \<Rightarrow> nat" where
  "lvlVal LvlTrace = 0" | "lvlVal LvlDebug = 1" | "lvlVal LvlInfo = 2" | "lvlVal LvlWarn = 3"
| "lvlVal LvlErr = 4" | "lvlVal LvlCritical = 5" | "lvlVal LvlOff = 6"

fun getLogLvlStr :: "log_lvl \<Rightarrow> string" where
  "getLogLvlStr LvlTrace = ''TRACE''"
| "getLogLvlStr LvlDebug = ''DEBUG''"
| "getLogLvlStr LvlInfo = ''INFO''"
| "getLogLvlStr LvlWarn = ''WARN''"
| "getLogLvlStr LvlErr = ''ERROR''"
| "getLogLvlStr LvlCritical = ''CRITICAL''"
| "getLogLvlStr LvlOff = ''unknown''"

text \<open>
  \<open>spd_rotating\<close> opens the rotating file logger or throws. What the code relies on: the level of a
  logger is the one that was set, and logging and flushing do not change it.
\<close>

record 'l spdlog =
  spd_level :: "'l \<Rightarrow> log_lvl"
  spd_set_level :: "log_lvl \<Rightarrow> 'l \<Rightarrow> 'l"
  spd_log :: "log_lvl \<Rightarrow> string \<Rightarrow> 'l \<Rightarrow> 'l"
  spd_flush :: "'l \<Rightarrow> 'l"
  spd_rotating :: "string \<Rightarrow> 64 word \<Rightarrow> 64 word \<Rightarrow> string + 'l"

definition spd_laws :: "'l spdlog \<Rightarrow> bool" where
  "spd_laws S \<longleftrightarrow>
     (\<forall>v l. spd_level S (spd_set_level S v l) = v) \<and> (\<forall>v t l. spd_level S (spd_log S v t l) = spd_level S l) \<and>
     (\<forall>l. spd_level S (spd_flush S l) = spd_level S l)"

section \<open>State\<close>

datatype output_dest = COUT | CONSOLE | SPEEDLOG | BUFFER | MIRRORED | OtherDest int

text \<open>\<open>coutText\<close> are the lines on standard output; \<open>rtLogger\<close> is the logger registered as \<open>rt\<close>.\<close>

record 'l log_state =
  logLvl :: log_lvl
  outputDest :: output_dest
  buffers :: "string list"
  maxBuffers :: nat
  alwaysFlush :: bool
  logMtx :: bool
  consoleLogger :: 'l
  rtLogger :: "'l option"
  speedLogIsRt :: bool
  coutText :: "string list"

definition speedLog :: "'l log_state \<Rightarrow> 'l" where
  "speedLog s = (case rtLogger s of Some l \<Rightarrow> if speedLogIsRt s then l else consoleLogger s | None \<Rightarrow> consoleLogger s)"

definition modSpeedLog :: "('l \<Rightarrow> 'l) \<Rightarrow> 'l log_state \<Rightarrow> 'l log_state" where
  "modSpeedLog f s =
     (if speedLogIsRt s \<and> rtLogger s \<noteq> None then s \<lparr> rtLogger := map_option f (rtLogger s) \<rparr>
      else s \<lparr> consoleLogger := f (consoleLogger s) \<rparr>)"

definition toCout :: "string \<Rightarrow> 'l log_state \<Rightarrow> 'l log_state" where
  "toCout t s = s \<lparr> coutText := coutText s @ [t] \<rparr>"

section \<open>Writing\<close>

fun reduceBuffers :: "nat \<Rightarrow> string list \<Rightarrow> string list" where
  "reduceBuffers n [] = []"
| "reduceBuffers n (m # ms) = (if length (m # ms) > n then reduceBuffers n ms else m # ms)"

definition toBuffer :: "string \<Rightarrow> 'l log_state \<Rightarrow> 'l log_state" where
  "toBuffer t s = s \<lparr> buffers := reduceBuffers (maxBuffers s) (buffers s @ [t]) \<rparr>"

definition getLogLvl :: "'l spdlog \<Rightarrow> 'l log_state \<Rightarrow> log_lvl" where
  "getLogLvl S s = spd_level S (speedLog s)"

definition logWrite :: "'l spdlog \<Rightarrow> log_lvl \<Rightarrow> string \<Rightarrow> 'l log_state \<Rightarrow> 'l log_state option" where
  "logWrite S lvl msg s =
     (if logMtx s then None
      else
        (let s = (case outputDest s of
                    CONSOLE \<Rightarrow> modSpeedLog (spd_log S lvl msg) s
                  | SPEEDLOG \<Rightarrow> modSpeedLog (spd_log S lvl msg) s
                  | BUFFER \<Rightarrow> toBuffer msg s
                  | MIRRORED \<Rightarrow> toBuffer msg (toCout msg s)
                  | _ \<Rightarrow> toCout msg s)
         in Some (if alwaysFlush s then modSpeedLog (spd_flush S) s else s)))"

definition logW :: "'l spdlog \<Rightarrow> log_lvl \<Rightarrow> string \<Rightarrow> 'l log_state \<Rightarrow> 'l log_state option" where
  "logW S lvl msg s = (if lvlVal lvl < lvlVal (getLogLvl S s) then Some s else logWrite S lvl msg s)"

fun logAll :: "'l spdlog \<Rightarrow> (log_lvl \<times> string) list \<Rightarrow> 'l log_state \<Rightarrow> 'l log_state option" where
  "logAll S [] s = Some s"
| "logAll S ((lvl, msg) # ms) s = Option.bind (logW S lvl msg s) (logAll S ms)"

section \<open>Settings\<close>

definition setMaxBuffers :: "int \<Rightarrow> 'l log_state \<Rightarrow> 'l log_state option" where
  "setMaxBuffers n s =
     (if logMtx s then None
      else (let n = (if n < 0 then 0 else n)
            in Some (s \<lparr> maxBuffers := nat n, buffers := reduceBuffers (nat n) (buffers s) \<rparr>)))"

definition getBufferLast :: "'l log_state \<Rightarrow> string option" where
  "getBufferLast s = (if logMtx s then None else Some (if buffers s = [] then [] else last (buffers s)))"

definition getBuffersSize :: "'l log_state \<Rightarrow> nat option" where
  "getBuffersSize s = (if logMtx s then None else Some (length (buffers s)))"

definition setLogLvl :: "'l spdlog \<Rightarrow> log_lvl \<Rightarrow> 'l log_state \<Rightarrow> 'l log_state option" where
  "setLogLvl S lvl s =
     (if logMtx s then None else Some (modSpeedLog (spd_set_level S lvl) (s \<lparr> logLvl := lvl \<rparr>)))"

definition setAlwaysFlush :: "bool \<Rightarrow> 'l log_state \<Rightarrow> 'l log_state" where
  "setAlwaysFlush val s = s \<lparr> alwaysFlush := val \<rparr>"

text \<open>Every message of the buffer is written with the level of the log, not with its own.\<close>

fun dumpLoop :: "'l spdlog \<Rightarrow> string list \<Rightarrow> 'l log_state \<Rightarrow> 'l log_state" where
  "dumpLoop S [] s = s \<lparr> buffers := [] \<rparr>"
| "dumpLoop S (m # ms) s =
     dumpLoop S ms
       (if outputDest s = SPEEDLOG \<or> outputDest s = CONSOLE then modSpeedLog (spd_log S (logLvl s) m) s
        else toCout m s)"

definition bufferDump :: "'l spdlog \<Rightarrow> 'l log_state \<Rightarrow> 'l log_state" where
  "bufferDump S s =
     (if outputDest s = BUFFER \<or> outputDest s = MIRRORED then s else dumpLoop S (buffers s) s)"

definition setOutputDest :: "'l spdlog \<Rightarrow> output_dest \<Rightarrow> 'l log_state \<Rightarrow> (bool result \<times> 'l log_state) option" where
  "setOutputDest S dest s =
     (if logMtx s then None
      else
        Some (case dest of
            CONSOLE \<Rightarrow>
              (Inr True, (modSpeedLog (spd_set_level S (logLvl s)) (s \<lparr> speedLogIsRt := False \<rparr>)) \<lparr> outputDest := SPEEDLOG \<rparr>)
          | BUFFER \<Rightarrow> (Inr True, s \<lparr> outputDest := BUFFER \<rparr>)
          | MIRRORED \<Rightarrow> (Inr True, s \<lparr> outputDest := MIRRORED \<rparr>)
          | SPEEDLOG \<Rightarrow>
              (let eStr = ''Log::setOutputDest logger '' @ [CHR 0x27] @ ''rt'' @ [CHR 0x27] @ '' was not found.'';
                   s = (if rtLogger s \<noteq> None
                        then modSpeedLog (spd_log S LvlInfo ''using speedLog'') (s \<lparr> speedLogIsRt := True \<rparr>)
                        else toCout eStr (modSpeedLog (spd_log S LvlErr eStr) (s \<lparr> speedLogIsRt := False \<rparr>)));
                   s = modSpeedLog (spd_set_level S (logLvl s)) (s \<lparr> outputDest := SPEEDLOG \<rparr>)
               in (Inr True, bufferDump S s))
          | COUT \<Rightarrow> (Inr True, s \<lparr> outputDest := COUT \<rparr>)
          | OtherDest d \<Rightarrow>
              (Inl (Bug (''Log::setOutputDest unknown dest='' @ to_string d)),
               (toCout (''Log::setOuputDest unknown dest='' @ to_string d @ '' using COUT'') s) \<lparr> outputDest := COUT \<rparr>)))"

definition mkLog :: "'l spdlog \<Rightarrow> 'l \<Rightarrow> 'l log_state" where
  "mkLog S console =
     (let s = \<lparr> logLvl = LvlTrace, outputDest = COUT, buffers = [], maxBuffers = 2000, alwaysFlush = False, logMtx = False,
                consoleLogger = spd_set_level S LvlTrace console, rtLogger = None, speedLogIsRt = False, coutText = [] \<rparr>
      in s \<lparr> consoleLogger := spd_set_level S LvlTrace (consoleLogger s), outputDest := SPEEDLOG \<rparr>)"

section \<open>The log file\<close>

text \<open>
  The second message is logged while \<open>_mtx\<close> is held by this function. spdlog throws for a second
  logger of the same name.
\<close>

definition setupFileRotation ::
  "'l spdlog \<Rightarrow> string \<Rightarrow> 64 word \<Rightarrow> 64 word \<Rightarrow> 'l log_state \<Rightarrow> (bool \<times> 'l log_state) option" where
  "setupFileRotation S name fileSize maxFiles s =
     Option.bind
       (logW S LvlInfo (''Log::setupFileRotation '' @ name @ '' size='' @ to_string (uint fileSize) @ '' max='' @ to_string (uint maxFiles)) s)
       (\<lambda>s. if logMtx s then None
            else
              (let s = s \<lparr> logMtx := True \<rparr>
               in if name = []
                  then Option.bind (logW S LvlErr ''Log::setupFileRotation fileName was empty.'' s)
                         (\<lambda>s. Some (False, s \<lparr> logMtx := False \<rparr>))
                  else
                    Some (case (if rtLogger s \<noteq> None then Inl ''logger with name rt already exists''
                                else spd_rotating S name fileSize maxFiles) of
                            Inl what \<Rightarrow> (False, (toCout (''Log init failed: '' @ what) s) \<lparr> logMtx := False \<rparr>)
                          | Inr l \<Rightarrow> (True, s \<lparr> rtLogger := Some l, logMtx := False \<rparr>))))"

section \<open>The level from the environment\<close>

text \<open>\<open>std::stoi\<close>.\<close>

definition stoi :: "string \<Rightarrow> int result" where
  "stoi str =
     (let (v, rest) = strtol10 str
      in if rest = str then Inl (RuntimeError ''std::invalid_argument'')
         else if v < - (2 ^ 31) \<or> 2 ^ 31 - 1 < v then Inl (RuntimeError ''std::out_of_range'')
         else Inr v)"

definition getEnvironmentLogLvl :: "string option \<Rightarrow> log_lvl result" where
  "getEnvironmentLogLvl env =
     (case env of
        None \<Rightarrow> Inr LvlTrace
      | Some inStr \<Rightarrow>
          bind_result (stoi inStr) (\<lambda>inVal.
            Inr (if inVal = 1 then LvlTrace else if inVal = 2 then LvlDebug else if inVal = 3 then LvlInfo
                 else if inVal = 4 then LvlWarn else if inVal = 5 then LvlErr else if inVal = 6 then LvlCritical
                 else LvlTrace)))"

definition useEnvironmentLogLvl :: "'l spdlog \<Rightarrow> string option \<Rightarrow> 'l log_state \<Rightarrow> (unit result \<times> 'l log_state) option" where
  "useEnvironmentLogLvl S env s =
     (case getEnvironmentLogLvl env of
        Inl e \<Rightarrow> Some (Inl e, s)
      | Inr lvl \<Rightarrow>
          map_option (Pair (Inr ()))
            (Option.bind (logW S LvlCritical (''using environment LOGLVL '' @ getLogLvlStr lvl) s) (setLogLvl S lvl)))"

section \<open>The beginning of \<open>main\<close>\<close>

text \<open>
  \<open>readCfg\<close> are the messages that reading the configuration logs. The size is computed as an \<open>int\<close>,
  whose overflow C++ leaves undefined.
\<close>

definition logFileBytes :: "int \<Rightarrow> 64 word result" where
  "logFileBytes sizeMB =
     (let bytes = 1024 * 1024 * sizeMB
      in if bytes < - (2 ^ 31) \<or> 2 ^ 31 - 1 < bytes then Inl (UndefinedBehaviour ''int overflow'')
         else Inr (word_of_int bytes))"

definition setupMainLog ::
  "'l spdlog \<Rightarrow> string \<Rightarrow> int \<Rightarrow> int \<Rightarrow> 'l log_state \<Rightarrow> (unit result \<times> 'l log_state) option" where
  "setupMainLog S name sizeMB maxFiles s =
     (case logFileBytes sizeMB of
        Inl e \<Rightarrow> Some (Inl e, s)
      | Inr bytes \<Rightarrow>
          Option.bind (setupFileRotation S name bytes (word_of_int maxFiles) s) (\<lambda>(ok, s).
            if \<not> ok
            then map_option (Pair (Inl (RuntimeError ''exit(-1)'')))
                   (logW S LvlCritical (''FAILED to setup logging name='' @ name @ '' sizeMB='' @ to_string sizeMB @
                      '' maxFiles='' @ to_string maxFiles) s)
            else
              Option.bind (setOutputDest S SPEEDLOG s) (\<lambda>(r, s).
                map_option (Pair (Inr ())) (logW S LvlInfo ''Logging ready'' (setAlwaysFlush True s)))))"

definition startMainLog ::
  "'l spdlog \<Rightarrow> string option \<Rightarrow> 'n yaml result \<Rightarrow> (log_lvl \<times> string) list \<Rightarrow> 'l log_state \<Rightarrow>
     (unit result \<times> 'l log_state) option" where
  "startMainLog S env cfg readCfg s =
     Option.bind (useEnvironmentLogLvl S env s) (\<lambda>(r, s).
       case r of
         Inl e \<Rightarrow> Some (Inl e, s)
       | Inr _ \<Rightarrow>
           Option.bind (setOutputDest S MIRRORED s) (\<lambda>(_, s).
           Option.bind (logAll S ((LvlInfo, ''Reading Config'') # readCfg) s) (\<lambda>s.
             case bind_result cfg (\<lambda>y. bind_result (getLogFileName y) (\<lambda>name.
                    bind_result (getLogFileSizeMB y) (\<lambda>sizeMB. bind_result (getLogMaxFiles y) (\<lambda>maxFiles.
                      Inr (name, sizeMB, maxFiles))))) of
               Inl e \<Rightarrow> Some (Inl e, s)
             | Inr (name, sizeMB, maxFiles) \<Rightarrow>
                 Option.bind
                   (logW S LvlInfo (''Starting logger name='' @ name @ '' sizeMB='' @ to_string sizeMB @
                      '' maxFiles='' @ to_string maxFiles) s)
                   (setupMainLog S name sizeMB maxFiles))))"

end
