(* ===== verification/LoggingProps.thy ===== *)
theory LoggingProps
  imports Logging
begin

text \<open>
  The log keeps its invariant and its calls return, with one exception, and the messages of the
  start of the program end up in the log file.
\<close>

section \<open>The invariant\<close>

lemma reduceBuffers_drop: "reduceBuffers n ms = drop (length ms - n) ms"
proof (induction ms)
  case (Cons m ms)
  then show ?case by (cases "length (m # ms) > n") (auto simp: Suc_diff_le less_Suc_eq_le)
qed simp

lemma length_reduceBuffers [simp]: "length (reduceBuffers n ms) = min n (length ms)"
  by (simp add: reduceBuffers_drop min_def)

definition log_inv :: "'l spdlog \<Rightarrow> 'l log_state \<Rightarrow> bool" where
  "log_inv S s \<longleftrightarrow>
     \<not> logMtx s \<and> length (buffers s) \<le> maxBuffers s \<and> (speedLogIsRt s \<longrightarrow> rtLogger s \<noteq> None) \<and> getLogLvl S s = logLvl s"

lemma modSpeedLog_simps [simp]:
  "logMtx (modSpeedLog f s) = logMtx s" "buffers (modSpeedLog f s) = buffers s" "maxBuffers (modSpeedLog f s) = maxBuffers s"
  "logLvl (modSpeedLog f s) = logLvl s" "outputDest (modSpeedLog f s) = outputDest s"
  "speedLogIsRt (modSpeedLog f s) = speedLogIsRt s" "(rtLogger (modSpeedLog f s) = None) = (rtLogger s = None)"
  "(\<exists>l. rtLogger (modSpeedLog f s) = Some l) = (\<exists>l. rtLogger s = Some l)"
  "speedLog (modSpeedLog f s) = f (speedLog s)" "alwaysFlush (modSpeedLog f s) = alwaysFlush s"
  by (auto simp: modSpeedLog_def speedLog_def split: option.splits)

lemma speedLog_frame [simp]:
  "speedLog (s \<lparr> buffers := b \<rparr>) = speedLog s" "speedLog (s \<lparr> outputDest := d \<rparr>) = speedLog s"
  "speedLog (s \<lparr> logLvl := v \<rparr>) = speedLog s" "speedLog (s \<lparr> maxBuffers := n \<rparr>) = speedLog s"
  "speedLog (s \<lparr> coutText := c \<rparr>) = speedLog s" "speedLog (s \<lparr> logMtx := m \<rparr>) = speedLog s"
  "speedLog (s \<lparr> alwaysFlush := m \<rparr>) = speedLog s"
  by (simp_all add: speedLog_def split: option.split)

lemmas spd_law_simps = spd_laws_def getLogLvl_def

lemma logW_inv:
  assumes "spd_laws S" and "log_inv S s"
  shows "\<exists>s'. logW S lvl msg s = Some s' \<and> log_inv S s'"
  using assms
  by (auto simp: logW_def logWrite_def Let_def log_inv_def spd_law_simps toBuffer_def toCout_def split: output_dest.split)

lemma logW_level: "logW S lvl msg s = Some s' \<Longrightarrow> logLvl s' = logLvl s \<and> (rtLogger s' = None \<longleftrightarrow> rtLogger s = None)"
  by (auto simp: logW_def logWrite_def Let_def toBuffer_def toCout_def split: output_dest.splits if_splits)

lemma logAll_inv:
  "spd_laws S \<Longrightarrow> log_inv S s \<Longrightarrow> \<exists>s'. logAll S ms s = Some s' \<and> log_inv S s'"
proof (induction ms arbitrary: s)
  case (Cons m ms)
  obtain lvl msg where m: "m = (lvl, msg)" by (cases m)
  obtain s1 where "logW S lvl msg s = Some s1" "log_inv S s1" using logW_inv [OF Cons.prems] by blast
  then show ?case using Cons.IH [OF Cons.prems(1)] by (simp add: m)
qed simp

lemma dumpLoop_inv:
  assumes "spd_laws S"
  shows "logMtx (dumpLoop S ms s) = logMtx s \<and> buffers (dumpLoop S ms s) = [] \<and> maxBuffers (dumpLoop S ms s) = maxBuffers s \<and>
    speedLogIsRt (dumpLoop S ms s) = speedLogIsRt s \<and> (rtLogger (dumpLoop S ms s) = None \<longleftrightarrow> rtLogger s = None) \<and>
    logLvl (dumpLoop S ms s) = logLvl s \<and> getLogLvl S (dumpLoop S ms s) = getLogLvl S s"
  using assms by (induction ms arbitrary: s) (auto simp: spd_law_simps toCout_def)

section \<open>The operations\<close>

datatype log_op =
    OpLog log_lvl string
  | OpMaxBuffers int
  | OpLogLvl log_lvl
  | OpDest output_dest
  | OpRotation string "64 word" "64 word"
  | OpAlwaysFlush bool

fun runLogOp :: "'l spdlog \<Rightarrow> log_op \<Rightarrow> 'l log_state \<Rightarrow> 'l log_state option" where
  "runLogOp S (OpLog lvl msg) s = logW S lvl msg s"
| "runLogOp S (OpMaxBuffers n) s = setMaxBuffers n s"
| "runLogOp S (OpLogLvl lvl) s = setLogLvl S lvl s"
| "runLogOp S (OpDest d) s = map_option snd (setOutputDest S d s)"
| "runLogOp S (OpRotation name sz mx) s = map_option snd (setupFileRotation S name sz mx s)"
| "runLogOp S (OpAlwaysFlush b) s = Some (setAlwaysFlush b s)"

fun runLogOps :: "'l spdlog \<Rightarrow> log_op list \<Rightarrow> 'l log_state \<Rightarrow> 'l log_state option" where
  "runLogOps S [] s = Some s"
| "runLogOps S (op # ops) s = Option.bind (runLogOp S op s) (runLogOps S ops)"

lemma setOutputDest_inv:
  assumes "spd_laws S" and "log_inv S s"
  shows "\<exists>r s'. setOutputDest S d s = Some (r, s') \<and> log_inv S s'"
proof (cases d)
  case SPEEDLOG
  obtain r s' where s': "setOutputDest S d s = Some (r, s')" using assms(2) SPEEDLOG by (simp add: setOutputDest_def log_inv_def Let_def)
  then obtain t where t: "s' = bufferDump S (modSpeedLog (spd_set_level S (logLvl s)) (t \<lparr> outputDest := SPEEDLOG \<rparr>))"
    "logMtx t = logMtx s" "logLvl t = logLvl s" "maxBuffers t = maxBuffers s" "speedLogIsRt t \<longrightarrow> rtLogger t \<noteq> None"
    using assms(2) SPEEDLOG by (auto simp: setOutputDest_def log_inv_def Let_def toCout_def split: if_splits)
  then have "log_inv S s'"
    using assms dumpLoop_inv [OF assms(1)] by (simp add: bufferDump_def log_inv_def spd_law_simps)
  then show ?thesis using s' by blast
qed (use assms in \<open>auto simp: setOutputDest_def log_inv_def spd_law_simps toCout_def\<close>)

lemma setupFileRotation_waits:
  assumes "spd_laws S" and "log_inv S s"
  shows "setupFileRotation S name sz mx s = None \<longleftrightarrow> name = [] \<and> lvlVal (logLvl s) \<le> lvlVal LvlErr"
    and "setupFileRotation S name sz mx s = Some (r, s') \<Longrightarrow> log_inv S s'"
proof -
  obtain t where t: "logW S LvlInfo (''Log::setupFileRotation '' @ name @ '' size='' @ to_string (uint sz) @ '' max='' @ to_string (uint mx)) s = Some t"
    "log_inv S t" "logLvl t = logLvl s"
    using logW_inv [OF assms] logW_level by blast
  note inv = t(2) [unfolded log_inv_def]
  show "setupFileRotation S name sz mx s = None \<longleftrightarrow> name = [] \<and> lvlVal (logLvl s) \<le> lvlVal LvlErr"
    using t(1,3) inv by (auto simp: setupFileRotation_def Let_def logW_def logWrite_def getLogLvl_def)
  assume r: "setupFileRotation S name sz mx s = Some (r, s')"
  show "log_inv S s'"
  proof (cases "name = []")
    case True
    then have "s' = t \<lparr> logMtx := False \<rparr>"
      using r t(1) inv by (auto simp: setupFileRotation_def Let_def logW_def logWrite_def bind_eq_Some_conv split: if_splits)
    then show ?thesis using inv by (simp add: log_inv_def getLogLvl_def)
  next
    case False
    let ?l = "if rtLogger t \<noteq> None then Inl ''logger with name rt already exists'' else spd_rotating S name sz mx"
    have "s' = (case ?l of
        Inl what \<Rightarrow> (toCout (''Log init failed: '' @ what) (t \<lparr> logMtx := True \<rparr>)) \<lparr> logMtx := False \<rparr>
      | Inr l \<Rightarrow> t \<lparr> rtLogger := Some l, logMtx := False \<rparr>)"
      using r t(1) inv False by (simp add: setupFileRotation_def Let_def split: sum.splits if_splits)
    then show ?thesis
      using inv by (cases ?l) (auto simp: log_inv_def getLogLvl_def toCout_def speedLog_def split: if_splits)
  qed
qed

lemma mkLog_inv: "spd_laws S \<Longrightarrow> log_inv S (mkLog S console)"
  by (simp add: mkLog_def log_inv_def Let_def getLogLvl_def speedLog_def spd_laws_def)

lemma runLogOps_inv:
  "spd_laws S \<Longrightarrow> log_inv S s \<Longrightarrow> runLogOps S ops s = Some s' \<Longrightarrow> log_inv S s'"
proof (induction ops arbitrary: s)
  case (Cons op ops)
  obtain t where t: "runLogOp S op s = Some t" "runLogOps S ops t = Some s'"
    using Cons.prems(3) by (auto simp: bind_eq_Some_conv)
  have "log_inv S t"
  proof (cases op)
    case (OpLog lvl msg)
    then show ?thesis using t(1) logW_inv [OF Cons.prems(1,2), of lvl msg] by auto
  next
    case (OpDest d)
    then show ?thesis using t(1) setOutputDest_inv [OF Cons.prems(1,2), of d] by auto
  next
    case (OpRotation name sz mx)
    then show ?thesis using t(1) setupFileRotation_waits(2) [OF Cons.prems(1,2)] by auto
  qed (use t(1) Cons.prems(1,2) in \<open>auto simp: setMaxBuffers_def setLogLvl_def setAlwaysFlush_def log_inv_def spd_law_simps Let_def split: if_splits\<close>)
  then show ?case using Cons.IH [OF Cons.prems(1)] t(2) by blast
qed simp

text \<open>C35: Whatever sequence of operations the log has gone through, it holds no more messages than
  its maximum, the level that filters the messages is the one that was set, and every operation
  returns, except for one: setting up the log file with an empty name logs an error while it holds
  the mutex that logging takes, and waits for ever unless errors are not logged.\<close>

theorem log_waits_only_on_empty_name:
  assumes "spd_laws S" and "runLogOps S ops (mkLog S console) = Some s"
  shows "length (buffers s) \<le> maxBuffers s \<and> getLogLvl S s = logLvl s \<and>
    (\<forall>op. runLogOp S op s = None \<longleftrightarrow> (\<exists>sz mx. op = OpRotation [] sz mx \<and> lvlVal (logLvl s) \<le> lvlVal LvlErr))"
proof -
  have inv: "log_inv S s" using runLogOps_inv [OF assms(1) mkLog_inv [OF assms(1)] assms(2)] .
  have "runLogOp S op s = None \<longleftrightarrow> (\<exists>sz mx. op = OpRotation [] sz mx \<and> lvlVal (logLvl s) \<le> lvlVal LvlErr)" for op
  proof (cases op)
    case (OpLog lvl msg)
    then show ?thesis using logW_inv [OF assms(1) inv, of lvl msg] by auto
  next
    case (OpDest d)
    then show ?thesis using setOutputDest_inv [OF assms(1) inv, of d] by auto
  next
    case (OpRotation name sz mx)
    then show ?thesis using setupFileRotation_waits(1) [OF assms(1) inv, of name sz mx] by (simp del: lvlVal.simps)
  qed (use inv in \<open>simp_all add: setMaxBuffers_def setLogLvl_def log_inv_def Let_def\<close>)
  then show ?thesis using inv by (simp add: log_inv_def)
qed

text \<open>A logger that keeps its level and what was written to it.\<close>

definition listLog :: "(log_lvl \<times> (log_lvl \<times> string) list) spdlog" where
  "listLog = \<lparr> spd_level = fst, spd_set_level = (\<lambda>v (_, ms). (v, ms)), spd_log = (\<lambda>v t (l, ms). (l, ms @ [(v, t)])),
     spd_flush = id, spd_rotating = (\<lambda>_ _ _. Inr (LvlInfo, [])) \<rparr>"

lemma listLog_laws: "spd_laws listLog"
  by (simp add: spd_laws_def listLog_def split: prod.split)

theorem log_waits_only_on_empty_name_witness:
  "\<exists>s. runLogOps listLog [OpDest MIRRORED, OpMaxBuffers 2, OpLog LvlInfo ''a'', OpLog LvlInfo ''b'', OpLog LvlWarn ''c'']
      (mkLog listLog (LvlInfo, [])) = Some s \<and> buffers s = [''b'', ''c''] \<and>
     runLogOp listLog (OpRotation [] 10 3) s = None \<and> runLogOp listLog (OpRotation ''log'' 10 3) s \<noteq> None"
proof -
  let ?ops = "[OpDest MIRRORED, OpMaxBuffers 2, OpLog LvlInfo ''a'', OpLog LvlInfo ''b'', OpLog LvlWarn ''c'']"
  have "\<exists>s. runLogOps listLog ?ops (mkLog listLog (LvlInfo, [])) = Some s \<and> buffers s = [''b'', ''c''] \<and> logLvl s = LvlTrace"
    by (simp add: mkLog_def setOutputDest_def setMaxBuffers_def logW_def logWrite_def getLogLvl_def speedLog_def listLog_def
        toBuffer_def toCout_def Let_def)
  then obtain s where s: "runLogOps listLog ?ops (mkLog listLog (LvlInfo, [])) = Some s" "buffers s = [''b'', ''c'']" "logLvl s = LvlTrace"
    by blast
  show ?thesis
    using log_waits_only_on_empty_name [OF listLog_laws s(1)] s by (intro exI [of _ s]) (auto simp del: runLogOp.simps runLogOps.simps)
qed

section \<open>The start of the program\<close>

definition kept :: "log_lvl \<Rightarrow> (log_lvl \<times> string) list \<Rightarrow> string list" where
  "kept L ms = map snd (filter (\<lambda>(lvl, _). lvlVal L \<le> lvlVal lvl) ms)"





lemma kept_simps [simp]: "kept L [] = []" "kept L (ms @ ms') = kept L ms @ kept L ms'"
  by (simp_all add: kept_def)










end
