(* ===== verification/M2Frame.thy ===== *)
theory M2Frame
  imports M2Handlers
begin

text \<open>
  What the events of \<open>M2System\<close> leave alone: the engine, the server and its connections are touched
  by the events that are about them only.
\<close>

definition netPart :: "world \<Rightarrow> motion_engine \<times> com_state \<times> bool \<times> nat list \<times> int" where
  "netPart w = (engine w, srvState w, srvShutdown w, connections w, tcpCount w)"

lemma netPart_eq:
  "netPart v = netPart w \<longleftrightarrow>
     engine v = engine w \<and> srvState v = srvState w \<and> srvShutdown v = srvShutdown w \<and>
     connections v = connections w \<and> tcpCount v = tcpCount w"
  by (auto simp: netPart_def)

lemma netPart_parts [simp]:
  "netPart (putSub t ps w) = netPart w" "netPart (putCtx t c w) = netPart w" "netPart (subOff now t w) = netPart w"
  "netPart (snd (subOn now t w)) = netPart w"
  by (simp_all add: netPart_def putCtx_def putSub_def subOff_def subOn_def case_prod_beta)

lemma netPart_change [simp]:
  "netPart (snd (applyChange now r w)) = netPart w" "netPart (snd (modelChangeStateEnum now s w)) = netPart w"
  "netPart (snd (modelChangeState now p w)) = netPart w" "netPart (turnOffAll now w) = netPart w"
  by (simp_all add: modelChangeStateEnum_def modelChangeState_def applyChange_def enterCurrent_def turnOffAll_def
      case_prod_beta) (simp_all add: netPart_def)

interpretation np: daq_closed "\<lambda>w. netPart w = x" "\<lambda>_. True" for x
  by unfold_locales (simp_all, simp_all add: netPart_def)

lemma netPart_reportConnections [simp]: "netPart (reportComConnectionCount now n w) = netPart w"
  by (rule np.P_reportComConnectionCount) (simp_all add: netPart_def)

fun netEvent :: "event \<Rightarrow> bool" where
  "netEvent (Accept now i ok) = True"
| "netEvent (CloseConnection now i a) = True"
| "netEvent (CtrlStart now) = True"
| "netEvent CtrlStop = True"
| "netEvent CtrlJoin = True"
| "netEvent (SystemShutdown now) = True"
| "netEvent ServerRun = True"
| "netEvent ServerStopped = True"
| "netEvent _ = False"

lemma netPart_exec: "\<not> netEvent e \<Longrightarrow> netPart (exec e w) = netPart w"
proof (cases e)
  case (ReadFpga reg hw)
  then show ?thesis
    by (simp add: readWriteFpga_def or_else_def Let_def emergencyTurnOffAllPower_def netPart_def)
next
  case (CmdPower now t on)
  then show ?thesis
    by (auto simp: cmdPower_def cmdPowerBase_def powerMotor_def powerComm_def Let_def split: PowerSystemType.split)
qed (simp_all add: np.P_daqInfoRead np.P_daqTimeoutCheck comTimeoutCheck_def engineCheckTimeout_def
     writeCrioInterlockEnable_def ctrlSetup_def, simp_all add: netPart_def)

lemma setTcpIpConnected_netPart:
  "netPart (setTcpIpConnected now b w) =
     (engine w, srvState w, srvShutdown w, connections w, tcpCount w + (if b then 1 else - 1))"
  by (simp add: setTcpIpConnected_def Let_def) (simp add: netPart_def)

lemma eraseConnection_netPart:
  "netPart (eraseConnection now i w) =
     (engine w, srvState w, srvShutdown w, removeAll i (connections w), tcpCount w)"
  by (auto simp: eraseConnection_def eraseFromMap_def Let_def) (simp_all add: netPart_def)

lemma connectionShutdown_netPart:
  "netPart (connectionShutdown now i active w) =
     (engine w, srvState w, srvShutdown w, removeAll i (connections w), tcpCount w - (if active then 1 else 0))"
  using setTcpIpConnected_netPart [of now False w]
  by (simp add: connectionShutdown_def Let_def eraseConnection_netPart) (simp add: netPart_def)

end
