(* ===== verification/M2Threads.thy ===== *)
theory M2Threads
  imports M2FaultProps M2Frame EventThread
begin

text \<open>
  The threads of the program around the state of \<open>M2System\<close>: the loop of \<open>FpgaIo\<close>, the event thread
  and the timeout thread of \<open>PowerSystem\<close> and of \<open>MotionEngine\<close>, and the main thread
  (\<open>control/ControlMain\<close>) from the construction of the global objects to its end. The threads run in
  any order, one step at a time. The threads that serve connections and run their commands take
  the events of \<open>M2System\<close> as they are.
\<close>

section \<open>State\<close>

text \<open>
  \<open>Model\<close>'s constructor registers the power system, and the main thread does it again. The flag is
  false at first, so that the passes of the \<open>FpgaIo\<close> loop before that are among the runs.
\<close>

datatype fpga_pc = FpgaTop | FpgaQueue | FpgaEnded

datatype main_pc =
    MainRegister | MainSetup | MainStart | MainTelemetry | MainWaitEngine | MainCreateServer | MainWaitServer
  | MainLoop | MainStop | MainJoin | MainJoinServer | MainReturned
  | MainExit | MainCrashed cpp_error

record m2_threads =
  wd :: world
  fpgaPc :: fpga_pc
  powerSysRegistered :: bool
  psEThrd :: event_loop
  psTimeoutLoop :: bool
  moEThrd :: event_loop
  moRun :: bool
  mainPc :: main_pc

definition mkThreads :: "world \<Rightarrow> m2_threads" where
  "mkThreads w = \<lparr> wd = w, fpgaPc = FpgaTop, powerSysRegistered = False, psEThrd = newEventThread, psTimeoutLoop = True,
     moEThrd = newEventThread, moRun = False, mainPc = MainRegister \<rparr>"

section \<open>Commands of the event threads\<close>

text \<open>The commands of the power system are \<open>_daqInfoRead\<close> and \<open>_daqTimeoutCheck\<close>.\<close>

definition queueDaqInfoRead :: "m2_threads \<Rightarrow> m2_threads" where
  "queueDaqInfoRead t = t \<lparr> psEThrd := loopEvent (QueCmd 0) (psEThrd t) \<rparr>"

definition queueTimeoutCheck :: "m2_threads \<Rightarrow> m2_threads" where
  "queueTimeoutCheck t = t \<lparr> psEThrd := loopEvent (QueCmd 1) (psEThrd t) \<rparr>"

definition motionQueueTimeoutCheck :: "m2_threads \<Rightarrow> m2_threads" where
  "motionQueueTimeoutCheck t = t \<lparr> moEThrd := loopEvent (QueCmd 0) (moEThrd t) \<rparr>"

fun psAction :: "timepoint \<Rightarrow> cmd \<Rightarrow> world \<Rightarrow> world" where
  "psAction now (Work 0) w = daqInfoRead now w"
| "psAction now (Work (Suc n)) w = daqTimeoutCheck now w"
| "psAction now MsgEnd w = w"

fun moAction :: "timepoint \<Rightarrow> cmd \<Rightarrow> world \<Rightarrow> world" where
  "moAction now (Work n) w = comTimeoutCheck now w"
| "moAction now MsgEnd w = w"

text \<open>A step of an event thread; the action of a command is run in the step that finishes it.\<close>

definition runCmd :: "(cmd \<Rightarrow> world \<Rightarrow> world) \<Rightarrow> event_loop \<Rightarrow> world \<Rightarrow> world" where
  "runCmd act l w = (case pc (elThread l) of Running c \<Rightarrow> act c w | _ \<Rightarrow> w)"

definition psThreadStep :: "timepoint \<Rightarrow> m2_threads \<Rightarrow> m2_threads" where
  "psThreadStep now t =
     t \<lparr> psEThrd := loopEvent LoopStep (psEThrd t), wd := runCmd (psAction now) (psEThrd t) (wd t) \<rparr>"

definition moThreadStep :: "timepoint \<Rightarrow> m2_threads \<Rightarrow> m2_threads" where
  "moThreadStep now t =
     (if \<not> moRun t then t
      else t \<lparr> moEThrd := loopEvent LoopStep (moEThrd t), wd := runCmd (moAction now) (moEThrd t) (wd t) \<rparr>)"

section \<open>The loops\<close>

text \<open>A pass of \<open>_readWriteFpga\<close> up to the queueing of the reading, and the rest.\<close>

definition fpgaStep :: "(8 word \<Rightarrow> sys_info) \<Rightarrow> m2_threads \<Rightarrow> m2_threads" where
  "fpgaStep hw t =
     (case fpgaPc t of
        FpgaTop \<Rightarrow>
          if fpgaLoop (wd t)
          then t \<lparr> wd := exec (ReadFpga (powerSysRegistered t) hw) (wd t),
                   fpgaPc := (if powerSysRegistered t then FpgaQueue else FpgaTop) \<rparr>
          else t \<lparr> fpgaPc := FpgaEnded \<rparr>
      | FpgaQueue \<Rightarrow> (queueDaqInfoRead t) \<lparr> fpgaPc := FpgaTop \<rparr>
      | FpgaEnded \<Rightarrow> t)"

definition psTimeoutStep :: "m2_threads \<Rightarrow> m2_threads" where
  "psTimeoutStep t = (if psTimeoutLoop t then queueTimeoutCheck t else t)"

definition moTimeoutStep :: "m2_threads \<Rightarrow> m2_threads" where
  "moTimeoutStep t = (if moRun t \<and> engTimeoutLoop (engine (wd t)) then motionQueueTimeoutCheck t else t)"

text \<open>\<open>engineStop\<close> with its end message.\<close>

definition stopEngine :: "m2_threads \<Rightarrow> m2_threads" where
  "stopEngine t =
     (let first = \<not> eStopCalled (engine (wd t));
          t = t \<lparr> wd := ctrlStop (wd t) \<rparr>
      in if first then t \<lparr> moEThrd := loopEvent QueEnd (moEThrd t) \<rparr> else t)"

definition shutdownStep :: "timepoint \<Rightarrow> m2_threads \<Rightarrow> m2_threads" where
  "shutdownStep now t =
     (let first = \<not> eStopCalled (engine (wd t));
          t = t \<lparr> wd := systemShutdown now (wd t) \<rparr>
      in if first then t \<lparr> moEThrd := loopEvent QueEnd (moEThrd t) \<rparr> else t)"

section \<open>The main thread\<close>

text \<open>\<open>ctrlStart\<close>: after \<open>engineStart\<close> the threads of the motion engine run.\<close>

definition startCtrl :: "timepoint \<Rightarrow> m2_threads \<Rightarrow> m2_threads" where
  "startCtrl now t =
     (case ctrlStart now (wd t) of
        (Inl e, w) \<Rightarrow> t \<lparr> wd := w, mainPc := MainCrashed e \<rparr>
      | (Inr _, w) \<Rightarrow> t \<lparr> wd := w, moRun := True, mainPc := MainTelemetry \<rparr>)"

text \<open>\<open>engineJoin\<close> waits for the event thread if it was started, and for the timeout thread.\<close>

definition engineJoined :: "m2_threads \<Rightarrow> bool" where
  "engineJoined t \<longleftrightarrow>
     (eStarted (engine (wd t)) \<longrightarrow> pc (elThread (moEThrd t)) = Done) \<and> (moRun t \<longrightarrow> \<not> engTimeoutLoop (engine (wd t)))"

text \<open>\<open>timedOut\<close> is whether a wait with a limit came to its end.\<close>

definition mainStep :: "timepoint \<Rightarrow> bool \<Rightarrow> m2_threads \<Rightarrow> m2_threads" where
  "mainStep now timedOut t =
     (case mainPc t of
        MainRegister \<Rightarrow> t \<lparr> powerSysRegistered := True, mainPc := MainSetup \<rparr>
      | MainSetup \<Rightarrow> t \<lparr> wd := ctrlSetup (wd t), mainPc := MainStart \<rparr>
      | MainStart \<Rightarrow> startCtrl now t
      | MainTelemetry \<Rightarrow> t \<lparr> mainPc := (if timedOut then MainExit else MainWaitEngine) \<rparr>
      | MainWaitEngine \<Rightarrow> (if eStarted (engine (wd t)) then t \<lparr> mainPc := MainCreateServer \<rparr> else t)
      | MainCreateServer \<Rightarrow> t \<lparr> mainPc := MainWaitServer \<rparr>
      | MainWaitServer \<Rightarrow>
          (if srvState (wd t) = RUNNING then t \<lparr> mainPc := MainLoop \<rparr>
           else if timedOut then t \<lparr> mainPc := MainCrashed (Bug ''ControlMain server did not start'') \<rparr>
           else t)
      | MainLoop \<Rightarrow> (if srvState (wd t) = STOPPED then t \<lparr> mainPc := MainStop \<rparr> else t)
      | MainStop \<Rightarrow> (stopEngine t) \<lparr> mainPc := MainJoin \<rparr>
      | MainJoin \<Rightarrow> (if engineJoined t then t \<lparr> wd := ctrlJoin (wd t), mainPc := MainJoinServer \<rparr> else t)
      | MainJoinServer \<Rightarrow> (if srvState (wd t) = STOPPED then t \<lparr> mainPc := MainReturned \<rparr> else t)
      | _ \<Rightarrow> t)"

section \<open>Steps\<close>

datatype thread_step =
    FpgaThread "8 word \<Rightarrow> sys_info"
  | PsTimeoutThread
  | PsEThread timepoint
  | MoTimeoutThread
  | MoEThread timepoint
  | MainThread timepoint bool
  | ShutdownMsg timepoint
  | OtherThread event

text \<open>
  What the other threads do. \<open>run\<close> of the server is called once, by the thread the main thread
  starts; it ends after it was running.
\<close>

fun otherStep :: "event \<Rightarrow> m2_threads \<Rightarrow> m2_threads" where
  "otherStep ServerRun t =
     (if mainPc t = MainWaitServer \<and> srvState (wd t) = CREATED then t \<lparr> wd := exec ServerRun (wd t) \<rparr> else t)"
| "otherStep ServerStopped t = (if srvState (wd t) = RUNNING then t \<lparr> wd := exec ServerStopped (wd t) \<rparr> else t)"
| "otherStep (ReadFpga _ _) t = t"
| "otherStep (DaqInfoRead _) t = t"
| "otherStep (DaqTimeoutCheck _) t = t"
| "otherStep (ComTimeoutCheck _) t = t"
| "otherStep CtrlSetup t = t"
| "otherStep (CtrlStart _) t = t"
| "otherStep CtrlStop t = t"
| "otherStep CtrlJoin t = t"
| "otherStep (SystemShutdown _) t = t"
| "otherStep e t = t \<lparr> wd := exec e (wd t) \<rparr>"

fun threadStep :: "thread_step \<Rightarrow> m2_threads \<Rightarrow> m2_threads" where
  "threadStep (FpgaThread hw) t = fpgaStep hw t"
| "threadStep PsTimeoutThread t = psTimeoutStep t"
| "threadStep (PsEThread now) t = psThreadStep now t"
| "threadStep MoTimeoutThread t = moTimeoutStep t"
| "threadStep (MoEThread now) t = moThreadStep now t"
| "threadStep (MainThread now timedOut) t = mainStep now timedOut t"
| "threadStep (ShutdownMsg now) t = shutdownStep now t"
| "threadStep (OtherThread e) t = otherStep e t"

definition threadRun :: "thread_step list \<Rightarrow> m2_threads \<Rightarrow> m2_threads" where
  "threadRun es t = fold threadStep es t"

inductive threads_reach :: "m2_threads \<Rightarrow> bool" where
  init: "mkWorld now si0 = Inr w \<Longrightarrow> threads_reach (mkThreads w)"
| step: "threads_reach t \<Longrightarrow> threads_reach (threadStep e t)"

lemma threads_reach_run: "threads_reach t \<Longrightarrow> threads_reach (threadRun es t)"
  unfolding threadRun_def by (induction es arbitrary: t) (auto intro: threads_reach.step)

end
