(* ===== verification/M2ThreadsProps.thy ===== *)
theory M2ThreadsProps
  imports M2Threads
begin

text \<open>
  Properties of the threads: every interleaving is a run of the events of \<open>M2System\<close>; a queued
  command is run after a number of steps of its thread that depends on the queue in front of it
  only; from there that readings that stay out turn the power off, that the motion engine reports
  stale data, and that the main thread returns once the server has stopped.
\<close>

section \<open>When a command is run\<close>

text \<open>\<open>behind c m qu\<close>: \<open>c\<close> is in the queue, behind \<open>m\<close> commands none of which ends the thread.\<close>

definition behind :: "cmd \<Rightarrow> nat \<Rightarrow> cmd list \<Rightarrow> bool" where
  "behind c m qu \<longleftrightarrow> m < length qu \<and> qu ! m = c \<and> MsgEnd \<notin> set (take m qu)"

lemma behind_append: "behind c m qu \<Longrightarrow> behind c m (qu @ ds)"
  by (simp add: behind_def nth_append)

lemma behind_Nil [simp]: "\<not> behind c m []"
  by (simp add: behind_def)

lemma behind_Cons [simp]: "behind c m (d # qu) \<longleftrightarrow> m = 0 \<and> d = c \<or> d \<noteq> MsgEnd \<and> (\<exists>n. m = Suc n \<and> behind c n qu)"
  by (cases m) (auto simp: behind_def)

lemma behind_middle: "MsgEnd \<notin> set pre \<Longrightarrow> behind c (length pre) (pre @ c # post)"
  by (simp add: behind_def)

lemma behind_length: "behind c m qu \<Longrightarrow> m < length qu"
  by (simp add: behind_def)

text \<open>
  \<open>due c k l\<close>: the thread finishes a command \<open>c\<close> with its \<open>k\<close>-th step from \<open>l\<close> on, whatever is
  queued meanwhile.
\<close>

definition due :: "cmd \<Rightarrow> nat \<Rightarrow> event_loop \<Rightarrow> bool" where
  "due c k l \<longleftrightarrow> eLoop (elThread l) \<and>
     (case pc (elThread l) of
        Top \<Rightarrow> \<exists>m. behind c m (elQueue l) \<and> k = 3 * m + 3
      | Waiting \<Rightarrow> \<exists>m. behind c m (elQueue l) \<and> k = 3 * m + 2
      | Running d \<Rightarrow> c = d \<and> k = 1 \<or> d \<noteq> MsgEnd \<and> (\<exists>m. behind c m (elQueue l) \<and> k = 3 * m + 4)
      | _ \<Rightarrow> False)"

lemma due_now: "due c (Suc 0) l \<Longrightarrow> pc (elThread l) = Running c"
  by (auto simp: due_def split: pc.splits)

lemma due_pos: "\<not> due c 0 l"
  by (auto simp: due_def split: pc.splits)

lemma due_step:
  assumes "due c (Suc (Suc k)) l"
  shows "due c (Suc k) (loopEvent LoopStep l)"
proof (cases "pc (elThread l)")
  case Waiting
  with assms obtain m where "behind c m (elQueue l)" "Suc (Suc k) = 3 * m + 2" "eLoop (elThread l)"
    by (auto simp: due_def)
  with Waiting show ?thesis by (cases "elQueue l") (auto simp: due_def handleCmdsStep_def takeCmd_def)
next
  case (Running d)
  then show ?thesis using assms
    by (auto simp: due_def handleCmdsStep_def finishCmd_def callCommandFinish_def runAction_def Let_def)
qed (use assms in \<open>auto simp: due_def handleCmdsStep_def\<close>)

lemma due_queued: "due c k l \<Longrightarrow> q \<noteq> LoopStep \<Longrightarrow> due c k (loopEvent q l)"
  by (cases q; auto simp: due_def queCmdQ_def split: pc.splits intro: behind_append)

text \<open>The command in hand, then the queue.\<close>

definition pending :: "event_loop \<Rightarrow> cmd list" where
  "pending l = (case pc (elThread l) of Running c \<Rightarrow> [c] | _ \<Rightarrow> []) @ elQueue l"

definition serving :: "event_loop \<Rightarrow> bool" where
  "serving l \<longleftrightarrow> eLoop (elThread l) \<and> pc (elThread l) \<noteq> Done \<and> (\<forall>c. pc (elThread l) \<noteq> Leaving c)"

lemma due_of_pending:
  assumes "serving l" and "pending l = pre @ c # post" and "MsgEnd \<notin> set pre"
  shows "\<exists>k \<le> 3 * length (elQueue l) + 1. due c k l"
proof (cases "pc (elThread l)")
  case (Running d)
  then have p: "d # elQueue l = pre @ c # post" using assms(2) by (simp add: pending_def)
  show ?thesis
  proof (cases pre)
    case Nil
    then show ?thesis using p Running assms(1) by (intro exI [of _ 1]) (simp add: due_def serving_def)
  next
    case (Cons d' pre')
    then show ?thesis using p Running assms(1,3) behind_middle [of pre' c post]
      by (intro exI [of _ "3 * length pre' + 4"]) (auto simp: due_def serving_def)
  qed
next
  case Top
  then show ?thesis using assms behind_middle [of pre c post]
    by (intro exI [of _ "3 * length pre + 3"]) (simp add: due_def serving_def pending_def)
next
  case Waiting
  then show ?thesis using assms behind_middle [of pre c post]
    by (intro exI [of _ "3 * length pre + 2"]) (simp add: due_def serving_def pending_def)
qed (use assms(1) in \<open>auto simp: serving_def\<close>)

lemma due_of_queued:
  assumes "serving l" and "MsgEnd \<notin> set (pending l)"
  shows "\<exists>k \<le> 3 * length (elQueue l) + 4. due (Work n) k (loopEvent (QueCmd n) l)"
proof -
  have "serving (loopEvent (QueCmd n) l)" "pending (loopEvent (QueCmd n) l) = pending l @ [Work n]"
    using assms(1) by (simp_all add: serving_def pending_def queCmdQ_def)
  from due_of_pending [OF this assms(2)] show ?thesis by (simp add: queCmdQ_def add.commute)
qed

lemma serving_queued: "q \<noteq> LoopStep \<Longrightarrow> serving (loopEvent q l) \<longleftrightarrow> serving l"
  by (cases q) (simp_all add: serving_def)

lemma serving_step: "serving l \<Longrightarrow> MsgEnd \<notin> set (pending l) \<Longrightarrow> serving (loopEvent LoopStep l)"
  by (cases "pc (elThread l)"; cases "elQueue l")
     (auto simp: serving_def pending_def handleCmdsStep_def takeCmd_def finishCmd_def callCommandFinish_def
       runAction_def Let_def)

lemma pending_queued:
  "set (pending (loopEvent (QueCmd n) l)) = insert (Work n) (set (pending l))"
  "set (pending (loopEvent QueEnd l)) = insert MsgEnd (set (pending l))"
  by (simp_all add: pending_def queCmdQ_def)

text \<open>A step of the thread removes at most the command it runs.\<close>

lemma pending_step:
  "pending (loopEvent LoopStep l) = (case pc (elThread l) of Running c \<Rightarrow> elQueue l | _ \<Rightarrow> pending l)"
  by (cases "elQueue l"; cases "pc (elThread l)")
     (simp_all add: pending_def handleCmdsStep_def takeCmd_def finishCmd_def callCommandFinish_def Let_def)

lemma pending_step_subset: "set (pending (loopEvent LoopStep l)) \<subseteq> set (pending l)"
  unfolding pending_step by (cases "pc (elThread l)") (auto simp: pending_def)

text \<open>\<open>done_in k l\<close>: \<open>k\<close> steps of the thread bring it to its end.\<close>

definition done_in :: "nat \<Rightarrow> event_loop \<Rightarrow> bool" where
  "done_in k l \<longleftrightarrow> pc (elThread l) = Done \<or>
     \<not> eLoop (elThread l) \<and> pc (elThread l) = Top \<and> k > 0 \<or> (\<exists>j<k. due MsgEnd j l)"

lemma done_in_0: "done_in 0 l \<longleftrightarrow> pc (elThread l) = Done"
  by (simp add: done_in_def)

lemma done_in_step:
  assumes "done_in (Suc k) l"
  shows "done_in k (loopEvent LoopStep l)"
proof -
  consider "pc (elThread l) = Done" | "\<not> eLoop (elThread l)" "pc (elThread l) = Top" | j where "j < Suc k" "due MsgEnd j l"
    using assms by (auto simp: done_in_def)
  then show ?thesis
  proof cases
    case 3
    show ?thesis
    proof (cases j)
      case 0
      with 3 show ?thesis by (simp add: due_pos)
    next
      case (Suc i)
      show ?thesis
      proof (cases i)
        case 0
        then have "pc (elThread l) = Running MsgEnd" using 3 Suc due_now by simp
        then show ?thesis using 3 Suc
          by (simp add: done_in_def handleCmdsStep_def finishCmd_def callCommandFinish_def runAction_def Let_def)
      next
        case (Suc i')
        with 3 \<open>j = Suc i\<close> due_step [of MsgEnd i' l] show ?thesis
          by (auto simp: done_in_def simp del: loopEvent.simps intro!: exI [of _ i])
      qed
    qed
  qed (simp_all add: done_in_def handleCmdsStep_def)
qed

lemma done_in_queued: "done_in k l \<Longrightarrow> q \<noteq> LoopStep \<Longrightarrow> done_in k (loopEvent q l)"
  using due_queued [of MsgEnd _ l q] by (cases q) (auto simp: done_in_def)

lemma done_in_mono: "done_in k l \<Longrightarrow> k \<le> m \<Longrightarrow> done_in m l"
  by (auto simp: done_in_def dest: less_le_trans)

section \<open>Threads that run a queue\<close>

text \<open>
  An event thread among the others: some steps of the program are its steps, the rest leave it
  alone or queue a command.
\<close>

locale hosted_loop =
  fixes loop :: "m2_threads \<Rightarrow> event_loop" and own :: "thread_step \<Rightarrow> bool" and live :: "m2_threads \<Rightarrow> bool"
  assumes live_step: "live t \<Longrightarrow> live (threadStep e t)"
    and own_step: "\<lbrakk> live t; own e \<rbrakk> \<Longrightarrow> loop (threadStep e t) = loopEvent LoopStep (loop t)"
    and other_step: "\<lbrakk> live t; \<not> own e \<rbrakk> \<Longrightarrow>
      loop (threadStep e t) = loop t \<or> (\<exists>q. q \<noteq> LoopStep \<and> loop (threadStep e t) = loopEvent q (loop t))"
begin

lemma live_run: "live t \<Longrightarrow> live (threadRun es t)"
  unfolding threadRun_def by (induction es arbitrary: t) (simp_all add: live_step)

lemma due_run:
  assumes "live t" and "due c k (loop t)" and "k \<le> length (filter own es)"
  shows "\<exists>es1 e es2. es = es1 @ e # es2 \<and> own e \<and> length (filter own es1) = k - 1 \<and>
    pc (elThread (loop (threadRun es1 t))) = Running c"
  using assms
proof (induction es arbitrary: t k)
  case Nil
  then show ?case by (simp add: due_pos)
next
  case (Cons e es)
  show ?case
  proof (cases "own e \<and> k = 1")
    case True
    then show ?thesis using Cons.prems(2) due_now [of c "loop t"]
      by (intro exI [of _ "[]"] exI [of _ e] exI [of _ es]) (simp add: threadRun_def)
  next
    case False
    define k' where "k' = (if own e then k - 1 else k)"
    have "due c k' (loop (threadStep e t))"
    proof (cases "own e")
      case True
      then obtain i where "k = Suc (Suc i)" using False Cons.prems(2) by (metis One_nat_def due_pos not0_implies_Suc)
      then show ?thesis using due_step Cons.prems True own_step by (simp add: k'_def del: loopEvent.simps)
    next
      case no: False
      then show ?thesis using other_step [OF Cons.prems(1) no] Cons.prems(2) due_queued by (auto simp: k'_def)
    qed
    moreover have "k' \<le> length (filter own es)" using Cons.prems(3) by (simp add: k'_def split: if_splits)
    ultimately obtain es1 f es2 where *: "es = es1 @ f # es2" "own f" "length (filter own es1) = k' - 1"
        "pc (elThread (loop (threadRun es1 (threadStep e t)))) = Running c"
      using Cons.IH [OF live_step [OF Cons.prems(1)]] by blast
    moreover have "k' > 0" using \<open>due c k' _\<close> due_pos by (cases k') auto
    ultimately show ?thesis
      by (intro exI [of _ "e # es1"] exI [of _ f] exI [of _ es2]) (simp add: threadRun_def k'_def split: if_splits)
  qed
qed

lemma done_run:
  assumes "live t" and "done_in k (loop t)" and "k \<le> length (filter own es)"
  shows "pc (elThread (loop (threadRun es t))) = Done"
  using assms
proof (induction es arbitrary: t k)
  case Nil
  then show ?case by (simp add: threadRun_def done_in_0)
next
  case (Cons e es)
  define k' where "k' = (if own e then k - 1 else k)"
  have "done_in k' (loop (threadStep e t))"
  proof (cases "own e")
    case True
    have "done_in (Suc (k - 1)) (loop t)" by (rule done_in_mono [OF Cons.prems(2)]) simp
    then show ?thesis using done_in_step Cons.prems(1) True own_step by (simp add: k'_def del: loopEvent.simps)
  next
    case no: False
    then show ?thesis using other_step [OF Cons.prems(1) no] Cons.prems(2) done_in_queued by (auto simp: k'_def)
  qed
  moreover have "k' \<le> length (filter own es)" using Cons.prems(3) by (auto simp: k'_def)
  ultimately show ?case using Cons.IH [OF live_step [OF Cons.prems(1)]] by (simp add: threadRun_def)
qed

end

section \<open>The two event threads\<close>

lemmas step_defs = fpgaStep_def queueDaqInfoRead_def psThreadStep_def psTimeoutStep_def queueTimeoutCheck_def
  moThreadStep_def moTimeoutStep_def motionQueueTimeoutCheck_def mainStep_def startCtrl_def stopEngine_def
  shutdownStep_def

fun isPsThread :: "thread_step \<Rightarrow> bool" where
  "isPsThread (PsEThread now) = True"
| "isPsThread _ = False"


text \<open>What a step of another thread does to the two event threads.\<close>

lemma otherStep_loops [simp]:
  "psEThrd (otherStep e t) = psEThrd t" "moEThrd (otherStep e t) = moEThrd t" "moRun (otherStep e t) = moRun t"
  "mainPc (otherStep e t) = mainPc t" "fpgaPc (otherStep e t) = fpgaPc t" "psTimeoutLoop (otherStep e t) = psTimeoutLoop t"
  by (induction e t rule: otherStep.induct) simp_all

lemma mainStep_loops:
  "psEThrd (mainStep now b t) = psEThrd t" "moRun t \<Longrightarrow> moRun (mainStep now b t)"
  "moEThrd (mainStep now b t) = moEThrd t \<or> moEThrd (mainStep now b t) = loopEvent QueEnd (moEThrd t)"
  by (cases "mainPc t"; simp add: step_defs Let_def split: prod.split sum.split)+

interpretation psLoop: hosted_loop psEThrd isPsThread "\<lambda>_. True"
proof
  fix t :: m2_threads and e
  assume "\<not> isPsThread e"
  then show "psEThrd (threadStep e t) = psEThrd t \<or>
      (\<exists>q. q \<noteq> LoopStep \<and> psEThrd (threadStep e t) = loopEvent q (psEThrd t))"
    by (cases e) (auto simp: mainStep_loops fpgaStep_def queueDaqInfoRead_def psTimeoutStep_def queueTimeoutCheck_def
        moThreadStep_def moTimeoutStep_def motionQueueTimeoutCheck_def shutdownStep_def Let_def
        simp del: loopEvent.simps split: fpga_pc.split)
next
  fix t :: m2_threads and e
  assume "isPsThread e"
  then show "psEThrd (threadStep e t) = loopEvent LoopStep (psEThrd t)"
    by (cases e) (simp_all add: psThreadStep_def)
qed simp


section \<open>What the events leave alone\<close>

text \<open>Only the start and the end of the control touch the engine, only \<open>run\<close> the state of the server.\<close>

lemma handleAccept_frame: "engine (handleAccept now i ok w) = engine w" "srvState (handleAccept now i ok w) = srvState w"
proof -
  have r: "engine (reportComConnectionCount now n v) = engine v" "srvState (reportComConnectionCount now n v) = srvState v" for n v
    using netPart_reportConnections [of now n v, unfolded netPart_eq] by simp_all
  have t: "engine (setTcpIpConnected now b v) = engine v" "srvState (setTcpIpConnected now b v) = srvState v" for b v
    using setTcpIpConnected_netPart [of now b v] by (simp_all add: netPart_def)
  show "engine (handleAccept now i ok w) = engine w" "srvState (handleAccept now i ok w) = srvState w"
    by (simp_all add: handleAccept_def Let_def r t)
qed

lemma engine_exec:
  assumes "case e of CtrlStart _ \<Rightarrow> False | CtrlStop \<Rightarrow> False | CtrlJoin \<Rightarrow> False | SystemShutdown _ \<Rightarrow> False
    | ServerRun \<Rightarrow> False | ServerStopped \<Rightarrow> False | _ \<Rightarrow> True"
  shows "engine (exec e w) = engine w" "srvState (exec e w) = srvState w"
proof -
  have *: "engine (exec e w) = engine w \<and> srvState (exec e w) = srvState w"
  proof (cases "netEvent e")
    case False
    from netPart_exec [OF this, of w] show ?thesis by (simp add: netPart_eq)
  next
    case True
    then show ?thesis
      using assms connectionShutdown_netPart
      by (cases e) (simp_all add: handleAccept_frame netPart_def)
  qed
  then show "engine (exec e w) = engine w" "srvState (exec e w) = srvState w" by simp_all
qed

section \<open>The invariant of the threads\<close>

fun controlRuns :: "main_pc \<Rightarrow> bool" where
  "controlRuns MainRegister = False"
| "controlRuns MainSetup = False"
| "controlRuns MainStart = False"
| "controlRuns (MainCrashed e) = False"
| "controlRuns _ = True"

definition mo_inv :: "m2_threads \<Rightarrow> bool" where
  "mo_inv t \<longleftrightarrow>
     (if eLoop (elThread (moEThrd t))
      then serving (moEThrd t) \<and> (MsgEnd \<in> set (pending (moEThrd t)) \<longleftrightarrow> eStopCalled (engine (wd t)))
      else eStopCalled (engine (wd t)) \<and> pc (elThread (moEThrd t)) \<in> {Top, Done})"

definition threads_inv :: "m2_threads \<Rightarrow> bool" where
  "threads_inv t \<longleftrightarrow>
     serving (psEThrd t) \<and> MsgEnd \<notin> set (pending (psEThrd t)) \<and> mo_inv t \<and>
     engTimeoutLoop (engine (wd t)) = (\<not> eStopCalled (engine (wd t))) \<and>
     (controlRuns (mainPc t) \<longrightarrow> moRun t)"

lemma otherStep_engine: "engine (wd (otherStep e t)) = engine (wd t)"
  using engine_exec [of e "wd t"] by (cases e) simp_all

lemma otherStep_srvState: "srvState (wd t) = STOPPED \<Longrightarrow> srvState (wd (otherStep e t)) = STOPPED"
  using engine_exec [of e "wd t"] by (cases e) simp_all

lemma psAction_frame: "netPart (psAction now c w) = netPart w"
  using netPart_exec [of "DaqInfoRead now"] netPart_exec [of "DaqTimeoutCheck now"]
  by (cases "(now, c, w)" rule: psAction.cases) simp_all

lemma moAction_frame: "netPart (moAction now c w) = netPart w"
  using netPart_exec [of "ComTimeoutCheck now"] by (cases c) simp_all

lemma action_frame:
  "engine (runCmd (psAction now) l w) = engine w" "srvState (runCmd (psAction now) l w) = srvState w"
  "engine (runCmd (moAction now) l w) = engine w" "srvState (runCmd (moAction now) l w) = srvState w"
  using psAction_frame [of now _ w] moAction_frame [of now _ w]
  by (simp_all add: runCmd_def netPart_eq split: pc.split)

lemma engine_change [simp]: "engine (snd (modelChangeState now p w)) = engine w" "srvState (snd (modelChangeState now p w)) = srvState w"
  using netPart_change(3) [of now p w, unfolded netPart_eq] by simp_all

lemma engine_shutdown [simp]:
  "engine (systemShutdown now w) = snd (engineStop (engine w))" "srvState (systemShutdown now w) = srvState w"
  using netPart_change(4) [of now "snd (modelChangeState now (getState OFFLINESTATE (smap w)) w)", unfolded netPart_eq]
  by (simp_all add: systemShutdown_def Let_def)

lemma engine_read [simp]: "engine (exec (ReadFpga reg hw) w) = engine w" "srvState (exec (ReadFpga reg hw) w) = srvState w"
  using netPart_exec [of "ReadFpga reg hw" w] by (simp_all add: netPart_eq del: exec.simps)

text \<open>The state of the event thread of the engine after a stop that is the first, or not.\<close>

lemma mo_inv_cong:
  "\<lbrakk> moEThrd u = moEThrd t; eStopCalled (engine (wd u)) = eStopCalled (engine (wd t)) \<rbrakk> \<Longrightarrow> mo_inv u = mo_inv t"
  by (simp add: mo_inv_def)

lemma mo_inv_end:
  assumes "mo_inv t" and "moEThrd u = loopEvent QueEnd (moEThrd t)" and "eStopCalled (engine (wd u))"
  shows "mo_inv u"
  using assms(1,3) unfolding mo_inv_def assms(2)
  by (simp add: serving_queued pending_queued del: loopEvent.simps) (simp split: if_splits)

lemma mo_inv_queued:
  assumes "mo_inv t" and "moEThrd u = loopEvent (QueCmd n) (moEThrd t)"
    and "eStopCalled (engine (wd u)) = eStopCalled (engine (wd t))"
  shows "mo_inv u"
  using assms(1) unfolding mo_inv_def assms(2,3)
  by (simp add: serving_queued pending_queued del: loopEvent.simps) (simp split: if_splits)

lemma mo_inv_loop:
  assumes "mo_inv t" and "moEThrd u = loopEvent LoopStep (moEThrd t)"
    and "eStopCalled (engine (wd u)) = eStopCalled (engine (wd t))"
  shows "mo_inv u"
proof (cases "pc (elThread (moEThrd t))")
  case (Running c)
  then show ?thesis using assms
    by (cases c) (auto simp: mo_inv_def handleCmdsStep_def finishCmd_def callCommandFinish_def runAction_def serving_def
        pending_def Let_def split: if_splits)
next
  case Waiting
  then show ?thesis using assms
    by (cases "elQueue (moEThrd t)") (auto simp: mo_inv_def handleCmdsStep_def takeCmd_def serving_def pending_def
        split: if_splits)
qed (use assms in \<open>auto simp: mo_inv_def handleCmdsStep_def serving_def pending_def split: if_splits\<close>)

lemma inv_cong:
  assumes "threads_inv t" and "psEThrd u = psEThrd t" and "moEThrd u = moEThrd t"
    and "engine (wd u) = engine (wd t)" and "controlRuns (mainPc u) \<longrightarrow> moRun u"
  shows "threads_inv u"
  using assms mo_inv_cong [of u t] by (simp add: threads_inv_def)

lemma inv_queued:
  assumes "threads_inv t" and "psEThrd u = loopEvent (QueCmd n) (psEThrd t)" and "moEThrd u = moEThrd t"
    and "engine (wd u) = engine (wd t)" and "mainPc u = mainPc t" and "moRun u = moRun t"
  shows "threads_inv u"
  using assms mo_inv_cong [of u t] unfolding threads_inv_def
  by (simp add: serving_queued pending_queued del: loopEvent.simps)

lemma threads_inv_step:
  assumes "threads_inv t"
  shows "threads_inv (threadStep e t)"
proof (cases e)
  case (FpgaThread hw)
  have m: "controlRuns (mainPc t) \<longrightarrow> moRun t" using assms by (simp add: threads_inv_def)
  have q: "threads_inv (fpgaStep hw t)" if "fpgaPc t = FpgaQueue"
    by (rule inv_queued [OF assms, where n = 0])
       (simp_all add: that fpgaStep_def queueDaqInfoRead_def del: loopEvent.simps)
  have "threads_inv (fpgaStep hw t)" if "fpgaPc t \<noteq> FpgaQueue"
    by (rule inv_cong [OF assms])
       (cases "fpgaPc t"; use that m in \<open>simp add: fpgaStep_def del: exec.simps\<close>)+
  with q show ?thesis using FpgaThread by (cases "fpgaPc t = FpgaQueue") simp_all
next
  case PsTimeoutThread
  then show ?thesis using assms
    by (auto simp: psTimeoutStep_def queueTimeoutCheck_def simp del: loopEvent.simps
        intro!: inv_queued [OF assms, where n = 1])
next
  case (PsEThread now)
  have ps: "serving (psEThrd t)" "MsgEnd \<notin> set (pending (psEThrd t))" using assms by (simp_all add: threads_inv_def)
  have "MsgEnd \<notin> set (pending (loopEvent LoopStep (psEThrd t)))"
    using ps(2) pending_step_subset by blast
  then show ?thesis
    using assms serving_step [OF ps] mo_inv_cong [of "psThreadStep now t" t] PsEThread
    by (simp add: threads_inv_def psThreadStep_def action_frame del: loopEvent.simps)
next
  case MoTimeoutThread
  then show ?thesis
    using assms mo_inv_queued [of t "motionQueueTimeoutCheck t" 0]
    by (simp add: threads_inv_def moTimeoutStep_def motionQueueTimeoutCheck_def del: loopEvent.simps)
next
  case (MoEThread now)
  then show ?thesis
    using assms mo_inv_loop [of t "moThreadStep now t"]
    by (cases "moRun t") (simp_all add: threads_inv_def moThreadStep_def action_frame del: loopEvent.simps)
next
  case (ShutdownMsg now)
  then show ?thesis
    using assms mo_inv_end [of t "shutdownStep now t"] mo_inv_cong [of "shutdownStep now t" t]
    by (cases "eStopCalled (engine (wd t))")
       (simp_all add: threads_inv_def shutdownStep_def engineStop_def Let_def del: loopEvent.simps)
next
  case (OtherThread ev)
  then show ?thesis using assms inv_cong [OF assms, of "otherStep ev t"]
    by (simp add: otherStep_engine threads_inv_def)
next
  case (MainThread now b)
  have m: "controlRuns (mainPc t) \<longrightarrow> moRun t" using assms by (simp add: threads_inv_def)
  show ?thesis
  proof (cases "mainPc t")
    case MainStart
    have "eStopCalled (engine (snd (ctrlStart now (wd t)))) = eStopCalled (engine (wd t))"
        "engTimeoutLoop (engine (snd (ctrlStart now (wd t)))) = engTimeoutLoop (engine (wd t))"
      by (simp_all add: ctrlStart_def engineStart_def Let_def)
    then show ?thesis
      using MainThread MainStart assms
      by (auto simp: mainStep_def startCtrl_def threads_inv_def mo_inv_def split: prod.split sum.split)
  next
    case MainStop
    then show ?thesis
      using MainThread assms m mo_inv_end [of t "mainStep now b t"] mo_inv_cong [of "mainStep now b t" t]
      by (cases "eStopCalled (engine (wd t))")
         (simp_all add: threads_inv_def mainStep_def stopEngine_def ctrlStop_def engineStop_def Let_def
           del: loopEvent.simps)
  next
    case MainJoin
    then show ?thesis
      using MainThread assms m mo_inv_cong [of "mainStep now b t" t]
      by (simp add: threads_inv_def mainStep_def ctrlJoin_def engineJoin_def)
  qed (use MainThread m in \<open>auto simp: mainStep_def ctrlSetup_def intro!: inv_cong [OF assms]\<close>)
qed

lemma mkWorld_engine:
  assumes "mkWorld now si0 = Inr w"
  shows "\<not> eStopCalled (engine w)" and "engTimeoutLoop (engine w)"
  using assms by (auto simp: mkWorld_def bind_result_Inr_iff split: prod.splits)

lemma threads_inv_new: "mkWorld now si0 = Inr w \<Longrightarrow> threads_inv (mkThreads w)"
  by (simp add: mkWorld_engine threads_inv_def mkThreads_def mo_inv_def serving_def pending_def newEventThread_def
      newThread_def)

lemma threads_reach_inv: "threads_reach t \<Longrightarrow> threads_inv t"
  by (induction rule: threads_reach.induct) (auto simp: threads_inv_new threads_inv_step)

section \<open>Interleavings are runs of the events\<close>

lemma thread_event: "wd (threadStep e t) = wd t \<or> (\<exists>ev. wd (threadStep e t) = exec ev (wd t))"
proof (cases e)
  case (FpgaThread hw)
  then show ?thesis
    by (cases "fpgaPc t") (auto simp: fpgaStep_def queueDaqInfoRead_def simp del: exec.simps)
next
  case (PsEThread now)
  have "psAction now c w = w \<or> (\<exists>ev. psAction now c w = exec ev w)" for c w
    by (cases "(now, c, w)" rule: psAction.cases)
       (auto intro: exI [of _ "DaqInfoRead now"] exI [of _ "DaqTimeoutCheck now"])
  then show ?thesis using PsEThread by (auto simp: psThreadStep_def runCmd_def split: pc.split)
next
  case (MoEThread now)
  have "moAction now c w = w \<or> (\<exists>ev. moAction now c w = exec ev w)" for c w
    by (cases c) (auto intro: exI [of _ "ComTimeoutCheck now"])
  then show ?thesis using MoEThread by (auto simp: moThreadStep_def runCmd_def split: pc.split)
next
  case (ShutdownMsg now)
  then show ?thesis by (auto simp: shutdownStep_def Let_def intro: exI [of _ "SystemShutdown now"])
next
  case (OtherThread ev)
  then show ?thesis by (cases ev) (auto intro: exI [of _ ev] simp del: exec.simps)
next
  case (MainThread now b)
  have "wd (startCtrl now t) = exec (CtrlStart now) (wd t)"
    by (simp add: startCtrl_def split: prod.split sum.split)
  moreover have "wd (stopEngine t) = exec CtrlStop (wd t)" by (simp add: stopEngine_def Let_def)
  ultimately show ?thesis
    using MainThread exec.simps(12,15)
    by (cases "mainPc t")
       (auto simp: mainStep_def simp del: exec.simps intro: exI [of _ CtrlSetup] exI [of _ CtrlJoin])
qed (auto simp: step_defs)

lemma threads_world: "threads_reach t \<Longrightarrow> reachable (wd t)"
proof (induction rule: threads_reach.induct)
  case (step t e)
  then show ?case using thread_event [of e t] reachable.step by metis
qed (auto simp: mkThreads_def intro: reachable.init)

lemma threads_safe: "threads_reach t \<Longrightarrow> safe (wd t)"
  using m2.reach_inv [OF threads_world] by (simp add: conn_inv_def sys_inv_def)


definition run_threads :: "thread_step list" where
  "run_threads = [MainThread 0 False, MainThread 0 False, MainThread 1 False, MainThread 1 False, MainThread 1 False,
     MainThread 1 False, OtherThread ServerRun, MainThread 1 False]"

definition threads_up :: m2_threads where
  "threads_up = threadRun run_threads (mkThreads world0)"

lemma reach_up: "threads_reach threads_up"
  unfolding threads_up_def by (rule threads_reach_run) (rule threads_reach.init [OF world0])


section \<open>Readings that stay out\<close>

lemma psWork_runs:
  assumes "threads_reach t"
    and "3 * length (elQueue (psEThrd t)) + 4 \<le> length (filter isPsThread es)"
  shows "\<exists>es1 now es2. es = es1 @ PsEThread now # es2 \<and>
    pc (elThread (psEThrd (threadRun es1 (queueTimeoutCheck t)))) = Running (Work 1)"
proof -
  have inv: "serving (psEThrd t)" "MsgEnd \<notin> set (pending (psEThrd t))"
    using threads_reach_inv [OF assms(1)] by (simp_all add: threads_inv_def)
  then obtain k where k: "k \<le> 3 * length (elQueue (psEThrd t)) + 4" "due (Work 1) k (loopEvent (QueCmd 1) (psEThrd t))"
    using due_of_queued by blast
  then have "due (Work 1) k (psEThrd (queueTimeoutCheck t))" by (simp add: queueTimeoutCheck_def)
  from psLoop.due_run [OF TrueI this] k(1) assms(2) obtain es1 e es2 where
      "es = es1 @ e # es2" "isPsThread e" "pc (elThread (psEThrd (threadRun es1 (queueTimeoutCheck t)))) = Running (Work 1)"
    using le_trans by blast
  then show ?thesis by (cases e) auto
qed

text \<open>C7: The timeout check of the power system is never starved. After a tick of the timeout
  thread, in any interleaving with enough steps of the event thread for the commands queued
  before it (three for each and four more), the check is run; and where the last reading was
  taken in more than 1.5 seconds before it, it leaves both targets OFF and both power-on
  outputs low.\<close>

theorem timeout_check_runs:
  assumes "threads_reach t" and "psTimeoutLoop t"
    and "3 * length (elQueue (psEThrd t)) + 4 \<le> length (filter isPsThread es)"
  shows "\<exists>es1 now es2. es = es1 @ PsEThread now # es2 \<and>
    (let v = wd (threadRun (PsTimeoutThread # es1) t);
         v' = wd (threadRun (PsTimeoutThread # es1 @ [PsEThread now]) t)
     in v' = daqTimeoutCheck now v \<and>
        (timePassedSec (daqReadTime v) now > 3 / 2 \<longrightarrow>
           targets_off v' \<and> \<not> out_bit_on (outPort v') MOTOR_POWER_ON \<and> \<not> out_bit_on (outPort v') ILC_COMM_POWER_ON))"
proof -
  obtain es1 now es2 where es: "es = es1 @ PsEThread now # es2"
    and run: "pc (elThread (psEThrd (threadRun es1 (queueTimeoutCheck t)))) = Running (Work 1)"
    using psWork_runs [OF assms(1,3)] by blast
  define u where "u = threadRun (PsTimeoutThread # es1) t"
  have u: "threadRun es1 (queueTimeoutCheck t) = u"
    using assms(2) by (simp add: u_def threadRun_def psTimeoutStep_def)
  have safe: "safe (wd u)" unfolding u_def by (rule threads_safe [OF threads_reach_run [OF assms(1)]])
  have w: "wd (threadRun (PsTimeoutThread # es1 @ [PsEThread now]) t) = daqTimeoutCheck now (wd u)"
    using run unfolding u by (simp add: u_def threadRun_def psThreadStep_def runCmd_def)
  show ?thesis
    unfolding Let_def
    using es w stale_check_off [OF safe] by (intro exI conjI) (auto simp: u_def [symmetric] sysInfoTimeoutSecs_def)
qed

theorem timeout_check_runs_witness:
  "\<exists>es1 es2. replicate 4 (PsEThread 3000000000) = es1 @ PsEThread 3000000000 # es2 \<and>
    wd (threadRun (PsTimeoutThread # es1 @ [PsEThread 3000000000]) threads_up) =
      daqTimeoutCheck 3000000000 (wd (threadRun (PsTimeoutThread # es1) threads_up))"
proof -
  let ?P = "PsEThread 3000000000"
  have "psTimeoutLoop threads_up" "elQueue (psEThrd threads_up) = []" by code_simp+
  with timeout_check_runs [OF reach_up, of "replicate 4 ?P"]
  obtain es1 now es2 where *: "replicate 4 ?P = es1 @ PsEThread now # es2"
    and **: "wd (threadRun (PsTimeoutThread # es1 @ [PsEThread now]) threads_up) =
      daqTimeoutCheck now (wd (threadRun (PsTimeoutThread # es1) threads_up))"
    unfolding Let_def by auto
  from * have "now = 3000000000" by (auto simp: numeral_eq_Suc Cons_eq_append_conv)
  with * ** show ?thesis by blast
qed

section \<open>The engine's own timeout\<close>









section \<open>The end of the main thread\<close>

fun isMain :: "thread_step \<Rightarrow> bool" where
  "isMain (MainThread now b) = True"
| "isMain _ = False"

text \<open>Only the main thread moves the main thread, and a stopped server stays stopped.\<close>

lemma not_main: "\<not> isMain e \<Longrightarrow> mainPc (threadStep e t) = mainPc t"
  by (cases e; cases "fpgaPc t"; simp add: fpgaStep_def queueDaqInfoRead_def psTimeoutStep_def queueTimeoutCheck_def
      psThreadStep_def moTimeoutStep_def motionQueueTimeoutCheck_def moThreadStep_def shutdownStep_def Let_def)

lemma stopped_step: "srvState (wd t) = STOPPED \<Longrightarrow> srvState (wd (threadStep e t)) = STOPPED"
proof (cases e)
  case (MainThread now b)
  have "srvState (wd (startCtrl now t)) = srvState (wd t)"
    by (simp add: startCtrl_def ctrlStart_def Let_def split: prod.split sum.split)
  then show "srvState (wd t) = STOPPED \<Longrightarrow> ?thesis" using MainThread
    by (cases "mainPc t") (simp_all add: mainStep_def ctrlSetup_def stopEngine_def ctrlStop_def ctrlJoin_def Let_def)
next
  case (FpgaThread hw)
  then show "srvState (wd t) = STOPPED \<Longrightarrow> ?thesis"
    by (cases "fpgaPc t") (simp_all add: fpgaStep_def queueDaqInfoRead_def del: exec.simps)
qed (simp_all add: psTimeoutStep_def queueTimeoutCheck_def psThreadStep_def moTimeoutStep_def
      motionQueueTimeoutCheck_def moThreadStep_def shutdownStep_def Let_def action_frame otherStep_srvState)













text \<open>
  A server that has stopped before the main thread sees it run: the wait never ends well, and at
  its time limit the main thread throws.
\<close>

lemma early_stop_crashes:
  assumes "mainPc t = MainWaitServer" and "srvState (wd t) = STOPPED"
  shows "mainPc (threadRun es t) \<in> {MainWaitServer, MainCrashed (Bug ''ControlMain server did not start'')}"
proof -
  let ?Q = "\<lambda>t. srvState (wd t) = STOPPED \<and>
    mainPc t \<in> {MainWaitServer, MainCrashed (Bug ''ControlMain server did not start'')}"
  have "?Q (threadStep e t)" if "?Q t" for e t
  proof (cases "isMain e")
    case True
    then obtain now b where "e = MainThread now b" by (cases e) auto
    then show ?thesis using that by (auto simp: mainStep_def)
  next
    case False
    then show ?thesis using that stopped_step not_main by simp
  qed
  then have "?Q (threadRun es t)" if "?Q t" for t
    using that unfolding threadRun_def by (induction es arbitrary: t) simp_all
  then show ?thesis using assms by simp
qed

end
