(* ===== verification/ComServerLife.thy ===== *)
theory ComServerLife
  imports M2Frame M2Props
begin

text \<open>
  The life of \<open>system/ComServer\<close> and of its \<open>system/ComConnection\<close> objects: the io threads and the
  operations they complete, the accept chain, who holds a reference to a connection and what its
  destruction does, \<open>shutdown\<close>, \<open>destroy\<close> and the end of \<open>run\<close>. What the connections do to the
  rest of the system are the operations of \<open>M2System\<close>. The messages themselves are in \<open>ComControl\<close>
  and \<open>ComStream\<close>.
\<close>

section \<open>State\<close>

text \<open>
  An operation handed to \<open>boost::asio\<close>, with the connection it holds a reference to. A write is
  marked with whether the send side of the socket was still open when it was started.
\<close>

datatype io_op = OpAccept nat | OpRead nat | OpResponse nat bool string | OpWrite nat bool string

fun opConn :: "io_op \<Rightarrow> nat" where
  "opConn (OpAccept i) = i"
| "opConn (OpRead i) = i"
| "opConn (OpResponse i sendable msg) = i"
| "opConn (OpWrite i sendable msg) = i"

record com_connection =
  connectionActive :: bool
  connShutdown :: bool

definition newComConnection :: com_connection where
  "newComConnection = \<lparr> connectionActive = False, connShutdown = False \<rparr>"

text \<open>Where \<open>_handleAccept\<close> is: past its test of the server's state, or past the entry into the map.\<close>

datatype accept_pc = AcceptTested nat bool | AcceptInserted nat bool

fun acceptConn :: "accept_pc \<Rightarrow> nat" where
  "acceptConn (AcceptTested i ok) = i"
| "acceptConn (AcceptInserted i ok) = i"

text \<open>
  The state, the shutdown flag, the map \<open>_connections\<close> and the count of active connections are
  those of the world. \<open>toShut\<close> is the vector of \<open>shutdown\<close>, once it is there. \<open>delivered\<close> records
  what was written to which connection.
\<close>

record com_server =
  sw :: world
  objects :: "nat \<rightharpoonup> com_connection"
  ops :: "io_op list"
  cmdThreads :: "nat list"
  connIdSeq :: nat
  accepting :: "accept_pc option"
  ioThreads :: nat
  ioStopped :: bool
  destroyCalled :: bool
  toShut :: "nat list option"
  delivered :: "(nat \<times> string) list"

definition mkComServer :: "world \<Rightarrow> com_server" where
  "mkComServer w = \<lparr> sw = w, objects = Map.empty, ops = [], cmdThreads = [], connIdSeq = 0, accepting = None,
     ioThreads = 0, ioStopped = False, destroyCalled = False, toShut = None, delivered = [] \<rparr>"

definition connectionCount :: "com_server \<Rightarrow> nat" where
  "connectionCount s = length (connections (sw s))"

fun prettyState :: "com_state \<Rightarrow> string" where
  "prettyState CREATED = ''CREATED''"
| "prettyState RUNNING = ''RUNNING''"
| "prettyState STOPPED = ''STOPPED''"

section \<open>Connections\<close>

text \<open>Whether anything still refers to the connection: an operation, a command thread, \<open>_handleAccept\<close>.\<close>

definition referenced :: "nat \<Rightarrow> com_server \<Rightarrow> bool" where
  "referenced i s \<longleftrightarrow> (\<exists>p \<in> set (ops s). opConn p = i) \<or> i \<in> set (cmdThreads s) \<or>
     (case accepting s of Some a \<Rightarrow> acceptConn a = i | None \<Rightarrow> False)"

definition shutdownConn :: "timepoint \<Rightarrow> nat \<Rightarrow> com_server \<Rightarrow> com_server" where
  "shutdownConn now i s =
     (case objects s i of
        None \<Rightarrow> s
      | Some c \<Rightarrow>
          if connShutdown c then s
          else s \<lparr> sw := connectionShutdown now i (connectionActive c) (sw s),
                   objects := (objects s)(i \<mapsto> c \<lparr> connShutdown := True, connectionActive := False \<rparr>) \<rparr>)"

text \<open>A reference to the connection was dropped; with the last one its destructor runs.\<close>

definition dropRef :: "timepoint \<Rightarrow> nat \<Rightarrow> com_server \<Rightarrow> com_server" where
  "dropRef now i s =
     (if referenced i s then s
      else let s = shutdownConn now i s in s \<lparr> objects := (objects s)(i := None) \<rparr>)"

definition sendOpen :: "nat \<Rightarrow> com_server \<Rightarrow> bool" where
  "sendOpen i s \<longleftrightarrow> (case objects s i of Some c \<Rightarrow> \<not> connShutdown c | None \<Rightarrow> False)"

definition receiveCommand :: "nat \<Rightarrow> com_server \<Rightarrow> com_server" where
  "receiveCommand i s = (if sendOpen i s then s \<lparr> ops := ops s @ [OpRead i] \<rparr> else s)"

definition asyncWriteTo :: "string \<Rightarrow> nat \<Rightarrow> com_server \<Rightarrow> com_server" where
  "asyncWriteTo msg i s = s \<lparr> ops := ops s @ [OpWrite i (sendOpen i s) msg] \<rparr>"

text \<open>\<open>beginProtocol\<close> up to the first read; the welcome message is in \<open>ComStream\<close>.\<close>

definition beginProtocol :: "timepoint \<Rightarrow> nat \<Rightarrow> com_server \<Rightarrow> com_server" where
  "beginProtocol now i s =
     (case objects s i of
        None \<Rightarrow> s
      | Some c \<Rightarrow>
          let s = s \<lparr> objects := (objects s)(i \<mapsto> c \<lparr> connectionActive := True \<rparr>),
                     sw := setTcpIpConnected now True (sw s) \<rparr>
          in receiveCommand i s)"

section \<open>Server\<close>

definition beginAccept :: "com_server \<Rightarrow> com_server" where
  "beginAccept s =
     (if srvState (sw s) = STOPPED \<or> srvShutdown (sw s) then s
      else s \<lparr> connIdSeq := connIdSeq s + 1, objects := (objects s)(connIdSeq s \<mapsto> newComConnection),
               ops := ops s @ [OpAccept (connIdSeq s)] \<rparr>)"

text \<open>\<open>run\<close>: the accept chain is begun before the io threads are started.\<close>

definition runServer :: "nat \<Rightarrow> com_server \<Rightarrow> com_server" where
  "runServer threadCount s =
     (if srvState (sw s) \<noteq> CREATED then s
      else let s = beginAccept s in s \<lparr> ioThreads := threadCount, sw := exec ServerRun (sw s) \<rparr>)"

text \<open>An io thread returns when the context was stopped, or when there is nothing left to do.\<close>

definition busyThreads :: "com_server \<Rightarrow> nat" where
  "busyThreads s = (if accepting s = None then 0 else 1)"

definition ioExit :: "com_server \<Rightarrow> com_server" where
  "ioExit s =
     (if ioThreads s > busyThreads s \<and> (ioStopped s \<or> ops s = [] \<and> accepting s = None)
      then s \<lparr> ioThreads := ioThreads s - 1 \<rparr> else s)"

definition runEnd :: "com_server \<Rightarrow> com_server" where
  "runEnd s = (if srvState (sw s) = RUNNING \<and> ioThreads s = 0 then s \<lparr> sw := exec ServerStopped (sw s) \<rparr> else s)"

text \<open>Whether an io thread can start the handler of an operation.\<close>

definition canHandle :: "io_op \<Rightarrow> com_server \<Rightarrow> bool" where
  "canHandle p s \<longleftrightarrow> p \<in> set (ops s) \<and> \<not> ioStopped s \<and> ioThreads s > busyThreads s"

definition takeOp :: "io_op \<Rightarrow> com_server \<Rightarrow> com_server" where
  "takeOp p s = s \<lparr> ops := remove1 p (ops s) \<rparr>"

subsection \<open>\<open>_handleAccept\<close>\<close>

definition handleAcceptTest :: "timepoint \<Rightarrow> nat \<Rightarrow> bool \<Rightarrow> com_server \<Rightarrow> com_server" where
  "handleAcceptTest now i ok s =
     (if srvState (sw s) = STOPPED \<or> srvShutdown (sw s) then dropRef now i s
      else s \<lparr> accepting := Some (AcceptTested i ok) \<rparr>)"

definition insertConnection :: "timepoint \<Rightarrow> nat \<Rightarrow> world \<Rightarrow> world" where
  "insertConnection now i w =
     (let w = (if i \<in> set (connections w) then w else w \<lparr> connections := connections w @ [i] \<rparr>)
      in reportComConnectionCount now (length (connections w)) w)"

definition handleAcceptStep :: "timepoint \<Rightarrow> com_server \<Rightarrow> com_server" where
  "handleAcceptStep now s =
     (case accepting s of
        None \<Rightarrow> s
      | Some (AcceptTested i ok) \<Rightarrow>
          s \<lparr> sw := insertConnection now i (sw s), accepting := Some (AcceptInserted i ok) \<rparr>
      | Some (AcceptInserted i ok) \<Rightarrow>
          let s = (if ok then beginProtocol now i s else s);
              s = beginAccept s
          in dropRef now i (s \<lparr> accepting := None \<rparr>))"

subsection \<open>The handlers of a connection\<close>

text \<open>
  \<open>_readCommand\<close>: a closed or failed connection (\<open>None\<close>) is only left; with a command its
  answer is written and a thread that runs it is started.
\<close>

definition readCommandOf :: "timepoint \<Rightarrow> nat \<Rightarrow> string option \<Rightarrow> com_server \<Rightarrow> com_server" where
  "readCommandOf now i ack s =
     (case ack of
        None \<Rightarrow> dropRef now i s
      | Some msg \<Rightarrow> s \<lparr> ops := ops s @ [OpResponse i (sendOpen i s) msg], cmdThreads := cmdThreads s @ [i] \<rparr>)"

definition responseSent :: "timepoint \<Rightarrow> nat \<Rightarrow> bool \<Rightarrow> string \<Rightarrow> com_server \<Rightarrow> com_server" where
  "responseSent now i ok msg s =
     (if \<not> ok then dropRef now i s
      else dropRef now i (receiveCommand i (s \<lparr> delivered := delivered s @ [(i, msg)] \<rparr>)))"

definition asyncWriteSent :: "timepoint \<Rightarrow> nat \<Rightarrow> bool \<Rightarrow> string \<Rightarrow> com_server \<Rightarrow> com_server" where
  "asyncWriteSent now i ok msg s =
     dropRef now i (if ok then s \<lparr> delivered := delivered s @ [(i, msg)] \<rparr> else s)"

definition asyncWriteToAllComConn :: "string \<Rightarrow> com_server \<Rightarrow> com_server" where
  "asyncWriteToAllComConn msg s =
     fold (\<lambda>i s. if objects s i \<noteq> None then asyncWriteTo msg i s else s) (connections (sw s)) s"

subsection \<open>The end\<close>

definition shutdownServer :: "com_server \<Rightarrow> com_server" where
  "shutdownServer s =
     (if srvShutdown (sw s) then s
      else s \<lparr> sw := (sw s) \<lparr> srvShutdown := True \<rparr>, toShut := Some (connections (sw s)) \<rparr>)"

definition shutdownNext :: "timepoint \<Rightarrow> com_server \<Rightarrow> com_server" where
  "shutdownNext now s =
     (case toShut s of Some (i # is') \<Rightarrow> shutdownConn now i (s \<lparr> toShut := Some is' \<rparr>) | _ \<Rightarrow> s)"

definition destroyServer :: "com_server \<Rightarrow> com_server" where
  "destroyServer s = (if destroyCalled s then s else s \<lparr> destroyCalled := True, ioStopped := True \<rparr>)"

section \<open>Steps\<close>

datatype srv_event =
    SrvRun nat
  | IoExit
  | RunEnd
  | AcceptDone timepoint nat bool
  | AcceptStep timepoint
  | ReadDone timepoint nat "string option"
  | ResponseDone timepoint nat bool string bool
  | WriteDone timepoint nat bool string bool
  | CmdWrite nat string
  | CmdEnd timepoint nat
  | Broadcast string
  | ShutBegin
  | ShutNext timepoint
  | SrvDestroy
  | OtherEvent event

text \<open>
  A write succeeds only if the send side was open when it was started. The other events of the
  system are those that do not concern the server.
\<close>

fun srvEvent :: "srv_event \<Rightarrow> com_server \<Rightarrow> com_server" where
  "srvEvent (SrvRun n) s = runServer n s"
| "srvEvent IoExit s = ioExit s"
| "srvEvent RunEnd s = runEnd s"
| "srvEvent (AcceptDone now i ok) s =
     (if canHandle (OpAccept i) s then handleAcceptTest now i ok (takeOp (OpAccept i) s) else s)"
| "srvEvent (AcceptStep now) s = handleAcceptStep now s"
| "srvEvent (ReadDone now i ack) s =
     (if canHandle (OpRead i) s then readCommandOf now i ack (takeOp (OpRead i) s) else s)"
| "srvEvent (ResponseDone now i op msg ok) s =
     (if canHandle (OpResponse i op msg) s \<and> (ok \<longrightarrow> op)
      then responseSent now i ok msg (takeOp (OpResponse i op msg) s) else s)"
| "srvEvent (WriteDone now i op msg ok) s =
     (if canHandle (OpWrite i op msg) s \<and> (ok \<longrightarrow> op)
      then asyncWriteSent now i ok msg (takeOp (OpWrite i op msg) s) else s)"
| "srvEvent (CmdWrite i msg) s = (if i \<in> set (cmdThreads s) then asyncWriteTo msg i s else s)"
| "srvEvent (CmdEnd now i) s =
     (if i \<in> set (cmdThreads s) then dropRef now i (s \<lparr> cmdThreads := remove1 i (cmdThreads s) \<rparr>) else s)"
| "srvEvent (Broadcast msg) s = asyncWriteToAllComConn msg s"
| "srvEvent ShutBegin s = shutdownServer s"
| "srvEvent (ShutNext now) s = shutdownNext now s"
| "srvEvent SrvDestroy s = destroyServer s"
| "srvEvent (OtherEvent e) s = (if netEvent e then s else s \<lparr> sw := exec e (sw s) \<rparr>)"

definition srvEvents :: "srv_event list \<Rightarrow> com_server \<Rightarrow> com_server" where
  "srvEvents es s = fold srvEvent es s"

inductive srv_reachable :: "com_server \<Rightarrow> bool" where
  init: "\<lbrakk> reachable w; srvState w = CREATED; \<not> srvShutdown w; connections w = []; tcpCount w = 0 \<rbrakk> \<Longrightarrow>
    srv_reachable (mkComServer w)"
| step: "srv_reachable s \<Longrightarrow> srv_reachable (srvEvent e s)"

lemma srv_reachable_run: "srv_reachable s \<Longrightarrow> srv_reachable (srvEvents es s)"
  unfolding srvEvents_def by (induction es arbitrary: s) (auto intro: srv_reachable.step)

end
