(* ===== verification/ComServerLifeProps.thy ===== *)
theory ComServerLifeProps
  imports ComServerLife
begin

text \<open>
  Properties of the life of the server: the count of active connections, what a shutdown closes
  and what it can miss, that no message leaves a connection that was shut down, and that \<open>run\<close>
  ends once the context is stopped.
\<close>

section \<open>What the operations do to the server's part of the world\<close>

lemma conn_world [simp]:
  "connections (connectionShutdown now i a w) = removeAll i (connections w)"
  "tcpCount (connectionShutdown now i a w) = tcpCount w - (if a then 1 else 0)"
  "srvState (connectionShutdown now i a w) = srvState w" "srvShutdown (connectionShutdown now i a w) = srvShutdown w"
  using connectionShutdown_netPart [of now i a w] by (simp_all add: netPart_def)

lemma tcp_world [simp]:
  "connections (setTcpIpConnected now b w) = connections w"
  "tcpCount (setTcpIpConnected now b w) = tcpCount w + (if b then 1 else - 1)"
  "srvState (setTcpIpConnected now b w) = srvState w" "srvShutdown (setTcpIpConnected now b w) = srvShutdown w"
  using setTcpIpConnected_netPart [of now b w] by (simp_all add: netPart_def)

lemma insert_world [simp]:
  "connections (insertConnection now i w) = (if i \<in> set (connections w) then connections w else connections w @ [i])"
  "tcpCount (insertConnection now i w) = tcpCount w"
  "srvState (insertConnection now i w) = srvState w" "srvShutdown (insertConnection now i w) = srvShutdown w"
proof -
  have r: "connections (reportComConnectionCount now n v) = connections v" "tcpCount (reportComConnectionCount now n v) = tcpCount v"
    "srvState (reportComConnectionCount now n v) = srvState v" "srvShutdown (reportComConnectionCount now n v) = srvShutdown v"
    for n v using netPart_reportConnections [of now n v, unfolded netPart_eq] by simp_all
  show "connections (insertConnection now i w) = (if i \<in> set (connections w) then connections w else connections w @ [i])"
    "tcpCount (insertConnection now i w) = tcpCount w"
    "srvState (insertConnection now i w) = srvState w" "srvShutdown (insertConnection now i w) = srvShutdown w"
    by (simp_all add: insertConnection_def Let_def r)
qed

text \<open>Without the two steps in between, \<open>_handleAccept\<close> is the event of \<open>M2System\<close>.\<close>

lemma handleAccept_steps:
  "handleAccept now i ok w =
     (if srvState w = STOPPED \<or> srvShutdown w then w
      else let w = insertConnection now i w in if ok then setTcpIpConnected now True w else w)"
  by (simp add: handleAccept_def insertConnection_def Let_def)

section \<open>The invariant\<close>

definition isActive :: "com_server \<Rightarrow> nat \<Rightarrow> bool" where
  "isActive s i \<longleftrightarrow> (case objects s i of Some c \<Rightarrow> connectionActive c | None \<Rightarrow> False)"

fun acceptIds :: "io_op list \<Rightarrow> nat list" where
  "acceptIds [] = []"
| "acceptIds (OpAccept i # ps) = i # acceptIds ps"
| "acceptIds (_ # ps) = acceptIds ps"

lemma acceptIds_append [simp]: "acceptIds (ps @ qs) = acceptIds ps @ acceptIds qs"
  by (induction ps rule: acceptIds.induct) simp_all

lemma acceptIds_iff: "i \<in> set (acceptIds ps) \<longleftrightarrow> OpAccept i \<in> set ps"
  by (induction ps rule: acceptIds.induct) auto

lemma acceptIds_remove1:
  "acceptIds (remove1 p ps) = (case p of OpAccept i \<Rightarrow> remove1 i (acceptIds ps) | _ \<Rightarrow> acceptIds ps)"
  by (induction ps rule: acceptIds.induct) (auto split: io_op.splits)

text \<open>The connections that wait to be accepted, or are being accepted.\<close>

definition waitingIds :: "com_server \<Rightarrow> nat list" where
  "waitingIds s = acceptIds (ops s) @ (case accepting s of Some (AcceptTested i ok) \<Rightarrow> [i] | _ \<Rightarrow> [])"

definition insertedIds :: "com_server \<Rightarrow> nat list" where
  "insertedIds s = (case accepting s of Some (AcceptInserted i ok) \<Rightarrow> [i] | _ \<Rightarrow> [])"

text \<open>
  The objects are those that are referenced, but for \<open>X\<close>, whose reference a handler is about to
  drop.
\<close>

definition refs_inv :: "nat set \<Rightarrow> com_server \<Rightarrow> bool" where
  "refs_inv X s \<longleftrightarrow>
     (\<forall>i. referenced i s \<longrightarrow> objects s i \<noteq> None) \<and> (\<forall>i. objects s i \<noteq> None \<longrightarrow> i \<in> X \<or> referenced i s) \<and>
     (\<forall>i. objects s i \<noteq> None \<longrightarrow> i < connIdSeq s) \<and>
     length (waitingIds s @ insertedIds s) \<le> 1 \<and>
     (srvState (sw s) = CREATED \<longrightarrow> ops s = [] \<and> cmdThreads s = [] \<and> accepting s = None)"

definition conns_inv :: "com_server \<Rightarrow> bool" where
  "conns_inv s \<longleftrightarrow>
     (\<forall>i \<in> set (waitingIds s). objects s i = Some newComConnection \<and> i \<notin> set (connections (sw s))) \<and>
     (\<forall>i \<in> set (insertedIds s). i \<in> set (connections (sw s)) \<and> \<not> isActive s i) \<and>
     distinct (connections (sw s)) \<and>
     (\<forall>i \<in> set (connections (sw s)). \<exists>c. objects s i = Some c \<and> \<not> connShutdown c) \<and>
     (\<forall>i. isActive s i \<longrightarrow> i \<in> set (connections (sw s))) \<and>
     tcpCount (sw s) = int (length (filter (isActive s) (connections (sw s)))) \<and>
     (if srvShutdown (sw s)
      then accepting s = None \<and>
        (\<exists>l. toShut s = Some l \<and> set (connections (sw s)) \<subseteq> set l \<and> set (waitingIds s) \<inter> set l = {})
      else toShut s = None)"

definition life_inv :: "nat set \<Rightarrow> com_server \<Rightarrow> bool" where
  "life_inv X s \<longleftrightarrow> refs_inv X s \<and> conns_inv s"

subsection \<open>Kept by the parts of the handlers\<close>

lemma filter_removeAll_active:
  assumes "distinct xs" and "P i \<Longrightarrow> i \<in> set xs"
  shows "int (length (filter P (removeAll i xs))) = int (length (filter P xs)) - (if P i then 1 else 0)"
proof (cases "P i")
  case True
  then have "i \<in> set (filter P xs)" using assms(2) by simp
  moreover have "filter P (removeAll i xs) = remove1 i (filter P xs)"
    using assms(1) by (simp add: distinct_remove1_removeAll [symmetric] filter_remove1)
  moreover obtain n where "length (filter P xs) = Suc n"
    using \<open>i \<in> set (filter P xs)\<close> by (metis gr0_implies_Suc length_pos_if_in_set)
  ultimately show ?thesis using True by (simp add: length_remove1)
next
  case False
  then have "filter P (removeAll i xs) = filter P xs" by (induction xs) auto
  then show ?thesis using False by simp
qed

lemma shutdownConn_refs: "refs_inv X s \<Longrightarrow> refs_inv X (shutdownConn now i s)"
  by (auto simp: shutdownConn_def refs_inv_def referenced_def waitingIds_def insertedIds_def split: option.splits)

lemma shutdownConn_conns:
  assumes "conns_inv s" and "i \<notin> set (waitingIds s)" and "i \<notin> set (insertedIds s)"
  shows "conns_inv (shutdownConn now i s)"
proof (cases "objects s i")
  case None
  then show ?thesis using assms by (simp add: shutdownConn_def)
next
  case (Some c)
  show ?thesis
  proof (cases "connShutdown c")
    case True
    then show ?thesis using assms Some by (simp add: shutdownConn_def)
  next
    case False
    let ?s = "shutdownConn now i s"
    have act: "isActive ?s j \<longleftrightarrow> j \<noteq> i \<and> isActive s j" for j
      using Some False by (simp add: isActive_def shutdownConn_def)
    have conns: "connections (sw ?s) = removeAll i (connections (sw s))"
      and tcp: "tcpCount (sw ?s) = tcpCount (sw s) - (if isActive s i then 1 else 0)"
      using Some False by (simp_all add: shutdownConn_def isActive_def)
    have "filter (isActive ?s) (removeAll i (connections (sw s))) = filter (isActive s) (removeAll i (connections (sw s)))"
      by (rule filter_cong) (auto simp: act)
    then have "tcpCount (sw ?s) = int (length (filter (isActive ?s) (connections (sw ?s))))"
      using assms(1) filter_removeAll_active [of "connections (sw s)" "isActive s" i]
      by (simp add: conns tcp conns_inv_def)
    moreover have "waitingIds ?s = waitingIds s" "insertedIds ?s = insertedIds s" "accepting ?s = accepting s"
      "toShut ?s = toShut s" "srvShutdown (sw ?s) = srvShutdown (sw s)" "\<And>j. j \<noteq> i \<Longrightarrow> objects ?s j = objects s j"
      "\<And>j. j \<in> set (waitingIds s) \<Longrightarrow> objects ?s j = objects s j"
      using Some False assms(2) by (auto simp: shutdownConn_def waitingIds_def insertedIds_def)
    ultimately show ?thesis
      using assms unfolding conns_inv_def conns act by (auto simp: distinct_removeAll split: if_splits)
  qed
qed

lemma dropRef_refs: "refs_inv {i} s \<Longrightarrow> refs_inv {} (dropRef now i s)"
proof (cases "referenced i s")
  case False
  assume r: "refs_inv {i} s"
  let ?u = "shutdownConn now i s"
  have u: "refs_inv {i} ?u" by (rule shutdownConn_refs [OF r])
  have f: "referenced j ?u = referenced j s" "referenced j (?u \<lparr> objects := x \<rparr>) = referenced j s" for j x
    by (simp_all add: referenced_def shutdownConn_def split: option.split)
  then show ?thesis
    using u False by (auto simp: dropRef_def Let_def refs_inv_def waitingIds_def insertedIds_def)
qed (auto simp: dropRef_def refs_inv_def)

lemma waiting_referenced:
  "j \<in> set (waitingIds s) \<Longrightarrow> referenced j s" "j \<in> set (insertedIds s) \<Longrightarrow> referenced j s"
  by (force simp: waitingIds_def insertedIds_def referenced_def acceptIds_iff split: option.splits accept_pc.splits)+

lemma dropRef_conns:
  assumes "conns_inv s"
  shows "conns_inv (dropRef now i s)"
proof (cases "referenced i s")
  case False
  then have w: "i \<notin> set (waitingIds s)" "i \<notin> set (insertedIds s)" using waiting_referenced by blast+
  let ?u = "shutdownConn now i s" and ?v = "(shutdownConn now i s) \<lparr> objects := (objects (shutdownConn now i s))(i := None) \<rparr>"
  have u: "conns_inv ?u" by (rule shutdownConn_conns [OF assms w])
  have "isActive s i \<Longrightarrow> i \<in> set (connections (sw s))"
    "i \<in> set (connections (sw s)) \<Longrightarrow> \<exists>c. objects s i = Some c \<and> \<not> connShutdown c"
    using assms by (simp_all add: conns_inv_def)
  then have i: "i \<notin> set (connections (sw ?u))" "\<not> isActive ?u i"
    by (auto simp: shutdownConn_def isActive_def split: option.splits)
  have act: "isActive ?v j = isActive ?u j" for j using i(2) by (auto simp: isActive_def)
  have "waitingIds ?v = waitingIds ?u" "insertedIds ?v = insertedIds ?u" "waitingIds ?u = waitingIds s"
    by (simp_all add: waitingIds_def insertedIds_def shutdownConn_def split: option.split)
  then have "conns_inv ?v"
    using u i w unfolding conns_inv_def act by (auto split: if_splits)
  then show ?thesis using False by (simp add: dropRef_def Let_def)
qed (use assms in \<open>simp add: dropRef_def\<close>)

lemma dropRef_inv: "life_inv {i} s \<Longrightarrow> life_inv {} (dropRef now i s)"
  by (simp add: life_inv_def dropRef_refs dropRef_conns)

lemma isActive_cong: "objects t = objects s \<Longrightarrow> isActive t = isActive s"
  by (rule ext) (simp add: isActive_def)

text \<open>Nothing in \<open>conns_inv\<close> is lost when fewer connections wait.\<close>

lemma conns_inv_fewer:
  assumes "conns_inv s" and "set (waitingIds t) \<subseteq> set (waitingIds s)" and "set (insertedIds t) \<subseteq> set (insertedIds s)"
    and "objects t = objects s" "sw t = sw s" "toShut t = toShut s" "accepting s = None \<longrightarrow> accepting t = None"
  shows "conns_inv t"
proof -
  have "set (waitingIds s) \<inter> X = {} \<Longrightarrow> set (waitingIds t) \<inter> X = {}" for X using assms(2) by blast
  then show ?thesis
    using assms(1,7) subsetD [OF assms(2)] subsetD [OF assms(3)] unfolding conns_inv_def isActive_cong [OF assms(4)] assms(4-6)
    by (auto split: if_splits)
qed

lemma refs_inv_drop:
  assumes "life_inv {} s" and "objects t = objects s" "connIdSeq t = connIdSeq s" "sw t = sw s"
    and "\<And>j. referenced j t \<Longrightarrow> referenced j s" and "\<And>j. referenced j s \<Longrightarrow> j \<noteq> i \<Longrightarrow> referenced j t"
    and "length (waitingIds t @ insertedIds t) \<le> length (waitingIds s @ insertedIds s)" and "srvState (sw s) \<noteq> CREATED"
  shows "refs_inv {i} t"
proof -
  have r: "\<forall>i. referenced i s \<longrightarrow> objects s i \<noteq> None" "\<forall>i. objects s i \<noteq> None \<longrightarrow> referenced i s"
    "\<forall>i. objects s i \<noteq> None \<longrightarrow> i < connIdSeq s" "length (waitingIds s @ insertedIds s) \<le> 1"
    using assms(1) by (auto simp: life_inv_def refs_inv_def)
  have "length (waitingIds t @ insertedIds t) \<le> 1" using r(4) assms(7) by simp
  then show ?thesis unfolding refs_inv_def assms(2-4) using r(1-3) assms(5,6,8) by blast
qed

lemma takeOp_inv:
  assumes "life_inv {} s" and "p \<in> set (ops s)"
  shows "life_inv {opConn p} (takeOp p s)"
proof -
  have w: "set (waitingIds (takeOp p s)) \<subseteq> set (waitingIds s)" "insertedIds (takeOp p s) = insertedIds s"
    "length (waitingIds (takeOp p s)) \<le> length (waitingIds s)"
    using set_remove1_subset [of _ "acceptIds (ops s)"]
    by (cases p; auto simp: takeOp_def waitingIds_def insertedIds_def acceptIds_remove1 length_remove1)+
  have less: "referenced j (takeOp p s) \<Longrightarrow> referenced j s" for j
    using set_remove1_subset [of p "ops s"] by (auto simp: takeOp_def referenced_def)
  have rest: "referenced j (takeOp p s)" if "referenced j s" "j \<noteq> opConn p" for j
  proof -
    have "q \<in> set (remove1 p (ops s))" if "q \<in> set (ops s)" "opConn q = j" for q
      using that \<open>j \<noteq> opConn p\<close> by (metis in_set_remove1)
    then show ?thesis using that by (auto simp: takeOp_def referenced_def)
  qed
  have same: "objects (takeOp p s) = objects s" "connIdSeq (takeOp p s) = connIdSeq s" "sw (takeOp p s) = sw s"
    by (simp_all add: takeOp_def)
  have "srvState (sw s) \<noteq> CREATED" using assms by (auto simp: life_inv_def refs_inv_def)
  then have "refs_inv {opConn p} (takeOp p s)"
    using refs_inv_drop [OF assms(1) same less rest] w(2,3) by simp
  moreover have "conns_inv (takeOp p s)"
    by (rule conns_inv_fewer [of s]) (use assms(1) w in \<open>simp_all add: life_inv_def\<close>, simp_all add: takeOp_def)
  ultimately show ?thesis by (simp add: life_inv_def)
qed

text \<open>An operation for an object that exists may be added.\<close>

lemma addOp_inv:
  assumes "life_inv X s" and "objects s (opConn p) \<noteq> None" and "\<forall>i. p \<noteq> OpAccept i"
    and "srvState (sw s) \<noteq> CREATED"
  shows "life_inv X (s \<lparr> ops := ops s @ [p] \<rparr>)"
proof -
  let ?t = "s \<lparr> ops := ops s @ [p] \<rparr>"
  have "waitingIds ?t = waitingIds s" "insertedIds ?t = insertedIds s"
    using assms(3) by (cases p; simp add: waitingIds_def insertedIds_def)+
  moreover have "referenced j ?t \<longleftrightarrow> j = opConn p \<or> referenced j s" for j by (auto simp: referenced_def)
  ultimately show ?thesis
    using assms isActive_cong [of ?t s] by (auto simp: life_inv_def refs_inv_def conns_inv_def)
qed

lemma receive_inv:
  "life_inv X s \<Longrightarrow> srvState (sw s) \<noteq> CREATED \<Longrightarrow> life_inv X (receiveCommand i s)"
  using addOp_inv [of X s "OpRead i"] by (auto simp: receiveCommand_def sendOpen_def split: option.splits)

lemma beginAccept_inv:
  assumes "life_inv X s" and "accepting s = None" and "acceptIds (ops s) = []" and "srvState (sw s) \<noteq> CREATED"
  shows "life_inv X (beginAccept s)"
proof (cases "srvState (sw s) = STOPPED \<or> srvShutdown (sw s)")
  case False
  let ?n = "connIdSeq s" and ?t = "beginAccept s"
  have new: "objects s ?n = None" using assms(1) by (auto simp: life_inv_def refs_inv_def)
  have t: "?t = s \<lparr> connIdSeq := ?n + 1, objects := (objects s)(?n \<mapsto> newComConnection), ops := ops s @ [OpAccept ?n] \<rparr>"
    using False by (simp add: beginAccept_def)
  have w: "waitingIds ?t = [?n]" "insertedIds ?t = []" "waitingIds s = []" "insertedIds s = []"
    using assms(2,3) by (simp_all add: t waitingIds_def insertedIds_def)
  have "referenced j ?t \<longleftrightarrow> j = ?n \<or> referenced j s" for j by (auto simp: t referenced_def)
  moreover have act: "isActive ?t = isActive s"
    by (rule ext) (auto simp: isActive_def t newComConnection_def new)
  moreover have "?n \<notin> set (connections (sw s))" using assms(1) new by (auto simp: life_inv_def conns_inv_def)
  ultimately show ?thesis
    using assms(1,4) new unfolding life_inv_def refs_inv_def conns_inv_def w act
    using False by (auto simp: t less_Suc_eq)
qed (use assms(1) in \<open>simp add: beginAccept_def\<close>)

subsection \<open>Kept by the steps\<close>

text \<open>A change of the world that leaves the server's part alone, and of what the invariant does not read.\<close>

lemma life_inv_cong:
  assumes "life_inv X s" and "objects t = objects s" "ops t = ops s" "cmdThreads t = cmdThreads s"
    and "connIdSeq t = connIdSeq s" "accepting t = accepting s" "toShut t = toShut s"
    and "connections (sw t) = connections (sw s)" "tcpCount (sw t) = tcpCount (sw s)"
    and "srvShutdown (sw t) = srvShutdown (sw s)" "srvState (sw t) = CREATED \<longrightarrow> srvState (sw s) = CREATED"
  shows "life_inv X t"
proof -
  have "referenced i t = referenced i s" for i using assms by (simp add: referenced_def)
  moreover have "waitingIds t = waitingIds s" "insertedIds t = insertedIds s"
    using assms by (simp_all add: waitingIds_def insertedIds_def)
  ultimately show ?thesis
    using assms isActive_cong [OF assms(2)] by (simp add: life_inv_def refs_inv_def conns_inv_def)
qed

lemma shutdownNext_inv:
  assumes "life_inv {} s"
  shows "life_inv {} (shutdownNext now s)"
proof (cases "toShut s")
  case (Some l)
  show ?thesis
  proof (cases l)
    case (Cons i is')
    let ?t = "s \<lparr> toShut := Some is' \<rparr>" and ?u = "shutdownConn now i s"
    have sd: "srvShutdown (sw s)" and i: "i \<notin> set (waitingIds s)" "insertedIds s = []"
      using assms Some Cons by (auto simp: life_inv_def conns_inv_def insertedIds_def split: if_splits)
    have u: "life_inv {} ?u"
      using assms i shutdownConn_conns shutdownConn_refs by (simp add: life_inv_def)
    have notin: "i \<notin> set (connections (sw ?u))"
      using assms by (auto simp: life_inv_def conns_inv_def shutdownConn_def split: option.splits)
    have t: "shutdownNext now s = ?u \<lparr> toShut := Some is' \<rparr>"
      using Some Cons by (auto simp: shutdownNext_def shutdownConn_def split: option.split)
    have eq: "toShut ?u = Some (i # is')" "srvShutdown (sw ?u)"
      using Some Cons sd by (auto simp: shutdownConn_def split: option.split)
    have "referenced j (?u \<lparr> toShut := x \<rparr>) = referenced j ?u" for j x by (simp add: referenced_def)
    then show ?thesis
      using u notin eq isActive_cong [of "?u \<lparr> toShut := Some is' \<rparr>" ?u] unfolding t life_inv_def refs_inv_def conns_inv_def
      by (auto simp: waitingIds_def insertedIds_def)
  qed (use Some assms in \<open>simp add: shutdownNext_def\<close>)
qed (use assms in \<open>simp add: shutdownNext_def\<close>)


lemma setAccepting_inv:
  assumes "life_inv {i} (takeOp (OpAccept i) s)" and "OpAccept i \<in> set (ops s)" and "life_inv {} s"
    and "\<not> srvShutdown (sw s)"
  shows "life_inv {} ((takeOp (OpAccept i) s) \<lparr> accepting := Some (AcceptTested i ok) \<rparr>)"
proof -
  let ?u = "takeOp (OpAccept i) s" and ?t = "(takeOp (OpAccept i) s) \<lparr> accepting := Some (AcceptTested i ok) \<rparr>"
  have i: "i \<in> set (waitingIds s)" using assms(2) by (simp add: waitingIds_def acceptIds_iff)
  have one: "length (waitingIds s @ insertedIds s) \<le> 1" using assms(3) by (simp add: life_inv_def refs_inv_def)
  have "i \<in> set (acceptIds (ops s))" using assms(2) by (simp add: acceptIds_iff)
  then have "acceptIds (ops s) = [i] \<and> accepting s = None"
    using one by (cases "acceptIds (ops s)") (auto simp: waitingIds_def insertedIds_def split: option.splits accept_pc.splits)
  then have w: "waitingIds ?t = [i]" "insertedIds ?t = []" "waitingIds ?u = []" "insertedIds ?u = []" "accepting ?u = None"
    by (simp_all add: waitingIds_def insertedIds_def takeOp_def acceptIds_remove1)
  have "objects s i = Some newComConnection" "i \<notin> set (connections (sw s))"
    using assms(3) i by (auto simp: life_inv_def conns_inv_def)
  moreover have "referenced j ?t \<longleftrightarrow> j = i \<or> referenced j ?u" for j
    using w(5) by (auto simp: referenced_def)
  moreover have "srvState (sw s) \<noteq> CREATED" using assms(2,3) by (auto simp: life_inv_def refs_inv_def)
  moreover have "objects ?u = objects s" "sw ?u = sw s" by (simp_all add: takeOp_def)
  ultimately show ?thesis
    using assms(1,4) isActive_cong [of ?t ?u] unfolding life_inv_def refs_inv_def conns_inv_def w
    by auto
qed

lemma acceptTest_inv:
  assumes "life_inv {} s" and "OpAccept i \<in> set (ops s)"
  shows "life_inv {} (handleAcceptTest now i ok (takeOp (OpAccept i) s))"
proof -
  have u: "life_inv {i} (takeOp (OpAccept i) s)" using takeOp_inv [OF assms] by simp
  show ?thesis
    using dropRef_inv [OF u] setAccepting_inv [OF u assms(2,1)]
    by (auto simp: handleAcceptTest_def) (simp_all add: takeOp_def)
qed

lemma acceptInsert_inv:
  assumes "life_inv {} s" and "accepting s = Some (AcceptTested i ok)"
  shows "life_inv {} (handleAcceptStep now s)"
proof -
  let ?t = "handleAcceptStep now s"
  have one: "length (waitingIds s @ insertedIds s) \<le> 1" using assms(1) by (simp add: life_inv_def refs_inv_def)
  then have a: "acceptIds (ops s) = []" using assms(2) by (simp add: waitingIds_def)
  have w: "waitingIds ?t = []" "insertedIds ?t = [i]" "waitingIds s = [i]" "insertedIds s = []"
    using assms(2) a by (simp_all add: handleAcceptStep_def waitingIds_def insertedIds_def)
  have new: "objects s i = Some newComConnection" "i \<notin> set (connections (sw s))"
    using assms(1) w(3) by (auto simp: life_inv_def conns_inv_def)
  have act: "isActive ?t = isActive s" "\<not> isActive s i"
    using assms(2) new(1) by (auto simp: handleAcceptStep_def isActive_def newComConnection_def intro!: isActive_cong)
  have sd: "\<not> srvShutdown (sw s)" using assms by (auto simp: life_inv_def conns_inv_def split: if_splits)
  have "referenced j ?t = referenced j s" for j using assms(2) by (simp add: handleAcceptStep_def referenced_def)
  then show ?thesis
    using assms new act(2) sd unfolding life_inv_def refs_inv_def conns_inv_def w act(1)
    by (auto simp: handleAcceptStep_def newComConnection_def)
qed

lemma filter_insert_active:
  assumes "distinct xs" and "i \<in> set xs" and "\<not> P i"
  shows "length (filter (\<lambda>j. j = i \<or> P j) xs) = Suc (length (filter P xs))"
  using assms
proof (induction xs)
  case (Cons x xs)
  show ?case
  proof (cases "x = i")
    case True
    then have "filter (\<lambda>j. j = i \<or> P j) xs = filter P xs" using Cons.prems by (intro filter_cong) auto
    then show ?thesis using True Cons.prems by simp
  qed (use Cons in auto)
qed simp

lemma leave_commute:
  "(beginAccept s) \<lparr> accepting := a \<rparr> = beginAccept (s \<lparr> accepting := a \<rparr>)"
  "(beginProtocol now i s) \<lparr> accepting := a \<rparr> = beginProtocol now i (s \<lparr> accepting := a \<rparr>)"
  by (cases s; simp add: beginAccept_def beginProtocol_def receiveCommand_def sendOpen_def Let_def split: option.split)+

text \<open>The accept has left the handler; the reference of the handler to the connection is gone.\<close>

lemma leaveAccept_inv:
  assumes "life_inv {} s" and "accepting s = Some (AcceptInserted i ok)"
  shows "life_inv {i} (s \<lparr> accepting := None \<rparr>)"
proof -
  let ?t = "s \<lparr> accepting := None \<rparr>"
  have r: "referenced j s \<longleftrightarrow> j = i \<or> referenced j ?t" for j using assms(2) by (auto simp: referenced_def)
  have "refs_inv {i} ?t"
    using assms unfolding life_inv_def refs_inv_def by (auto simp: r waitingIds_def insertedIds_def)
  moreover have "conns_inv ?t"
    by (rule conns_inv_fewer [of s]) (use assms in \<open>auto simp: life_inv_def waitingIds_def insertedIds_def\<close>)
  ultimately show ?thesis by (simp add: life_inv_def)
qed

lemma activate_inv:
  assumes "life_inv {i} s" and "i \<in> set (connections (sw s))" and "\<not> isActive s i" and "waitingIds s = []"
    and "insertedIds s = []" and "objects s i = Some c"
  shows "life_inv {i} (s \<lparr> objects := (objects s)(i \<mapsto> c \<lparr> connectionActive := True \<rparr>), sw := setTcpIpConnected now True (sw s) \<rparr>)"
proof -
  let ?t = "s \<lparr> objects := (objects s)(i \<mapsto> c \<lparr> connectionActive := True \<rparr>), sw := setTcpIpConnected now True (sw s) \<rparr>"
  have act: "isActive ?t = (\<lambda>j. j = i \<or> isActive s j)" by (rule ext) (simp add: isActive_def)
  have w: "waitingIds ?t = []" "insertedIds ?t = []" using assms(4,5) by (simp_all add: waitingIds_def insertedIds_def)
  have "referenced j ?t = referenced j s" for j by (simp add: referenced_def)
  then have "refs_inv {i} ?t"
    using assms(1,6) unfolding life_inv_def refs_inv_def w by auto
  moreover have "conns_inv ?t"
  proof -
    have d: "distinct (connections (sw s))" using assms(1) by (simp add: life_inv_def conns_inv_def)
    have "tcpCount (sw ?t) = int (length (filter (isActive ?t) (connections (sw ?t))))"
      using assms(1) filter_insert_active [where P = "isActive s", OF d assms(2,3)] by (simp add: act life_inv_def conns_inv_def)
    then show ?thesis
      using assms(1,2,6) unfolding life_inv_def conns_inv_def w act by (auto simp: assms(4))
  qed
  ultimately show ?thesis by (simp add: life_inv_def)
qed

lemma acceptEnd_inv:
  assumes "life_inv {} s" and "accepting s = Some (AcceptInserted i ok)"
  shows "life_inv {} (handleAcceptStep now s)"
proof -
  have one: "length (waitingIds s @ insertedIds s) \<le> 1" and st: "srvState (sw s) \<noteq> CREATED"
    using assms by (auto simp: life_inv_def refs_inv_def)
  then have a: "acceptIds (ops s) = []" using assms(2) by (simp add: waitingIds_def insertedIds_def)
  define u where "u = s \<lparr> accepting := None \<rparr>"
  have u: "life_inv {i} u" unfolding u_def by (rule leaveAccept_inv [OF assms])
  have i: "i \<in> set (connections (sw u))" "\<not> isActive u i"
    using assms by (auto simp: u_def life_inv_def conns_inv_def insertedIds_def isActive_def)
  have w: "waitingIds u = []" "insertedIds u = []" using a by (simp_all add: u_def waitingIds_def insertedIds_def)
  obtain c where c: "objects u i = Some c" using u i(1) by (auto simp: life_inv_def conns_inv_def)
  define x where "x = u \<lparr> objects := (objects u)(i \<mapsto> c \<lparr> connectionActive := True \<rparr>), sw := setTcpIpConnected now True (sw u) \<rparr>"
  have x: "life_inv {i} x" unfolding x_def by (rule activate_inv [OF u i w c])
  have f: "accepting x = None" "acceptIds (ops x) = []" "srvState (sw x) \<noteq> CREATED"
    "accepting u = None" "acceptIds (ops u) = []" "srvState (sw u) \<noteq> CREATED"
    using st a by (simp_all add: x_def u_def)
  define v where "v = (if ok then receiveCommand i x else u)"
  have v: "life_inv {i} v" "accepting v = None" "acceptIds (ops v) = []" "srvState (sw v) \<noteq> CREATED"
    using u f receive_inv [OF x f(3), of i] by (simp_all add: v_def, simp_all add: receiveCommand_def)
  have "objects s i = Some c" using c by (simp add: u_def)
  then have "handleAcceptStep now s = dropRef now i (beginAccept v)"
    using assms(2) by (simp add: handleAcceptStep_def v_def x_def u_def leave_commute Let_def, simp add: beginProtocol_def Let_def)
  then show ?thesis using dropRef_inv [OF beginAccept_inv [OF v]] by simp
qed

lemma takeConn_inv:
  assumes "life_inv {} s" and "canHandle p s"
  shows "life_inv {opConn p} (takeOp p s)" and "objects s (opConn p) \<noteq> None" and "srvState (sw s) \<noteq> CREATED"
proof -
  have p: "p \<in> set (ops s)" using assms(2) by (simp add: canHandle_def)
  show "life_inv {opConn p} (takeOp p s)" by (rule takeOp_inv [OF assms(1) p])
  have "referenced (opConn p) s" using p by (auto simp: referenced_def)
  then show "objects s (opConn p) \<noteq> None" "srvState (sw s) \<noteq> CREATED"
    using assms(1) p by (auto simp: life_inv_def refs_inv_def)
qed

lemma addThread_inv:
  assumes "life_inv X s" and "objects s i \<noteq> None" and "srvState (sw s) \<noteq> CREATED"
  shows "life_inv X (s \<lparr> cmdThreads := cmdThreads s @ [i] \<rparr>)"
proof -
  let ?t = "s \<lparr> cmdThreads := cmdThreads s @ [i] \<rparr>"
  have "waitingIds ?t = waitingIds s" "insertedIds ?t = insertedIds s" by (simp_all add: waitingIds_def insertedIds_def)
  moreover have "referenced j ?t \<longleftrightarrow> j = i \<or> referenced j s" for j by (auto simp: referenced_def)
  ultimately show ?thesis
    using assms isActive_cong [of ?t s] by (auto simp: life_inv_def refs_inv_def conns_inv_def)
qed

lemma life_inv_weaken: "life_inv X s \<Longrightarrow> referenced i s \<Longrightarrow> X \<subseteq> {i} \<Longrightarrow> life_inv {} s"
  by (auto simp: life_inv_def refs_inv_def)

lemma read_inv:
  assumes "life_inv {} s" and "canHandle (OpRead i) s"
  shows "life_inv {} (readCommandOf now i ack (takeOp (OpRead i) s))"
proof -
  note t = takeConn_inv [OF assms, simplified]
  show ?thesis
  proof (cases ack)
    case None
    then show ?thesis using dropRef_inv [OF t(1)] by (simp add: readCommandOf_def)
  next
    case (Some msg)
    let ?u = "takeOp (OpRead i) s" and ?p = "OpResponse i (sendOpen i (takeOp (OpRead i) s)) msg"
    let ?v = "?u \<lparr> ops := ops ?u @ [?p] \<rparr>"
    have o: "objects ?u i \<noteq> None" "srvState (sw ?u) \<noteq> CREATED" using t by (simp_all add: takeOp_def)
    have "life_inv {i} ?v" by (rule addOp_inv) (use t o in \<open>simp_all\<close>)
    then have "life_inv {i} (?v \<lparr> cmdThreads := cmdThreads ?v @ [i] \<rparr>)"
      by (rule addThread_inv) (use o in \<open>simp_all\<close>)
    moreover have "referenced i (?v \<lparr> cmdThreads := cmdThreads ?v @ [i] \<rparr>)" by (simp add: referenced_def)
    ultimately show ?thesis using Some life_inv_weaken by (simp add: readCommandOf_def)
  qed
qed

lemma delivered_inv: "life_inv X s \<Longrightarrow> life_inv X (s \<lparr> delivered := d \<rparr>)"
  by (erule life_inv_cong) simp_all

lemma sent_inv:
  assumes "life_inv {} s" and "canHandle p s" and "opConn p = i"
  shows "life_inv {} (responseSent now i ok msg (takeOp p s))" "life_inv {} (asyncWriteSent now i ok msg (takeOp p s))"
proof -
  note t = takeConn_inv [OF assms(1,2), unfolded assms(3)]
  have st: "srvState (sw (takeOp p s)) \<noteq> CREATED" using t by (simp add: takeOp_def)
  show "life_inv {} (responseSent now i ok msg (takeOp p s))"
    unfolding responseSent_def
    using dropRef_inv [OF t(1)] dropRef_inv [OF receive_inv [OF delivered_inv [OF t(1)]]] st by simp
  show "life_inv {} (asyncWriteSent now i ok msg (takeOp p s))"
    unfolding asyncWriteSent_def using dropRef_inv [OF t(1)] dropRef_inv [OF delivered_inv [OF t(1)]] by simp
qed

lemma cmdWrite_inv:
  assumes "life_inv {} s" and "objects s i \<noteq> None" and "srvState (sw s) \<noteq> CREATED"
  shows "life_inv {} (asyncWriteTo msg i s)"
  unfolding asyncWriteTo_def by (rule addOp_inv) (use assms in \<open>simp_all\<close>)

lemma cmdEnd_inv:
  assumes "life_inv {} s" and "i \<in> set (cmdThreads s)"
  shows "life_inv {} (dropRef now i (s \<lparr> cmdThreads := remove1 i (cmdThreads s) \<rparr>))"
proof -
  let ?t = "s \<lparr> cmdThreads := remove1 i (cmdThreads s) \<rparr>"
  have sub: "referenced j ?t \<Longrightarrow> referenced j s" for j using set_remove1_subset [of i "cmdThreads s"] by (auto simp: referenced_def)
  have rest: "referenced j s \<Longrightarrow> j \<noteq> i \<Longrightarrow> referenced j ?t" for j by (auto simp: referenced_def in_set_remove1)
  have "waitingIds ?t = waitingIds s" "insertedIds ?t = insertedIds s" by (simp_all add: waitingIds_def insertedIds_def)
  moreover have "srvState (sw s) \<noteq> CREATED" using assms by (auto simp: life_inv_def refs_inv_def)
  ultimately have "refs_inv {i} ?t" using refs_inv_drop [OF assms(1), of ?t i] sub rest by simp
  moreover have "conns_inv ?t"
    by (rule conns_inv_fewer [of s]) (use assms in \<open>simp_all add: life_inv_def waitingIds_def insertedIds_def\<close>)
  ultimately show ?thesis by (intro dropRef_inv) (simp add: life_inv_def)
qed

lemma broadcast_inv:
  assumes "life_inv {} s"
  shows "life_inv {} (asyncWriteToAllComConn msg s)"
proof -
  let ?f = "\<lambda>i s. if objects s i \<noteq> None then asyncWriteTo msg i s else s"
  have "life_inv {} (fold ?f is' s)" if "life_inv {} s" for is' s
    using that
  proof (induction is' arbitrary: s)
    case (Cons i is')
    have "srvState (sw s) \<noteq> CREATED" if "objects s i \<noteq> None"
      using Cons.prems that by (fastforce simp: life_inv_def refs_inv_def referenced_def)
    then have "life_inv {} (?f i s)" using Cons.prems cmdWrite_inv by simp
    then show ?case using Cons.IH by simp
  qed simp
  then show ?thesis using assms by (simp add: asyncWriteToAllComConn_def)
qed

lemma shutBegin_inv:
  assumes "life_inv {} s" and "accepting s = None \<or> srvShutdown (sw s)"
  shows "life_inv {} (shutdownServer s)"
proof (cases "srvShutdown (sw s)")
  case False
  let ?t = "shutdownServer s"
  have "waitingIds ?t = waitingIds s" "insertedIds ?t = insertedIds s" "isActive ?t = isActive s"
    using False by (auto simp: shutdownServer_def waitingIds_def insertedIds_def intro!: isActive_cong)
  moreover have "referenced j ?t = referenced j s" for j using False by (simp add: shutdownServer_def referenced_def)
  ultimately show ?thesis
    using assms False unfolding life_inv_def refs_inv_def conns_inv_def
    by (auto simp: shutdownServer_def)
qed (use assms in \<open>simp add: shutdownServer_def\<close>)

lemma runServer_inv:
  assumes "life_inv {} s"
  shows "life_inv {} (runServer n s)"
proof (cases "srvState (sw s) = CREATED")
  case True
  define u where "u = s \<lparr> sw := exec ServerRun (sw s) \<rparr>"
  have e: "ops s = []" "accepting s = None" using assms True by (auto simp: life_inv_def refs_inv_def)
  have "life_inv {} u" using assms by (rule life_inv_cong) (simp_all add: u_def)
  then have "life_inv {} (beginAccept u)" by (rule beginAccept_inv) (use e in \<open>simp_all add: u_def\<close>)
  then have "life_inv {} ((beginAccept u) \<lparr> ioThreads := n \<rparr>)" by (rule life_inv_cong) simp_all
  moreover have "runServer n s = (beginAccept u) \<lparr> ioThreads := n \<rparr>"
    using True by (cases s) (simp add: runServer_def beginAccept_def u_def)
  ultimately show ?thesis by simp
qed (use assms in \<open>simp add: runServer_def\<close>)

text \<open>Every step keeps the invariant, but for a shutdown that begins while a connection is accepted.\<close>

lemma life_step:
  assumes "life_inv {} s" and "e = ShutBegin \<Longrightarrow> accepting s = None \<or> srvShutdown (sw s)"
  shows "life_inv {} (srvEvent e s)"
proof (cases e)
  case (AcceptStep now)
  show ?thesis
  proof (cases "accepting s")
    case (Some a)
    then show ?thesis using assms(1) AcceptStep acceptInsert_inv acceptEnd_inv by (cases a) simp_all
  qed (use assms(1) AcceptStep in \<open>simp add: handleAcceptStep_def\<close>)
next
  case (AcceptDone now i ok)
  then show ?thesis using assms(1) acceptTest_inv by (simp add: canHandle_def)
next
  case (CmdWrite i msg)
  have "objects s i \<noteq> None \<and> srvState (sw s) \<noteq> CREATED" if "i \<in> set (cmdThreads s)"
  proof -
    have "referenced i s" using that by (simp add: referenced_def)
    then show ?thesis using assms(1) that by (auto simp: life_inv_def refs_inv_def)
  qed
  then show ?thesis using assms(1) CmdWrite cmdWrite_inv by simp
next
  case (OtherEvent ev)
  then show ?thesis
    using assms(1) netPart_exec [of ev "sw s", unfolded netPart_eq]
    by (auto intro: life_inv_cong)
next
  case IoExit
  then show ?thesis using assms(1) by (auto simp: ioExit_def intro: life_inv_cong)
next
  case RunEnd
  then show ?thesis using assms(1) by (auto simp: runEnd_def intro: life_inv_cong)
next
  case SrvDestroy
  then show ?thesis using assms(1) by (auto simp: destroyServer_def intro: life_inv_cong)
qed (use assms read_inv sent_inv cmdEnd_inv broadcast_inv shutBegin_inv shutdownNext_inv runServer_inv in \<open>simp_all\<close>)

section \<open>The count of active connections\<close>

lemma life_init:
  assumes "srvState w = CREATED" "\<not> srvShutdown w" "connections w = []" "tcpCount w = 0"
  shows "life_inv {} (mkComServer w)"
  using assms
  by (simp add: life_inv_def refs_inv_def conns_inv_def mkComServer_def referenced_def waitingIds_def insertedIds_def isActive_def)

text \<open>The flag stays, and so does the engaged list of the shutdown.\<close>

lemma shutdown_world [simp]: "srvShutdown (sw (shutdownConn now i s)) = srvShutdown (sw s)"
  "srvShutdown (sw (dropRef now i s)) = srvShutdown (sw s)" "srvShutdown (sw (beginAccept s)) = srvShutdown (sw s)"
  "srvShutdown (sw (beginProtocol now i s)) = srvShutdown (sw s)" "srvShutdown (sw (receiveCommand i s)) = srvShutdown (sw s)"
  "srvShutdown (sw (asyncWriteTo msg i s)) = srvShutdown (sw s)"
  by (simp_all add: shutdownConn_def dropRef_def beginAccept_def beginProtocol_def receiveCommand_def asyncWriteTo_def Let_def
      split: option.split)

lemma fold_world: "sw (asyncWriteToAllComConn msg s) = sw s"
proof -
  have "sw (fold (\<lambda>i s. if objects s i \<noteq> None then asyncWriteTo msg i s else s) is' s) = sw s" for is' s
    by (induction is' arbitrary: s) (simp_all add: asyncWriteTo_def)
  then show ?thesis by (simp add: asyncWriteToAllComConn_def)
qed

lemma shutdown_step: "srvShutdown (sw (srvEvent e s)) \<longleftrightarrow> srvShutdown (sw s) \<or> e = ShutBegin"
proof (cases e)
  case (AcceptStep now)
  then show ?thesis
    by (cases "accepting s"; cases "the (accepting s)") (simp_all add: handleAcceptStep_def Let_def)
next
  case (OtherEvent ev)
  then show ?thesis using netPart_exec [of ev "sw s", unfolded netPart_eq] by simp
qed (simp_all add: runServer_def ioExit_def runEnd_def handleAcceptTest_def takeOp_def readCommandOf_def
    responseSent_def asyncWriteSent_def fold_world shutdownServer_def shutdownNext_def destroyServer_def Let_def
    split: option.split list.split)

lemma srv_reach_inv: "srv_reachable s \<Longrightarrow> \<not> srvShutdown (sw s) \<Longrightarrow> life_inv {} s"
proof (induction rule: srv_reachable.induct)
  case (init w)
  then show ?case using life_init by (simp add: mkComServer_def)
next
  case (step s e)
  then show ?case using shutdown_step life_step by blast
qed

text \<open>C14: As long as no shutdown has begun, whatever order clients connect and leave in, the count
  that decides between OfflineState and StandbyState is the number of active connections of the
  map; each connection of the map is an object that exists and was not shut down, every active
  connection is in the map, and an object exists exactly as long as an operation, a command or
  the accept handler refers to it.\<close>

theorem tcp_count_exact:
  assumes "srv_reachable s" and "\<not> srvShutdown (sw s)"
  shows "tcpCount (sw s) = int (length (filter (isActive s) (connections (sw s)))) \<and> distinct (connections (sw s)) \<and>
    (\<forall>i \<in> set (connections (sw s)). \<exists>c. objects s i = Some c \<and> \<not> connShutdown c) \<and>
    (\<forall>i. isActive s i \<longrightarrow> i \<in> set (connections (sw s))) \<and>
    (\<forall>i. objects s i \<noteq> None \<longleftrightarrow> referenced i s)"
  using srv_reach_inv [OF assms] by (auto simp: life_inv_def refs_inv_def conns_inv_def)

definition server0 :: com_server where
  "server0 = mkComServer world0"

lemma reach_server0: "srv_reachable server0"
proof -
  have "srvState world0 = CREATED" "\<not> srvShutdown world0" "connections world0 = []" "tcpCount world0 = 0" by code_simp+
  then show ?thesis unfolding server0_def by (intro srv_reachable.init reachable.init [OF world0]) simp_all
qed

definition two_clients :: "srv_event list" where
  "two_clients = [SrvRun 2, AcceptDone 1 0 True, AcceptStep 1, AcceptStep 1, AcceptDone 2 1 True, AcceptStep 2, AcceptStep 2,
     ReadDone 3 0 None]"

theorem tcp_count_exact_witness:
  "tcpCount (sw (srvEvents two_clients server0)) = 1 \<and>
    int (length (filter (isActive (srvEvents two_clients server0)) (connections (sw (srvEvents two_clients server0))))) = 1"
proof -
  have "\<not> srvShutdown (sw (srvEvents two_clients server0))" "tcpCount (sw (srvEvents two_clients server0)) = 1" by code_simp+
  then show ?thesis using tcp_count_exact [OF srv_reachable_run [OF reach_server0], of two_clients] by simp
qed

section \<open>What a shutdown closes\<close>

fun isShutNext :: "srv_event \<Rightarrow> bool" where
  "isShutNext (ShutNext now) = True"
| "isShutNext _ = False"

lemma toShut_parts [simp]: "toShut (shutdownConn now i s) = toShut s" "toShut (dropRef now i s) = toShut s"
  "toShut (beginAccept s) = toShut s" "toShut (beginProtocol now i s) = toShut s" "toShut (receiveCommand i s) = toShut s"
  "toShut (asyncWriteTo msg i s) = toShut s"
  by (simp_all add: shutdownConn_def dropRef_def beginAccept_def beginProtocol_def receiveCommand_def asyncWriteTo_def Let_def
      split: option.split)

lemma toShut_fold: "toShut (asyncWriteToAllComConn msg s) = toShut s"
proof -
  have "toShut (fold (\<lambda>i s. if objects s i \<noteq> None then asyncWriteTo msg i s else s) is' s) = toShut s" for is' s
    by (induction is' arbitrary: s) simp_all
  then show ?thesis by (simp add: asyncWriteToAllComConn_def)
qed

lemma toShut_step:
  "srvShutdown (sw s) \<Longrightarrow> toShut (srvEvent e s) = (if isShutNext e then map_option tl (toShut s) else toShut s)"
proof (cases e)
  case (AcceptStep now)
  then show ?thesis
    by (cases "accepting s"; cases "the (accepting s)") (simp_all add: handleAcceptStep_def Let_def)
next
  case (ShutNext now)
  then show ?thesis by (auto simp: shutdownNext_def split: option.split list.split)
qed (simp_all add: runServer_def ioExit_def runEnd_def handleAcceptTest_def takeOp_def readCommandOf_def
    responseSent_def asyncWriteSent_def toShut_fold shutdownServer_def destroyServer_def Let_def split: option.split)

lemma shutdown_run:
  assumes "life_inv {} s" and "srvShutdown (sw s)"
  shows "life_inv {} (srvEvents es s) \<and> srvShutdown (sw (srvEvents es s)) \<and>
    toShut (srvEvents es s) = map_option (drop (length (filter isShutNext es))) (toShut s)"
  using assms unfolding srvEvents_def
proof (induction es arbitrary: s)
  case (Cons e es)
  have "life_inv {} (srvEvent e s)" "srvShutdown (sw (srvEvent e s))"
    using Cons.prems life_step shutdown_step by blast+
  then show ?case
    using Cons.IH Cons.prems(2) toShut_step by (cases "toShut s") (simp_all add: drop_Suc)
qed (simp add: option.map_ident)

text \<open>C15: A shutdown that does not begin in the middle of an accept closes everything: after as many
  turns of its loop as there were connections, in any interleaving with the io threads, the
  commands and the rest of the system, no connection is left in the map and no active one is
  counted, and none comes after it.\<close>

theorem shutdown_closes_all:
  assumes "srv_reachable s" and "\<not> srvShutdown (sw s)" and "accepting s = None"
    and "length (connections (sw s)) \<le> length (filter isShutNext es)"
  shows "connections (sw (srvEvents (ShutBegin # es) s)) = [] \<and> tcpCount (sw (srvEvents (ShutBegin # es) s)) = 0 \<and>
    (\<forall>i. \<not> isActive (srvEvents (ShutBegin # es) s) i)"
proof -
  let ?b = "shutdownServer s" and ?t = "srvEvents (ShutBegin # es) s"
  have b1: "life_inv {} ?b" by (rule shutBegin_inv) (use srv_reach_inv [OF assms(1,2)] assms(3) in \<open>simp_all\<close>)
  have b: "srvShutdown (sw ?b)" "toShut ?b = Some (connections (sw s))"
    using assms(2) by (simp_all add: shutdownServer_def)
  have "?t = srvEvents es ?b" by (simp add: srvEvents_def)
  then have "life_inv {} ?t" "srvShutdown (sw ?t)" "toShut ?t = Some []"
    using shutdown_run [OF b1 b(1), of es] b(2) assms(4) by simp_all
  then show ?thesis by (auto simp: life_inv_def conns_inv_def)
qed

theorem shutdown_closes_all_witness:
  "connections (sw (srvEvents two_clients server0)) = [1] \<and>
   connections (sw (srvEvents (ShutBegin # [ReadDone 5 1 (Some ''ack''), ShutNext 6]) (srvEvents two_clients server0))) = []"
proof -
  let ?s = "srvEvents two_clients server0"
  have "\<not> srvShutdown (sw ?s)" "accepting ?s = None" "connections (sw ?s) = [1]" by code_simp+
  then show ?thesis
    using shutdown_closes_all [OF srv_reachable_run [OF reach_server0], of two_clients "[ReadDone 5 1 (Some ''ack''), ShutNext 6]"]
    by simp
qed

text \<open>
  In the middle of an accept it is different: \<open>_handleAccept\<close> tests the flag once, and a connection
  that passed the test before the shutdown enters the map after the loop has its list.
\<close>

lemma late_accept_survives:
  "let s = srvEvents [SrvRun 2, AcceptDone 1 0 True, ShutBegin, ShutNext 2, AcceptStep 3, AcceptStep 4] server0
   in toShut s = Some [] \<and> connections (sw s) = [0] \<and> tcpCount (sw s) = 1"
  by code_simp

text \<open>
  In between \<open>emplace\<close> and \<open>beginProtocol\<close> the shutdown closes the connection before it is active;
  it is then counted as active for good.
\<close>

lemma late_protocol_counted:
  "let s = srvEvents [SrvRun 2, AcceptDone 1 0 True, AcceptStep 2, ShutBegin, ShutNext 3, AcceptStep 4] server0
   in toShut s = Some [] \<and> connections (sw s) = [] \<and> objects s 0 = None \<and> tcpCount (sw s) = 1"
  by code_simp

section \<open>Nothing is sent on a connection that was shut down\<close>

definition silent :: "nat \<Rightarrow> string \<Rightarrow> com_server \<Rightarrow> bool" where
  "silent i msg s \<longleftrightarrow> i < connIdSeq s \<and> \<not> sendOpen i s \<and>
     OpResponse i True msg \<notin> set (ops s) \<and> OpWrite i True msg \<notin> set (ops s) \<and> (i, msg) \<notin> set (delivered s)"

lemma silent_cong:
  "\<lbrakk> silent i msg s; connIdSeq t = connIdSeq s; objects t = objects s; set (ops t) \<subseteq> set (ops s); delivered t = delivered s \<rbrakk>
   \<Longrightarrow> silent i msg t"
  by (auto simp: silent_def sendOpen_def)

lemma silent_shutdownConn: "silent i msg s \<Longrightarrow> silent i msg (shutdownConn now j s)"
  by (auto simp: silent_def shutdownConn_def sendOpen_def split: option.splits)

lemma silent_dropRef: "silent i msg s \<Longrightarrow> silent i msg (dropRef now j s)"
  using silent_shutdownConn [of i msg s now j] by (auto simp: dropRef_def Let_def silent_def sendOpen_def split: option.splits)

lemma silent_write: "silent i msg s \<Longrightarrow> silent i msg (asyncWriteTo m j s)"
  by (auto simp: silent_def asyncWriteTo_def sendOpen_def)

lemma silent_receive: "silent i msg s \<Longrightarrow> silent i msg (receiveCommand j s)"
  by (auto simp: silent_def receiveCommand_def sendOpen_def)

lemma silent_beginAccept: "silent i msg s \<Longrightarrow> silent i msg (beginAccept s)"
  by (auto simp: silent_def beginAccept_def sendOpen_def)

lemma silent_beginProtocol: "silent i msg s \<Longrightarrow> silent i msg (beginProtocol now j s)"
  by (auto simp: silent_def beginProtocol_def receiveCommand_def sendOpen_def Let_def split: option.splits)

lemma silent_take: "silent i msg s \<Longrightarrow> silent i msg (takeOp p s)"
  using set_remove1_subset [of p "ops s"] by (auto simp: silent_def takeOp_def sendOpen_def)

lemma silent_accepting: "silent i msg s \<Longrightarrow> silent i msg (s \<lparr> accepting := a \<rparr>)"
  by (simp add: silent_def sendOpen_def)

lemma silent_step:
  assumes "silent i msg s"
  shows "silent i msg (srvEvent e s)"
proof (cases e)
  case (SrvRun n)
  have "silent i msg ((beginAccept s) \<lparr> ioThreads := n, sw := w \<rparr>)" for w
    using silent_beginAccept [OF assms] by (rule silent_cong) simp_all
  then show ?thesis using assms SrvRun by (simp add: runServer_def Let_def)
next
  case (AcceptDone now j ok)
  then show ?thesis
    using silent_dropRef [OF silent_take [OF assms]] silent_accepting [OF silent_take [OF assms]] assms
    by (simp add: handleAcceptTest_def)
next
  case (AcceptStep now)
  show ?thesis
  proof (cases "accepting s")
    case None
    then show ?thesis using assms AcceptStep by (simp add: handleAcceptStep_def)
  next
    case (Some a)
    show ?thesis
    proof (cases a)
      case (AcceptTested j ok)
      have "silent i msg (s \<lparr> sw := w, accepting := a \<rparr>)" for w a
        using assms by (rule silent_cong) simp_all
      then show ?thesis using Some AcceptTested AcceptStep by (simp add: handleAcceptStep_def)
    next
      case (AcceptInserted j ok)
      then show ?thesis
        using Some AcceptStep assms silent_dropRef silent_accepting silent_beginAccept silent_beginProtocol
        by (simp add: handleAcceptStep_def Let_def)
    qed
  qed
next
  case (ReadDone now j ack)
  have t: "silent i msg (takeOp (OpRead j) s)" by (rule silent_take [OF assms])
  have "silent i msg ((takeOp (OpRead j) s) \<lparr> ops := ops (takeOp (OpRead j) s) @ [OpResponse j (sendOpen j (takeOp (OpRead j) s)) m],
      cmdThreads := c \<rparr>)" for m c
    using t by (auto simp: silent_def sendOpen_def)
  then show ?thesis
    using ReadDone assms silent_dropRef [OF t] by (simp add: readCommandOf_def split: option.split)
next
  case (ResponseDone now j op m ok)
  let ?u = "takeOp (OpResponse j op m) s"
  have t: "silent i msg ?u" by (rule silent_take [OF assms])
  have d: "silent i msg (?u \<lparr> delivered := delivered ?u @ [(j, m)] \<rparr>)" if "canHandle (OpResponse j op m) s" "op"
    using t assms that by (auto simp: silent_def sendOpen_def canHandle_def)
  show ?thesis
    using ResponseDone assms silent_dropRef [OF t] silent_dropRef [OF silent_receive [OF d]]
    by (cases op; simp add: responseSent_def)
next
  case (WriteDone now j op m ok)
  let ?u = "takeOp (OpWrite j op m) s"
  have t: "silent i msg ?u" by (rule silent_take [OF assms])
  have d: "silent i msg (?u \<lparr> delivered := delivered ?u @ [(j, m)] \<rparr>)" if "canHandle (OpWrite j op m) s" "op"
    using t assms that by (auto simp: silent_def sendOpen_def canHandle_def)
  show ?thesis
    using WriteDone assms silent_dropRef [OF t] silent_dropRef [OF d]
    by (cases op; simp add: asyncWriteSent_def)
next
  case (CmdEnd now j)
  have "silent i msg (s \<lparr> cmdThreads := c \<rparr>)" for c using assms by (rule silent_cong) simp_all
  then show ?thesis using CmdEnd assms silent_dropRef by simp
next
  case (Broadcast m)
  have "silent i msg (fold (\<lambda>j s. if objects s j \<noteq> None then asyncWriteTo m j s else s) is' s)" if "silent i msg s" for is' s
    using that by (induction is' arbitrary: s) (simp_all add: silent_write)
  then show ?thesis using Broadcast assms by (simp add: asyncWriteToAllComConn_def)
next
  case (ShutNext now)
  have "silent i msg (s \<lparr> toShut := l \<rparr>)" for l using assms by (rule silent_cong) simp_all
  then show ?thesis using ShutNext assms silent_shutdownConn by (simp add: shutdownNext_def split: option.split list.split)
qed (use assms in \<open>auto simp: silent_write ioExit_def runEnd_def shutdownServer_def destroyServer_def intro: silent_cong\<close>)

text \<open>The numbers of the connections are never used again.\<close>

definition ids_ok :: "com_server \<Rightarrow> bool" where
  "ids_ok s \<longleftrightarrow> (\<forall>i. objects s i \<noteq> None \<longrightarrow> i < connIdSeq s)"

lemma ids_parts:
  "ids_ok s \<Longrightarrow> ids_ok (shutdownConn now i s)" "ids_ok s \<Longrightarrow> ids_ok (dropRef now i s)"
  "ids_ok s \<Longrightarrow> ids_ok (receiveCommand i s)" "ids_ok s \<Longrightarrow> ids_ok (asyncWriteTo msg i s)" "ids_ok s \<Longrightarrow> ids_ok (beginAccept s)"
  "ids_ok s \<Longrightarrow> ids_ok (beginProtocol now i s)"
  by (auto simp: ids_ok_def shutdownConn_def dropRef_def receiveCommand_def asyncWriteTo_def beginAccept_def
      beginProtocol_def Let_def less_Suc_eq split: option.splits)

lemma ids_fields:
  "ids_ok (s \<lparr> ops := a \<rparr>) = ids_ok s" "ids_ok (s \<lparr> accepting := b \<rparr>) = ids_ok s" "ids_ok (s \<lparr> cmdThreads := c \<rparr>) = ids_ok s"
  "ids_ok (s \<lparr> sw := d \<rparr>) = ids_ok s" "ids_ok (s \<lparr> delivered := f \<rparr>) = ids_ok s" "ids_ok (s \<lparr> toShut := g \<rparr>) = ids_ok s"
  "ids_ok (s \<lparr> ioThreads := n, sw := d \<rparr>) = ids_ok s" "ids_ok (s \<lparr> sw := d, accepting := b \<rparr>) = ids_ok s"
  "ids_ok (s \<lparr> ops := a, cmdThreads := c \<rparr>) = ids_ok s" "ids_ok (s \<lparr> sw := d, toShut := g \<rparr>) = ids_ok s"
  "ids_ok (s \<lparr> ioThreads := n \<rparr>) = ids_ok s" "ids_ok (s \<lparr> destroyCalled := x, ioStopped := x \<rparr>) = ids_ok s"
  by (simp_all add: ids_ok_def)

lemma ids_step:
  assumes "ids_ok s"
  shows "ids_ok (srvEvent e s)"
proof (cases e)
  case (AcceptStep now)
  then show ?thesis using assms
    by (cases "accepting s"; cases "the (accepting s)") (simp_all add: handleAcceptStep_def Let_def ids_parts ids_fields)
next
  case (Broadcast m)
  have "ids_ok (fold (\<lambda>j s. if objects s j \<noteq> None then asyncWriteTo m j s else s) is' s)" if "ids_ok s" for is' s
    using that by (induction is' arbitrary: s) (simp_all add: ids_parts)
  then show ?thesis using Broadcast assms by (simp add: asyncWriteToAllComConn_def)
qed (use assms in \<open>simp_all add: ids_parts ids_fields runServer_def ioExit_def runEnd_def handleAcceptTest_def takeOp_def
    readCommandOf_def responseSent_def asyncWriteSent_def shutdownServer_def shutdownNext_def destroyServer_def Let_def
    split: option.split list.split\<close>)

lemma reach_ids: "srv_reachable s \<Longrightarrow> ids_ok s"
  by (induction rule: srv_reachable.induct) (simp_all add: ids_step, simp add: ids_ok_def mkComServer_def)

text \<open>C26: Once a connection was shut down nothing is delivered on it any more, but for what was
  handed to the socket before: what a command that is still running writes later is lost.\<close>

theorem nothing_after_shutdown:
  assumes "srv_reachable s" and "objects s i = Some c" and "connShutdown c"
    and "(i, msg) \<notin> set (delivered s)" and "OpResponse i True msg \<notin> set (ops s)" and "OpWrite i True msg \<notin> set (ops s)"
  shows "(i, msg) \<notin> set (delivered (srvEvents es s))"
proof -
  have "silent i msg s"
    using reach_ids [OF assms(1)] assms(2-6) by (auto simp: silent_def ids_ok_def sendOpen_def)
  then have "silent i msg (srvEvents es s)"
    unfolding srvEvents_def by (induction es arbitrary: s) (simp_all add: silent_step)
  then show ?thesis by (simp add: silent_def)
qed

definition shutdown_by_client :: "srv_event list" where
  "shutdown_by_client = [SrvRun 2, AcceptDone 1 0 True, AcceptStep 1, AcceptStep 1, ReadDone 2 0 (Some ''ack''),
     ResponseDone 3 0 True ''ack'' True, ShutBegin, ShutNext 4, SrvDestroy]"

theorem nothing_after_shutdown_witness:
  "delivered (srvEvents shutdown_by_client server0) = [(0, ''ack'')] \<and>
   (0, ''success'') \<notin> set (delivered (srvEvents [CmdWrite 0 ''success'', WriteDone 5 0 False ''success'' True, CmdEnd 6 0]
      (srvEvents shutdown_by_client server0)))"
proof -
  let ?s = "srvEvents shutdown_by_client server0"
  have d: "delivered ?s = [(0, ''ack'')]" "ops ?s = [OpAccept 1, OpRead 0]"
    "objects ?s 0 = Some \<lparr> connectionActive = False, connShutdown = True \<rparr>"
    by code_simp+
  show ?thesis
    using nothing_after_shutdown [OF srv_reachable_run [OF reach_server0] d(3), of "''success''"] d(1,2) by simp
qed

section \<open>The end of \<open>run\<close>\<close>


lemma end_parts [simp]:
  "ioStopped (shutdownConn now i s) = ioStopped s" "accepting (shutdownConn now i s) = accepting s"
  "srvState (sw (shutdownConn now i s)) = srvState (sw s)" "ioThreads (shutdownConn now i s) = ioThreads s"
  "ioStopped (dropRef now i s) = ioStopped s" "accepting (dropRef now i s) = accepting s"
  "srvState (sw (dropRef now i s)) = srvState (sw s)" "ioThreads (dropRef now i s) = ioThreads s"
  by (simp_all add: shutdownConn_def dropRef_def Let_def split: option.split)







end
