(* ===== verification/SyncUtils.thy ===== *)
theory SyncUtils
  imports M2Prelude
begin

text \<open>
  \<open>util/VMutex\<close>, the mutex that knows its holder, and \<open>util/Command\<close>'s \<open>Tracker\<close>, with which a
  thread waits for a command to be complete. Threads are numbers; the steps are those between two
  accesses to shared data, in any order. A \<open>std::mutex\<close> is the thread that has locked it.
\<close>

section \<open>VMutex\<close>

record vmutex =
  vmMutex :: "nat option"
  vmHolder :: "nat option"

definition newVMutex :: vmutex where
  "newVMutex = \<lparr> vmMutex = None, vmHolder = None \<rparr>"

definition lockedByCaller :: "nat \<Rightarrow> vmutex \<Rightarrow> bool" where
  "lockedByCaller t m \<longleftrightarrow> vmHolder m = Some t"

definition VMUTEX_HELD :: "nat \<Rightarrow> vmutex \<Rightarrow> unit result" where
  "VMUTEX_HELD t m = (if \<not> lockedByCaller t m then Inl (Bug ''mutex not locked!'') else Inr ())"

definition VMUTEX_NOT_HELD :: "nat \<Rightarrow> vmutex \<Rightarrow> unit result" where
  "VMUTEX_NOT_HELD t m = (if lockedByCaller t m then Inl (Bug ''mutex not free!'') else Inr ())"

text \<open>
  Where a thread is: outside; past \<open>_mutex.lock()\<close> (or a successful \<open>try_lock\<close>) in \<open>lock\<close>; between
  \<open>lock\<close> and \<open>unlock\<close>; past the reset of \<open>_holder\<close> in \<open>unlock\<close>.
\<close>

datatype vm_pc = VmOut | VmTaken | VmHolds | VmLeaving

record vm_sys =
  vmtx :: vmutex
  vmPc :: "nat \<Rightarrow> vm_pc"

definition newVmSys :: vm_sys where
  "newVmSys = \<lparr> vmtx = newVMutex, vmPc = (\<lambda>t. VmOut) \<rparr>"

text \<open>
  One step of a thread. \<open>None\<close>: the thread waits for the mutex; a holder that locks again waits
  for ever.
\<close>

datatype vm_call = VmLock | VmTryLock | VmUnlock

definition vmTake :: "nat \<Rightarrow> vm_sys \<Rightarrow> vm_sys" where
  "vmTake t s = s \<lparr> vmtx := (vmtx s) \<lparr> vmMutex := Some t \<rparr>, vmPc := (vmPc s)(t := VmTaken) \<rparr>"

fun vmStep :: "nat \<Rightarrow> vm_call \<Rightarrow> vm_sys \<Rightarrow> vm_sys option" where
  "vmStep t c s =
     (case vmPc s t of
        VmTaken \<Rightarrow> Some (s \<lparr> vmtx := (vmtx s) \<lparr> vmHolder := Some t \<rparr>, vmPc := (vmPc s)(t := VmHolds) \<rparr>)
      | VmLeaving \<Rightarrow> Some (s \<lparr> vmtx := (vmtx s) \<lparr> vmMutex := None \<rparr>, vmPc := (vmPc s)(t := VmOut) \<rparr>)
      | VmHolds \<Rightarrow>
          (case c of
             VmUnlock \<Rightarrow> Some (s \<lparr> vmtx := (vmtx s) \<lparr> vmHolder := None \<rparr>, vmPc := (vmPc s)(t := VmLeaving) \<rparr>)
           | VmTryLock \<Rightarrow> Some s
           | VmLock \<Rightarrow> None)
      | VmOut \<Rightarrow>
          (case c of
             VmLock \<Rightarrow> if vmMutex (vmtx s) = None then Some (vmTake t s) else None
           | VmTryLock \<Rightarrow> Some (if vmMutex (vmtx s) = None then vmTake t s else s)
           | VmUnlock \<Rightarrow> None))"

inductive vm_reach :: "vm_sys \<Rightarrow> bool" where
  init: "vm_reach newVmSys"
| step: "vm_reach s \<Longrightarrow> vmStep t c s = Some s' \<Longrightarrow> vm_reach s'"

definition vm_inv :: "vm_sys \<Rightarrow> bool" where
  "vm_inv s \<longleftrightarrow>
     (case vmMutex (vmtx s) of
        None \<Rightarrow> (\<forall>t. vmPc s t = VmOut) \<and> vmHolder (vmtx s) = None
      | Some t \<Rightarrow> (\<forall>u. u \<noteq> t \<longrightarrow> vmPc s u = VmOut) \<and> vmPc s t \<noteq> VmOut \<and>
          vmHolder (vmtx s) = (if vmPc s t = VmHolds then Some t else None))"

lemma vm_owner: "vm_inv s \<Longrightarrow> vmPc s t \<noteq> VmOut \<Longrightarrow> vmMutex (vmtx s) = Some t"
  unfolding vm_inv_def by (cases "vmMutex (vmtx s)") (simp_all, metis)

lemma vm_inv_step: "vm_inv s \<Longrightarrow> vmStep t c s = Some s' \<Longrightarrow> vm_inv s'"
proof (cases "vmPc s t = VmOut")
  case True
  then show "vm_inv s \<Longrightarrow> vmStep t c s = Some s' \<Longrightarrow> ?thesis"
    by (cases c) (auto simp: vm_inv_def vmTake_def split: if_splits)
next
  case False
  assume inv: "vm_inv s" and st: "vmStep t c s = Some s'"
  show ?thesis
    using False vm_owner [OF inv False] inv st
    by (cases "vmPc s t"; cases c) (auto simp: vm_inv_def)
qed

lemma vm_reach_inv: "vm_reach s \<Longrightarrow> vm_inv s"
  by (induction rule: vm_reach.induct) (use vm_inv_step in \<open>auto simp: vm_inv_def newVmSys_def newVMutex_def\<close>)

text \<open>Whatever the other threads do with a VMutex, the checks are exact: \<open>VMUTEX_HELD\<close> lets
  exactly the thread pass that is between its \<open>lock\<close> and its \<open>unlock\<close>, \<open>VMUTEX_NOT_HELD\<close> exactly
  the others, and at most one thread is there.\<close>

theorem vmutex_checks_exact:
  assumes "vm_reach s"
  shows "(VMUTEX_HELD t (vmtx s) = Inr () \<longleftrightarrow> vmPc s t = VmHolds) \<and>
    (VMUTEX_NOT_HELD t (vmtx s) = Inr () \<longleftrightarrow> vmPc s t \<noteq> VmHolds) \<and>
    (vmPc s t = VmHolds \<and> vmPc s u = VmHolds \<longrightarrow> t = u)"
proof -
  have inv: "vm_inv s" by (rule vm_reach_inv [OF assms])
  have h: "vmHolder (vmtx s) = Some t \<longleftrightarrow> vmPc s t = VmHolds" for t
  proof (cases "vmMutex (vmtx s)")
    case None
    then show ?thesis using inv by (simp add: vm_inv_def)
  next
    case (Some v)
    then show ?thesis using inv vm_owner [OF inv, of t] by (cases "t = v") (auto simp: vm_inv_def)
  qed
  show ?thesis
    using h [of t] h [of u] by (auto simp: VMUTEX_HELD_def VMUTEX_NOT_HELD_def lockedByCaller_def)
qed

lemma vmutex_locked: "vm_reach (newVmSys \<lparr> vmtx := \<lparr> vmMutex = Some 1, vmHolder = Some 1 \<rparr>, vmPc := (\<lambda>t. VmOut)(1 := VmHolds) \<rparr>)"
proof -
  have "vm_reach (vmTake 1 newVmSys)"
    by (rule vm_reach.step [OF vm_reach.init, of 1 VmLock]) (simp add: newVmSys_def newVMutex_def)
  from vm_reach.step [OF this, of 1 VmLock] show ?thesis by (simp add: vmTake_def newVmSys_def newVMutex_def)
qed

theorem vmutex_checks_exact_witness:
  "VMUTEX_HELD 1 \<lparr> vmMutex = Some 1, vmHolder = Some 1 \<rparr> = Inr () \<and>
   VMUTEX_HELD 2 \<lparr> vmMutex = Some 1, vmHolder = Some 1 \<rparr> \<noteq> Inr ()"
  using vmutex_checks_exact [OF vmutex_locked, of 1] vmutex_checks_exact [OF vmutex_locked, of 2] by simp

section \<open>Tracker\<close>

datatype tracker_status = INPROGRESS | COMPLETE

text \<open>
  A thread in \<open>waitComplete\<close>: it has not called it, sleeps on the condition variable, was woken and
  has to test again, or has returned. A thread in \<open>setComplete\<close>: it has set the status and has yet
  to notify.
\<close>

datatype wait_pc = WaitOut | WaitAsleep | WaitAwake | WaitReturned

record tracker =
  trStatus :: tracker_status
  trWait :: "nat \<Rightarrow> wait_pc"
  trNotify :: "nat set"

definition newTracker :: tracker where
  "newTracker = \<lparr> trStatus = INPROGRESS, trWait = (\<lambda>t. WaitOut), trNotify = {} \<rparr>"

definition isFinished :: "tracker \<Rightarrow> bool" where
  "isFinished s \<longleftrightarrow> trStatus s = COMPLETE"

text \<open>The test of the predicate and going to sleep are one step under the lock.\<close>

definition waitComplete :: "nat \<Rightarrow> tracker \<Rightarrow> tracker" where
  "waitComplete t s =
     (if trWait s t \<in> {WaitOut, WaitAwake}
      then s \<lparr> trWait := (trWait s)(t := if trStatus s = COMPLETE then WaitReturned else WaitAsleep) \<rparr> else s)"

definition spuriousWake :: "nat \<Rightarrow> tracker \<Rightarrow> tracker" where
  "spuriousWake t s = (if trWait s t = WaitAsleep then s \<lparr> trWait := (trWait s)(t := WaitAwake) \<rparr> else s)"

definition setComplete :: "nat \<Rightarrow> tracker \<Rightarrow> tracker" where
  "setComplete t s = s \<lparr> trStatus := COMPLETE, trNotify := insert t (trNotify s) \<rparr>"

definition notifyAll :: "nat \<Rightarrow> tracker \<Rightarrow> tracker" where
  "notifyAll t s =
     (if t \<notin> trNotify s then s
      else s \<lparr> trWait := (\<lambda>u. if trWait s u = WaitAsleep then WaitAwake else trWait s u), trNotify := trNotify s - {t} \<rparr>)"

datatype tracker_event = WaitComplete nat | SpuriousWake nat | SetComplete nat | NotifyAll nat

fun trackerStep :: "tracker_event \<Rightarrow> tracker \<Rightarrow> tracker" where
  "trackerStep (WaitComplete t) s = waitComplete t s"
| "trackerStep (SpuriousWake t) s = spuriousWake t s"
| "trackerStep (SetComplete t) s = setComplete t s"
| "trackerStep (NotifyAll t) s = notifyAll t s"

text \<open>\<open>CommandTracked::runAction\<close> by thread \<open>t\<close>: \<open>actionComplete\<close> is reached only if the action returned.\<close>

definition runActionTracked :: "nat \<Rightarrow> bool \<Rightarrow> tracker_event list" where
  "runActionTracked t actionThrows = (if actionThrows then [] else [SetComplete t, NotifyAll t])"

definition tracker_inv :: "tracker \<Rightarrow> bool" where
  "tracker_inv s \<longleftrightarrow>
     (trStatus s = COMPLETE \<and> trNotify s = {} \<longrightarrow> (\<forall>t. trWait s t \<noteq> WaitAsleep)) \<and>
     (\<forall>t. trWait s t = WaitReturned \<longrightarrow> trStatus s = COMPLETE) \<and> (trNotify s \<noteq> {} \<longrightarrow> trStatus s = COMPLETE)"

lemma tracker_inv_step: "tracker_inv s \<Longrightarrow> tracker_inv (trackerStep e s)"
  by (cases e) (auto simp: tracker_inv_def waitComplete_def spuriousWake_def setComplete_def notifyAll_def)

lemma tracker_inv_run: "tracker_inv (fold trackerStep es newTracker)"
proof -
  have "tracker_inv (fold trackerStep es s)" if "tracker_inv s" for s
    using that by (induction es arbitrary: s) (simp_all add: tracker_inv_step)
  then show ?thesis by (simp add: tracker_inv_def newTracker_def)
qed

text \<open>No wake-up of a tracker is lost: whatever the order of waits, spurious wake-ups, completions
  and notifications, once the status is COMPLETE and every \<open>setComplete\<close> has notified, no thread
  sleeps, and the next step of each waiting thread returns; and no thread returns before.\<close>

theorem tracker_no_lost_wakeup:
  fixes es :: "tracker_event list"
  defines "s \<equiv> fold trackerStep es newTracker"
  assumes "isFinished s" and "trNotify s = {}"
  shows "trWait s t \<noteq> WaitAsleep \<and> trWait (waitComplete t s) t = WaitReturned \<and>
    (\<forall>ds u. \<not> isFinished (fold trackerStep ds newTracker) \<longrightarrow> trWait (fold trackerStep ds newTracker) u \<noteq> WaitReturned)"
proof -
  have "tracker_inv s" unfolding s_def by (rule tracker_inv_run)
  then have "trWait s t \<noteq> WaitAsleep" using assms(2,3) by (simp add: tracker_inv_def isFinished_def)
  moreover from this have "trWait (waitComplete t s) t = WaitReturned"
    using assms(2) by (cases "trWait s t") (simp_all add: waitComplete_def isFinished_def)
  ultimately show ?thesis using tracker_inv_run by (auto simp: tracker_inv_def isFinished_def)
qed

theorem tracker_no_lost_wakeup_witness:
  "trWait (waitComplete 7 (fold trackerStep (WaitComplete 7 # runActionTracked 3 False) newTracker)) 7 = WaitReturned"
proof -
  let ?es = "WaitComplete 7 # runActionTracked 3 False"
  have "isFinished (fold trackerStep ?es newTracker)" "trNotify (fold trackerStep ?es newTracker) = {}"
    by (simp_all add: runActionTracked_def newTracker_def waitComplete_def setComplete_def notifyAll_def isFinished_def)
  then show ?thesis using tracker_no_lost_wakeup [of ?es 7] by simp
qed

text \<open>An action that throws leaves its waiters asleep.\<close>

lemma throwing_action_waits:
  "trWait (fold trackerStep (WaitComplete 7 # runActionTracked 3 True) newTracker) 7 = WaitAsleep"
  by (simp add: runActionTracked_def newTracker_def waitComplete_def)

end
