(* ===== verification/InstanceCount.thy ===== *)
theory InstanceCount
  imports M2Prelude StdMap
begin

text \<open>
  \<open>util/InstanceCount\<close>: the static map from the name of a class to the number of its instances, kept
  by the constructors and the destructor. Objects are numbers; \<open>live\<close> are those that exist, with
  their \<open>_className\<close>. The counts are \<open>int\<close>s: more than \<open>2 ^ 31 - 1\<close> instances of a class are left
  out. Every operation holds the recursive mutex.
\<close>

section \<open>Model\<close>

record instance_counts =
  instances :: "(string \<times> int) list"
  live :: "nat \<rightharpoonup> string"

definition noInstances :: instance_counts where
  "noInstances = \<lparr> instances = [], live = Map.empty \<rparr>"

text \<open>\<open>insert\<close> of a map does not touch an entry that is there.\<close>

definition increment :: "string \<Rightarrow> (string \<times> int) list \<Rightarrow> (string \<times> int) list" where
  "increment c m =
     (let m = (if map_of m c = None then map_insert c 0 m else m) in map_modify c (\<lambda>n. n + 1) m)"

definition newInstance :: "nat \<Rightarrow> string \<Rightarrow> instance_counts \<Rightarrow> instance_counts" where
  "newInstance i c s = s \<lparr> instances := increment c (instances s), live := (live s)(i \<mapsto> c) \<rparr>"

text \<open>The copy and the move constructor: the origin of a move is left as it was.\<close>

definition copyInstance :: "nat \<Rightarrow> nat \<Rightarrow> instance_counts \<Rightarrow> instance_counts" where
  "copyInstance i j s = (case live s j of None \<Rightarrow> s | Some c \<Rightarrow> newInstance i c s)"

text \<open>The default \<open>operator=\<close> copies the name of the class.\<close>

definition assignInstance :: "nat \<Rightarrow> nat \<Rightarrow> instance_counts \<Rightarrow> instance_counts" where
  "assignInstance i j s = (case live s j of None \<Rightarrow> s | Some c \<Rightarrow> s \<lparr> live := (live s)(i \<mapsto> c) \<rparr>)"

definition deleteInstance :: "nat \<Rightarrow> instance_counts \<Rightarrow> instance_counts" where
  "deleteInstance i s =
     (case live s i of
        None \<Rightarrow> s
      | Some c \<Rightarrow> s \<lparr> instances := map_modify c (\<lambda>n. n - 1) (instances s), live := (live s)(i := None) \<rparr>)"

definition getCount :: "string \<Rightarrow> instance_counts \<Rightarrow> int" where
  "getCount c s = (case map_of (instances s) c of None \<Rightarrow> 0 | Some n \<Rightarrow> n)"

text \<open>\<open>dump\<close>, with the decimal of a number as the stream writes it.\<close>

definition dumpInstances :: "(int \<Rightarrow> string) \<Rightarrow> instance_counts \<Rightarrow> string" where
  "dumpInstances dec s =
     concat (map (\<lambda>(c, n). if n \<noteq> 0 then c @ ''='' @ dec n @ '' '' else []) (instances s))"

datatype instance_op = NewInst nat string | CopyInst nat nat | AssignInst nat nat | DeleteInst nat

text \<open>An object is constructed once: its number is new.\<close>

fun instanceOp :: "instance_op \<Rightarrow> instance_counts \<Rightarrow> instance_counts" where
  "instanceOp (NewInst i c) s = (if live s i = None then newInstance i c s else s)"
| "instanceOp (CopyInst i j) s = (if live s i = None then copyInstance i j s else s)"
| "instanceOp (AssignInst i j) s = (if live s i \<noteq> None then assignInstance i j s else s)"
| "instanceOp (DeleteInst i) s = deleteInstance i s"

section \<open>The counts\<close>

definition sameClass :: "instance_op \<Rightarrow> instance_counts \<Rightarrow> bool" where
  "sameClass p s \<longleftrightarrow> (case p of AssignInst i j \<Rightarrow> live s j = None \<or> live s i = live s j | _ \<Rightarrow> True)"

definition objectsOf :: "string \<Rightarrow> instance_counts \<Rightarrow> nat set" where
  "objectsOf c s = {i. live s i = Some c}"

definition count_inv :: "instance_counts \<Rightarrow> bool" where
  "count_inv s \<longleftrightarrow> (\<forall>c. finite (objectsOf c s) \<and> getCount c s = int (card (objectsOf c s))) \<and>
     (\<forall>i c. live s i = Some c \<longrightarrow> map_of (instances s) c \<noteq> None) \<and> sorted_keys (instances s)"

lemma map_of_increment:
  "map_of (increment c m) d = (if d = c then Some ((case map_of m c of None \<Rightarrow> 0 | Some n \<Rightarrow> n) + 1) else map_of m d)"
  by (cases "map_of m c") (simp_all add: increment_def Let_def map_of_map_modify map_of_map_insert)

lemma sorted_modify: "sorted_keys m \<Longrightarrow> sorted_keys (map_modify i f m)"
  by (simp add: sorted_keys_def)

lemma sorted_increment: "sorted_keys m \<Longrightarrow> sorted_keys (increment c m)"
  by (simp add: increment_def Let_def sorted_modify sorted_keys_insert)

lemma count_new:
  assumes "count_inv s" and "live s i = None"
  shows "count_inv (newInstance i c s)"
proof -
  have o: "objectsOf d (newInstance i c s) = (if d = c then insert i (objectsOf c s) else objectsOf d s)" for d
    using assms(2) by (auto simp: objectsOf_def newInstance_def)
  have i: "i \<notin> objectsOf c s" using assms(2) by (simp add: objectsOf_def)
  show ?thesis
    using assms i unfolding count_inv_def o
    by (auto simp: getCount_def newInstance_def map_of_increment sorted_increment split: option.splits if_splits)
qed

lemma count_delete:
  assumes "count_inv s"
  shows "count_inv (deleteInstance i s)"
proof (cases "live s i")
  case (Some c)
  have o: "objectsOf d (deleteInstance i s) = (if d = c then objectsOf c s - {i} else objectsOf d s)" for d
    using Some by (auto simp: objectsOf_def deleteInstance_def)
  have i: "i \<in> objectsOf c s" "finite (objectsOf c s)" "map_of (instances s) c \<noteq> None"
    using assms Some by (auto simp: objectsOf_def count_inv_def)
  then obtain n where "card (objectsOf c s) = Suc n" by (metis card_gt_0_iff empty_iff gr0_implies_Suc)
  then have "int (card (objectsOf c s - {i})) = int (card (objectsOf c s)) - 1" using i by simp
  moreover obtain m where "map_of (instances s) c = Some m" using i(3) by blast
  ultimately show ?thesis
    using assms Some i(1,2) unfolding count_inv_def o
    by (auto simp: getCount_def deleteInstance_def map_of_map_modify sorted_modify split: option.splits if_splits)
qed (use assms in \<open>simp add: deleteInstance_def\<close>)

lemma count_step:
  assumes "count_inv s" and "sameClass p s"
  shows "count_inv (instanceOp p s)"
proof (cases p)
  case (AssignInst i j)
  have "assignInstance i j s = s" if "live s i \<noteq> None"
    using assms(2) AssignInst that
    by (auto simp: sameClass_def assignInstance_def fun_upd_idem split: option.split)
  then show ?thesis using assms AssignInst by simp
next
  case (CopyInst i j)
  then show ?thesis using assms(1) count_new by (simp add: copyInstance_def split: option.split)
qed (use assms count_new count_delete in \<open>simp_all\<close>)

fun sameClassRun :: "instance_op list \<Rightarrow> instance_counts \<Rightarrow> bool" where
  "sameClassRun [] s = True"
| "sameClassRun (p # ps) s = (sameClass p s \<and> sameClassRun ps (instanceOp p s))"

text \<open>The count of a class is the number of its live objects, after any sequence of
  constructions, copies, moves, assignments between objects of one class, and destructions, and
  the entries stay sorted by name.\<close>

theorem instance_count_exact:
  assumes "sameClassRun ps noInstances"
  shows "getCount c (fold instanceOp ps noInstances) = int (card (objectsOf c (fold instanceOp ps noInstances))) \<and>
    sorted_keys (instances (fold instanceOp ps noInstances))"
proof -
  have "count_inv (fold instanceOp ps s)" if "count_inv s" "sameClassRun ps s" for s
    using that by (induction ps arbitrary: s) (simp_all add: count_step)
  moreover have "count_inv noInstances"
    by (simp add: count_inv_def noInstances_def objectsOf_def getCount_def sorted_keys_def)
  ultimately show ?thesis using assms by (simp add: count_inv_def)
qed

theorem instance_count_exact_witness:
  "getCount ''A'' (fold instanceOp [NewInst 0 ''B'', NewInst 1 ''A'', CopyInst 2 1, DeleteInst 1, AssignInst 2 2] noInstances) = 1 \<and>
   int (card (objectsOf ''A'' (fold instanceOp [NewInst 0 ''B'', NewInst 1 ''A'', CopyInst 2 1, DeleteInst 1, AssignInst 2 2] noInstances))) = 1"
proof -
  let ?ps = "[NewInst 0 ''B'', NewInst 1 ''A'', CopyInst 2 1, DeleteInst 1, AssignInst 2 2]"
  have "sameClassRun ?ps noInstances" "getCount ''A'' (fold instanceOp ?ps noInstances) = 1" by code_simp+
  then show ?thesis using instance_count_exact [of ?ps "''A''"] by simp
qed

text \<open>An assignment between two classes is not counted: the count of one stays too high, that of the other is too low.\<close>

lemma assignment_miscounts:
  "let s = fold instanceOp [NewInst 0 ''A'', NewInst 1 ''B'', AssignInst 0 1, DeleteInst 0, DeleteInst 1] noInstances
   in live s 0 = None \<and> live s 1 = None \<and> getCount ''A'' s = 1 \<and> getCount ''B'' s = - 1"
  by code_simp

end
