(* ===== verification/TelemetryAccess.thy ===== *)
theory TelemetryAccess
  imports TelemetryProps
begin

text \<open>
  How the rest of the program reaches the values of an item: the accessors of the classes of
  \<open>system/TelemetryItemDefs\<close>, each of which returns a reference to the member that is also in the
  item's map, and the setters and getters of the values of \<open>system/TelemetryItem\<close> used through it.
  An accessor is its name with the name of the member it returns.
\<close>

section \<open>Accessors\<close>

























section \<open>Accessors and members\<close>















end
