(* ===== verification/Startup.thy ===== *)
theory Startup
  imports EventThread
begin

text \<open>
  The global objects behind \<open>setup\<close> and \<open>get\<close>, in which order \<open>_cMain\<close> (\<open>control/ControlMain\<close>) makes
  them, and the threads that run before all of them are there: the loop of \<open>FpgaIo\<close> and the event
  and timeout threads that the constructor of \<open>PowerSystem\<close> starts. What these objects hold is in
  \<open>M2System\<close>; here it matters only which of them can be reached.
\<close>

section \<open>Objects\<close>

datatype global_object = GGlobals | GFaultMgr | GFpgaIo | GMotionEngine | GContext

definition getGlobals :: "global_object list \<Rightarrow> unit result" where
  "getGlobals made = (if GGlobals \<in> set made then Inr () else Inl (ConfigException ''Globals has not been setup.''))"

definition getFaultMgr :: "global_object list \<Rightarrow> unit result" where
  "getFaultMgr made = (if GFaultMgr \<in> set made then Inr () else Inl (ConfigException ''FaultMgr has not been setup.''))"

definition getFpgaIo :: "global_object list \<Rightarrow> unit result" where
  "getFpgaIo made = (if GFpgaIo \<in> set made then Inr () else Inl (ConfigException ''FpgaIo has not been setup.''))"

definition getMotionEngine :: "global_object list \<Rightarrow> unit result" where
  "getMotionEngine made =
     (if GMotionEngine \<in> set made then Inr () else Inl (ConfigException ''MotionEngine has not been setup.''))"

definition getContext :: "global_object list \<Rightarrow> unit result" where
  "getContext made = (if GContext \<in> set made then Inr () else Inl (Bug ''Context has not been setup.''))"

fun getGlobal :: "global_object \<Rightarrow> global_object list \<Rightarrow> unit result" where
  "getGlobal GGlobals made = getGlobals made"
| "getGlobal GFaultMgr made = getFaultMgr made"
| "getGlobal GFpgaIo made = getFpgaIo made"
| "getGlobal GMotionEngine made = getMotionEngine made"
| "getGlobal GContext made = getContext made"

lemma getGlobal_made: "x \<in> set made \<Longrightarrow> getGlobal x made = Inr ()"
  by (cases x) (simp_all add: getGlobals_def getFaultMgr_def getFpgaIo_def getMotionEngine_def getContext_def)

lemma getGlobal_missing: "x \<notin> set made \<Longrightarrow> \<exists>e. getGlobal x made = Inl e"
  by (cases x) (simp_all add: getGlobals_def getFaultMgr_def getFpgaIo_def getMotionEngine_def getContext_def)

text \<open>
  The steps of the main thread that concern these objects: \<open>setup\<close> of one, \<open>get\<close> of one, the
  assignment of \<open>_thisPtr\<close> at the end of a \<open>setup\<close>, and what the constructors do besides.
\<close>

datatype startup_instr =
    Setup global_object
  | Get global_object
  | Assign global_object
  | StartFpgaLoop
  | StartPowerSystem
  | RegisterPowerSys
  | SetContext

text \<open>
  The constructors. \<open>Context\<close> has a \<open>Model\<close>, which makes the \<open>PowerSystem\<close>, looks up the motion
  engine and the FPGA access and registers the power system there.
\<close>

definition newFpgaIo :: "startup_instr list" where
  "newFpgaIo = [StartFpgaLoop]"

definition newPowerSystem :: "startup_instr list" where
  "newPowerSystem = [Get GFpgaIo, StartPowerSystem]"

definition newModel :: "startup_instr list" where
  "newModel = newPowerSystem @ [Get GMotionEngine, Get GFpgaIo, RegisterPowerSys]"

text \<open>The rest of \<open>setup\<close> for an object that is not there.\<close>

definition setupGlobals :: "startup_instr list" where
  "setupGlobals = [Assign GGlobals]"

definition setupFaultMgr :: "startup_instr list" where
  "setupFaultMgr = [Assign GFaultMgr]"

definition setupFpgaIo :: "startup_instr list" where
  "setupFpgaIo = newFpgaIo @ [Assign GFpgaIo]"

definition setupMotionEngine :: "startup_instr list" where
  "setupMotionEngine = [Assign GMotionEngine]"

definition setupContext :: "startup_instr list" where
  "setupContext = newModel @ [Assign GContext, SetContext]"

fun setupCode :: "global_object \<Rightarrow> startup_instr list" where
  "setupCode GGlobals = setupGlobals"
| "setupCode GFaultMgr = setupFaultMgr"
| "setupCode GFpgaIo = setupFpgaIo"
| "setupCode GMotionEngine = setupMotionEngine"
| "setupCode GContext = setupContext"

lemmas setup_defs = setupGlobals_def setupFaultMgr_def setupFpgaIo_def setupMotionEngine_def setupContext_def
  newFpgaIo_def newPowerSystem_def newModel_def

definition cMainSetup :: "startup_instr list" where
  "cMainSetup = map Setup [GGlobals, GFaultMgr, GFpgaIo, GMotionEngine, GContext] @
     [Get GContext, Get GFpgaIo, RegisterPowerSys, Get GContext]"

section \<open>The threads\<close>

record startup =
  todo :: "startup_instr list"
  made :: "global_object list"
  fpgaRuns :: bool
  psRuns :: bool
  psRegistered :: bool
  psHasContext :: bool
  psLoop :: event_loop
  startCrash :: "cpp_error option"

definition mkStartup :: "startup_instr list \<Rightarrow> startup" where
  "mkStartup code = \<lparr> todo = code, made = [], fpgaRuns = False, psRuns = False, psRegistered = False,
     psHasContext = False, psLoop = newEventThread, startCrash = None \<rparr>"

text \<open>An exception that leaves a thread ends the program.\<close>

definition useGlobal :: "global_object \<Rightarrow> startup \<Rightarrow> startup" where
  "useGlobal x s = (case getGlobal x (made s) of Inl e \<Rightarrow> s \<lparr> startCrash := Some e \<rparr> | Inr _ \<Rightarrow> s)"

text \<open>A second \<open>setup\<close> only logs.\<close>

definition startMain :: "startup \<Rightarrow> startup" where
  "startMain s =
     (case todo s of
        [] \<Rightarrow> s
      | p # ps \<Rightarrow>
          (let s = s \<lparr> todo := ps \<rparr>
           in case p of
                Setup x \<Rightarrow> if x \<in> set (made s) then s else s \<lparr> todo := setupCode x @ ps \<rparr>
              | Get x \<Rightarrow> useGlobal x s
              | Assign x \<Rightarrow> s \<lparr> made := x # made s \<rparr>
              | StartFpgaLoop \<Rightarrow> s \<lparr> fpgaRuns := True \<rparr>
              | StartPowerSystem \<Rightarrow> s \<lparr> psRuns := True \<rparr>
              | RegisterPowerSys \<Rightarrow> s \<lparr> psRegistered := True \<rparr>
              | SetContext \<Rightarrow> s \<lparr> psHasContext := True \<rparr>))"

text \<open>A pass of the loop of \<open>FpgaIo\<close> and a tick of the timeout thread of \<open>PowerSystem\<close>.\<close>

definition startFpgaPass :: "startup \<Rightarrow> startup" where
  "startFpgaPass s = (if fpgaRuns s \<and> psRegistered s then s \<lparr> psLoop := loopEvent (QueCmd 0) (psLoop s) \<rparr> else s)"

definition startTimeoutTick :: "startup \<Rightarrow> startup" where
  "startTimeoutTick s = (if psRuns s then s \<lparr> psLoop := loopEvent (QueCmd 1) (psLoop s) \<rparr> else s)"

text \<open>
  A step of the event thread of \<open>PowerSystem\<close>. Each command is taken to look up the fault manager; a
  timeout check does so only when it is late, which makes no difference where that object is made
  before. \<open>updatePowerFaults\<close> looks up the context when \<open>healthFault\<close>, that is, when the faults
  are new and one of them is a health fault.
\<close>

definition startPsStep :: "bool \<Rightarrow> startup \<Rightarrow> startup" where
  "startPsStep healthFault s =
     (if \<not> psRuns s then s
      else
        (let s' = s \<lparr> psLoop := loopEvent LoopStep (psLoop s) \<rparr>
         in case pc (elThread (psLoop s)) of
              Running (Work n) \<Rightarrow>
                (let t = useGlobal GFaultMgr s'
                 in if healthFault \<and> startCrash t = None then useGlobal GContext t else t)
            | _ \<Rightarrow> s'))"

datatype startup_step = MainStep | FpgaPass | TimeoutTick | PsStep bool

fun startupStep :: "startup_step \<Rightarrow> startup \<Rightarrow> startup" where
  "startupStep e s =
     (if startCrash s \<noteq> None then s
      else case e of
          MainStep \<Rightarrow> startMain s
        | FpgaPass \<Rightarrow> startFpgaPass s
        | TimeoutTick \<Rightarrow> startTimeoutTick s
        | PsStep healthFault \<Rightarrow> startPsStep healthFault s)"

definition startupRun :: "startup_step list \<Rightarrow> startup \<Rightarrow> startup" where
  "startupRun es s = fold startupStep es s"

section \<open>The order of the objects\<close>

lemma startupRun_simps [simp]:
  "startupRun [] s = s" "startupRun (e # es) s = startupRun es (startupStep e s)"
  "startupRun (es @ es') s = startupRun es' (startupRun es s)"
  by (simp_all add: startupRun_def)

lemma crashed_stays: "startCrash s \<noteq> None \<Longrightarrow> startupRun es s = s"
  by (induction es) auto

lemma main_done_stays: "todo s = [] \<Longrightarrow> startupRun (replicate n MainStep) s = s"
  by (induction n) (auto simp: startMain_def)

lemma startMain_rules:
  "todo s = Setup x # ps \<Longrightarrow> startMain s = (if x \<in> set (made s) then s \<lparr> todo := ps \<rparr> else s \<lparr> todo := setupCode x @ ps \<rparr>)"
  "todo s = Get x # ps \<Longrightarrow> startMain s = useGlobal x (s \<lparr> todo := ps \<rparr>)"
  "todo s = Assign x # ps \<Longrightarrow> startMain s = s \<lparr> todo := ps, made := x # made s \<rparr>"
  "todo s = StartFpgaLoop # ps \<Longrightarrow> startMain s = s \<lparr> todo := ps, fpgaRuns := True \<rparr>"
  "todo s = StartPowerSystem # ps \<Longrightarrow> startMain s = s \<lparr> todo := ps, psRuns := True \<rparr>"
  "todo s = RegisterPowerSys # ps \<Longrightarrow> startMain s = s \<lparr> todo := ps, psRegistered := True \<rparr>"
  "todo s = SetContext # ps \<Longrightarrow> startMain s = s \<lparr> todo := ps, psHasContext := True \<rparr>"
  by (simp_all add: startMain_def Let_def)

lemma useGlobal_made: "x \<in> set (made s) \<Longrightarrow> useGlobal x s = s"
  by (simp add: useGlobal_def getGlobal_made)

lemma useGlobal_missing:
  "x \<notin> set (made s) \<Longrightarrow> useGlobal x s = s \<lparr> startCrash := Some (projl (getGlobal x (made s))) \<rparr>"
  using getGlobal_missing [of x "made s"] by (auto simp: useGlobal_def)

lemmas start_rules = startMain_rules useGlobal_made useGlobal_missing

definition constructible :: "global_object \<Rightarrow> global_object list \<Rightarrow> bool" where
  "constructible x m \<longleftrightarrow> (x = GContext \<longrightarrow> GFpgaIo \<in> set m \<and> GMotionEngine \<in> set m)"

text \<open>One \<open>setup\<close> by the main thread alone: at most eight steps.\<close>

lemma setup_block:
  assumes "todo s = Setup x # ps" and "startCrash s = None"
  shows "\<exists>n \<le> 8. (let s' = startupRun (replicate n MainStep) s in
    if x \<in> set (made s) \<or> constructible x (made s)
    then startCrash s' = None \<and> todo s' = ps \<and> set (made s') = insert x (set (made s))
    else startCrash s' \<noteq> None)"
proof (cases "x \<in> set (made s)")
  case True
  then show ?thesis using assms by (intro exI [of _ 1]) (auto simp: start_rules Let_def)
next
  case new: False
  note [simp] = assms new setup_defs start_rules numeral_eq_Suc
  show ?thesis
  proof (cases x)
    case GContext
    show ?thesis
    proof (cases "GFpgaIo \<in> set (made s)")
      case io: True
      show ?thesis
        using GContext new io assms
        by (intro exI [of _ "if GMotionEngine \<in> set (made s) then 8 else 4"]) (simp add: constructible_def Let_def)
    next
      case False
      then show ?thesis using GContext new by (intro exI [of _ 2]) (simp add: constructible_def Let_def)
    qed
  next
    case GFpgaIo
    then show ?thesis using new by (intro exI [of _ 3]) (simp add: constructible_def Let_def)
  qed (use new in \<open>intro exI [of _ 2], simp add: constructible_def Let_def\<close>)+
qed

fun setups_ok :: "global_object list \<Rightarrow> global_object set \<Rightarrow> bool" where
  "setups_ok [] m = True"
| "setups_ok (x # xs) m = ((x \<in> m \<or> x \<noteq> GContext \<or> {GFpgaIo, GMotionEngine} \<subseteq> m) \<and> setups_ok xs (insert x m))"

lemma setups_ok_made: "GContext \<in> m \<Longrightarrow> setups_ok xs m"
  by (induction xs arbitrary: m) auto

lemma setups_ok_iff:
  "GContext \<notin> m \<Longrightarrow> setups_ok xs m \<longleftrightarrow>
    (GContext \<in> set xs \<longrightarrow> {GFpgaIo, GMotionEngine} \<subseteq> m \<union> set (takeWhile (\<lambda>x. x \<noteq> GContext) xs))"
proof (induction xs arbitrary: m)
  case (Cons x xs)
  show ?case
  proof (cases "x = GContext")
    case True
    then show ?thesis using Cons.prems by (simp add: setups_ok_made)
  next
    case False
    then show ?thesis using Cons.IH [of "insert x m"] Cons.prems by auto
  qed
qed simp

lemma setups_run:
  assumes "todo s = map Setup xs" and "startCrash s = None"
  shows "\<exists>n \<le> 8 * length xs. (let s' = startupRun (replicate n MainStep) s in
    if setups_ok xs (set (made s)) then startCrash s' = None \<and> todo s' = [] \<and> set (made s') = set xs \<union> set (made s)
    else startCrash s' \<noteq> None)"
  using assms
proof (induction xs arbitrary: s)
  case (Cons x xs)
  from setup_block [of s x "map Setup xs"] Cons.prems obtain n where n: "n \<le> 8"
    and b: "let s' = startupRun (replicate n MainStep) s in
      if x \<in> set (made s) \<or> constructible x (made s)
      then startCrash s' = None \<and> todo s' = map Setup xs \<and> set (made s') = insert x (set (made s))
      else startCrash s' \<noteq> None" by auto
  let ?s = "startupRun (replicate n MainStep) s"
  have ok: "(x \<in> set (made s) \<or> constructible x (made s)) \<longleftrightarrow>
      (x \<in> set (made s) \<or> x \<noteq> GContext \<or> {GFpgaIo, GMotionEngine} \<subseteq> set (made s))"
    by (auto simp: constructible_def)
  show ?case
  proof (cases "x \<in> set (made s) \<or> constructible x (made s)")
    case False
    then show ?thesis using b n ok by (intro exI [of _ n]) (auto simp: Let_def)
  next
    case True
    then have s': "startCrash ?s = None" "todo ?s = map Setup xs" "set (made ?s) = insert x (set (made s))"
      using b by (auto simp: Let_def)
    obtain k where "k \<le> 8 * length xs" and "let s' = startupRun (replicate k MainStep) ?s in
        if setups_ok xs (set (made ?s)) then startCrash s' = None \<and> todo s' = [] \<and> set (made s') = set xs \<union> set (made ?s)
        else startCrash s' \<noteq> None"
      using Cons.IH [OF s'(2,1)] by blast
    then show ?thesis
      using n True ok s'(3) by (intro exI [of _ "n + k"]) (auto simp: Let_def replicate_add)
  qed
qed simp

text \<open>
  A sequence of \<open>setup\<close> calls, repeated ones among them, comes to its end without an exception
  exactly if the first one of \<open>Context\<close> comes after one of \<open>FpgaIo\<close> and one of \<open>MotionEngine\<close>.
\<close>

theorem setup_order_iff:
  fixes xs :: "global_object list"
  defines "s \<equiv> startupRun (replicate (8 * length xs) MainStep) (mkStartup (map Setup xs))"
  shows "if GContext \<notin> set xs \<or> {GFpgaIo, GMotionEngine} \<subseteq> set (takeWhile (\<lambda>x. x \<noteq> GContext) xs)
    then startCrash s = None \<and> todo s = [] \<and> set (made s) = set xs else startCrash s \<noteq> None"
proof -
  let ?s0 = "mkStartup (map Setup xs)"
  have "todo ?s0 = map Setup xs" "startCrash ?s0 = None" "made ?s0 = []" by (simp_all add: mkStartup_def)
  from setups_run [OF this(1,2), unfolded this(3) list.set Un_empty_right] obtain n where n: "n \<le> 8 * length xs"
    and b: "let s' = startupRun (replicate n MainStep) ?s0 in
      if setups_ok xs {} then startCrash s' = None \<and> todo s' = [] \<and> set (made s') = set xs else startCrash s' \<noteq> None"
    by (auto simp del: replicate.simps)
  have "replicate (8 * length xs) MainStep = replicate n MainStep @ replicate (8 * length xs - n) MainStep"
    using n by (simp flip: replicate_add)
  then have "s = startupRun (replicate n MainStep) ?s0"
    using b by (cases "setups_ok xs {}") (simp_all add: s_def Let_def main_done_stays crashed_stays)
  then show ?thesis using b setups_ok_iff [of "{}" xs] by (auto simp: Let_def)
qed

section \<open>The threads during the start\<close>

text \<open>What only the main thread changes.\<close>

definition mainPart :: "startup \<Rightarrow> startup_instr list \<times> global_object list \<times> bool \<times> bool \<times> bool \<times> bool" where
  "mainPart s = (todo s, made s, fpgaRuns s, psRuns s, psRegistered s, psHasContext s)"

definition mainSteps :: "startup_step list \<Rightarrow> nat" where
  "mainSteps es = length (filter ((=) MainStep) es)"

lemma mainPart_parts:
  "mainPart s = mainPart t \<longleftrightarrow> todo s = todo t \<and> made s = made t \<and> fpgaRuns s = fpgaRuns t \<and> psRuns s = psRuns t \<and>
     psRegistered s = psRegistered t \<and> psHasContext s = psHasContext t"
  by (auto simp: mainPart_def)

lemma startMain_part:
  assumes "mainPart s = mainPart t" and "startCrash s = startCrash t"
  shows "mainPart (startMain s) = mainPart (startMain t) \<and> startCrash (startMain s) = startCrash (startMain t)"
  using assms
  by (cases "todo t") (auto simp: mainPart_parts startMain_def useGlobal_def Let_def split: startup_instr.split sum.split)

lemma other_part: "e \<noteq> MainStep \<Longrightarrow> mainPart (startupStep e s) = mainPart s"
  by (cases e) (simp_all add: mainPart_def startFpgaPass_def startTimeoutTick_def startPsStep_def useGlobal_def Let_def
      split: pc.split cmd.split sum.split)

definition alone :: "nat \<Rightarrow> startup" where
  "alone n = (startMain ^^ n) (mkStartup cMainSetup)"

lemma alone_Suc: "alone (Suc n) = startMain (alone n)"
  by (simp add: alone_def)

fun aloneFine :: "nat \<Rightarrow> startup \<Rightarrow> bool" where
  "aloneFine 0 s = True"
| "aloneFine (Suc n) s =
     (startCrash s = None \<and> (psRuns s \<longrightarrow> GFaultMgr \<in> set (made s)) \<and> aloneFine n (startMain s))"

lemma aloneFine_nth:
  "aloneFine n s \<Longrightarrow> k < n \<Longrightarrow> startCrash ((startMain ^^ k) s) = None \<and>
    (psRuns ((startMain ^^ k) s) \<longrightarrow> GFaultMgr \<in> set (made ((startMain ^^ k) s)))"
  by (induction n arbitrary: s k) (auto simp: less_Suc_eq_0_disj funpow_Suc_right simp del: funpow.simps(2))

lemma alone_evaluated:
  "aloneFine 22 (mkStartup cMainSetup)"
  "todo (alone 21) = []" "made (alone 21) = [GContext, GMotionEngine, GFpgaIo, GFaultMgr, GGlobals]" "psHasContext (alone 21)"
  by (simp_all add: numeral_eq_Suc alone_def mkStartup_def cMainSetup_def setup_defs start_rules)

lemma alone_end: "alone (21 + n) = alone 21"
proof (induction n)
  case (Suc n)
  have "startMain (alone 21) = alone 21" by (simp add: startMain_def alone_evaluated(2))
  then show ?case using alone_Suc [of "21 + n"] Suc by (simp only: add_Suc_right)
qed simp

lemma alone_ok: "startCrash (alone n) = None" "psRuns (alone n) \<Longrightarrow> GFaultMgr \<in> set (made (alone n))"
proof -
  have "startCrash (alone n) = None \<and> (psRuns (alone n) \<longrightarrow> GFaultMgr \<in> set (made (alone n)))"
  proof (cases "n < 22")
    case True
    then show ?thesis using aloneFine_nth [OF alone_evaluated(1)] by (simp add: alone_def)
  next
    case False
    then have "alone n = alone 21" using alone_end [of "n - 21"] by simp
    then show ?thesis using aloneFine_nth [OF alone_evaluated(1), of 21] by (simp add: alone_def)
  qed
  then show "startCrash (alone n) = None" "psRuns (alone n) \<Longrightarrow> GFaultMgr \<in> set (made (alone n))" by simp_all
qed

lemma run_alone:
  assumes "startCrash (startupRun es (mkStartup cMainSetup)) = None"
  shows "mainPart (startupRun es (mkStartup cMainSetup)) = mainPart (alone (mainSteps es))"
  using assms
proof (induction es rule: rev_induct)
  case Nil
  then show ?case by (simp add: alone_def mainSteps_def)
next
  case (snoc e es)
  let ?s = "startupRun es (mkStartup cMainSetup)"
  have ok: "startCrash ?s = None" using snoc.prems by (cases "startCrash ?s") auto
  note IH = snoc.IH [OF ok]
  show ?case
  proof (cases "e = MainStep")
    case True
    then show ?thesis
      using startMain_part [OF IH] ok alone_ok(1) by (simp add: mainSteps_def alone_Suc)
  next
    case False
    then show ?thesis using other_part IH by (simp add: mainSteps_def)
  qed
qed

definition early_fault :: "startup_step \<Rightarrow> startup \<Rightarrow> bool" where
  "early_fault e s \<longleftrightarrow> e = PsStep True \<and> psRuns s \<and> (\<exists>n. pc (elThread (psLoop s)) = Running (Work n)) \<and> GContext \<notin> set (made s)"

lemma crash_step:
  assumes "startCrash (startupRun es (mkStartup cMainSetup)) = None"
  shows "startCrash (startupStep e (startupRun es (mkStartup cMainSetup))) =
    (if early_fault e (startupRun es (mkStartup cMainSetup)) then Some (Bug ''Context has not been setup.'') else None)"
proof -
  let ?s = "startupRun es (mkStartup cMainSetup)"
  note part = run_alone [OF assms]
  show ?thesis
  proof (cases e)
    case MainStep
    then show ?thesis
      using startMain_part [OF part] assms alone_ok(1) alone_ok(1) [of "Suc (mainSteps es)"]
      by (simp add: early_fault_def alone_Suc)
  next
    case (PsStep b)
    have "psRuns ?s \<Longrightarrow> GFaultMgr \<in> set (made ?s)" using part alone_ok(2) by (simp add: mainPart_parts)
    then show ?thesis
      using PsStep assms
      by (auto simp: early_fault_def startPsStep_def useGlobal_def getGlobal_made getFaultMgr_def getContext_def Let_def split: pc.split cmd.split)
  qed (use assms in \<open>simp_all add: early_fault_def startFpgaPass_def startTimeoutTick_def\<close>)
qed

lemma prefix_snoc:
  "(\<exists>k < length (xs @ [x]). P ((xs @ [x]) ! k) (take k (xs @ [x]))) \<longleftrightarrow> (\<exists>k < length xs. P (xs ! k) (take k xs)) \<or> P x xs"
proof -
  have "P ((xs @ [x]) ! k) (take k (xs @ [x])) = P (xs ! k) (take k xs)" if "k < length xs" for k
    using that by (simp add: nth_append)
  then show ?thesis by (auto simp: less_Suc_eq)
qed

text \<open>C34: The start can end the program in one way only. In every interleaving of the main thread, the
  loop of FpgaIo and the threads of the power system, an exception leaves a thread exactly if a
  command of the power system reports a new health fault after \<open>Model\<close> made the power system and
  before \<open>Context::setup\<close> has stored the context, which the fault manager looks up; in every other
  interleaving the main thread has, after 21 steps of its own, made all five objects, and the
  power system knows its context.\<close>

theorem startup_completes:
  fixes es :: "startup_step list"
  defines "run \<equiv> (\<lambda>es. startupRun es (mkStartup cMainSetup))"
  shows "(startCrash (run es) \<noteq> None \<longleftrightarrow> (\<exists>k < length es. early_fault (es ! k) (run (take k es)))) \<and>
    (startCrash (run es) \<noteq> None \<longrightarrow> startCrash (run es) = Some (Bug ''Context has not been setup.'')) \<and>
    (startCrash (run es) = None \<and> 21 \<le> mainSteps es \<longrightarrow>
       todo (run es) = [] \<and> set (made (run es)) = {GGlobals, GFaultMgr, GFpgaIo, GMotionEngine, GContext} \<and> psHasContext (run es))"
proof -
  have step: "startCrash (startupStep e (run es)) = (if early_fault e (run es) then Some (Bug ''Context has not been setup.'') else None)"
    if "startCrash (run es) = None" for e es
    using crash_step [OF that [unfolded run_def]] by (simp only: run_def)
  have A: "(startCrash (run es) \<noteq> None \<longleftrightarrow> (\<exists>k < length es. early_fault (es ! k) (run (take k es)))) \<and>
    (startCrash (run es) \<noteq> None \<longrightarrow> startCrash (run es) = Some (Bug ''Context has not been setup.''))"
  proof (induction es rule: rev_induct)
    case Nil
    then show ?case by (simp add: run_def mkStartup_def)
  next
    case (snoc e es)
    have s: "run (es @ [e]) = startupStep e (run es)" by (simp add: run_def)
    have ex: "(\<exists>k < length (es @ [e]). early_fault ((es @ [e]) ! k) (run (take k (es @ [e])))) \<longleftrightarrow>
        (\<exists>k < length es. early_fault (es ! k) (run (take k es))) \<or> early_fault e (run es)"
      by (rule prefix_snoc [where P = "\<lambda>e es. early_fault e (run es)"])
    show ?case
    proof (cases "startCrash (run es) = None")
      case True
      then have "\<not> (\<exists>k < length es. early_fault (es ! k) (run (take k es)))" using snoc by blast
      then show ?thesis unfolding ex unfolding s step [OF True, of e] by simp
    next
      case False
      then have "run (es @ [e]) = run es" by (simp add: s)
      then show ?thesis using snoc False unfolding ex by (simp only:) blast
    qed
  qed
  have "todo (run es) = [] \<and> set (made (run es)) = {GGlobals, GFaultMgr, GFpgaIo, GMotionEngine, GContext} \<and> psHasContext (run es)"
    if "startCrash (run es) = None" "21 \<le> mainSteps es"
  proof -
    have "mainPart (run es) = mainPart (alone 21)"
      using run_alone [OF that(1) [unfolded run_def]] alone_end [of "mainSteps es - 21"] that(2) by (simp add: run_def)
    then show ?thesis by (auto simp: mainPart_parts alone_evaluated)
  qed
  then show ?thesis using A by blast
qed

lemmas startup_eval = mkStartup_def cMainSetup_def setup_defs start_rules startTimeoutTick_def startFpgaPass_def
  startPsStep_def newEventThread_def newThread_def handleCmdsStep_def takeCmd_def queCmdQ_def finishCmd_def
  callCommandFinish_def runAction_def getContext_def numeral_eq_Suc

text \<open>The first command of the timeout thread, run before the context is stored.\<close>

definition early_check :: "bool \<Rightarrow> startup_step list" where
  "early_check healthFault = replicate 12 MainStep @ [TimeoutTick, PsStep False, PsStep False, PsStep healthFault] @ replicate 9 MainStep"

theorem startup_completes_witness:
  "todo (startupRun (early_check False) (mkStartup cMainSetup)) = [] \<and> psHasContext (startupRun (early_check False) (mkStartup cMainSetup))"
proof -
  have "startCrash (startupRun (early_check False) (mkStartup cMainSetup)) = None"
    by (simp add: early_check_def startup_eval)
  moreover have "21 \<le> mainSteps (early_check False)"
    by (simp add: early_check_def mainSteps_def filter_replicate)
  ultimately show ?thesis using startup_completes [of "early_check False"] by simp
qed

lemma early_fault_ends_program:
  "startCrash (startupRun (early_check True) (mkStartup cMainSetup)) = Some (Bug ''Context has not been setup.'')"
  by (simp add: early_check_def startup_eval)

end
