(* ===== verification/Spec2Isabelle.thy ===== *)
theory Spec2Isabelle
  imports SimLoop ComStreamProps TelemetryStream ThreadPoolProps LabViewVI DaqMock
    TelemetryServerProps LoggingProps M2ThreadsProps ComServerLifeProps SyncUtils InstanceCount TelemetryAccess
    Startup
begin

text \<open>
  The control software of the M2 mirror cell (\<open>ts_m2cellcpp\<close>). Paths are under \<open>src/src/LSST\<close>.

  \<^bold>\<open>The program.\<close> Two power subsystems, MOTOR and COMM, are switched through an output port of an FPGA
  and watched through its input port, voltages and currents (\<open>control/PowerSubsystem\<close>,
  \<open>control/PowerSystem\<close>, \<open>control/FpgaIo\<close>; the hardware is simulated by \<open>simulator\<close>). What goes wrong
  is recorded in bit maps by the fault manager (\<open>faultmgr\<close>), which puts the system into safe mode.
  \<open>state/Model\<close> keeps the state of the system and decides which commands it takes. Clients connect
  over TCP (\<open>system/ComServer\<close>, \<open>system/ComConnection\<close>, \<open>system/ComControl\<close>), send json commands
  (\<open>control/NetCommand\<close>) and get an acknowledgement and a response; telemetry leaves on a port of its
  own (\<open>system/Telemetry*\<close>). Event threads with command queues (\<open>util/EventThread\<close>,
  \<open>util/ThreadPool\<close>) run the readings and the timeout checks, and \<open>control/ControlMain\<close> starts and
  ends all of it. Configuration, csv files, the log and the LabView VIs stand beside it.

  \<^bold>\<open>How it is modelled.\<close> An object is a record, an enumeration a datatype, an exception the left side
  of a sum (\<open>cpp_error\<close> in \<open>M2Prelude\<close>; \<open>UndefinedBehaviour\<close> is one of them), a call that never
  returns the value \<open>None\<close>. Bit maps and ports are words of their width, a \<open>double\<close> is a real, a
  \<open>std::map\<close> a list ordered by its keys (\<open>StdMap\<close>) or, when it is filled once, a \<open>Registry\<close>. Time is
  an argument of each operation that reads the clock. Threads are explicit steps that may come in
  any order; a step is a section under a lock, or smaller where no lock is held.

  \<^bold>\<open>The theories\<close>, from the bottom up:
  \<^item> \<open>M2Prelude\<close>, \<open>StdMap\<close>, \<open>Registry\<close>, \<open>JsonLib\<close>: exceptions, decimals, maps, and the json library
    as a record of functions with its laws (\<open>json_laws\<close>), which an instance satisfies.
  \<^item> \<open>ControlDefs\<close>, \<open>FaultStatusBits\<close>, \<open>PortBits\<close>: enumerations with their strings, the fault bits and
    their masks, the two ports (\<open>control/control_defs\<close>, \<open>faultmgr/FaultStatusBits\<close>,
    \<open>control/*PortBits\<close>).
  \<^item> \<open>PowerConfig\<close>, \<open>PowerSubsystem\<close>: constants, breakers and the state machine of one subsystem.
    \<open>PowerSubsystemSafety\<close>: its invariant, its transition relation and when it turns off;
    \<open>PowerSubsystemLive\<close>: that it does turn on; \<open>PowerSubsystemFrame\<close>: which output bits it leaves
    alone; \<open>PowerProps\<close>: the properties.
  \<^item> \<open>FaultMgr\<close>: the fault records. \<open>StateMachine\<close>: the states and transitions of \<open>state\<close>.
  \<^item> \<open>M2System\<close>: all of this in one record \<open>world\<close>, with a function for each operation of \<open>Model\<close>,
    \<open>PowerSystem\<close>, \<open>FpgaIo\<close>, \<open>MotionEngine\<close> and the connection map, and an event for each operation a
    thread may run (\<open>exec\<close>, \<open>reachable\<close>). \<open>M2Safety\<close>: invariants of the outputs on a relation of
    locked sections, of which each event is a sequence; \<open>M2Handlers\<close>: a locale that lifts a
    predicate kept by the primitive actions to all handlers; \<open>M2Frame\<close>: what the events leave of the
    server's part; \<open>M2Props\<close>, \<open>M2FaultProps\<close>: properties of power, states and faults.
  \<^item> \<open>M2Threads\<close>, \<open>M2ThreadsProps\<close>: the loop of \<open>FpgaIo\<close>, the event and timeout threads of
    \<open>PowerSystem\<close> and \<open>MotionEngine\<close>, and the main thread (\<open>_cMain\<close>) as steps around \<open>world\<close>; every
    interleaving is a run of the events, checks are not starved, the main thread returns.
  \<^item> \<open>Startup\<close>: the global objects behind \<open>setup\<close> and \<open>get\<close>, the order in which \<open>_cMain\<close> makes them, and
    what the threads that already run meanwhile may find missing.
  \<^item> \<open>NetCommand\<close>, \<open>ComControl\<close>, \<open>ClientProps\<close>: the six commands, the factory with its sequence
    numbers, the answer to a message and the run of its command.
  \<^item> \<open>ComStream\<close>, \<open>ComStreamProps\<close>: the bytes of a connection on both sides, the welcome message and
    \<open>system/ComClient\<close>. \<open>ComServerLife\<close>, \<open>ComServerLifeProps\<close>: the handlers boost.asio calls, the
    references that keep a connection alive, shutdown and end of the server.
  \<^item> \<open>SimPower\<close>, \<open>SimLoop\<close>: the simulator, alone and in a loop with the program.
  \<^item> \<open>TelemetryItem\<close>, \<open>TelemetryMap\<close>, \<open>TelemetryAccess\<close>, \<open>TelemetryProps\<close>, \<open>TelemetryStream\<close>: the twenty
    items, their json form, their accessors, the map, what readers make of a stream of bytes.
    \<open>TelemetryServer\<close>, \<open>TelemetryServerProps\<close>: accept loop and client threads of
    \<open>system/TelemetryCom\<close> with the descriptors that the system gives and takes.
  \<^item> \<open>EventThread\<close>, \<open>ThreadPool\<close>, \<open>ThreadPoolInv\<close>, \<open>ThreadPoolProps\<close>: queue, threads, pool and joiner.
  \<^item> \<open>SyncUtils\<close> (\<open>util/VMutex\<close>, \<open>Tracker\<close>), \<open>InstanceCount\<close>, \<open>Logging\<close>, \<open>LoggingProps\<close>
    (\<open>util/Log\<close> and \<open>main\<close>), \<open>ConfigFile\<close>, \<open>CsvFile\<close>, \<open>NamedValue\<close>, \<open>LabViewVI\<close>, \<open>DaqMock\<close>: the rest of
    \<open>util\<close>, the configuration, the VIs, and the old FPGA access with its mocks and ILCs.

  \<^bold>\<open>Parameters.\<close> What is not in the repository is an argument: the json, yaml and spdlog libraries,
  \<open>strtod\<close>, the hardware behind the ports, how many bytes a socket takes at a time, which handler
  boost.asio calls next, and what the system calls on sockets answer. Laws that a proof uses are a
  hypothesis with a name (\<open>json_laws\<close>, \<open>spd_laws\<close>), and a witness shows an instance.

  \<^bold>\<open>Bounds.\<close> The bounds in liveness statements count steps: an event thread needs three steps for
  each command that is queued before the one in question and four more (test, take, run, and the
  command it is in); an io thread one to return; a client thread of the telemetry server
  \<open>thread_work\<close> after a shutdown. Nothing is assumed about the order of the other steps.

  \<^bold>\<open>Left out of the models.\<close>
  \<^item> Rounding and NaN of \<open>double\<close>. The simulator makes one pass for each exchange with the ports.
  \<^item> Log messages, except where the log itself is modelled; the file, line and thread in front of
    a message; functions that only print (\<open>dump\<close>, \<open>faultMsg\<close>).
  \<^item> In \<open>M2System\<close> and above it all global objects exist: \<open>mkWorld\<close> is the state after \<open>_cMain\<close> has made
    them, and \<open>Startup\<close> what happens before. The loop of \<open>FpgaIo\<close> runs before the power system is
    registered; \<open>mkThreads\<close> begins with it unregistered, which allows more runs than there are.
  \<^item> The welcome message is made from one snapshot of the state. \<open>written\<close> of \<open>ClientProps\<close> and the
    broadcasts of \<open>world\<close> are two lists; their order to each other is not kept. A connection whose
    stream ended is a closed one. A read on a descriptor that was shut down returns.
  \<^item> A handler of boost.asio is one step, except for the accept handler, which is three.
  \<^item> Of the pool, end messages come from \<open>_resize\<close> only; \<open>waitForResize\<close> with a limit and the other
    waits with a time limit appear as a choice of the step (\<open>mainStep\<close>) or not at all.
  \<^item> \<open>control/CellCtrlComm\<close> and \<open>control/ScriptEngine\<close> hold comments only; \<open>system/version\<close> is
    generated.

  Each property stands after a text that states it, under its number C1 to C40; the properties
  with hypotheses have a witness on a concrete input.
\<close>

end
